(* ===== verification/Prelude.thy ===== *)
theory Prelude
  imports Main
begin

text \<open>
  Shared vocabulary of the development.

  \<^item> JavaScript strings: a string is the list of its UTF-16 code units, each a natural
    number, and \<open>js ''...''\<close> embeds an ASCII literal. The functions of
    \<^verbatim>\<open>String.prototype\<close> that the user interface calls (\<^verbatim>\<open>trim\<close>, \<^verbatim>\<open>startsWith\<close>, \<^verbatim>\<open>includes\<close>,
    \<^verbatim>\<open>split\<close>, \<^verbatim>\<open>slice\<close>, \<^verbatim>\<open>join\<close>) are defined here on those lists.
  \<^item> Generic list facts that several components use.
  \<^item> The interfaces that several components provide: a log that keeps its most recent
    entries, and a deadline gate that only ever extends its deadline.
\<close>

named_theorems js_eval
  \<open>equations that evaluate JavaScript string operations on literals\<close>

section \<open>JavaScript strings\<close>

type_synonym jsstr = "nat list"
type_synonym session_id = jsstr

definition js :: "string \<Rightarrow> jsstr" where
  [js_eval]: "js s = map of_char s"

text \<open>White space and line terminators of ECMAScript: what \<^verbatim>\<open>trim\<close> removes and \<^verbatim>\<open>\s\<close> matches.\<close>

definition is_ws :: "nat \<Rightarrow> bool" where
  [js_eval]: "is_ws c \<longleftrightarrow> (9 \<le> c \<and> c \<le> 13) \<or> c = 32 \<or> c = 160 \<or> c = 5760
     \<or> (8192 \<le> c \<and> c \<le> 8202) \<or> c = 8232 \<or> c = 8233 \<or> c = 8239 \<or> c = 8287 \<or> c = 12288 \<or> c = 65279"

definition trimStart :: "jsstr \<Rightarrow> jsstr" where
  [js_eval]: "trimStart s = dropWhile is_ws s"

definition trimEnd :: "jsstr \<Rightarrow> jsstr" where
  [js_eval]: "trimEnd s = rev (dropWhile is_ws (rev s))"

definition trim :: "jsstr \<Rightarrow> jsstr" where
  [js_eval]: "trim s = trimEnd (trimStart s)"

definition startsWith :: "jsstr \<Rightarrow> jsstr \<Rightarrow> bool" where
  [js_eval]: "startsWith s p \<longleftrightarrow> take (length p) s = p"

definition endsWith :: "jsstr \<Rightarrow> jsstr \<Rightarrow> bool" where
  [js_eval]: "endsWith s p \<longleftrightarrow> startsWith (rev s) (rev p)"

fun includes_str :: "jsstr \<Rightarrow> jsstr \<Rightarrow> bool" where
  "includes_str [] p = (p = [])"
| "includes_str (c # s) p = (startsWith (c # s) p \<or> includes_str s p)"

text \<open>\<^verbatim>\<open>split\<close> on a one-character separator: never empty, one more piece than separators.\<close>

fun split_on :: "nat \<Rightarrow> jsstr \<Rightarrow> jsstr list" where
  "split_on d [] = [[]]"
| "split_on d (c # s) =
     (if c = d then [] # split_on d s
      else case split_on d s of [] \<Rightarrow> [[c]] | p # ps \<Rightarrow> (c # p) # ps)"

fun join :: "jsstr \<Rightarrow> jsstr list \<Rightarrow> jsstr" where
  "join sep [] = []"
| "join sep [x] = x"
| "join sep (x # y # xs) = x @ sep @ join sep (y # xs)"

text \<open>\<^verbatim>\<open>s.slice(-n)\<close> for a positive \<^verbatim>\<open>n\<close>: the last \<open>n\<close> units.\<close>

definition slice_last :: "nat \<Rightarrow> 'a list \<Rightarrow> 'a list" where
  "slice_last n s = drop (length s - n) s"

text \<open>Decimal rendering of a non-negative integer, as \<^verbatim>\<open>String(n)\<close> gives it.\<close>

fun show_nat :: "nat \<Rightarrow> jsstr" where
  "show_nat n = (if n < 10 then [48 + n] else show_nat (n div 10) @ [48 + n mod 10])"

declare show_nat.simps [simp del]

subsection \<open>Facts about strings\<close>

lemma js_Nil [simp]: "js [] = []"
  by (simp add: js_def)

lemma js_append: "js (s @ t) = js s @ js t"
  by (simp add: js_def)

lemma split_on_not_Nil [simp]: "split_on d s \<noteq> []"
  by (induction s) (auto split: list.splits)

lemma join_split_on: "join [d] (split_on d s) = s"
proof (induction s)
  case (Cons c s)
  obtain p ps where ps: "split_on d s = p # ps"
    by (cases "split_on d s") auto
  with Cons show ?case
    by (cases ps) auto
qed simp

lemma split_on_no_sep: "p \<in> set (split_on d s) \<Longrightarrow> d \<notin> set p"
  by (induction s arbitrary: p) (auto split: if_splits list.splits)

lemma startsWith_iff: "startsWith s p \<longleftrightarrow> (\<exists>t. s = p @ t)"
  by (auto simp: startsWith_def) (metis append_take_drop_id)

lemma startsWith_append [simp]: "startsWith (p @ t) p"
  by (auto simp: startsWith_iff)

lemma startsWith_refl [simp]: "startsWith s s"
  by (simp add: startsWith_def)

lemma startsWith_Nil [simp]: "startsWith s []"
  by (simp add: startsWith_def)

lemma includes_single: "includes_str s [c] \<longleftrightarrow> c \<in> set s"
  by (induction s) (auto simp: startsWith_def)

lemma set_trimStart: "set (trimStart s) \<subseteq> set s"
  by (auto simp: trimStart_def dest: set_dropWhileD)

lemma set_trimEnd: "set (trimEnd s) \<subseteq> set s"
  by (auto simp: trimEnd_def dest: set_dropWhileD)

lemma set_trim: "set (trim s) \<subseteq> set s"
  using set_trimStart set_trimEnd unfolding trim_def by blast

lemma trimStart_idem [simp]: "trimStart (trimStart s) = trimStart s"
  by (simp add: trimStart_def)

lemma trimEnd_idem [simp]: "trimEnd (trimEnd s) = trimEnd s"
  by (simp add: trimEnd_def)

lemma trimEnd_Nil [simp]: "trimEnd [] = []" and trimStart_Nil [simp]: "trimStart [] = []"
  and trim_Nil [simp]: "trim [] = []"
  by (simp_all add: trimEnd_def trimStart_def trim_def)

lemma trimEnd_append_non_ws: "\<not> is_ws c \<Longrightarrow> trimEnd (s @ [c]) = s @ [c]"
  by (simp add: trimEnd_def)

lemma trimEnd_prefix: "\<exists>w. s = trimEnd s @ w \<and> (\<forall>c \<in> set w. is_ws c)"
proof -
  have "rev s = takeWhile is_ws (rev s) @ dropWhile is_ws (rev s)" by simp
  then have "s = trimEnd s @ rev (takeWhile is_ws (rev s))"
    unfolding trimEnd_def by (metis rev_append rev_rev_ident)
  moreover have "\<forall>c \<in> set (rev (takeWhile is_ws (rev s))). is_ws c"
    by (auto dest: set_takeWhileD)
  ultimately show ?thesis by blast
qed

lemma trimStart_trimEnd_hd: "trimEnd (trimStart s) \<noteq> [] \<Longrightarrow> \<not> is_ws (hd (trimEnd (trimStart s)))"
proof -
  assume ne: "trimEnd (trimStart s) \<noteq> []"
  obtain w where w: "trimStart s = trimEnd (trimStart s) @ w"
    using trimEnd_prefix by blast
  then have "hd (trimStart s) = hd (trimEnd (trimStart s))"
    using ne by (metis hd_append2)
  moreover have "trimStart s \<noteq> []" using ne by auto
  ultimately show ?thesis
    by (metis hd_dropWhile trimStart_def)
qed

lemma trim_idem [simp]: "trim (trim s) = trim s"
proof (cases "trim s = []")
  case False
  then have "\<not> is_ws (hd (trim s))"
    using trimStart_trimEnd_hd by (simp add: trim_def)
  with False have "trimStart (trim s) = trim s"
    by (cases "trim s") (auto simp: trimStart_def)
  then show ?thesis by (simp add: trim_def [of "trim s"]) (simp add: trim_def)
qed simp

lemma length_slice_last [simp]: "length (slice_last n s) = min n (length s)"
  by (auto simp: slice_last_def)

lemma slice_last_short [simp]: "length s \<le> n \<Longrightarrow> slice_last n s = s"
  by (simp add: slice_last_def)

lemma slice_last_append: "slice_last n (slice_last n xs @ ys) = slice_last n (xs @ ys)"
  by (cases "length xs \<le> n") (auto simp: slice_last_def drop_append intro!: arg_cong2 [of _ _ _ _ drop])

lemma slice_last_suffix: "\<exists>pre. s = pre @ slice_last n s"
  unfolding slice_last_def by (metis append_take_drop_id)

lemma show_nat_digits: "c \<in> set (show_nat n) \<Longrightarrow> 48 \<le> c \<and> c \<le> 57"
proof (induction n arbitrary: c rule: show_nat.induct)
  case (1 n)
  then show ?case by (subst (asm) (2) show_nat.simps) (auto split: if_splits)
qed

lemma show_nat_neq_Nil [simp]: "show_nat n \<noteq> []"
  by (subst show_nat.simps) simp

text \<open>Reading a decimal rendering back: \<open>show_nat\<close> is injective, so identifiers made from a counter differ.\<close>

definition read_nat :: "jsstr \<Rightarrow> nat" where
  "read_nat ds = foldl (\<lambda>n d. 10 * n + (d - 48)) 0 ds"

lemma read_show_nat: "read_nat (show_nat n) = n"
proof (induction n rule: show_nat.induct)
  case (1 n)
  then show ?case by (subst show_nat.simps) (auto simp: read_nat_def)
qed

lemma show_nat_inject [simp]: "show_nat m = show_nat n \<longleftrightarrow> m = n"
  by (metis read_show_nat)

section \<open>Absent values\<close>

text \<open>The operator \<^verbatim>\<open>a ?? b\<close>.\<close>

definition or_else :: "'a option \<Rightarrow> 'a option \<Rightarrow> 'a option" where
  "or_else a b = (case a of None \<Rightarrow> b | Some _ \<Rightarrow> a)"

section \<open>Rows identified by a key\<close>

text \<open>
  The recurring idioms on arrays of rows: \<^verbatim>\<open>find\<close> the first row with a key, \<^verbatim>\<open>map\<close> an update
  over the rows with a key, \<^verbatim>\<open>filter\<close> the rows with a key away.
\<close>

definition find_row :: "('a \<Rightarrow> 'k) \<Rightarrow> 'k \<Rightarrow> 'a list \<Rightarrow> 'a option" where
  "find_row key k rows = find (\<lambda>r. key r = k) rows"

definition drop_rows :: "('a \<Rightarrow> 'k) \<Rightarrow> 'k \<Rightarrow> 'a list \<Rightarrow> 'a list" where
  "drop_rows key k rows = filter (\<lambda>r. key r \<noteq> k) rows"

definition map_rows :: "('a \<Rightarrow> 'k) \<Rightarrow> 'k \<Rightarrow> ('a \<Rightarrow> 'a) \<Rightarrow> 'a list \<Rightarrow> 'a list" where
  "map_rows key k f rows = map (\<lambda>r. if key r = k then f r else r) rows"

text \<open>Mutation of the object that \<^verbatim>\<open>find\<close> returned: only the first row with the key changes.\<close>

fun update_first :: "('a \<Rightarrow> bool) \<Rightarrow> ('a \<Rightarrow> 'a) \<Rightarrow> 'a list \<Rightarrow> 'a list" where
  "update_first p f [] = []"
| "update_first p f (x # xs) = (if p x then f x # xs else x # update_first p f xs)"

lemma find_row_Some_key: "find_row key k rows = Some r \<Longrightarrow> key r = k \<and> r \<in> set rows"
  by (auto simp: find_row_def find_Some_iff)

lemma find_row_None: "find_row key k rows = None \<longleftrightarrow> k \<notin> key ` set rows"
  by (auto simp: find_row_def find_None_iff)

lemma find_drop_rows [simp]:
  "find_row key k (drop_rows key k' rows) = (if k = k' then None else find_row key k rows)"
  by (induction rows) (auto simp: find_row_def drop_rows_def)

lemma set_drop_rows [simp]: "set (drop_rows key k rows) = {r \<in> set rows. key r \<noteq> k}"
  by (auto simp: drop_rows_def)

lemma keys_update_first [simp]:
  "(\<And>x. key (f x) = key x) \<Longrightarrow> map key (update_first p f xs) = map key xs"
  by (induction xs) auto

lemma length_update_first [simp]: "length (update_first p f xs) = length xs"
  by (induction xs) auto

lemma update_first_none: "\<forall>x \<in> set xs. \<not> p x \<Longrightarrow> update_first p f xs = xs"
  by (induction xs) auto

lemma find_update_first_same:
  "(\<And>x. p (f x) = p x) \<Longrightarrow> find p (update_first p f xs) = map_option f (find p xs)"
  by (induction xs) auto

lemma find_update_first_other:
  "(\<And>x. p x \<Longrightarrow> \<not> q x \<and> \<not> q (f x)) \<Longrightarrow> find q (update_first p f xs) = find q xs"
  by (induction xs) auto

lemma set_update_first_subset: "set (update_first p f xs) \<subseteq> set xs \<union> f ` {x \<in> set xs. p x}"
  by (induction xs) auto

lemma map_rows_keys [simp]: "(\<And>x. key (f x) = key x) \<Longrightarrow> map key (map_rows key k f rows) = map key rows"
  by (induction rows) (auto simp: map_rows_def)

section \<open>Interface: a log that keeps its most recent entries\<close>

text \<open>
  Several components append to an array and shift from its front until a cap is met. The
  contract is stated once: one push gives the last \<open>cap\<close> entries of the old log followed
  by the new one. The consequences (length bound, what a run of pushes leaves) follow.
\<close>

locale bounded_log =
  fixes push :: "'a \<Rightarrow> 'a list \<Rightarrow> 'a list"
    and cap :: nat
  assumes push_law: "length xs \<le> cap \<Longrightarrow> push x xs = slice_last cap (xs @ [x])"
begin

lemma push_bounded: "length xs \<le> cap \<Longrightarrow> length (push x xs) \<le> cap"
  by (simp add: push_law)

lemma push_newest: "0 < cap \<Longrightarrow> length xs \<le> cap \<Longrightarrow> last (push x xs) = x \<and> push x xs \<noteq> []"
  by (auto simp: push_law slice_last_def last_drop)

lemma run_bounded: "length xs \<le> cap \<Longrightarrow> length (fold push ys xs) \<le> cap"
  by (induction ys arbitrary: xs) (auto simp: push_bounded)

lemma run_keeps_last: "length xs \<le> cap \<Longrightarrow> fold push ys xs = slice_last cap (xs @ ys)"
proof (induction ys arbitrary: xs)
  case (Cons y ys)
  have "fold push (y # ys) xs = slice_last cap (push y xs @ ys)"
    using Cons by (simp add: push_bounded)
  then show ?case
    using Cons.prems by (simp add: push_law slice_last_append)
qed simp

end

text \<open>\<^verbatim>\<open>xs.push(x); while (xs.length > cap) xs.shift();\<close>\<close>

fun shift_to :: "nat \<Rightarrow> 'a list \<Rightarrow> 'a list" where
  "shift_to cap [] = []"
| "shift_to cap (x # xs) = (if cap < length (x # xs) then shift_to cap xs else x # xs)"

definition push_shift :: "nat \<Rightarrow> 'a \<Rightarrow> 'a list \<Rightarrow> 'a list" where
  "push_shift cap x xs = shift_to cap (xs @ [x])"

lemma shift_to_slice_last: "shift_to cap xs = slice_last cap xs"
  by (induction xs) (auto simp: slice_last_def Suc_diff_le)

interpretation push_shift: bounded_log "push_shift cap" cap
  by unfold_locales (simp add: push_shift_def shift_to_slice_last)

section \<open>Interface: a deadline gate\<close>

text \<open>
  Input gates are timestamps: armed for a duration they stay closed until the deadline,
  and arming again never shortens a deadline already set.
\<close>

locale deadline_gate =
  fixes arm :: "int \<Rightarrow> int \<Rightarrow> 'g \<Rightarrow> 'g"
    and closed :: "int \<Rightarrow> 'g \<Rightarrow> bool"
  assumes arm_closes: "now \<le> t \<Longrightarrow> t < now + ms \<Longrightarrow> closed t (arm now ms g)"
    and arm_keeps: "closed t g \<Longrightarrow> closed t (arm now ms g)"
    and arm_exact: "closed t (arm now ms g) \<Longrightarrow> closed t g \<or> t < now + ms"
begin

definition arms :: "(int \<times> int) list \<Rightarrow> 'g \<Rightarrow> 'g" where
  "arms evs g = fold (\<lambda>(now, ms) g. arm now ms g) evs g"

lemma arms_keep: "closed t g \<Longrightarrow> closed t (arms evs g)"
  unfolding arms_def by (induction evs arbitrary: g) (auto simp: arm_keeps)

lemma arms_close:
  "(now, ms) \<in> set evs \<Longrightarrow> now \<le> t \<Longrightarrow> t < now + ms \<Longrightarrow> closed t (arms evs g)"
proof (induction evs arbitrary: g)
  case (Cons e evs)
  show ?case
  proof (cases "e = (now, ms)")
    case True
    then have "closed t (arms evs (arm now ms g))"
      using Cons.prems by (simp add: arms_keep arm_closes)
    with True show ?thesis by (simp add: arms_def)
  next
    case False
    with Cons have "closed t (arms evs (case e of (now, ms) \<Rightarrow> arm now ms g))" by simp
    then show ?thesis by (simp add: arms_def split: prod.splits)
  qed
qed simp

lemma arms_reopen:
  "\<not> closed t g \<Longrightarrow> \<forall>(now, ms) \<in> set evs. now + ms \<le> t \<Longrightarrow> \<not> closed t (arms evs g)"
proof (induction evs arbitrary: g)
  case (Cons e evs)
  obtain now ms where e: "e = (now, ms)" by (cases e)
  with Cons.prems have "\<not> closed t (arm now ms g)"
    using arm_exact by fastforce
  with Cons have "\<not> closed t (arms evs (arm now ms g))" by auto
  with e show ?case by (simp add: arms_def)
qed (simp add: arms_def)

end

text \<open>The gate every component uses: \<^verbatim>\<open>until = Math.max(until, Date.now() + ms)\<close>, closed while \<^verbatim>\<open>Date.now() < until\<close>.\<close>

definition arm_until :: "int \<Rightarrow> int \<Rightarrow> int \<Rightarrow> int" where
  "arm_until now ms until = max until (now + ms)"

definition before :: "int \<Rightarrow> int \<Rightarrow> bool" where
  "before now until \<longleftrightarrow> now < until"

interpretation until_gate: deadline_gate arm_until before
  by unfold_locales (auto simp: arm_until_def before_def)

end
