(* ===== verification/SyncFilter.thy ===== *)
theory SyncFilter
  imports Prelude
begin

text \<open>
  The PTY byte filter of \<^verbatim>\<open>terminal/syncFilter.ts\<close>: \<^verbatim>\<open>SyncClearFilter\<close> follows the escape
  sequences of the output stream across chunk boundaries and, inside a DEC 2026
  synchronized block, drops ED3 and ed_rewritten ED2. Bytes are natural numbers.
\<close>

section \<open>The filter\<close>

datatype fstate = Ground | Esc | Csi

record sync_filter =
  state :: fstate
  csi :: "nat list"
  inSync :: bool

definition fresh_filter :: sync_filter where
  "fresh_filter = \<lparr>state = Ground, csi = [], inSync = False\<rparr>"

definition emitCsi :: "jsstr \<Rightarrow> nat \<Rightarrow> nat list" where
  "emitCsi params final = [27, 91] @ params @ [final]"

definition containsEsc :: "nat list \<Rightarrow> bool" where
  "containsEsc data \<longleftrightarrow> (\<exists>b \<in> set data. b = 27)"

text \<open>A completed control sequence: the new sync flag and the bytes emitted for it.\<close>

definition sets_2026 :: "jsstr \<Rightarrow> bool" where
  "sets_2026 params \<longleftrightarrow> js ''2026'' \<in> set (map trim (split_on 59 (drop 1 params)))"

definition ed_param :: "jsstr \<Rightarrow> jsstr" where
  "ed_param params = (if params = [] then js ''0'' else hd (split_on 59 params))"

definition ed2_rewrite :: "nat list" where
  "ed2_rewrite = [27, 55] @ emitCsi (js ''1;1'') 72 @ emitCsi [] 74 @ [27, 56]"

definition handleCsi :: "bool \<Rightarrow> jsstr \<Rightarrow> nat \<Rightarrow> bool \<times> nat list" where
  "handleCsi sync params final =
     (if startsWith params (js ''?'') \<and> (final = 104 \<or> final = 108) then
        (if sets_2026 params then final = 104 else sync, emitCsi params final)
      else if final = 74 \<and> \<not> includes_str params (js ''?'') \<and> sync \<and> ed_param params = js ''3'' then
        (sync, [])
      else if final = 74 \<and> \<not> includes_str params (js ''?'') \<and> sync \<and> ed_param params = js ''2'' then
        (sync, ed2_rewrite)
      else (sync, emitCsi params final))"

text \<open>One iteration of the loop of \<^verbatim>\<open>push\<close>.\<close>

definition step :: "sync_filter \<Rightarrow> nat \<Rightarrow> sync_filter \<times> nat list" where
  "step f b =
     (case state f of
        Ground \<Rightarrow> if b = 27 then (f\<lparr>state := Esc\<rparr>, []) else (f, [b])
      | Esc \<Rightarrow>
          if b = 91 then (f\<lparr>state := Csi, csi := []\<rparr>, [])
          else (f\<lparr>state := Ground\<rparr>, [27, b])
      | Csi \<Rightarrow>
          if 64 \<le> b \<and> b \<le> 126 then
            (let (sync, out) = handleCsi (inSync f) (csi f) b
             in (\<lparr>state = Ground, csi = [], inSync = sync\<rparr>, out))
          else if 32 \<le> b \<and> b \<le> 63 then
            (let c = csi f @ [b]
             in if 64 < length c then (f\<lparr>state := Ground, csi := []\<rparr>, [27, 91] @ c @ [b])
                else (f\<lparr>csi := c\<rparr>, []))
          else (f\<lparr>state := Ground, csi := []\<rparr>, [27, 91] @ csi f @ [b]))"

fun push_loop :: "sync_filter \<Rightarrow> nat list \<Rightarrow> sync_filter \<times> nat list" where
  "push_loop f [] = (f, [])"
| "push_loop f (b # bs) =
     (let (f', o1) = step f b; (f'', o2) = push_loop f' bs in (f'', o1 @ o2))"

definition push :: "sync_filter \<Rightarrow> nat list \<Rightarrow> sync_filter \<times> nat list" where
  "push f input =
     (if \<not> inSync f \<and> state f = Ground \<and> \<not> containsEsc input then (f, input)
      else push_loop f input)"

definition reset :: "sync_filter \<Rightarrow> sync_filter" where
  "reset f = \<lparr>state = Ground, csi = [], inSync = False\<rparr>"

text \<open>Feeding a sequence of chunks, as the terminal write queue does.\<close>

fun push_chunks :: "sync_filter \<Rightarrow> nat list list \<Rightarrow> sync_filter \<times> nat list" where
  "push_chunks f [] = (f, [])"
| "push_chunks f (c # cs) =
     (let (f', o1) = push f c; (f'', o2) = push_chunks f' cs in (f'', o1 @ o2))"

section \<open>Interface: a byte transducer that is fed in chunks\<close>

text \<open>
  A chunk operation that agrees with a byte-wise loop does not see chunk boundaries: what
  comes out depends on the concatenation of the chunks only.
\<close>

locale chunked =
  fixes byte :: "'f \<Rightarrow> 'b \<Rightarrow> 'f \<times> 'c list"
    and chunk :: "'f \<Rightarrow> 'b list \<Rightarrow> 'f \<times> 'c list"
  assumes chunk_Nil: "chunk f [] = (f, [])"
    and chunk_Cons: "chunk f (b # bs) =
          (let (f', o1) = byte f b; (f'', o2) = chunk f' bs in (f'', o1 @ o2))"
begin

fun chunks :: "'f \<Rightarrow> 'b list list \<Rightarrow> 'f \<times> 'c list" where
  "chunks f [] = (f, [])"
| "chunks f (c # cs) =
     (let (f', o1) = chunk f c; (f'', o2) = chunks f' cs in (f'', o1 @ o2))"

lemma chunk_append:
  "chunk f (xs @ ys) = (let (f', o1) = chunk f xs; (f'', o2) = chunk f' ys in (f'', o1 @ o2))"
  by (induction xs arbitrary: f) (auto simp: chunk_Nil chunk_Cons split: prod.splits)

lemma chunks_concat: "chunks f cs = chunk f (concat cs)"
  by (induction cs arbitrary: f) (auto simp: chunk_Nil chunk_append split: prod.splits)

end

lemma push_loop_Cons:
  "push_loop f (b # bs) =
     (fst (push_loop (fst (step f b)) bs), snd (step f b) @ snd (push_loop (fst (step f b)) bs))"
  by (simp split: prod.splits)

lemma push_loop_plain:
  "state f = Ground \<Longrightarrow> \<not> containsEsc bs \<Longrightarrow> push_loop f bs = (f, bs)"
  by (induction bs) (auto simp: containsEsc_def step_def)

text \<open>The early return of \<^verbatim>\<open>push\<close> is only a fast path.\<close>

lemma push_eq_loop: "push f bs = push_loop f bs"
  by (simp add: push_def push_loop_plain)

interpretation filter_chunks: chunked step push
  by unfold_locales (simp_all add: push_eq_loop)

lemma push_chunks_eq: "push_chunks f cs = filter_chunks.chunks f cs"
  by (induction cs arbitrary: f) auto

section \<open>Invariant: what the filter holds back\<close>

text \<open>Bytes read and not yet emitted.\<close>

definition held :: "sync_filter \<Rightarrow> nat list" where
  "held f = (case state f of Ground \<Rightarrow> [] | Esc \<Rightarrow> [27] | Csi \<Rightarrow> [27, 91] @ csi f)"

definition filter_ok :: "sync_filter \<Rightarrow> bool" where
  "filter_ok f \<longleftrightarrow> length (csi f) \<le> 64 \<and> (\<forall>b \<in> set (csi f). 32 \<le> b \<and> b \<le> 63)"

lemma fresh_filter_ok: "filter_ok fresh_filter"
  by (simp add: filter_ok_def fresh_filter_def)

lemma step_ok: "filter_ok f \<Longrightarrow> filter_ok (fst (step f b))"
  by (auto simp: filter_ok_def step_def Let_def split: fstate.splits prod.splits)

lemma push_loop_ok: "filter_ok f \<Longrightarrow> filter_ok (fst (push_loop f bs))"
proof (induction bs arbitrary: f)
  case (Cons b bs)
  then show ?case using step_ok [OF Cons.prems, of b]
    by (simp only: push_loop_Cons fst_conv)
qed simp

lemma held_bounded: "filter_ok f \<Longrightarrow> length (held f) \<le> 66"
  by (auto simp: held_def filter_ok_def split: fstate.splits)

section \<open>Faithful outside a synchronized block\<close>

text \<open>
  A byte is passed on literally when it does not complete an ED inside a synchronized block
  and does not overflow the parameter buffer.
\<close>

definition overlong :: "sync_filter \<Rightarrow> nat \<Rightarrow> bool" where
  "overlong f b \<longleftrightarrow> state f = Csi \<and> 32 \<le> b \<and> b \<le> 63 \<and> 64 \<le> length (csi f)"

definition ed_rewritten :: "sync_filter \<Rightarrow> nat \<Rightarrow> bool" where
  "ed_rewritten f b \<longleftrightarrow> state f = Csi \<and> b = 74 \<and> inSync f
     \<and> \<not> includes_str (csi f) (js ''?'') \<and> ed_param (csi f) \<in> {js ''2'', js ''3''}"

lemma step_literal:
  "\<not> overlong f b \<Longrightarrow> \<not> ed_rewritten f b \<Longrightarrow>
     snd (step f b) @ held (fst (step f b)) = held f @ [b]"
  by (auto simp: step_def held_def overlong_def ed_rewritten_def handleCsi_def emitCsi_def Let_def
      split: fstate.splits prod.splits)

fun literal_run :: "sync_filter \<Rightarrow> nat list \<Rightarrow> bool" where
  "literal_run f [] = True"
| "literal_run f (b # bs) =
     (\<not> overlong f b \<and> \<not> ed_rewritten f b \<and> literal_run (fst (step f b)) bs)"

lemma push_loop_literal:
  "literal_run f bs \<Longrightarrow> snd (push_loop f bs) @ held (fst (push_loop f bs)) = held f @ bs"
proof (induction bs arbitrary: f)
  case (Cons b bs)
  let ?f = "fst (step f b)"
  have "snd (step f b) @ held ?f = held f @ [b]" using Cons.prems step_literal [of f b] by simp
  moreover have "snd (push_loop ?f bs) @ held (fst (push_loop ?f bs)) = held ?f @ bs"
    using Cons by simp
  ultimately show ?case
    unfolding push_loop_Cons fst_conv snd_conv by (metis append.assoc append_Cons append_Nil)
qed simp

section \<open>The output needs no further filtering\<close>

text \<open>
  Reading a byte stream with the filter's own parser: does some completed ED2 or ED3 occur
  inside a synchronized block?
\<close>

fun erases_in_sync :: "sync_filter \<Rightarrow> nat list \<Rightarrow> bool" where
  "erases_in_sync f [] = False"
| "erases_in_sync f (b # bs) = (ed_rewritten f b \<or> erases_in_sync (fst (step f b)) bs)"

fun no_overlong :: "sync_filter \<Rightarrow> nat list \<Rightarrow> bool" where
  "no_overlong f [] = True"
| "no_overlong f (b # bs) = (\<not> overlong f b \<and> no_overlong (fst (step f b)) bs)"

lemma erases_append:
  "erases_in_sync f (xs @ ys) \<longleftrightarrow> erases_in_sync f xs \<or> erases_in_sync (fst (push_loop f xs)) ys"
  by (induction xs arbitrary: f) (auto simp: Let_def split: prod.splits)

lemma push_loop_append:
  "push_loop f (xs @ ys) =
     (fst (push_loop (fst (push_loop f xs)) ys),
      snd (push_loop f xs) @ snd (push_loop (fst (push_loop f xs)) ys))"
  using filter_chunks.chunk_append [of f xs ys] by (simp add: push_eq_loop split: prod.splits)

text \<open>Parameter bytes are collected; a whole control sequence is handled at its final byte.\<close>

lemma push_params:
  "state g = Csi \<Longrightarrow> \<forall>b \<in> set ps. 32 \<le> b \<and> b \<le> 63 \<Longrightarrow> length (csi g) + length ps \<le> 64 \<Longrightarrow>
     push_loop g ps = (g\<lparr>csi := csi g @ ps\<rparr>, []) \<and> \<not> erases_in_sync g ps"
proof (induction ps arbitrary: g)
  case (Cons p ps)
  have s: "step g p = (g\<lparr>csi := csi g @ [p]\<rparr>, [])"
    using Cons.prems by (simp add: step_def)
  have "\<not> ed_rewritten g p" using Cons.prems by (auto simp: ed_rewritten_def)
  moreover have "push_loop (g\<lparr>csi := csi g @ [p]\<rparr>) ps = (g\<lparr>csi := csi g @ p # ps\<rparr>, [])
      \<and> \<not> erases_in_sync (g\<lparr>csi := csi g @ [p]\<rparr>) ps"
    using Cons.IH [of "g\<lparr>csi := csi g @ [p]\<rparr>"] Cons.prems by auto
  ultimately show ?case using s by simp
qed simp

definition params_ok :: "jsstr \<Rightarrow> bool" where
  "params_ok ps \<longleftrightarrow> length ps \<le> 64 \<and> (\<forall>b \<in> set ps. 32 \<le> b \<and> b \<le> 63)"

lemma push_intro_params:
  "state g = Ground \<Longrightarrow> params_ok ps \<Longrightarrow>
     push_loop g ([27, 91] @ ps) = (g\<lparr>state := Csi, csi := ps\<rparr>, [])
     \<and> \<not> erases_in_sync g ([27, 91] @ ps)"
  using push_params [of "g\<lparr>state := Csi, csi := []\<rparr>" ps]
  by (auto simp: params_ok_def step_def ed_rewritten_def)

lemma push_sequence:
  assumes "state g = Ground" and "params_ok ps"
  shows "push_loop g ([27, 91] @ ps @ [b]) = step (g\<lparr>state := Csi, csi := ps\<rparr>) b"
    and "erases_in_sync g ([27, 91] @ ps @ [b]) \<longleftrightarrow> ed_rewritten (g\<lparr>state := Csi, csi := ps\<rparr>) b"
proof -
  note p = push_intro_params [OF assms]
  have "push_loop g (([27, 91] @ ps) @ [b]) = step (g\<lparr>state := Csi, csi := ps\<rparr>) b"
    unfolding push_loop_append [of g "[27, 91] @ ps" "[b]"] p [THEN conjunct1]
    by (simp split: prod.splits)
  then show "push_loop g ([27, 91] @ ps @ [b]) = step (g\<lparr>state := Csi, csi := ps\<rparr>) b" by simp
  have "erases_in_sync g (([27, 91] @ ps) @ [b]) \<longleftrightarrow> ed_rewritten (g\<lparr>state := Csi, csi := ps\<rparr>) b"
    unfolding erases_append [of g "[27, 91] @ ps" "[b]"] p [THEN conjunct1] using p by simp
  then show "erases_in_sync g ([27, 91] @ ps @ [b]) \<longleftrightarrow> ed_rewritten (g\<lparr>state := Csi, csi := ps\<rparr>) b"
    by simp
qed

lemma handleCsi_cases:
  "handleCsi sync ps fin = (sync', out) \<Longrightarrow>
     out = emitCsi ps fin
       \<and> \<not> (fin = 74 \<and> sync \<and> \<not> includes_str ps (js ''?'') \<and> ed_param ps \<in> {js ''2'', js ''3''})
   \<or> sync' = sync \<and> out = []
   \<or> sync' = sync \<and> out = ed2_rewrite"
  by (auto simp: handleCsi_def split: if_splits)

text \<open>The filter's parser, in the ground state, on the rewriting of ED2.\<close>

lemma push_ed2_rewrite:
  "state g = Ground \<Longrightarrow> csi g = [] \<Longrightarrow>
     push_loop g ed2_rewrite = (g, ed2_rewrite) \<and> \<not> erases_in_sync g ed2_rewrite"
  by (simp add: ed2_rewrite_def emitCsi_def step_def ed_rewritten_def handleCsi_def ed_param_def
      js_def startsWith_def Let_def)

text \<open>
  Simulation: a second filter in the ground state, reading what the first emits for one
  byte, passes it on unchanged and ends in the ground state with the same sync flag.
\<close>

lemma refilter_step:
  assumes ok: "filter_ok f" and short: "\<not> overlong f b"
    and g: "state g = Ground" "csi g = []" "inSync g = inSync f"
  shows "push_loop g (snd (step f b)) = (g\<lparr>inSync := inSync (fst (step f b))\<rparr>, snd (step f b))
     \<and> \<not> erases_in_sync g (snd (step f b))"
proof (cases "state f")
  case Ground
  with g show ?thesis by (auto simp: step_def ed_rewritten_def)
next
  case Esc
  with g show ?thesis by (auto simp: step_def ed_rewritten_def)
next
  case Csi
  let ?g = "g\<lparr>state := Csi, csi := csi f\<rparr>"
  have ps: "params_ok (csi f)" using ok by (simp add: filter_ok_def params_ok_def)
  note seq = push_sequence [OF g(1) ps, of b]
  consider "64 \<le> b" "b \<le> 126" | "32 \<le> b" "b \<le> 63" | "b < 32 \<or> 126 < b" by linarith
  then show ?thesis
  proof cases
    case 1
    obtain sync' out where h: "handleCsi (inSync f) (csi f) b = (sync', out)" by fastforce
    with 1 Csi have st: "step f b = (\<lparr>state = Ground, csi = [], inSync = sync'\<rparr>, out)"
      by (simp add: step_def)
    have sg: "step ?g b = (\<lparr>state = Ground, csi = [], inSync = sync'\<rparr>, out)"
      using 1 h g by (simp add: step_def)
    from handleCsi_cases [OF h] show ?thesis
      using st sg seq g push_ed2_rewrite [OF g(1,2)] Csi
      by (auto simp: emitCsi_def ed_rewritten_def)
  next
    case 2
    with Csi short g show ?thesis by (simp add: step_def overlong_def)
  next
    case 3
    then have "step ?g b = (g\<lparr>state := Ground, csi := []\<rparr>, [27, 91] @ csi f @ [b])"
      by (auto simp: step_def)
    with 3 Csi seq g show ?thesis by (auto simp: step_def ed_rewritten_def)
  qed
qed

lemma refilter:
  assumes "filter_ok f" "no_overlong f bs" "state g = Ground" "csi g = []" "inSync g = inSync f"
  shows "push_loop g (snd (push_loop f bs)) =
           (g\<lparr>inSync := inSync (fst (push_loop f bs))\<rparr>, snd (push_loop f bs))
     \<and> \<not> erases_in_sync g (snd (push_loop f bs))"
  using assms
proof (induction bs arbitrary: f g)
  case (Cons b bs)
  let ?f = "fst (step f b)" and ?o = "snd (step f b)"
  let ?g = "g\<lparr>inSync := inSync ?f\<rparr>"
  have "filter_ok ?f" using Cons.prems(1) by (rule step_ok)
  then have IH: "push_loop ?g (snd (push_loop ?f bs)) =
       (?g\<lparr>inSync := inSync (fst (push_loop ?f bs))\<rparr>, snd (push_loop ?f bs))
     \<and> \<not> erases_in_sync ?g (snd (push_loop ?f bs))"
    using Cons.prems by (intro Cons.IH) auto
  have "push_loop g ?o = (?g, ?o) \<and> \<not> erases_in_sync g ?o"
    using Cons.prems by (intro refilter_step) auto
  with IH show ?case
    by (simp only: push_loop_Cons push_loop_append erases_append fst_conv snd_conv) simp
qed simp

section \<open>Properties\<close>

text \<open>
  C1. Chunk boundaries are invisible: feeding the output stream in any chunks, each through
  the fast path or the byte loop, gives the same bytes and the same final state as one call
  on the whole stream.
\<close>

theorem push_chunk_invariant: "push_chunks f cs = push f (concat cs)"
  unfolding push_chunks_eq by (rule filter_chunks.chunks_concat)

text \<open>
  Nothing is lost or altered outside the rewritten erases: as long as no byte completes
  an ED2/ED3 inside a synchronized block and no parameter string overflows, the bytes
  emitted followed by the bytes still held are exactly the bytes held before followed by
  the input.
\<close>

theorem push_is_literal:
  "literal_run f bs \<Longrightarrow> snd (push f bs) @ held (fst (push f bs)) = held f @ bs"
  unfolding push_eq_loop by (rule push_loop_literal)

theorem push_is_literal_witness:
  "literal_run fresh_filter [104, 27, 91, 50, 74, 27]
   \<and> snd (push fresh_filter [104, 27, 91, 50, 74, 27]) @ held (fst (push fresh_filter [104, 27, 91, 50, 74, 27]))
     = [104, 27, 91, 50, 74, 27]"
proof -
  have h: "literal_run fresh_filter [104, 27, 91, 50, 74, 27]"
    by (simp add: fresh_filter_def step_def overlong_def ed_rewritten_def handleCsi_def Let_def)
  from push_is_literal [OF h] h show ?thesis
    by (simp add: held_def fresh_filter_def)
qed



text \<open>
  Bounded buffering: whatever the stream, the filter never holds back more than the
  two introducer bytes and 64 parameter bytes.
\<close>

theorem push_holds_at_most_66: "length (held (fst (push_chunks fresh_filter cs))) \<le> 66"
  by (rule held_bounded)
     (simp add: push_chunks_eq filter_chunks.chunks_concat push_eq_loop push_loop_ok fresh_filter_ok)

text \<open>
  The overflow branch is not transparent: the parameter byte that overflows the buffer
  has already been appended to it and is then emitted once more, so the terminal receives
  that byte twice.
\<close>

theorem overlong_byte_duplicated:
  assumes "state f = Csi" "length (csi f) = 64" "32 \<le> b" "b \<le> 63"
  shows "snd (step f b) = [27, 91] @ csi f @ [b, b]"
  using assms by (simp add: step_def)

theorem overlong_byte_duplicated_witness:
  "snd (step \<lparr>state = Csi, csi = replicate 64 48, inSync = False\<rparr> 49)
     = [27, 91] @ replicate 64 48 @ [49, 49]"
  using overlong_byte_duplicated [of "\<lparr>state = Csi, csi = replicate 64 48, inSync = False\<rparr>" 49]
  by simp

end
