(* ===== verification/JsNumber.thy ===== *)
theory JsNumber
  imports Complex_Main Prelude
begin

text \<open>
  JavaScript numbers as the components use them for ratios, sizes and preferences: a finite
  value is a rational number, next to the two infinities and \<^verbatim>\<open>NaN\<close>. Rounding of IEEE
  doubles is not modelled; every operation here is a comparison, a clamp or a rounding to an
  integer, and those agree on the rationals.
\<close>

datatype jsnum = NaN | NegInf | Num rat | PosInf

definition isFinite :: "jsnum \<Rightarrow> bool" where
  "isFinite x \<longleftrightarrow> (case x of Num _ \<Rightarrow> True | _ \<Rightarrow> False)"

text \<open>\<^verbatim>\<open><\<close> is false as soon as one side is \<^verbatim>\<open>NaN\<close>.\<close>

fun js_less :: "jsnum \<Rightarrow> jsnum \<Rightarrow> bool" where
  "js_less NaN _ = False"
| "js_less _ NaN = False"
| "js_less NegInf y = (y \<noteq> NegInf)"
| "js_less x NegInf = False"
| "js_less (Num a) (Num b) = (a < b)"
| "js_less (Num a) PosInf = True"
| "js_less PosInf _ = False"

text \<open>\<^verbatim>\<open>Math.max\<close> and \<^verbatim>\<open>Math.min\<close> of two arguments: \<^verbatim>\<open>NaN\<close> is contagious.\<close>

definition math_max :: "jsnum \<Rightarrow> jsnum \<Rightarrow> jsnum" where
  "math_max x y = (if x = NaN \<or> y = NaN then NaN else if js_less x y then y else x)"

definition math_min :: "jsnum \<Rightarrow> jsnum \<Rightarrow> jsnum" where
  "math_min x y = (if x = NaN \<or> y = NaN then NaN else if js_less y x then y else x)"

text \<open>\<^verbatim>\<open>Math.min(hi, Math.max(lo, x))\<close>\<close>

definition clamp :: "rat \<Rightarrow> rat \<Rightarrow> jsnum \<Rightarrow> jsnum" where
  "clamp lo hi x = math_min (Num hi) (math_max (Num lo) x)"

text \<open>\<^verbatim>\<open>Math.round\<close>: to the nearest integer, halves towards plus infinity.\<close>

fun math_round :: "jsnum \<Rightarrow> jsnum" where
  "math_round (Num a) = Num (of_int \<lfloor>a + 1 / 2\<rfloor>)"
| "math_round x = x"

definition in_range :: "rat \<Rightarrow> rat \<Rightarrow> jsnum \<Rightarrow> bool" where
  "in_range lo hi x \<longleftrightarrow> (case x of Num a \<Rightarrow> lo \<le> a \<and> a \<le> hi | _ \<Rightarrow> False)"

lemma clamp_simps [simp]:
  "lo \<le> hi \<Longrightarrow> clamp lo hi NaN = NaN"
  "lo \<le> hi \<Longrightarrow> clamp lo hi NegInf = Num lo"
  "lo \<le> hi \<Longrightarrow> clamp lo hi PosInf = Num hi"
  "lo \<le> hi \<Longrightarrow> clamp lo hi (Num a) = Num (min hi (max lo a))"
  by (auto simp: clamp_def math_min_def math_max_def min_def max_def)

lemma clamp_in_range: "lo \<le> hi \<Longrightarrow> x \<noteq> NaN \<Longrightarrow> in_range lo hi (clamp lo hi x)"
  by (cases x) (auto simp: in_range_def)

lemma clamp_NaN_iff: "lo \<le> hi \<Longrightarrow> clamp lo hi x = NaN \<longleftrightarrow> x = NaN"
  by (cases x) auto

lemma clamp_id: "in_range lo hi x \<Longrightarrow> clamp lo hi x = x"
  by (cases x) (auto simp: in_range_def clamp_def math_min_def math_max_def)

lemma clamp_idem: "lo \<le> hi \<Longrightarrow> clamp lo hi (clamp lo hi x) = clamp lo hi x"
  by (cases x) auto

end
