(* ===== verification/Layout.thy ===== *)
theory Layout
  imports JsNumber
begin

text \<open>
  The pane layout of \<^verbatim>\<open>terminal/layout.ts\<close>: a binary tree of splits whose leaves are
  sessions. Split identifiers come from \<^verbatim>\<open>crypto.randomUUID()\<close>, which is a parameter
  \<open>uuid\<close>: the \<open>n\<close>-th call returns \<open>uuid n\<close>, and \<open>splitLeaf\<close> threads the number of calls.
\<close>

section \<open>The tree and its operations\<close>

datatype orientation = Horizontal | Vertical

datatype layout =
    Leaf session_id
  | Split (split_id: jsstr) (orient: orientation) (ratio: jsnum) (first: layout) (second: layout)

definition clampRatio :: "jsnum \<Rightarrow> jsnum" where
  "clampRatio r = math_min (Num (85/100)) (math_max (Num (15/100)) r)"

definition split :: "jsstr \<Rightarrow> orientation \<Rightarrow> layout \<Rightarrow> layout \<Rightarrow> jsnum \<Rightarrow> layout" where
  "split newId o1 f s r = Split newId o1 (clampRatio r) f s"

fun collectSessionIds :: "layout \<Rightarrow> session_id list" where
  "collectSessionIds (Leaf s) = [s]"
| "collectSessionIds (Split i o1 r a b) = collectSessionIds a @ collectSessionIds b"

fun replaceSession :: "layout \<Rightarrow> session_id \<Rightarrow> session_id \<Rightarrow> layout" where
  "replaceSession (Leaf s) x y = (if s = x then Leaf y else Leaf s)"
| "replaceSession (Split i o1 r a b) x y = Split i o1 r (replaceSession a x y) (replaceSession b x y)"

fun removeSession :: "layout \<Rightarrow> session_id \<Rightarrow> layout option" where
  "removeSession (Leaf s) x = (if s = x then None else Some (Leaf s))"
| "removeSession (Split i o1 r a b) x =
     (case (removeSession a x, removeSession b x) of
        (None, b') \<Rightarrow> b'
      | (a', None) \<Rightarrow> a'
      | (Some a', Some b') \<Rightarrow> Some (Split i o1 r a' b'))"

fun splitLeaf :: "(nat \<Rightarrow> jsstr) \<Rightarrow> nat \<Rightarrow> layout \<Rightarrow> session_id \<Rightarrow> session_id \<Rightarrow> orientation \<Rightarrow> layout \<times> nat" where
  "splitLeaf uuid n (Leaf s) x new o1 =
     (if s \<noteq> x then (Leaf s, n)
      else (split (uuid n) o1 (Leaf s) (Leaf new) (Num (1/2)), Suc n))"
| "splitLeaf uuid n (Split i o2 r a b) x new o1 =
     (let (a', n') = splitLeaf uuid n a x new o1; (b', n'') = splitLeaf uuid n' b x new o1
      in (Split i o2 r a' b', n''))"

fun setSplitRatio :: "layout \<Rightarrow> jsstr \<Rightarrow> jsnum \<Rightarrow> layout" where
  "setSplitRatio (Leaf s) k r = Leaf s"
| "setSplitRatio (Split i o1 q a b) k r =
     (if i = k then Split i o1 (clampRatio r) a b
      else Split i o1 q (setSplitRatio a k r) (setSplitRatio b k r))"

definition containsSession :: "layout \<Rightarrow> session_id \<Rightarrow> bool" where
  "containsSession t s \<longleftrightarrow> s \<in> set (collectSessionIds t)"

lemma splitLeaf_Split [simp]:
  "splitLeaf uuid n (Split i o2 r a b) x new o1 =
     (let l = splitLeaf uuid n a x new o1; q = splitLeaf uuid (snd l) b x new o1
      in (Split i o2 r (fst l) (fst q), snd q))"
  by (simp add: case_prod_beta Let_def)

declare splitLeaf.simps(2) [simp del]

section \<open>Sessions of the tree under each operation\<close>

lemma collect_neq_Nil [simp]: "collectSessionIds t \<noteq> []"
  by (induction t) auto

lemma collect_replace: "collectSessionIds (replaceSession t x y) = map (\<lambda>s. if s = x then y else s) (collectSessionIds t)"
  by (induction t) auto

lemma collect_remove:
  "(case removeSession t x of None \<Rightarrow> [] | Some t' \<Rightarrow> collectSessionIds t')
     = filter (\<lambda>s. s \<noteq> x) (collectSessionIds t)"
  by (induction t) (auto split: option.splits)

lemma remove_None_iff: "removeSession t x = None \<longleftrightarrow> set (collectSessionIds t) \<subseteq> {x}"
  by (induction t) (auto split: option.splits)

lemma remove_absent: "x \<notin> set (collectSessionIds t) \<Longrightarrow> removeSession t x = Some t"
  by (induction t) auto

lemma collect_splitLeaf:
  "collectSessionIds (fst (splitLeaf uuid n t x new o1))
     = concat (map (\<lambda>s. if s = x then [s, new] else [s]) (collectSessionIds t))"
  by (induction t arbitrary: n) (auto simp: split_def Let_def)

lemma splitLeaf_absent: "x \<notin> set (collectSessionIds t) \<Longrightarrow> splitLeaf uuid n t x new o1 = (t, n)"
  by (induction t arbitrary: n) (auto simp: Let_def)

lemma collect_setSplitRatio [simp]: "collectSessionIds (setSplitRatio t k r) = collectSessionIds t"
  by (induction t) auto

section \<open>Well-formed layouts\<close>

fun splitIds :: "layout \<Rightarrow> jsstr list" where
  "splitIds (Leaf s) = []"
| "splitIds (Split i o1 r a b) = i # splitIds a @ splitIds b"

fun ratios :: "layout \<Rightarrow> jsnum list" where
  "ratios (Leaf s) = []"
| "ratios (Split i o1 r a b) = r # ratios a @ ratios b"

definition ratio_ok :: "jsnum \<Rightarrow> bool" where
  "ratio_ok r \<longleftrightarrow> r = NaN \<or> in_range (15/100) (85/100) r"

text \<open>No session in two panes, no two splits with one identifier, every ratio clamped.\<close>

definition layout_wf :: "layout \<Rightarrow> bool" where
  "layout_wf t \<longleftrightarrow> distinct (collectSessionIds t) \<and> distinct (splitIds t) \<and> list_all ratio_ok (ratios t)"

lemma clampRatio_eq: "clampRatio r = clamp (15/100) (85/100) r"
  by (simp add: clampRatio_def clamp_def)

lemma ratio_ok_clamp [simp]: "ratio_ok (clampRatio r)"
  by (cases "r = NaN") (auto simp: ratio_ok_def clampRatio_eq clamp_in_range)

lemma remove_splitIds_sublist:
  "removeSession t x = Some t' \<Longrightarrow>
     (distinct (splitIds t) \<longrightarrow> distinct (splitIds t')) \<and> set (splitIds t') \<subseteq> set (splitIds t)
     \<and> set (ratios t') \<subseteq> set (ratios t)"
proof (induction t arbitrary: t')
  case (Split i o1 r a b)
  then show ?case
    by (auto split: option.splits) (use Split in fastforce)+
qed (auto split: if_splits)

lemma remove_wf: "layout_wf t \<Longrightarrow> removeSession t x = Some t' \<Longrightarrow> layout_wf t'"
  using collect_remove [of t x] remove_splitIds_sublist [of t x t']
  by (auto simp: layout_wf_def list_all_iff)

lemma setSplitRatio_splitIds [simp]: "splitIds (setSplitRatio t k r) = splitIds t"
  by (induction t) auto

lemma setSplitRatio_ratios: "list_all ratio_ok (ratios t) \<Longrightarrow> list_all ratio_ok (ratios (setSplitRatio t k r))"
  by (induction t) simp_all

lemma setSplitRatio_wf: "layout_wf t \<Longrightarrow> layout_wf (setSplitRatio t k r)"
  by (simp add: layout_wf_def setSplitRatio_ratios)

lemma replaceSession_frame [simp]:
  "splitIds (replaceSession t x y) = splitIds t" "ratios (replaceSession t x y) = ratios t"
  by (induction t) auto

lemma replaceSession_wf:
  "layout_wf t \<Longrightarrow> y \<notin> set (collectSessionIds t) \<Longrightarrow> layout_wf (replaceSession t x y)"
  by (auto simp: layout_wf_def collect_replace distinct_map inj_on_def)

lemma splitLeaf_ratios:
  "list_all ratio_ok (ratios t) \<Longrightarrow> list_all ratio_ok (ratios (fst (splitLeaf uuid n t x new o1)))"
  by (induction t arbitrary: n) (simp_all add: split_def Let_def)

text \<open>With one pane per session a split makes one call for an identifier.\<close>

lemma splitLeaf_splitIds:
  assumes "distinct (collectSessionIds t)" "x \<in> set (collectSessionIds t)"
  shows "snd (splitLeaf uuid n t x new o1) = Suc n
     \<and> set (splitIds (fst (splitLeaf uuid n t x new o1))) = insert (uuid n) (set (splitIds t))
     \<and> (distinct (splitIds t) \<longrightarrow> uuid n \<notin> set (splitIds t) \<longrightarrow>
          distinct (splitIds (fst (splitLeaf uuid n t x new o1))))"
  using assms
proof (induction t arbitrary: n)
  case (Leaf s)
  then show ?case by (simp add: split_def)
next
  case (Split i o2 r a b)
  show ?case
  proof (cases "x \<in> set (collectSessionIds a)")
    case True
    then have "x \<notin> set (collectSessionIds b)" using Split.prems by auto
    with True Split.IH(1) [of n] Split.prems show ?thesis
      by (auto simp: splitLeaf_absent Let_def)
  next
    case False
    with Split.IH(2) [of n] Split.prems show ?thesis
      by (auto simp: splitLeaf_absent Let_def)
  qed
qed

lemma concat_split_distinct:
  "distinct xs \<Longrightarrow> new \<notin> set xs \<Longrightarrow> distinct (concat (map (\<lambda>s. if s = x then [s, new] else [s]) xs))"
  by (induction xs) auto

lemma splitLeaf_wf:
  assumes "layout_wf t" "new \<notin> set (collectSessionIds t)" "uuid n \<notin> set (splitIds t)"
  shows "layout_wf (fst (splitLeaf uuid n t x new o1))"
proof (cases "x \<in> set (collectSessionIds t)")
  case True
  with assms show ?thesis
    using splitLeaf_splitIds [OF _ True, of uuid n new o1]
    by (simp add: layout_wf_def collect_splitLeaf concat_split_distinct splitLeaf_ratios)
next
  case False
  with assms show ?thesis by (simp add: splitLeaf_absent)
qed

lemma remove_splitLeaf:
  "new \<notin> set (collectSessionIds t) \<Longrightarrow> removeSession (fst (splitLeaf uuid n t x new o1)) new = Some t"
proof (induction t arbitrary: n)
  case (Leaf s)
  then show ?case by (auto simp: split_def)
next
  case (Split i o2 r a b)
  then show ?case by (auto simp: Let_def)
qed

section \<open>Interface: a tree of sessions that panes can be removed from\<close>

text \<open>
  What the workspace relies on when it closes tabs: removing a session removes exactly its
  panes, and the result is absent only when no pane is left. The loop that closes several
  tabs, stopping once the tree is gone, then removes exactly those sessions.
\<close>

locale session_tree =
  fixes sessions :: "'t \<Rightarrow> 's list"
    and remove :: "'t \<Rightarrow> 's \<Rightarrow> 't option"
  assumes sessions_nonempty: "sessions t \<noteq> []"
    and remove_law: "(case remove t x of None \<Rightarrow> [] | Some t' \<Rightarrow> sessions t') = filter (\<lambda>s. s \<noteq> x) (sessions t)"
begin

fun remove_many :: "'t option \<Rightarrow> 's list \<Rightarrow> 't option" where
  "remove_many None xs = None"
| "remove_many (Some t) [] = Some t"
| "remove_many (Some t) (x # xs) = remove_many (remove t x) xs"

definition opt_sessions :: "'t option \<Rightarrow> 's list" where
  "opt_sessions q = (case q of None \<Rightarrow> [] | Some t \<Rightarrow> sessions t)"

lemma remove_many_sessions:
  "opt_sessions (remove_many q xs) = filter (\<lambda>s. s \<notin> set xs) (opt_sessions q)"
proof (induction q xs rule: remove_many.induct)
  case (3 t x xs)
  have "opt_sessions (remove t x) = filter (\<lambda>s. s \<noteq> x) (sessions t)"
    using remove_law by (simp add: opt_sessions_def)
  with 3 show ?case by (simp add: opt_sessions_def conj_commute)
qed (auto simp: opt_sessions_def)

lemma remove_many_None: "remove_many (Some t) xs = None \<longleftrightarrow> set (sessions t) \<subseteq> set xs"
proof -
  have "remove_many (Some t) xs = None \<longleftrightarrow> opt_sessions (remove_many (Some t) xs) = []"
    by (cases "remove_many (Some t) xs") (auto simp: opt_sessions_def sessions_nonempty)
  then show ?thesis
    by (auto simp: remove_many_sessions filter_empty_conv) (auto simp: opt_sessions_def)
qed

end

interpretation panes: session_tree collectSessionIds removeSession
  by unfold_locales (simp_all add: collect_remove)

section \<open>Editing a layout\<close>

text \<open>
  The edits the workspace makes, each with the guard under which it makes it: a new pane
  gets a session and a split identifier that are not in the tree yet.
\<close>

inductive layout_edit :: "layout \<Rightarrow> layout \<Rightarrow> bool" where
  edit_split: "new \<notin> set (collectSessionIds t) \<Longrightarrow> uuid n \<notin> set (splitIds t) \<Longrightarrow>
     layout_edit t (fst (splitLeaf uuid n t x new o1))"
| edit_remove: "removeSession t x = Some t' \<Longrightarrow> layout_edit t t'"
| edit_ratio: "layout_edit t (setSplitRatio t k r)"
| edit_replace: "y \<notin> set (collectSessionIds t) \<Longrightarrow> layout_edit t (replaceSession t x y)"

lemma layout_edit_wf: "layout_edit t t' \<Longrightarrow> layout_wf t \<Longrightarrow> layout_wf t'"
  by (induction rule: layout_edit.induct)
     (auto intro: splitLeaf_wf remove_wf setSplitRatio_wf replaceSession_wf)

inductive layout_edits :: "layout \<Rightarrow> layout \<Rightarrow> bool" where
  edits_refl: "layout_edits t t"
| edits_step: "layout_edits t t' \<Longrightarrow> layout_edit t' t'' \<Longrightarrow> layout_edits t t''"

section \<open>Properties\<close>

text \<open>
  Every layout the workspace can reach from a single pane is well formed: no session is
  shown in two panes, no two splits share an identifier, and every split ratio lies between
  0.15 and 0.85 (or is the \<^verbatim>\<open>NaN\<close> the caller passed).
\<close>

theorem reachable_layout_wf: "layout_edits (Leaf s) t \<Longrightarrow> layout_wf t"
proof (induction "Leaf s" t rule: layout_edits.induct)
  case edits_refl
  then show ?case by (simp add: layout_wf_def)
next
  case (edits_step t' t'')
  then show ?case by (blast intro: layout_edit_wf)
qed

theorem reachable_layout_wf_witness:
  "layout_edits (Leaf [1]) (fst (splitLeaf (\<lambda>n. [n]) 0 (Leaf [1]) [1] [2] Horizontal))
   \<and> layout_wf (fst (splitLeaf (\<lambda>n. [n]) 0 (Leaf [1]) [1] [2] Horizontal))"
proof -
  have h: "layout_edits (Leaf [1]) (fst (splitLeaf (\<lambda>n. [n]) 0 (Leaf [1]) [1] [2] Horizontal))"
    by (rule edits_step [OF edits_refl]) (rule edit_split, simp_all)
  from reachable_layout_wf [OF h] h show ?thesis by blast
qed

text \<open>
  C5. Removing a session removes exactly its panes and keeps the depth-first order of the
  others; the tree disappears exactly when no other session is left.
\<close>

theorem removeSession_exact:
  "(case removeSession t x of None \<Rightarrow> set (collectSessionIds t) \<subseteq> {x}
    | Some t' \<Rightarrow> collectSessionIds t' = filter (\<lambda>s. s \<noteq> x) (collectSessionIds t)
        \<and> \<not> containsSession t' x)"
  using collect_remove [of t x] remove_None_iff [of t x]
  by (auto simp: containsSession_def split: option.splits)

text \<open>
  Splitting a pane and closing the new pane again is the identity on the layout, and the
  new pane comes right after the one that was split.
\<close>

theorem splitLeaf_round_trip:
  assumes "new \<notin> set (collectSessionIds t)"
  shows "removeSession (fst (splitLeaf uuid n t x new o1)) new = Some t
     \<and> collectSessionIds (fst (splitLeaf uuid n t x new o1))
        = concat (map (\<lambda>s. if s = x then [s, new] else [s]) (collectSessionIds t))"
  using remove_splitLeaf [OF assms] collect_splitLeaf by blast

theorem splitLeaf_round_trip_witness:
  "collectSessionIds (fst (splitLeaf (\<lambda>n. [n]) 7 (Split [9] Vertical (Num (1/2)) (Leaf [1]) (Leaf [2])) [1] [3] Horizontal))
     = [[1], [3], [2]]
   \<and> removeSession (fst (splitLeaf (\<lambda>n. [n]) 7 (Split [9] Vertical (Num (1/2)) (Leaf [1]) (Leaf [2])) [1] [3] Horizontal)) [3]
     = Some (Split [9] Vertical (Num (1/2)) (Leaf [1]) (Leaf [2]))"
  using splitLeaf_round_trip
    [of "[3]" "Split [9] Vertical (Num (1/2)) (Leaf [1]) (Leaf [2])" "\<lambda>n. [n]" 7 "[1]" Horizontal]
  by simp

end
