(* ===== verification/JsRegex.thy ===== *)
theory JsRegex
  imports Prelude
begin

text \<open>
  The regular expressions of ECMAScript, as far as the user interface uses them:
  character classes, sequences, alternatives, greedy and lazy repetition, capturing
  groups and the anchors \<^verbatim>\<open>^\<close> and \<^verbatim>\<open>$\<close>. A match is searched by backtracking; \<open>rm\<close> lists the
  ways to match in the order in which the backtracking search would find them, so that
  the head of the list is what the engine reports. An iteration of a repetition that
  consumes nothing is rejected, as the language prescribes.

  On top of it stand \<^verbatim>\<open>RegExp.prototype.test\<close>, \<^verbatim>\<open>String.prototype.match\<close> (first match and its
  captures), and \<^verbatim>\<open>String.prototype.replace\<close> with and without the \<^verbatim>\<open>g\<close> flag.
\<close>

section \<open>Syntax\<close>

datatype re =
    Eps
  | CC "nat \<Rightarrow> bool"
  | Seq re re
  | Alt re re
  | Star re
  | LStar re
  | Grp nat re
  | Bol
  | Eol

definition seqs :: "re list \<Rightarrow> re" where
  [js_eval]: "seqs rs = foldr Seq rs Eps"

fun alts :: "re list \<Rightarrow> re" where
  "alts [] = CC (\<lambda>_. False)"
| "alts [r] = r"
| "alts (r # q # rs) = Alt r (alts (q # rs))"

definition rplus :: "re \<Rightarrow> re" where
  [js_eval]: "rplus r = Seq r (Star r)"

definition ropt :: "re \<Rightarrow> re" where
  [js_eval]: "ropt r = Alt r Eps"

fun rep_upto :: "nat \<Rightarrow> re \<Rightarrow> re" where
  "rep_upto 0 r = Eps"
| "rep_upto (Suc n) r = Alt (Seq r (rep_upto n r)) Eps"

text \<open>\<^verbatim>\<open>r{1,n}\<close>\<close>

definition rep1 :: "nat \<Rightarrow> re \<Rightarrow> re" where
  [js_eval]: "rep1 n r = Seq r (rep_upto (n - 1) r)"

definition chr :: "nat \<Rightarrow> re" where
  [js_eval]: "chr c = CC (\<lambda>x. x = c)"

definition lit :: "string \<Rightarrow> re" where
  [js_eval]: "lit s = seqs (map chr (js s))"

definition cls :: "string \<Rightarrow> re" where
  [js_eval]: "cls s = CC (\<lambda>x. x \<in> set (js s))"

subsection \<open>Character classes\<close>

definition is_digit :: "nat \<Rightarrow> bool" where
  [js_eval]: "is_digit c \<longleftrightarrow> 48 \<le> c \<and> c \<le> 57"

definition is_alpha :: "nat \<Rightarrow> bool" where
  [js_eval]: "is_alpha c \<longleftrightarrow> (65 \<le> c \<and> c \<le> 90) \<or> (97 \<le> c \<and> c \<le> 122)"

definition is_hex :: "nat \<Rightarrow> bool" where
  [js_eval]: "is_hex c \<longleftrightarrow> is_digit c \<or> (65 \<le> c \<and> c \<le> 70) \<or> (97 \<le> c \<and> c \<le> 102)"

text \<open>\<^verbatim>\<open>\w\<close>\<close>

definition is_word :: "nat \<Rightarrow> bool" where
  [js_eval]: "is_word c \<longleftrightarrow> is_alpha c \<or> is_digit c \<or> c = 95"

text \<open>\<^verbatim>\<open>.\<close> matches everything but the four line terminators\<close>

definition is_dot :: "nat \<Rightarrow> bool" where
  [js_eval]: "is_dot c \<longleftrightarrow> c \<noteq> 10 \<and> c \<noteq> 13 \<and> c \<noteq> 8232 \<and> c \<noteq> 8233"

section \<open>Matching\<close>

text \<open>A matcher state: position, rest of the input, captures (innermost first).\<close>

type_synonym mst = "nat \<times> jsstr \<times> (nat \<times> jsstr) list"

abbreviation pos_of :: "mst \<Rightarrow> nat" where "pos_of s \<equiv> fst s"
abbreviation rest_of :: "mst \<Rightarrow> jsstr" where "rest_of s \<equiv> fst (snd s)"
abbreviation caps_of :: "mst \<Rightarrow> (nat \<times> jsstr) list" where "caps_of s \<equiv> snd (snd s)"

function (sequential) rm :: "re \<Rightarrow> mst \<Rightarrow> mst list" where
  "rm Eps s = [s]"
| "rm (CC p) s =
     (case s of (i, [], cs) \<Rightarrow> []
      | (i, c # r, cs) \<Rightarrow> if p c then [(Suc i, r, cs)] else [])"
| "rm (Seq a b) s = concat (map (rm b) (rm a s))"
| "rm (Alt a b) s = rm a s @ rm b s"
| "rm (Star a) s =
     concat (map (\<lambda>t. if length (rest_of t) < length (rest_of s) then rm (Star a) t else []) (rm a s))
     @ [s]"
| "rm (LStar a) s =
     s # concat (map (\<lambda>t. if length (rest_of t) < length (rest_of s) then rm (LStar a) t else []) (rm a s))"
| "rm (Grp n a) s =
     map (\<lambda>(j, r, cs). (j, r, (n, take (j - pos_of s) (rest_of s)) # cs)) (rm a s)"
| "rm Bol s = (if pos_of s = 0 then [s] else [])"
| "rm Eol s = (if rest_of s = [] then [s] else [])"
  by pat_completeness auto
termination
  by (relation "measures [\<lambda>(r, s). size r, \<lambda>(r, s). length (rest_of s)]") auto

declare rm.simps [simp del]
lemmas rm_base [simp] = rm.simps(1,3,4,7,8,9)
lemmas rm_all [js_eval] = rm.simps

lemma rm_CC_Nil [simp]: "rm (CC p) (i, [], cs) = []"
  and rm_CC_Cons [simp]: "rm (CC p) (i, c # r, cs) = (if p c then [(Suc i, r, cs)] else [])"
  by (simp_all add: rm.simps)

section \<open>Searching and replacing\<close>

text \<open>\<^verbatim>\<open>RegExp.prototype.exec\<close> without the \<^verbatim>\<open>g\<close> flag: start of the leftmost match and the state after it.\<close>

fun exec_from :: "re \<Rightarrow> nat \<Rightarrow> jsstr \<Rightarrow> (nat \<times> mst) option" where
  "exec_from re i [] = (case rm re (i, [], []) of [] \<Rightarrow> None | m # _ \<Rightarrow> Some (i, m))"
| "exec_from re i (c # r) =
     (case rm re (i, c # r, []) of [] \<Rightarrow> exec_from re (Suc i) r | m # _ \<Rightarrow> Some (i, m))"

definition re_test :: "re \<Rightarrow> jsstr \<Rightarrow> bool" where
  "re_test re s \<longleftrightarrow> exec_from re 0 s \<noteq> None"

text \<open>\<^verbatim>\<open>s.match(re)?.[n] ?? ""\<close>; \<open>None\<close> when there is no match.\<close>

definition re_group :: "nat \<Rightarrow> re \<Rightarrow> jsstr \<Rightarrow> jsstr option" where
  "re_group n re s =
     (case exec_from re 0 s of None \<Rightarrow> None
      | Some (i, m) \<Rightarrow> Some (case map_of (caps_of m) n of None \<Rightarrow> [] | Some t \<Rightarrow> t))"

definition replace_first :: "re \<Rightarrow> jsstr \<Rightarrow> jsstr \<Rightarrow> jsstr" where
  "replace_first re repl s =
     (case exec_from re 0 s of None \<Rightarrow> s | Some (i, m) \<Rightarrow> take i s @ repl @ rest_of m)"

function (sequential) replace_from :: "re \<Rightarrow> jsstr \<Rightarrow> nat \<Rightarrow> jsstr \<Rightarrow> jsstr" where
  "replace_from re repl i [] = (case rm re (i, [], []) of [] \<Rightarrow> [] | _ \<Rightarrow> repl)"
| "replace_from re repl i (c # r) =
     (case rm re (i, c # r, []) of [] \<Rightarrow> c # replace_from re repl (Suc i) r
      | m # _ \<Rightarrow>
          repl @ (if length (rest_of m) < length (c # r)
                  then replace_from re repl (pos_of m) (rest_of m)
                  else c # replace_from re repl (Suc i) r))"
  by pat_completeness auto
termination
  by (relation "measure (\<lambda>(re, repl, i, r). length r)") auto

text \<open>\<^verbatim>\<open>s.replace(re, repl)\<close> with the \<^verbatim>\<open>g\<close> flag\<close>

definition replace_all :: "re \<Rightarrow> jsstr \<Rightarrow> jsstr \<Rightarrow> jsstr" where
  "replace_all re repl s = replace_from re repl 0 s"

lemmas re_eval [js_eval] = re_test_def re_group_def replace_first_def replace_all_def

section \<open>What a match is\<close>

text \<open>A match consumes a prefix of the input and advances the position by its length.\<close>

definition consumed :: "mst \<Rightarrow> mst \<Rightarrow> jsstr \<Rightarrow> bool" where
  "consumed s t u \<longleftrightarrow> rest_of s = u @ rest_of t \<and> pos_of t = pos_of s + length u"

lemma consumed_refl: "consumed s s []"
  by (simp add: consumed_def)

lemma consumed_trans: "consumed s t u \<Longrightarrow> consumed t t' v \<Longrightarrow> consumed s t' (u @ v)"
  by (simp add: consumed_def)

lemma rm_consumed: "t \<in> set (rm re s) \<Longrightarrow> \<exists>u. consumed s t u"
proof (induction re s arbitrary: t rule: rm.induct)
  case (2 p s)
  then show ?case
    by (auto simp: consumed_def rm.simps split: prod.splits list.splits if_splits
        intro: exI [of _ "[_]"])
next
  case (3 a b s)
  from "3.prems" obtain m where m: "m \<in> set (rm a s)" "t \<in> set (rm b m)" by auto
  then obtain u v where "consumed s m u" "consumed m t v"
    using "3.IH"(1) [OF m(1)] "3.IH"(2) [OF m] by blast
  then show ?case using consumed_trans by blast
next
  case (5 a s)
  from "5.prems" consider "t = s" | m where "m \<in> set (rm a s)"
    "length (rest_of m) < length (rest_of s)" "t \<in> set (rm (Star a) m)"
    by (subst (asm) rm.simps(5)) (auto split: if_splits)
  then show ?case
  proof cases
    case 1
    then show ?thesis using consumed_refl by blast
  next
    case (2 m)
    then obtain u v where "consumed s m u" "consumed m t v"
      using "5.IH"(1) [OF 2(1)] "5.IH"(2) [OF 2(1) 2(2) 2(3)] by blast
    then show ?thesis using consumed_trans by blast
  qed
next
  case (6 a s)
  from "6.prems" consider "t = s" | m where "m \<in> set (rm a s)"
    "length (rest_of m) < length (rest_of s)" "t \<in> set (rm (LStar a) m)"
    by (subst (asm) rm.simps(6)) (auto split: if_splits)
  then show ?case
  proof cases
    case 1
    then show ?thesis using consumed_refl by blast
  next
    case (2 m)
    then obtain u v where "consumed s m u" "consumed m t v"
      using "6.IH"(1) [OF 2(1)] "6.IH"(2) [OF 2(1) 2(2) 2(3)] by blast
    then show ?thesis using consumed_trans by blast
  qed
next
  case (7 n a s)
  then show ?case by (force simp: consumed_def)
qed (auto intro: consumed_refl split: if_splits)

lemma rm_rest_suffix: "t \<in> set (rm re (i, r, cs)) \<Longrightarrow> \<exists>u. r = u @ rest_of t \<and> pos_of t = i + length u"
  by (drule rm_consumed) (simp add: consumed_def)

text \<open>An expression needs \<open>p\<close> when every match consumes a character of class \<open>p\<close>.\<close>

primrec needs :: "(nat \<Rightarrow> bool) \<Rightarrow> re \<Rightarrow> bool" where
  "needs p Eps = False"
| "needs p (CC q) = (\<forall>c. q c \<longrightarrow> p c)"
| "needs p (Seq a b) = (needs p a \<or> needs p b)"
| "needs p (Alt a b) = (needs p a \<and> needs p b)"
| "needs p (Star a) = False"
| "needs p (LStar a) = False"
| "needs p (Grp n a) = needs p a"
| "needs p Bol = False"
| "needs p Eol = False"

lemma rm_needs:
  "needs p re \<Longrightarrow> t \<in> set (rm re s) \<Longrightarrow> \<exists>u. consumed s t u \<and> (\<exists>c \<in> set u. p c)"
proof (induction re s arbitrary: t rule: rm.induct)
  case (2 q s)
  then show ?case
    by (auto simp: consumed_def rm.simps split: prod.splits list.splits if_splits
        intro: exI [of _ "[_]"])
next
  case (3 a b s)
  from "3.prems"(2) obtain m where m: "m \<in> set (rm a s)" "t \<in> set (rm b m)" by auto
  obtain u where u: "consumed s m u" "needs p a \<longrightarrow> (\<exists>c \<in> set u. p c)"
    using "3.IH"(1) [OF _ m(1)] rm_consumed [OF m(1)] by blast
  obtain v where v: "consumed m t v" "needs p b \<longrightarrow> (\<exists>c \<in> set v. p c)"
    using "3.IH"(2) [OF m(1) _ m(2)] rm_consumed [OF m(2)] by blast
  have "consumed s t (u @ v)" by (rule consumed_trans [OF u(1) v(1)])
  moreover have "\<exists>c \<in> set (u @ v). p c" using "3.prems"(1) u(2) v(2) by auto
  ultimately show ?case by blast
next
  case (7 n a s)
  then show ?case by (force simp: consumed_def)
qed auto

lemma rm_needs_none:
  assumes "needs p re" and "\<forall>c \<in> set r. \<not> p c"
  shows "rm re (i, r, cs) = []"
proof (rule ccontr)
  assume "rm re (i, r, cs) \<noteq> []"
  then obtain t where "t \<in> set (rm re (i, r, cs))" by (cases "rm re (i, r, cs)") auto
  from rm_needs [OF assms(1) this] obtain u where "consumed (i, r, cs) t u" "\<exists>c \<in> set u. p c" by blast
  with assms(2) show False by (auto simp: consumed_def)
qed

section \<open>Facts about searching and replacing\<close>

lemma exec_from_Some:
  "exec_from re i r = Some (j, m) \<Longrightarrow>
     \<exists>k. j = i + k \<and> k \<le> length r \<and> m \<in> set (rm re (j, drop k r, []))"
proof (induction re i r rule: exec_from.induct)
  case (1 re i)
  then show ?case by (auto split: list.splits)
next
  case (2 re i c r)
  show ?case
  proof (cases "rm re (i, c # r, [])")
    case Nil
    with 2 obtain k where "j = Suc i + k" "k \<le> length r" "m \<in> set (rm re (j, drop k r, []))"
      by auto
    then show ?thesis by (intro exI [of _ "Suc k"]) auto
  next
    case (Cons x xs)
    with "2.prems" show ?thesis by (intro exI [of _ 0]) auto
  qed
qed

lemma exec_from_needs: "needs p re \<Longrightarrow> \<forall>c \<in> set r. \<not> p c \<Longrightarrow> exec_from re i r = None"
  by (induction re i r rule: exec_from.induct) (auto simp: rm_needs_none)

lemma re_test_needs: "needs p re \<Longrightarrow> re_test re s \<Longrightarrow> \<exists>c \<in> set s. p c"
  using exec_from_needs [of p re s 0] by (fastforce simp: re_test_def)

lemma replace_from_needs: "needs p re \<Longrightarrow> \<forall>c \<in> set r. \<not> p c \<Longrightarrow> replace_from re repl i r = r"
  by (induction r arbitrary: i) (auto simp: rm_needs_none)

lemma replace_all_needs: "needs p re \<Longrightarrow> \<forall>c \<in> set s. \<not> p c \<Longrightarrow> replace_all re repl s = s"
  by (simp add: replace_all_def replace_from_needs)

lemma set_replace_from: "set (replace_from re repl i r) \<subseteq> set r \<union> set repl"
proof (induction re repl i r rule: replace_from.induct)
  case (1 re repl i)
  then show ?case by (auto split: list.splits)
next
  case (2 re repl i c r)
  show ?case
  proof (cases "rm re (i, c # r, [])")
    case Nil
    with 2 show ?thesis by auto
  next
    case (Cons m ms)
    then have "\<exists>u. c # r = u @ rest_of m"
      using rm_rest_suffix [of m re i "c # r" "[]"] by auto
    then have "set (rest_of m) \<subseteq> set (c # r)"
      by (metis le_sup_iff set_append subset_refl)
    with 2 Cons show ?thesis by (auto split: if_splits)
  qed
qed

lemma set_replace_all: "set (replace_all re repl s) \<subseteq> set s \<union> set repl"
  by (simp add: replace_all_def set_replace_from)

lemma set_delete_all: "c \<in> set (replace_all re [] s) \<Longrightarrow> c \<in> set s"
  using set_replace_all [of re "[]" s] by auto

lemma length_replace_from: "length (replace_from re [] i r) \<le> length r"
proof (induction re "[] :: jsstr" i r rule: replace_from.induct)
  case (1 re i)
  then show ?case by (auto split: list.splits)
next
  case (2 re i c r)
  then show ?case by (fastforce split: list.splits)
qed

text \<open>Replacing a single-character class is a pointwise substitution.\<close>

lemma replace_from_CC:
  "replace_from (CC p) repl i r = concat (map (\<lambda>c. if p c then repl else [c]) r)"
  by (induction r arbitrary: i) auto

lemma replace_all_CC:
  "replace_all (CC p) repl s = concat (map (\<lambda>c. if p c then repl else [c]) s)"
  by (simp add: replace_all_def replace_from_CC)

lemma replace_all_CC_delete: "replace_all (CC p) [] s = filter (\<lambda>c. \<not> p c) s"
  unfolding replace_all_CC by (induction s) auto

lemma exec_from_CC: "exec_from (CC p) i r \<noteq> None \<longleftrightarrow> (\<exists>c \<in> set r. p c)"
  by (induction r arbitrary: i) auto

lemma re_test_CC: "re_test (CC p) s \<longleftrightarrow> (\<exists>c \<in> set s. p c)"
  by (simp only: re_test_def exec_from_CC)

text \<open>An expression that starts with \<^verbatim>\<open>^\<close> can only match at the start.\<close>

lemma exec_from_Bol: "0 < i \<Longrightarrow> exec_from (Seq Bol re) i r = None"
  by (induction r arbitrary: i) auto

lemma re_test_Bol: "re_test (Seq Bol re) s \<longleftrightarrow> rm re (0, s, []) \<noteq> []"
  by (cases s) (auto simp: re_test_def exec_from_Bol split: list.splits)

text \<open>Greedy repetition of a class matches every prefix of the run of class characters.\<close>

lemma ex_le_Suc: "(\<exists>k \<le> Suc n. P k) \<longleftrightarrow> P 0 \<or> (\<exists>k \<le> n. P (Suc k))"
  by (metis Suc_le_mono le0 not0_implies_Suc)

lemma set_rm_Star_CC:
  "t \<in> set (rm (Star (CC p)) (i, r, cs)) \<longleftrightarrow>
     (\<exists>k \<le> length (takeWhile p r). t = (i + k, drop k r, cs))"
proof (induction r arbitrary: i)
  case Nil
  then show ?case by (simp add: rm.simps(5))
next
  case (Cons c r)
  show ?case
  proof (cases "p c")
    case True
    have "t \<in> set (rm (Star (CC p)) (i, c # r, cs)) \<longleftrightarrow>
        t \<in> set (rm (Star (CC p)) (Suc i, r, cs)) \<or> t = (i, c # r, cs)"
      using True by (subst rm.simps(5)) auto
    also have "\<dots> \<longleftrightarrow> (\<exists>k \<le> length (takeWhile p r). t = (Suc i + k, drop k r, cs)) \<or> t = (i, c # r, cs)"
      by (simp only: Cons.IH)
    also have "\<dots> \<longleftrightarrow> (\<exists>k \<le> Suc (length (takeWhile p r)). t = (i + k, drop k (c # r), cs))"
      by (subst ex_le_Suc) auto
    finally show ?thesis using True by simp
  next
    case False
    then show ?thesis by (subst rm.simps(5)) auto
  qed
qed

text \<open>\<^verbatim>\<open>/^[p]+$/\<close> tests that the whole, non-empty string lies in the class.\<close>

lemma re_test_full_class:
  "re_test (seqs [Bol, rplus (CC p), Eol]) s \<longleftrightarrow> s \<noteq> [] \<and> list_all p s"
proof (cases s)
  case Nil
  then show ?thesis by (simp add: seqs_def rplus_def re_test_Bol)
next
  case (Cons c r)
  have "(\<exists>t \<in> set (rm (Star (CC p)) (Suc 0, r, [])). rest_of t = []) \<longleftrightarrow> list_all p r"
  proof -
    have "(\<exists>t \<in> set (rm (Star (CC p)) (Suc 0, r, [])). rest_of t = []) \<longleftrightarrow>
        length r \<le> length (takeWhile p r)"
      unfolding Bex_def set_rm_Star_CC by auto
    also have "\<dots> \<longleftrightarrow> takeWhile p r = r"
      by (metis append_eq_conv_conj length_takeWhile_le le_antisym order_refl take_all takeWhile_dropWhile_id)
    finally show ?thesis by (simp add: takeWhile_eq_all_conv list_all_iff)
  qed
  then show ?thesis
    using Cons by (auto simp: seqs_def rplus_def re_test_Bol)
qed

end
