(* ===== verification/Inject.thy ===== *)
theory Inject
  imports JsRegex
begin

text \<open>
  Typing text into a terminal on behalf of the user: \<^verbatim>\<open>terminal/inject.ts\<close>. The theory holds
  the device-report filter that every keystroke passes, the sanitizer every injected text
  passes, bracketed paste, and the injection procedure itself with its input gates.

  \<^verbatim>\<open>injectShellText\<close> runs across animation frames and awaited sends. Its model returns the
  list of effects in the order in which they happen; the clock readings at its four
  \<^verbatim>\<open>armGates\<close> calls and the outcomes of the awaited sends are arguments.
\<close>

section \<open>Device reports\<close>

definition digits_semi :: re where
  [js_eval]: "digits_semi = Star (CC (\<lambda>c. is_digit c \<or> c = 59))"

definition hex14 :: re where
  [js_eval]: "hex14 = rep1 4 (CC is_hex)"

text \<open>\<^verbatim>\<open>RGB\<close>\<close>

definition RGB :: re where
  [js_eval]: "RGB = seqs [lit ''rgb:'', hex14, chr 47, hex14, chr 47, hex14]"

definition one_012 :: re where
  [js_eval]: "one_012 = seqs [chr 49, cls ''012'', chr 59]"

definition bel_or_st :: re where
  [js_eval]: "bel_or_st = Alt (chr 7) (Seq (chr 27) (chr 92))"

definition OSC_RGB :: re where
  [js_eval]: "OSC_RGB = seqs [chr 27, chr 93, one_012, RGB, ropt bel_or_st]"

definition BARE_OSC_RGB :: re where
  [js_eval]: "BARE_OSC_RGB = seqs [one_012, RGB]"

definition CSI_DA :: re where
  [js_eval]: "CSI_DA = seqs [chr 27, chr 91, ropt (chr 63), digits_semi, chr 99]"

definition CSI_DA_SEC :: re where
  [js_eval]: "CSI_DA_SEC = seqs [chr 27, chr 91, chr 62, digits_semi, chr 99]"

definition BARE_DA :: re where
  [js_eval]: "BARE_DA = rplus (alts
     [seqs [chr 63, digits_semi, chr 99],
      seqs [chr 62, digits_semi, chr 99],
      seqs [rep1 8 (Seq (rplus (CC is_digit)) (chr 59)), Star (CC is_digit), chr 99]])"

definition stripDeviceReports :: "jsstr \<Rightarrow> jsstr" where
  "stripDeviceReports data =
     replace_all (chr 7) []
      (replace_all BARE_OSC_RGB []
       (replace_all BARE_DA []
        (replace_all OSC_RGB []
         (replace_all CSI_DA_SEC []
          (replace_all CSI_DA [] data)))))"

definition ws_or_c0 :: "nat \<Rightarrow> bool" where
  [js_eval]: "ws_or_c0 c \<longleftrightarrow> is_ws c \<or> c \<le> 31 \<or> c = 127"

definition looksLikeDeviceReport :: "jsstr \<Rightarrow> bool" where
  "looksLikeDeviceReport data =
     (if data = [] then False
      else let withoutReports = stripDeviceReports data in
        if withoutReports = data then False
        else let rest = replace_all (CC ws_or_c0) [] withoutReports in
          if length rest = 0 then True
          else if length rest \<le> 8
               \<and> re_test (seqs [Bol, rplus (CC (\<lambda>c. is_digit c \<or> c \<in> {59, 99, 63, 62, 47})), Eol]) rest
          then True else False)"

section \<open>The sanitizer and bracketed paste\<close>

definition CSI_SEQ :: re where
  [js_eval]: "CSI_SEQ = seqs [chr 27, chr 91, Star (CC (\<lambda>c. is_digit c \<or> c = 59 \<or> c = 63)),
     Star (CC (\<lambda>c. 32 \<le> c \<and> c \<le> 47)), CC (\<lambda>c. 64 \<le> c \<and> c \<le> 126)]"

definition OSC_SEQ :: re where
  [js_eval]: "OSC_SEQ = seqs [chr 27, chr 93, Star (CC (\<lambda>c. c \<noteq> 7 \<and> c \<noteq> 27)), ropt bel_or_st]"

definition DCS_SEQ :: re where
  [js_eval]: "DCS_SEQ = seqs [chr 27, cls ''PX^_'', Star (CC (\<lambda>c. c \<noteq> 27)), chr 27, chr 92]"

definition ESC_ANY :: re where
  [js_eval]: "ESC_ANY = seqs [chr 27, CC is_dot]"

definition is_c0 :: "nat \<Rightarrow> bool" where
  [js_eval]: "is_c0 c \<longleftrightarrow> c \<le> 8 \<or> c = 11 \<or> c = 12 \<or> (14 \<le> c \<and> c \<le> 31) \<or> c = 127"

definition sanitizeShellPayload :: "jsstr \<Rightarrow> jsstr" where
  "sanitizeShellPayload text =
     stripDeviceReports
      (replace_all (CC is_c0) []
       (replace_all ESC_ANY []
        (replace_all DCS_SEQ []
         (replace_all OSC_SEQ []
          (replace_all CSI_SEQ []
           (replace_all (chr 13) [10]
            (replace_all (Seq (chr 13) (chr 10)) [10] text)))))))"

definition paste_start :: jsstr where
  "paste_start = [27] @ js ''[200~''"

definition paste_end :: jsstr where
  "paste_end = [27] @ js ''[201~''"

definition withBracketedPaste :: "jsstr \<Rightarrow> jsstr" where
  "withBracketedPaste text = (if 10 \<notin> set text then text else paste_start @ text @ paste_end)"

section \<open>Injection\<close>

text \<open>What the module asks of its surroundings.\<close>

datatype effect =
    SuppressPtyUserInput int
  | SuppressAll int
  | ArmShield int
  | BlurAll
  | SendInput session_id jsstr
  | FocusSession session_id
  | AwaitFrame
  | Sleep int

text \<open>The optional members of the \<^verbatim>\<open>Gates\<close> object the registry binds.\<close>

record gates =
  has_blurAll :: bool
  has_focus :: bool

record inject_state =
  dropDeviceReportsUntil :: int
  gates :: "gates option"

record inject_options =
  opt_run :: "bool option"
  opt_clearLine :: "bool option"
  opt_armGates :: "bool option"
  opt_suppressMs :: "int option"

definition bindInjectGates :: "gates \<Rightarrow> inject_state \<Rightarrow> inject_state" where
  "bindInjectGates g st = st\<lparr>gates := Some g\<rparr>"

definition deviceReportDropActive :: "int \<Rightarrow> inject_state \<Rightarrow> bool" where
  "deviceReportDropActive now st \<longleftrightarrow> now < dropDeviceReportsUntil st"

definition armGates :: "int \<Rightarrow> int \<Rightarrow> inject_state \<Rightarrow> inject_state \<times> effect list" where
  "armGates now ms st =
     (st\<lparr>dropDeviceReportsUntil := max (dropDeviceReportsUntil st) (now + ms)\<rparr>,
      [SuppressPtyUserInput ms]
      @ (case gates st of None \<Rightarrow> []
         | Some g \<Rightarrow> [SuppressAll ms, ArmShield (min 1200 ms)] @ (if has_blurAll g then [BlurAll] else [])))"

definition focus_effect :: "inject_state \<Rightarrow> session_id \<Rightarrow> effect list" where
  "focus_effect st sid =
     (case gates st of None \<Rightarrow> [] | Some g \<Rightarrow> if has_focus g then [FocusSession sid] else [])"

definition armShellInjectGate :: "int \<Rightarrow> int \<Rightarrow> inject_state \<Rightarrow> inject_state \<times> effect list" where
  "armShellInjectGate now durationMs st = armGates now durationMs st"

text \<open>\<^verbatim>\<open>/^\n+|\n+$/g\<close>\<close>

definition EDGE_NEWLINES :: re where
  [js_eval]: "EDGE_NEWLINES = Alt (Seq Bol (rplus (chr 10))) (Seq (rplus (chr 10)) Eol)"

definition inject_body :: "jsstr \<Rightarrow> bool \<Rightarrow> jsstr" where
  "inject_body clean run = withBracketedPaste clean @ (if run then [10] else [])"

definition clean_text :: "jsstr \<Rightarrow> jsstr" where
  "clean_text text = replace_all EDGE_NEWLINES [] (sanitizeShellPayload text)"

text \<open>Clock readings of the four \<^verbatim>\<open>armGates\<close> calls, outcomes of the two awaited sends.\<close>

record inject_env =
  t_call :: int
  t_frame :: int
  t_cleared :: int
  t_sent :: int
  first_ok :: bool
  second_ok :: bool

definition deliver :: "inject_env \<Rightarrow> session_id \<Rightarrow> jsstr \<Rightarrow> int \<Rightarrow> inject_state \<Rightarrow> inject_state \<times> effect list" where
  "deliver env sid body ms st =
     (if \<not> first_ok env then (st, [SendInput sid [21]])
      else let (st1, e1) = armGates (t_cleared env) (max 800 (ms - 300)) st;
               pre = [SendInput sid [21], Sleep 50] @ e1 @ [SendInput sid ([21] @ body)]
           in if \<not> second_ok env then (st1, pre)
              else let (st2, e2) = armGates (t_sent env) (max 600 (min ms 1200)) st1
                   in (st2, pre @ e2 @ focus_effect st2 sid))"

definition injectShellText ::
  "inject_env \<Rightarrow> session_id \<Rightarrow> jsstr \<Rightarrow> inject_options \<Rightarrow> inject_state \<Rightarrow> inject_state \<times> effect list" where
  "injectShellText env sid text opts st =
     (let clean = clean_text text in
      if clean = [] then (st, [])
      else let clearLine = (opt_clearLine opts \<noteq> Some False);
               useGates = (case opt_armGates opts of Some b \<Rightarrow> b | None \<Rightarrow> clearLine);
               suppressMs = (case opt_suppressMs opts of Some m \<Rightarrow> m | None \<Rightarrow> 2500);
               run = (opt_run opts = Some True);
               body = inject_body clean run
           in if \<not> useGates then (st, [SendInput sid body] @ focus_effect st sid)
              else let (st1, e1) = armGates (t_call env) suppressMs st;
                       (st2, e2) = armGates (t_frame env) suppressMs st1;
                       (st3, e3) = deliver env sid body suppressMs st2
                   in (st3, e1 @ [AwaitFrame, AwaitFrame] @ e2 @ e3))"

section \<open>What the filters can remove\<close>

text \<open>Characters that every match of a report expression contains.\<close>

lemma report_needs:
  "needs (\<lambda>c. c = 27) CSI_DA" "needs (\<lambda>c. c = 99) CSI_DA"
  "needs (\<lambda>c. c = 27) CSI_DA_SEC" "needs (\<lambda>c. c = 99) CSI_DA_SEC"
  "needs (\<lambda>c. c = 27) OSC_RGB" "needs (\<lambda>c. c = 58) OSC_RGB"
  "needs (\<lambda>c. c = 59) BARE_OSC_RGB" "needs (\<lambda>c. c = 58) BARE_OSC_RGB"
  "needs (\<lambda>c. c = 99) BARE_DA" "needs (\<lambda>c. c = 63 \<or> c = 62 \<or> c = 59) BARE_DA"
  by (auto simp: CSI_DA_def CSI_DA_SEC_def OSC_RGB_def BARE_OSC_RGB_def BARE_DA_def RGB_def
      one_012_def seqs_def lit_def chr_def rplus_def rep1_def js_def)

lemmas replace_none = report_needs [THEN replace_all_needs]

lemma set_stripDeviceReports: "set (stripDeviceReports s) \<subseteq> set s - {7}"
proof -
  let ?s = "replace_all BARE_OSC_RGB [] (replace_all BARE_DA [] (replace_all OSC_RGB []
     (replace_all CSI_DA_SEC [] (replace_all CSI_DA [] s))))"
  have "set ?s \<subseteq> set s"
    by (blast dest: set_delete_all)
  then show ?thesis
    by (auto simp: stripDeviceReports_def chr_def replace_all_CC_delete)
qed

lemma stripDeviceReports_id:
  assumes "\<forall>c \<in> set s. c \<notin> {7, 27, 59, 62, 63}"
  shows "stripDeviceReports s = s"
proof -
  have "replace_all CSI_DA [] s = s" "replace_all CSI_DA_SEC [] s = s" "replace_all OSC_RGB [] s = s"
    "replace_all BARE_DA [] s = s" "replace_all BARE_OSC_RGB [] s = s"
    using assms by (auto intro: replace_none)
  moreover have "filter (\<lambda>c. c \<noteq> 7) s = s"
    using assms by (auto simp: filter_id_conv)
  ultimately show ?thesis by (simp add: stripDeviceReports_def chr_def replace_all_CC_delete)
qed

lemma stripDeviceReports_single: "stripDeviceReports [c] = (if c = 7 then [] else [c])"
proof -
  have a: "replace_all CSI_DA [] [c] = [c]" "replace_all CSI_DA_SEC [] [c] = [c]"
    by (cases "c = 27"; auto intro: replace_none)+
  have b: "replace_all OSC_RGB [] [c] = [c]" "replace_all BARE_OSC_RGB [] [c] = [c]"
    by (cases "c = 58"; auto intro: replace_none)+
  have d: "replace_all BARE_DA [] [c] = [c]"
    by (cases "c = 99"; auto intro: replace_none)
  show ?thesis by (simp add: stripDeviceReports_def a b d chr_def replace_all_CC_delete)
qed

text \<open>The sanitizer leaves printable characters, TAB and LF.\<close>

definition typed_char :: "nat \<Rightarrow> bool" where
  "typed_char c \<longleftrightarrow> c = 9 \<or> c = 10 \<or> (32 \<le> c \<and> c \<noteq> 127)"

lemma sanitized_chars: "c \<in> set (sanitizeShellPayload t) \<Longrightarrow> typed_char c"
proof -
  let ?a = "replace_all (chr 13) [10] (replace_all (Seq (chr 13) (chr 10)) [10] t)"
  let ?b = "replace_all ESC_ANY [] (replace_all DCS_SEQ [] (replace_all OSC_SEQ [] (replace_all CSI_SEQ [] ?a)))"
  have "13 \<notin> set ?a"
    by (auto simp: chr_def replace_all_CC split: if_splits)
  moreover have "set ?b \<subseteq> set ?a"
    by (blast dest: set_delete_all)
  ultimately have no_cr: "13 \<notin> set ?b" by blast
  assume "c \<in> set (sanitizeShellPayload t)"
  then have "c \<in> set (replace_all (CC is_c0) [] ?b)"
    using set_stripDeviceReports by (fastforce simp: sanitizeShellPayload_def)
  then have "c \<in> set ?b" "\<not> is_c0 c" by (auto simp: replace_all_CC_delete)
  with no_cr show ?thesis
    by (cases "c = 13") (auto simp: is_c0_def typed_char_def)
qed

lemma clean_text_chars: "c \<in> set (clean_text t) \<Longrightarrow> typed_char c"
  using set_replace_all [of EDGE_NEWLINES "[]"] sanitized_chars by (fastforce simp: clean_text_def)

lemma clean_no_esc: "27 \<notin> set (clean_text t)" and clean_no_cr: "13 \<notin> set (clean_text t)"
  using clean_text_chars [of 27 t] clean_text_chars [of 13 t] by (auto simp: typed_char_def)

text \<open>Where a marker character can stand in a list that contains it once.\<close>

lemma append_marker_cases:
  "x \<notin> set a \<Longrightarrow> a @ x # b = p @ x # q \<Longrightarrow> (p = a \<and> q = b) \<or> (\<exists>r. p = a @ x # r \<and> b = r @ x # q)"
  by (induction a arbitrary: p) (auto simp: Cons_eq_append_conv)

section \<open>The gates of an injection\<close>

definition arm_reports :: "int \<Rightarrow> int \<Rightarrow> inject_state \<Rightarrow> inject_state" where
  "arm_reports now ms st = fst (armGates now ms st)"

interpretation report_gate: deadline_gate arm_reports deviceReportDropActive
  by unfold_locales (auto simp: arm_reports_def armGates_def deviceReportDropActive_def)

lemma armGates_gates [simp]: "gates (fst (armGates now ms st)) = gates st"
  by (simp add: armGates_def)

definition uses_gates :: "inject_options \<Rightarrow> bool" where
  "uses_gates opts \<longleftrightarrow> (case opt_armGates opts of Some b \<Rightarrow> b | None \<Rightarrow> opt_clearLine opts \<noteq> Some False)"

definition suppress_ms :: "inject_options \<Rightarrow> int" where
  "suppress_ms opts = (case opt_suppressMs opts of Some m \<Rightarrow> m | None \<Rightarrow> 2500)"

lemmas inject_unfold = injectShellText_def uses_gates_def [symmetric] suppress_ms_def [symmetric] Let_def

lemma inject_arms:
  assumes "clean_text text \<noteq> []" "uses_gates opts" "first_ok env" "second_ok env"
  shows "fst (injectShellText env sid text opts st) =
     report_gate.arms
       [(t_call env, suppress_ms opts), (t_frame env, suppress_ms opts),
        (t_cleared env, max 800 (suppress_ms opts - 300)),
        (t_sent env, max 600 (min (suppress_ms opts) 1200))] st"
  using assms
  by (simp add: inject_unfold deliver_def report_gate.arms_def arm_reports_def case_prod_beta)

text \<open>The text that reaches the shell, in order.\<close>

fun sent :: "effect list \<Rightarrow> jsstr" where
  "sent [] = []"
| "sent (SendInput sid p # es) = p @ sent es"
| "sent (e # es) = sent es"

lemma sent_append [simp]: "sent (a @ b) = sent a @ sent b"
  by (induction a rule: sent.induct) auto

lemma sent_armGates [simp]: "sent (snd (armGates now ms st)) = []"
  by (auto simp: armGates_def split: option.splits)

lemma sent_focus [simp]: "sent (focus_effect st sid) = []"
  by (auto simp: focus_effect_def split: option.splits)

lemma sent_deliver:
  "sent (snd (deliver env sid body ms st)) = [21] @ (if first_ok env then [21] @ body else [])"
  by (simp add: deliver_def Let_def case_prod_beta)

lemma sent_inject:
  "clean_text text \<noteq> [] \<Longrightarrow>
   sent (snd (injectShellText env sid text opts st)) =
     (if uses_gates opts then [21] @ (if first_ok env then [21] else []) else [])
     @ (if uses_gates opts \<and> \<not> first_ok env then []
        else inject_body (clean_text text) (opt_run opts = Some True))"
  by (simp add: inject_unfold sent_deliver case_prod_beta)

section \<open>Properties\<close>

text \<open>
  Sanitized text is plain text: whatever is pasted or inserted, every character that
  survives is printable, a TAB or a line feed; no escape, carriage return or other control
  character can reach the shell.
\<close>

theorem sanitize_only_typed_chars:
  "list_all typed_char (sanitizeShellPayload text) \<and> list_all typed_char (clean_text text)"
  using sanitized_chars clean_text_chars by (auto simp: list_all_iff)

text \<open>
  C4. A bracketed paste cannot be ended from inside: in the text sent for a multi-line
  payload the end marker occurs at the very end only, so embedded newlines stay literal.
\<close>

theorem bracketed_paste_cannot_be_closed_early:
  assumes "withBracketedPaste (clean_text text) = pre @ paste_end @ post"
  shows "post = [] \<and> pre = paste_start @ clean_text text"
proof -
  let ?c = "clean_text text"
  have nl: "10 \<in> set ?c"
  proof (rule ccontr)
    assume "10 \<notin> set ?c"
    then have "27 \<in> set ?c" using assms by (simp add: withBracketedPaste_def paste_end_def)
    then show False using clean_no_esc by blast
  qed
  let ?m = "js ''[200~'' @ ?c"
  have eq: "27 # ?m @ 27 # js ''[201~'' = pre @ 27 # (js ''[201~'' @ post)"
    using assms nl by (simp add: withBracketedPaste_def paste_start_def paste_end_def)
  have m: "27 \<notin> set ?m" and e: "27 \<notin> set (js ''[201~'')"
    using clean_no_esc by (auto simp: js_def)
  have "pre \<noteq> []"
  proof
    assume "pre = []"
    with eq show False by (simp add: js_def)
  qed
  with eq obtain r where r: "pre = 27 # r" "?m @ 27 # js ''[201~'' = r @ 27 # (js ''[201~'' @ post)"
    by (cases pre) auto
  from append_marker_cases [OF m r(2)] e have "r = ?m \<and> js ''[201~'' @ post = js ''[201~''"
    by (auto simp: js_def)
  with r(1) show ?thesis by (simp add: paste_start_def)
qed

theorem bracketed_paste_cannot_be_closed_early_witness:
  "withBracketedPaste (clean_text [97, 10, 98]) = (paste_start @ [97, 10, 98]) @ paste_end @ []
   \<and> paste_start @ [97, 10, 98] = paste_start @ clean_text [97, 10, 98]"
proof -
  have c: "clean_text [97, 10, 98] = [97, 10, 98]"
    by (simp add: clean_text_def sanitizeShellPayload_def stripDeviceReports_def js_eval)
  then have h: "withBracketedPaste (clean_text [97, 10, 98]) = (paste_start @ [97, 10, 98]) @ paste_end @ []"
    by (simp add: withBracketedPaste_def)
  from bracketed_paste_cannot_be_closed_early [OF h] h show ?thesis by blast
qed

text \<open>
  Of all single-unit keystrokes only the bell character is taken for a device report:
  Enter, Tab, Ctrl-C and every printable key pass the input filter, Ctrl-G does not.
\<close>

theorem single_key_report_iff_bel: "looksLikeDeviceReport [c] \<longleftrightarrow> c = 7"
  by (simp add: looksLikeDeviceReport_def stripDeviceReports_single replace_all_def Let_def)

text \<open>
  Text without escape, bell, question mark, greater-than sign or semicolon passes the
  report filter unchanged and is never taken for a report.
\<close>

theorem plain_text_not_filtered:
  assumes "\<forall>c \<in> set s. c \<notin> {7, 27, 59, 62, 63}"
  shows "stripDeviceReports s = s \<and> \<not> looksLikeDeviceReport s"
  using stripDeviceReports_id [OF assms] by (simp add: looksLikeDeviceReport_def)

theorem plain_text_not_filtered_witness:
  "stripDeviceReports (js ''git commit'') = js ''git commit'' \<and> \<not> looksLikeDeviceReport (js ''git commit'')"
  using plain_text_not_filtered [of "js ''git commit''"] by (simp add: js_def)

text \<open>
  The report filter also eats shell text: a redirection to a file whose name starts
  with \<^verbatim>\<open>c\<close>, or \<^verbatim>\<open>cat\<close> after \<^verbatim>\<open>1;\<close>, has the shape of a device-attributes reply once the escape
  is gone, and the characters are deleted from what the user pasted.
\<close>

theorem report_filter_corrupts_commands:
  "stripDeviceReports (js ''echo hi >config'') = js ''echo hi onfig''
   \<and> stripDeviceReports (js ''sleep 1;cat x'') = js ''sleep at x''"
  by code_simp

text \<open>
  C3. An insertion without \<^verbatim>\<open>run\<close> never executes a one-line command: no line feed or carriage
  return is sent, whatever the options and however the sends turn out.
\<close>

theorem insert_never_runs:
  assumes "opt_run opts \<noteq> Some True" and "10 \<notin> set (clean_text text)"
  shows "10 \<notin> set (sent (snd (injectShellText env sid text opts st)))
     \<and> 13 \<notin> set (sent (snd (injectShellText env sid text opts st)))"
proof (cases "clean_text text = []")
  case True
  then show ?thesis by (simp add: injectShellText_def)
next
  case False
  from assms False clean_no_cr [of "text"] show ?thesis
    by (simp add: sent_inject inject_body_def withBracketedPaste_def)
qed

theorem insert_never_runs_witness:
  "sent (snd (injectShellText
      \<lparr>t_call = 0, t_frame = 32, t_cleared = 90, t_sent = 95, first_ok = True, second_ok = True\<rparr>
      [1] (js ''ls'') \<lparr>opt_run = Some False, opt_clearLine = None, opt_armGates = None, opt_suppressMs = None\<rparr>
      \<lparr>dropDeviceReportsUntil = 0, gates = None\<rparr>)) = [21, 21] @ js ''ls''
   \<and> 10 \<notin> set (sent (snd (injectShellText
      \<lparr>t_call = 0, t_frame = 32, t_cleared = 90, t_sent = 95, first_ok = True, second_ok = True\<rparr>
      [1] (js ''ls'') \<lparr>opt_run = Some False, opt_clearLine = None, opt_armGates = None, opt_suppressMs = None\<rparr>
      \<lparr>dropDeviceReportsUntil = 0, gates = None\<rparr>)))"
proof -
  have c: "clean_text (js ''ls'') = js ''ls''"
    by (simp add: clean_text_def sanitizeShellPayload_def stripDeviceReports_def js_eval)
  have n: "js ''ls'' \<noteq> []" "10 \<notin> set (js ''ls'')" by (simp_all add: js_def)
  have h: "10 \<notin> set (clean_text (js ''ls''))" by (simp add: c n)
  show ?thesis
    using insert_never_runs
      [of "\<lparr>opt_run = Some False, opt_clearLine = None, opt_armGates = None, opt_suppressMs = None\<rparr>", OF _ h]
    by (simp add: sent_inject uses_gates_def inject_body_def withBracketedPaste_def c n)
qed

text \<open>
  A paste leaves the keyboard alone: with \<^verbatim>\<open>clearLine: false\<close> the only effects are one
  send of the whole body and the refocus, and no gate or deadline changes.
\<close>

theorem paste_never_arms_gates:
  assumes "opt_clearLine opts = Some False" "opt_armGates opts = None" "clean_text text \<noteq> []"
  shows "injectShellText env sid text opts st =
     (st, SendInput sid (inject_body (clean_text text) (opt_run opts = Some True)) # focus_effect st sid)"
  using assms by (simp add: injectShellText_def)

theorem paste_never_arms_gates_witness:
  "snd (injectShellText
      \<lparr>t_call = 0, t_frame = 0, t_cleared = 0, t_sent = 0, first_ok = True, second_ok = True\<rparr> [1] (js ''ls'')
     \<lparr>opt_run = None, opt_clearLine = Some False, opt_armGates = None, opt_suppressMs = None\<rparr>
     \<lparr>dropDeviceReportsUntil = 0, gates = Some \<lparr>has_blurAll = True, has_focus = True\<rparr>\<rparr>)
   = [SendInput [1] (js ''ls''), FocusSession [1]]"
proof -
  have c: "clean_text (js ''ls'') = js ''ls''"
    by (simp add: clean_text_def sanitizeShellPayload_def stripDeviceReports_def js_eval)
  have n: "js ''ls'' \<noteq> []" "10 \<notin> set (js ''ls'')" by (simp_all add: js_def)
  show ?thesis
    using paste_never_arms_gates
      [of "\<lparr>opt_run = None, opt_clearLine = Some False, opt_armGates = None, opt_suppressMs = None\<rparr>" "js ''ls''"]
    by (simp add: c n inject_body_def withBracketedPaste_def focus_effect_def)
qed

text \<open>
  During a gated injection device reports stay dropped: at every instant covered by one
  of the four windows the gate is closed in the final state, and no deadline that was
  already set is shortened.
\<close>

theorem injection_keeps_report_gate_closed:
  assumes "clean_text text \<noteq> []" "uses_gates opts" "first_ok env" "second_ok env"
    and "(t_call env \<le> t \<and> t < t_call env + suppress_ms opts)
       \<or> (t_cleared env \<le> t \<and> t < t_cleared env + 800)
       \<or> (t_sent env \<le> t \<and> t < t_sent env + 600)
       \<or> deviceReportDropActive t st"
  shows "deviceReportDropActive t (fst (injectShellText env sid text opts st))"
proof -
  let ?evs = "[(t_call env, suppress_ms opts), (t_frame env, suppress_ms opts),
     (t_cleared env, max 800 (suppress_ms opts - 300)), (t_sent env, max 600 (min (suppress_ms opts) 1200))]"
  from assms(5) consider
      "t_call env \<le> t" "t < t_call env + suppress_ms opts"
    | "t_cleared env \<le> t" "t < t_cleared env + max 800 (suppress_ms opts - 300)"
    | "t_sent env \<le> t" "t < t_sent env + max 600 (min (suppress_ms opts) 1200)"
    | "deviceReportDropActive t st" by fastforce
  then have "deviceReportDropActive t (report_gate.arms ?evs st)"
  proof cases
    case 4
    then show ?thesis by (rule report_gate.arms_keep)
  qed (auto intro: report_gate.arms_close)
  then show ?thesis using inject_arms [OF assms(1-4)] by simp
qed

theorem injection_keeps_report_gate_closed_witness:
  "deviceReportDropActive 2499 (fst (injectShellText
      \<lparr>t_call = 0, t_frame = 32, t_cleared = 90, t_sent = 95, first_ok = True, second_ok = True\<rparr>
      [1] (js ''ls'') \<lparr>opt_run = None, opt_clearLine = None, opt_armGates = None, opt_suppressMs = None\<rparr>
      \<lparr>dropDeviceReportsUntil = 0, gates = None\<rparr>))"
proof -
  have c: "clean_text (js ''ls'') = js ''ls''"
    by (simp add: clean_text_def sanitizeShellPayload_def stripDeviceReports_def js_eval)
  have n: "js ''ls'' \<noteq> []" by (simp add: js_def)
  show ?thesis
    by (rule injection_keeps_report_gate_closed) (simp_all add: c n uses_gates_def suppress_ms_def)
qed

end
