(* ===== verification/TransferQueue.thy ===== *)
theory TransferQueue
  imports Prelude
begin

text \<open>
  The SFTP transfer queue of \<^verbatim>\<open>sftp/transferQueue.ts\<close>. \<^verbatim>\<open>TransferQueueRunner\<close> runs one transfer
  at a time. Its \<^verbatim>\<open>pump\<close> is asynchronous: it starts a transfer and resumes when the backend's
  promise settles. The model splits it there: \<open>pump\<close> is the part up to the \<^verbatim>\<open>await\<close>,
  \<open>settle_ok\<close> and \<open>settle_err\<close> are the continuations (with the \<^verbatim>\<open>finally\<close> block, which pumps
  again), and progress events arrive in between through \<open>applyEvent\<close>. Calls to the backend and
  change notifications are recorded in a log, newest last.
\<close>

section \<open>State\<close>

datatype transfer_direction = Upload | Download

datatype transfer_status = Queued | Running | Paused | Completed | Failed | Cancelled

record transfer_item =
  item_id :: jsstr
  direction :: transfer_direction
  localPath :: jsstr
  remotePath :: jsstr
  label :: jsstr
  status :: transfer_status
  bytesTransferred :: int
  totalBytes :: "int option"
  offset :: int
  error :: "jsstr option"
  filesDone :: "int option"
  filesTotal :: "int option"
  currentFile :: "jsstr option"

text \<open>What the caller of \<^verbatim>\<open>enqueue\<close> supplies.\<close>

record transfer_request =
  req_id :: jsstr
  req_direction :: transfer_direction
  req_localPath :: jsstr
  req_remotePath :: jsstr
  req_label :: jsstr
  req_offset :: "int option"

record transfer_event =
  ev_kind :: jsstr
  ev_bytes :: int
  ev_total :: "int option"
  ev_filesDone :: "int option"
  ev_filesTotal :: "int option"
  ev_currentFile :: "jsstr option"
  ev_message :: "jsstr option"

datatype backend_call =
    SftpTransfer jsstr transfer_direction jsstr jsstr int
  | CancelSftpTransfer jsstr
  | OnChange

record transfer_queue =
  items :: "transfer_item list"
  running :: bool
  activeId :: "jsstr option"
  log :: "backend_call list"

definition new_queue :: transfer_queue where
  "new_queue = \<lparr>items = [], running = False, activeId = None, log = []\<rparr>"

section \<open>Operations\<close>

definition emit :: "backend_call \<Rightarrow> transfer_queue \<Rightarrow> transfer_queue" where
  "emit c q = q\<lparr>log := log q @ [c]\<rparr>"

text \<open>Assigning to fields of the row that \<^verbatim>\<open>find\<close> returned.\<close>

definition upd_item :: "jsstr \<Rightarrow> (transfer_item \<Rightarrow> transfer_item) \<Rightarrow> transfer_queue \<Rightarrow> transfer_queue" where
  "upd_item i f q = q\<lparr>items := update_first (\<lambda>x. item_id x = i) f (items q)\<rparr>"

definition pump :: "transfer_queue \<Rightarrow> transfer_queue" where
  "pump q =
     (if running q then q
      else case find (\<lambda>x. status x = Queued) (items q) of
        None \<Rightarrow> q
      | Some next \<Rightarrow>
          emit (SftpTransfer (item_id next) (direction next) (localPath next) (remotePath next) (offset next))
           (emit OnChange
             (q\<lparr>running := True, activeId := Some (item_id next),
                items := update_first (\<lambda>x. status x = Queued) (\<lambda>x. x\<lparr>status := Running\<rparr>) (items q)\<rparr>)))"

definition enqueue :: "transfer_request \<Rightarrow> transfer_queue \<Rightarrow> transfer_queue" where
  "enqueue r q =
     (let off = (case req_offset r of Some o1 \<Rightarrow> o1 | None \<Rightarrow> 0);
          item = \<lparr>item_id = req_id r, direction = req_direction r, localPath = req_localPath r,
                  remotePath = req_remotePath r, label = req_label r, status = Queued,
                  bytesTransferred = off, totalBytes = None, offset = off, error = None,
                  filesDone = None, filesTotal = None, currentFile = None\<rparr>
      in pump (emit OnChange (q\<lparr>items := items q @ [item]\<rparr>)))"

definition pauseActive :: "transfer_queue \<Rightarrow> transfer_queue" where
  "pauseActive q = (case activeId q of None \<Rightarrow> q | Some i \<Rightarrow> if i = [] then q else emit (CancelSftpTransfer i) q)"

definition lookup_item :: "jsstr \<Rightarrow> transfer_queue \<Rightarrow> transfer_item option" where
  "lookup_item i q = find_row item_id i (items q)"

definition requeue :: "transfer_item \<Rightarrow> transfer_item" where
  "requeue x = x\<lparr>status := Queued, error := None\<rparr>"

definition resume :: "jsstr \<Rightarrow> transfer_queue \<Rightarrow> transfer_queue" where
  "resume i q =
     (case lookup_item i q of None \<Rightarrow> q
      | Some item \<Rightarrow> if status item \<noteq> Paused then q else pump (emit OnChange (upd_item i requeue q)))"

definition cancel :: "jsstr \<Rightarrow> transfer_queue \<Rightarrow> transfer_queue" where
  "cancel i q =
     (case lookup_item i q of None \<Rightarrow> q
      | Some item \<Rightarrow>
          if status item = Running \<and> activeId q = Some i then emit (CancelSftpTransfer i) q
          else emit OnChange (upd_item i (\<lambda>x. x\<lparr>status := Cancelled\<rparr>) q))"

definition retry :: "jsstr \<Rightarrow> transfer_queue \<Rightarrow> transfer_queue" where
  "retry i q =
     (case lookup_item i q of None \<Rightarrow> q
      | Some item \<Rightarrow> pump (emit OnChange (upd_item i requeue q)))"

definition clearCompleted :: "transfer_queue \<Rightarrow> transfer_queue" where
  "clearCompleted q =
     emit OnChange (q\<lparr>items := filter (\<lambda>x. status x \<noteq> Completed \<and> status x \<noteq> Cancelled) (items q)\<rparr>)"

text \<open>\<^verbatim>\<open>applyEvent\<close> on the row: counters first, then the event kind.\<close>

definition apply_counters :: "transfer_event \<Rightarrow> transfer_item \<Rightarrow> transfer_item" where
  "apply_counters e x =
     x\<lparr>bytesTransferred := ev_bytes e,
       totalBytes := (case ev_total e of None \<Rightarrow> totalBytes x | t \<Rightarrow> t),
       filesDone := (case ev_filesDone e of None \<Rightarrow> filesDone x | d \<Rightarrow> d),
       filesTotal := (case ev_filesTotal e of None \<Rightarrow> filesTotal x | t \<Rightarrow> t),
       currentFile := (case ev_currentFile e of None \<Rightarrow> currentFile x
                       | Some f \<Rightarrow> if f = [] then currentFile x else Some f)\<rparr>"

definition truthy :: "jsstr option \<Rightarrow> bool" where
  "truthy m \<longleftrightarrow> m \<noteq> None \<and> m \<noteq> Some []"

definition apply_kind :: "transfer_event \<Rightarrow> transfer_item \<Rightarrow> transfer_item" where
  "apply_kind e x =
     (if ev_kind e = js ''paused'' then
        x\<lparr>status := Paused, offset := bytesTransferred x,
          error := Some (case ev_message e of Some m \<Rightarrow> m | None \<Rightarrow> js ''Paused'')\<rparr>
      else if ev_kind e = js ''failed'' then
        x\<lparr>status := Failed, error := Some (case ev_message e of Some m \<Rightarrow> m | None \<Rightarrow> js ''Transfer failed'')\<rparr>
      else if ev_kind e = js ''completed'' then
        x\<lparr>status := Completed, offset := bytesTransferred x,
          error := (if truthy (ev_message e) then ev_message e else error x)\<rparr>
      else if ev_kind e = js ''progress'' \<and> truthy (ev_message e) then x\<lparr>error := None\<rparr>
      else x)"

definition applyEvent :: "jsstr \<Rightarrow> transfer_event \<Rightarrow> transfer_queue \<Rightarrow> transfer_queue" where
  "applyEvent i e q =
     (case lookup_item i q of None \<Rightarrow> q
      | Some _ \<Rightarrow> emit OnChange (upd_item i (\<lambda>x. apply_kind e (apply_counters e x)) q))"

text \<open>The \<^verbatim>\<open>finally\<close> block.\<close>

definition settle_finally :: "transfer_queue \<Rightarrow> transfer_queue" where
  "settle_finally q = pump (emit OnChange (q\<lparr>running := False, activeId := None\<rparr>))"

text \<open>The continuation after \<^verbatim>\<open>await sftpTransfer(next.id, \<dots>)\<close>, for the item that was started.\<close>

definition settle_ok :: "jsstr \<Rightarrow> transfer_queue \<Rightarrow> transfer_queue" where
  "settle_ok i q =
     settle_finally
       (case lookup_item i q of None \<Rightarrow> q
        | Some item \<Rightarrow> if status item = Running then upd_item i (\<lambda>x. x\<lparr>status := Completed\<rparr>) q else q)"

definition settle_err :: "jsstr \<Rightarrow> jsstr \<Rightarrow> transfer_queue \<Rightarrow> transfer_queue" where
  "settle_err i message q =
     settle_finally
       (case lookup_item i q of None \<Rightarrow> q
        | Some item \<Rightarrow>
            if includes_str message (js ''cancelled'')
            then upd_item i (\<lambda>x. x\<lparr>status := Paused, error := Some (js ''Paused'')\<rparr>) q
            else upd_item i (\<lambda>x. x\<lparr>status := Failed, error := Some message\<rparr>) q)"

section \<open>The queue as a state machine\<close>

text \<open>
  The user's calls may come at any time; events and the settling of the promise concern the
  transfer in flight, which is the active one.
\<close>

inductive queue_step :: "transfer_queue \<Rightarrow> transfer_queue \<Rightarrow> bool" where
  do_enqueue: "req_id r \<notin> item_id ` set (items q) \<Longrightarrow> queue_step q (enqueue r q)"
| do_pause: "queue_step q (pauseActive q)"
| do_resume: "queue_step q (resume i q)"
| do_cancel: "queue_step q (cancel i q)"
| do_retry: "queue_step q (retry i q)"
| do_clear: "queue_step q (clearCompleted q)"
| do_event: "running q \<Longrightarrow> activeId q = Some i \<Longrightarrow> queue_step q (applyEvent i e q)"
| do_ok: "running q \<Longrightarrow> activeId q = Some i \<Longrightarrow> queue_step q (settle_ok i q)"
| do_err: "running q \<Longrightarrow> activeId q = Some i \<Longrightarrow> queue_step q (settle_err i m q)"

inductive queue_reachable :: "transfer_queue \<Rightarrow> bool" where
  reach_new: "queue_reachable new_queue"
| reach_step: "queue_reachable q \<Longrightarrow> queue_step q q' \<Longrightarrow> queue_reachable q'"

text \<open>
  The invariant: identifiers are distinct; the runner is busy exactly while a transfer is
  active; only the active item can be marked running; and the runner is never idle while an
  item is queued.
\<close>

definition ids_ok :: "transfer_queue \<Rightarrow> bool" where
  "ids_ok q \<longleftrightarrow> distinct (map item_id (items q))"

definition busy_ok :: "transfer_queue \<Rightarrow> bool" where
  "busy_ok q \<longleftrightarrow> (running q \<longleftrightarrow> activeId q \<noteq> None)
     \<and> (\<forall>x \<in> set (items q). status x = Running \<longrightarrow> activeId q = Some (item_id x))"

definition queue_ok :: "transfer_queue \<Rightarrow> bool" where
  "queue_ok q \<longleftrightarrow> ids_ok q \<and> busy_ok q \<and> (\<not> running q \<longrightarrow> (\<forall>x \<in> set (items q). status x \<noteq> Queued))"

section \<open>Every operation keeps the invariant\<close>

lemma emit_simps [simp]:
  "items (emit c q) = items q" "running (emit c q) = running q" "activeId (emit c q) = activeId q"
  "log (emit c q) = log q @ [c]"
  by (simp_all add: emit_def)

lemma upd_item_simps [simp]:
  "running (upd_item i f q) = running q" "activeId (upd_item i f q) = activeId q"
  "log (upd_item i f q) = log q"
  by (simp_all add: upd_item_def)

lemma emit_ok [simp]:
  "ids_ok (emit c q) = ids_ok q" "busy_ok (emit c q) = busy_ok q" "queue_ok (emit c q) = queue_ok q"
  by (simp_all add: ids_ok_def busy_ok_def queue_ok_def)

lemma in_update_first:
  "x \<in> set (update_first p f xs) \<Longrightarrow>
     x \<in> set xs \<or> (\<exists>y \<in> set xs. p y \<and> find p xs = Some y \<and> x = f y)"
  by (induction xs) (auto split: if_splits)

lemma update_first_ids:
  "(\<And>x. item_id (f x) = item_id x) \<Longrightarrow>
     distinct (map item_id (update_first p f xs)) = distinct (map item_id xs)"
  by (simp only: keys_update_first)

lemma upd_item_ids: "(\<And>x. item_id (f x) = item_id x) \<Longrightarrow> ids_ok (upd_item i f q) = ids_ok q"
  by (simp add: ids_ok_def upd_item_def update_first_ids)

lemma upd_item_busy:
  assumes "busy_ok q" "\<And>x. item_id (f x) = item_id x" "\<And>x. status (f x) = Running \<Longrightarrow> status x = Running"
  shows "busy_ok (upd_item i f q)"
proof -
  have "\<forall>x \<in> set (items (upd_item i f q)). status x = Running \<longrightarrow> activeId q = Some (item_id x)"
  proof (intro ballI impI)
    fix x assume x: "x \<in> set (items (upd_item i f q))" and r: "status x = Running"
    from x have "x \<in> set (items q) \<or> (\<exists>y \<in> set (items q). x = f y)"
      by (auto simp: upd_item_def dest: in_update_first)
    then show "activeId q = Some (item_id x)"
    proof
      assume "x \<in> set (items q)"
      with assms(1) r show ?thesis by (simp add: busy_ok_def)
    next
      assume "\<exists>y \<in> set (items q). x = f y"
      then obtain y where y: "y \<in> set (items q)" "x = f y" by blast
      with r have "status y = Running" using assms(3) by simp
      with y assms(1,2) show ?thesis by (simp add: busy_ok_def)
    qed
  qed
  with assms(1) show ?thesis by (simp add: busy_ok_def)
qed

lemma upd_item_no_queued:
  assumes "\<forall>x \<in> set (items q). status x \<noteq> Queued" "\<And>x. status (f x) = Queued \<Longrightarrow> status x = Queued"
  shows "\<forall>x \<in> set (items (upd_item i f q)). status x \<noteq> Queued"
proof
  fix x assume "x \<in> set (items (upd_item i f q))"
  then have "x \<in> set (items q) \<or> (\<exists>y \<in> set (items q). x = f y)"
    by (auto simp: upd_item_def dest: in_update_first)
  then show "status x \<noteq> Queued"
  proof
    assume "\<exists>y \<in> set (items q). x = f y"
    with assms(1) show ?thesis by (metis assms(2))
  qed (use assms(1) in blast)
qed

lemma upd_item_ok:
  assumes "queue_ok q" "\<And>x. item_id (f x) = item_id x"
    "\<And>x. status (f x) = Running \<Longrightarrow> status x = Running" "\<And>x. status (f x) = Queued \<Longrightarrow> status x = Queued"
  shows "queue_ok (upd_item i f q)"
proof -
  have q: "ids_ok q" "busy_ok q" "\<not> running q \<Longrightarrow> \<forall>x \<in> set (items q). status x \<noteq> Queued"
    using assms(1) by (simp_all add: queue_ok_def)
  have "ids_ok (upd_item i f q)" using q(1) upd_item_ids [OF assms(2)] by blast
  moreover have "busy_ok (upd_item i f q)" by (rule upd_item_busy [OF q(2) assms(2,3)])
  moreover have "\<not> running q \<Longrightarrow> \<forall>x \<in> set (items (upd_item i f q)). status x \<noteq> Queued"
    by (rule upd_item_no_queued [OF q(3) assms(4)])
  ultimately show ?thesis unfolding queue_ok_def upd_item_simps by blast
qed

lemma pump_idle: "\<not> running q \<Longrightarrow> \<forall>x \<in> set (items q). status x \<noteq> Queued \<Longrightarrow> pump q = q"
proof -
  assume "\<not> running q" "\<forall>x \<in> set (items q). status x \<noteq> Queued"
  moreover from this have "find (\<lambda>x. status x = Queued) (items q) = None"
    unfolding find_None_iff by blast
  ultimately show "pump q = q" by (simp add: pump_def)
qed

text \<open>\<^verbatim>\<open>pump\<close> establishes the part of the invariant about queued items.\<close>

lemma pump_ok:
  assumes "ids_ok q" "busy_ok q"
  shows "queue_ok (pump q)"
proof (cases "running q")
  case True
  with assms show ?thesis by (simp add: pump_def queue_ok_def)
next
  case False
  show ?thesis
  proof (cases "find (\<lambda>x. status x = Queued) (items q)")
    case None
    then have "pump q = q" "\<forall>x \<in> set (items q). status x \<noteq> Queued"
      by (simp_all add: pump_def) (auto simp: find_None_iff)
    with assms show ?thesis by (simp add: queue_ok_def)
  next
    case (Some nx)
    have "\<forall>x \<in> set (items q). status x \<noteq> Running" using assms(2) False by (auto simp: busy_ok_def)
    then have "\<forall>x \<in> set (update_first (\<lambda>x. status x = Queued) (\<lambda>x. x\<lparr>status := Running\<rparr>) (items q)).
        status x = Running \<longrightarrow> item_id x = item_id nx"
      using Some by (auto dest!: in_update_first)
    with Some False assms(1) show ?thesis
      by (auto simp: pump_def queue_ok_def ids_ok_def busy_ok_def update_first_ids)
  qed
qed

lemma settle_finally_ok:
  assumes "ids_ok q" "\<forall>x \<in> set (items q). status x \<noteq> Running"
  shows "queue_ok (settle_finally q)"
  unfolding settle_finally_def using assms by (intro pump_ok) (auto simp: ids_ok_def busy_ok_def)

lemma update_first_clears:
  assumes "distinct (map key xs)" "\<forall>y \<in> set xs. R y \<longrightarrow> key y = i" "\<And>y. \<not> R (f y)"
  shows "\<forall>x \<in> set (update_first (\<lambda>y. key y = i) f xs). \<not> R x"
  using assms(1,2)
proof (induction xs)
  case (Cons y ys)
  show ?case
  proof (cases "key y = i")
    case True
    then have "\<forall>z \<in> set ys. key z \<noteq> i"
      using Cons.prems(1) by (metis distinct.simps(2) image_eqI list.simps(9) set_map)
    with True Cons.prems(2) assms(3) show ?thesis by auto
  next
    case False
    then show ?thesis using Cons by auto
  qed
qed simp

text \<open>Once the item in flight is no longer marked running, none is.\<close>

lemma settled_none_running:
  assumes "queue_ok q" "activeId q = Some i" "\<And>x. item_id (f x) = item_id x" "\<And>x. status (f x) \<noteq> Running"
  shows "\<forall>x \<in> set (items (upd_item i f q)). status x \<noteq> Running"
proof -
  have "\<forall>y \<in> set (items q). status y = Running \<longrightarrow> item_id y = i"
    using assms(1,2) by (auto simp: queue_ok_def busy_ok_def)
  moreover have "distinct (map item_id (items q))" using assms(1) by (simp add: queue_ok_def ids_ok_def)
  ultimately have "\<forall>x \<in> set (update_first (\<lambda>y. item_id y = i) f (items q)). status x \<noteq> Running"
    by (intro update_first_clears) (auto simp: assms(4))
  then show ?thesis by (simp add: upd_item_def)
qed

lemma absent_none_running:
  "queue_ok q \<Longrightarrow> activeId q = Some i \<Longrightarrow> lookup_item i q = None \<Longrightarrow> x \<in> set (items q) \<Longrightarrow> status x \<noteq> Running"
  by (auto simp: queue_ok_def busy_ok_def lookup_item_def find_row_None)

lemma idle_row_none_running:
  assumes "queue_ok q" "activeId q = Some i" "lookup_item i q = Some it" "status it \<noteq> Running"
  shows "\<forall>x \<in> set (items q). status x \<noteq> Running"
proof (intro ballI notI)
  fix x assume x: "x \<in> set (items q)" "status x = Running"
  with assms(1,2) have "item_id x = i" by (auto simp: queue_ok_def busy_ok_def)
  moreover have "distinct (map item_id (items q))" using assms(1) by (simp add: queue_ok_def ids_ok_def)
  moreover have "it \<in> set (items q)" "item_id it = i"
    using assms(3) by (auto simp: lookup_item_def dest: find_row_Some_key)
  ultimately have "x = it" using x(1) by (metis distinct_map inj_onD)
  with x(2) assms(4) show False by simp
qed

lemma pump_requeue_ok: "queue_ok q \<Longrightarrow> queue_ok (pump (emit OnChange (upd_item i requeue q)))"
  by (intro pump_ok) (auto simp: queue_ok_def upd_item_ids requeue_def intro!: upd_item_busy)

lemma enqueue_ok: "queue_ok q \<Longrightarrow> req_id r \<notin> item_id ` set (items q) \<Longrightarrow> queue_ok (enqueue r q)"
  unfolding enqueue_def Let_def
  by (intro pump_ok) (auto simp: queue_ok_def ids_ok_def busy_ok_def)

lemma cancel_ok: "queue_ok q \<Longrightarrow> queue_ok (cancel i q)"
  by (auto simp: cancel_def split: option.splits intro!: upd_item_ok)

lemma clearCompleted_ok: "queue_ok q \<Longrightarrow> queue_ok (clearCompleted q)"
  by (auto simp: clearCompleted_def queue_ok_def ids_ok_def busy_ok_def distinct_map_filter)

lemma apply_event_row:
  "item_id (apply_kind e (apply_counters e x)) = item_id x"
  "status (apply_kind e (apply_counters e x)) = Running \<Longrightarrow> status x = Running"
  "status (apply_kind e (apply_counters e x)) = Queued \<Longrightarrow> status x = Queued"
  by (simp_all add: apply_kind_def apply_counters_def split: if_splits)

lemma applyEvent_ok:
  assumes "queue_ok q"
  shows "queue_ok (applyEvent i e q)"
proof -
  have "queue_ok (upd_item i (\<lambda>x. apply_kind e (apply_counters e x)) q)"
    by (rule upd_item_ok [OF assms apply_event_row])
  then show ?thesis using assms by (simp add: applyEvent_def split: option.split)
qed

text \<open>Both continuations leave the item in flight in a status other than running before the \<^verbatim>\<open>finally\<close> block.\<close>

lemma settle_row_ok:
  assumes "queue_ok q" "activeId q = Some i" "\<And>x. item_id (f x) = item_id x" "\<And>x. status (f x) \<noteq> Running"
  shows "queue_ok (settle_finally (upd_item i f q))"
proof (rule settle_finally_ok)
  have "ids_ok q" using assms(1) by (simp add: queue_ok_def)
  then show "ids_ok (upd_item i f q)" using upd_item_ids [OF assms(3)] by blast
  show "\<forall>x \<in> set (items (upd_item i f q)). status x \<noteq> Running"
    by (rule settled_none_running [OF assms])
qed

lemma settle_none_ok:
  "queue_ok q \<Longrightarrow> activeId q = Some i \<Longrightarrow> lookup_item i q = None \<Longrightarrow> queue_ok (settle_finally q)"
  by (rule settle_finally_ok) (simp add: queue_ok_def, blast dest: absent_none_running)

lemma settle_ok_ok:
  assumes "queue_ok q" "activeId q = Some i"
  shows "queue_ok (settle_ok i q)"
proof (cases "lookup_item i q")
  case None
  then show ?thesis using settle_none_ok [OF assms] by (simp add: settle_ok_def)
next
  case (Some it)
  have "ids_ok q" using assms(1) by (simp add: queue_ok_def)
  then have "status it \<noteq> Running \<Longrightarrow> queue_ok (settle_finally q)"
    using idle_row_none_running [OF assms Some] by (intro settle_finally_ok)
  with Some settle_row_ok [OF assms, of "\<lambda>x. x\<lparr>status := Completed\<rparr>"] show ?thesis
    by (simp add: settle_ok_def)
qed

lemma settle_err_ok:
  assumes "queue_ok q" "activeId q = Some i"
  shows "queue_ok (settle_err i m q)"
  using settle_none_ok [OF assms] settle_row_ok [OF assms, of "\<lambda>x. x\<lparr>status := Paused, error := Some (js ''Paused'')\<rparr>"]
    settle_row_ok [OF assms, of "\<lambda>x. x\<lparr>status := Failed, error := Some m\<rparr>"]
  by (simp add: settle_err_def split: option.split)

lemma queue_step_ok: "queue_step q q' \<Longrightarrow> queue_ok q \<Longrightarrow> queue_ok q'"
proof (induction rule: queue_step.induct)
  case (do_pause q)
  then show ?case by (simp add: pauseActive_def split: option.split)
next
  case (do_resume q i)
  then show ?case using pump_requeue_ok by (simp add: resume_def split: option.split)
next
  case (do_retry q i)
  then show ?case using pump_requeue_ok by (simp add: retry_def split: option.split)
qed (blast intro: enqueue_ok cancel_ok clearCompleted_ok applyEvent_ok settle_ok_ok settle_err_ok)+

lemma new_queue_ok: "queue_ok new_queue"
  by (simp add: queue_ok_def ids_ok_def busy_ok_def new_queue_def)

lemma reachable_ok: "queue_reachable q \<Longrightarrow> queue_ok q"
  by (induction rule: queue_reachable.induct) (blast intro: new_queue_ok queue_step_ok)+

section \<open>Order of service\<close>

definition queued_ids :: "transfer_queue \<Rightarrow> jsstr list" where
  "queued_ids q = map item_id (filter (\<lambda>x. status x = Queued) (items q))"

text \<open>Identifiers handed to \<^verbatim>\<open>sftpTransfer\<close>, oldest first.\<close>

fun started_ids :: "backend_call list \<Rightarrow> jsstr list" where
  "started_ids [] = []"
| "started_ids (SftpTransfer i d l r n # cs) = i # started_ids cs"
| "started_ids (_ # cs) = started_ids cs"

definition completed :: "transfer_item \<Rightarrow> transfer_item" where
  "completed x = (if status x = Queued \<or> status x = Running then x\<lparr>status := Completed\<rparr> else x)"

lemma queued_ids_simps [simp]:
  "queued_ids (emit c q) = queued_ids q" "queued_ids (q\<lparr>running := b, activeId := a\<rparr>) = queued_ids q"
  by (simp_all add: queued_ids_def)

lemma started_ids_append [simp]: "started_ids (cs @ ds) = started_ids cs @ started_ids ds"
  by (induction cs rule: started_ids.induct) auto

lemma queued_ids_update_first:
  "filter P (update_first P f xs) = (case filter P xs of [] \<Rightarrow> [] | y # ys \<Rightarrow> if P (f y) then f y # ys else ys)"
  by (induction xs) auto

lemma filter_update_first_other:
  "(\<And>y. find p xs = Some y \<Longrightarrow> \<not> P y \<and> \<not> P (f y)) \<Longrightarrow> filter P (update_first p f xs) = filter P xs"
  by (induction xs) (auto split: if_splits)

lemma map_update_first_same:
  "(\<And>y. find p xs = Some y \<Longrightarrow> g (f y) = g y) \<Longrightarrow> map g (update_first p f xs) = map g xs"
  by (induction xs) (auto split: if_splits)

lemma find_filter: "find P xs = (case filter P xs of [] \<Rightarrow> None | y # _ \<Rightarrow> Some y)"
  by (induction xs) auto

lemma pump_service:
  assumes "\<not> running q"
  shows "queued_ids (pump q) = tl (queued_ids q)
    \<and> started_ids (log (pump q)) = started_ids (log q) @ take 1 (queued_ids q)
    \<and> map completed (items (pump q)) = map completed (items q)
    \<and> (running (pump q) \<longleftrightarrow> queued_ids q \<noteq> [])"
proof -
  have "map completed (update_first (\<lambda>x. status x = Queued) (\<lambda>x. x\<lparr>status := Running\<rparr>) (items q))
      = map completed (items q)"
    by (rule map_update_first_same) (auto simp: completed_def find_Some_iff)
  with assms show ?thesis
    by (simp add: pump_def queued_ids_def find_filter queued_ids_update_first split: list.split)
qed

text \<open>One successful completion: the next queued item, if any, is started.\<close>

lemma settle_ok_service:
  "queued_ids (settle_ok i q) = tl (queued_ids q)
    \<and> started_ids (log (settle_ok i q)) = started_ids (log q) @ take 1 (queued_ids q)
    \<and> map completed (items (settle_ok i q)) = map completed (items q)
    \<and> (running (settle_ok i q) \<longleftrightarrow> queued_ids q \<noteq> [])"
proof -
  define r where "r = (case lookup_item i q of None \<Rightarrow> q
    | Some item \<Rightarrow> if status item = Running then upd_item i (\<lambda>x. x\<lparr>status := Completed\<rparr>) q else q)"
  have "filter (\<lambda>x. status x = Queued) (items r) = filter (\<lambda>x. status x = Queued) (items q)
      \<and> map completed (items r) = map completed (items q) \<and> log r = log q"
    by (auto simp: r_def lookup_item_def find_row_def upd_item_def completed_def split: option.split
        intro!: filter_update_first_other map_update_first_same)
  then have "queued_ids r = queued_ids q" "map completed (items r) = map completed (items q)" "log r = log q"
    by (simp_all add: queued_ids_def)
  with pump_service [of "emit OnChange (r\<lparr>running := False, activeId := None\<rparr>)"] show ?thesis
    unfolding settle_ok_def settle_finally_def r_def [symmetric] by simp
qed

text \<open>Every transfer in flight succeeds, \<open>n\<close> times.\<close>

primrec drain :: "nat \<Rightarrow> transfer_queue \<Rightarrow> transfer_queue" where
  "drain 0 q = q"
| "drain (Suc n) q = drain n (case activeId q of None \<Rightarrow> q | Some i \<Rightarrow> settle_ok i q)"

lemma drain_busy:
  assumes "queue_ok q" "running q"
  shows "let q' = drain (Suc (length (queued_ids q))) q in
     \<not> running q' \<and> queue_ok q' \<and> started_ids (log q') = started_ids (log q) @ queued_ids q
     \<and> map completed (items q') = map completed (items q)"
  using assms
proof (induction "queued_ids q" arbitrary: q)
  case Nil
  obtain i where i: "activeId q = Some i" using Nil.prems by (auto simp: queue_ok_def busy_ok_def)
  with settle_ok_ok [OF Nil.prems(1) i] settle_ok_service [of i q] Nil.hyps [symmetric] show ?case
    by simp
next
  case (Cons j js)
  obtain i where i: "activeId q = Some i" using Cons.prems by (auto simp: queue_ok_def busy_ok_def)
  have s: "queued_ids (settle_ok i q) = js" "running (settle_ok i q)"
    "started_ids (log (settle_ok i q)) = started_ids (log q) @ [j]"
    "map completed (items (settle_ok i q)) = map completed (items q)"
    using settle_ok_service [of i q] Cons.hyps(2) [symmetric] by simp_all
  from Cons.hyps(1) [OF s(1) [symmetric] settle_ok_ok [OF Cons.prems(1) i] s(2)] s i Cons.hyps(2) [symmetric]
  show ?case by (simp add: Let_def)
qed

lemma idle_settled:
  assumes "queue_ok q" "\<not> running q"
  shows "map completed (items q) = items q"
proof -
  have "\<forall>x \<in> set (items q). completed x = x"
    using assms by (auto simp: queue_ok_def busy_ok_def completed_def)
  then show ?thesis by (simp add: map_idI)
qed

subsection \<open>A single row through pause and resume\<close>

lemma lookup_upd_item:
  "(\<And>x. item_id (f x) = item_id x) \<Longrightarrow> lookup_item i (upd_item i f q) = map_option f (lookup_item i q)"
  by (simp add: lookup_item_def upd_item_def find_row_def find_update_first_same)

lemma lookup_simps [simp]:
  "lookup_item i (emit c q) = lookup_item i q" "lookup_item i (q\<lparr>running := b, activeId := a\<rparr>) = lookup_item i q"
  by (simp_all add: lookup_item_def)

lemma update_first_twice:
  "(\<And>x. p (f x) = p x) \<Longrightarrow> update_first p g (update_first p f xs) = update_first p (\<lambda>x. g (f x)) xs"
  by (induction xs) auto

lemma find_made:
  "\<forall>x \<in> set xs. \<not> P x \<Longrightarrow> find p xs = Some y \<Longrightarrow> P (f y) \<Longrightarrow>
     find P (update_first p f xs) = Some (f y) \<and> update_first P g (update_first p f xs) = update_first p (\<lambda>x. g (f x)) xs"
  by (induction xs) (auto split: if_splits)

text \<open>With nothing queued, settling leaves the runner idle and the rows as the continuation set them.\<close>

lemma settle_idle:
  "\<forall>x \<in> set (items q). status x \<noteq> Queued \<Longrightarrow>
     settle_finally q = emit OnChange (q\<lparr>running := False, activeId := None\<rparr>)"
  unfolding settle_finally_def by (intro pump_idle) simp_all

text \<open>The row after a \<^verbatim>\<open>paused\<close> event and the rejection of the cancelled transfer.\<close>

definition paused_row :: "transfer_event \<Rightarrow> transfer_item \<Rightarrow> transfer_item" where
  "paused_row e x = (apply_kind e (apply_counters e x))\<lparr>status := Paused, error := Some (js ''Paused'')\<rparr>"

lemma paused_row_simps [simp]:
  "item_id (paused_row e x) = item_id x" "status (paused_row e x) = Paused"
  "direction (paused_row e x) = direction x" "localPath (paused_row e x) = localPath x"
  "remotePath (paused_row e x) = remotePath x"
  "ev_kind e = js ''paused'' \<Longrightarrow> offset (paused_row e x) = ev_bytes e"
  by (simp_all add: paused_row_def apply_kind_def apply_counters_def)

lemma pause_rows:
  assumes "lookup_item i q = Some it" "includes_str m (js ''cancelled'')"
  shows "settle_err i m (applyEvent i e q) = settle_finally (emit OnChange (upd_item i (paused_row e) q))"
proof -
  have "upd_item i (\<lambda>x. x\<lparr>status := Paused, error := Some (js ''Paused'')\<rparr>)
      (emit OnChange (upd_item i (\<lambda>x. apply_kind e (apply_counters e x)) q)) = emit OnChange (upd_item i (paused_row e) q)"
    by (simp add: upd_item_def emit_def update_first_twice apply_event_row(1) paused_row_def [abs_def])
  with assms show ?thesis
    by (simp add: settle_err_def applyEvent_def lookup_upd_item apply_event_row(1))
qed

lemma resume_paused:
  assumes "\<not> running p" "\<forall>x \<in> set (items p). status x \<noteq> Queued" "lookup_item i p = Some it" "status it = Paused"
  shows "let r = resume i p in running r \<and> activeId r = Some i
    \<and> last (log r) = SftpTransfer i (direction it) (localPath it) (remotePath it) (offset it)
    \<and> lookup_item i r = Some (it\<lparr>status := Running, error := None\<rparr>)"
proof -
  have f: "find (\<lambda>x. item_id x = i) (items p) = Some it" "item_id it = i"
    using assms(3) find_row_Some_key by (auto simp: lookup_item_def find_row_def find_Some_iff)
  have "find (\<lambda>x. status x = Queued) (update_first (\<lambda>x. item_id x = i) requeue (items p)) = Some (requeue it)
    \<and> update_first (\<lambda>x. status x = Queued) (\<lambda>x. x\<lparr>status := Running\<rparr>)
         (update_first (\<lambda>x. item_id x = i) requeue (items p))
       = update_first (\<lambda>x. item_id x = i) (\<lambda>x. (requeue x)\<lparr>status := Running\<rparr>) (items p)"
    using assms(2) f by (intro find_made) (simp_all add: requeue_def)
  moreover have "find (\<lambda>x. item_id x = i) (update_first (\<lambda>x. item_id x = i) (\<lambda>x. (requeue x)\<lparr>status := Running\<rparr>) (items p))
      = map_option (\<lambda>x. (requeue x)\<lparr>status := Running\<rparr>) (Some it)"
    using f by (subst find_update_first_same) (simp_all add: requeue_def)
  ultimately show ?thesis
    using assms(1,3,4) f by (simp add: resume_def pump_def upd_item_def Let_def requeue_def lookup_item_def find_row_def)
qed

section \<open>Properties\<close>

text \<open>
  C10. At most one transfer runs at a time, identifiers never repeat, and the runner never
  sleeps on work: whenever it is idle, no item is queued or running.\<close>

theorem reachable_one_in_flight:
  assumes "queue_reachable q"
  shows "distinct (map item_id (items q)) \<and> length (filter (\<lambda>x. status x = Running) (items q)) \<le> 1
    \<and> (\<not> running q \<longrightarrow> (\<forall>x \<in> set (items q). status x \<noteq> Queued \<and> status x \<noteq> Running))"
proof -
  have ok: "queue_ok q" using assms by (rule reachable_ok)
  then have d: "distinct (map item_id (items q))" by (simp add: queue_ok_def ids_ok_def)
  let ?R = "filter (\<lambda>x. status x = Running) (items q)"
  have "\<forall>x \<in> set ?R. Some (item_id x) = activeId q" using ok by (auto simp: queue_ok_def busy_ok_def)
  then have "set (map item_id ?R) \<subseteq> {the (activeId q)}" by (auto dest!: sym [of "Some _"])
  then have "card (set (map item_id ?R)) \<le> 1"
    by (metis card.empty card_insert_disjoint card_mono empty_iff finite.emptyI finite_insert One_nat_def)
  moreover have "distinct (map item_id ?R)" using d by (rule distinct_map_filter)
  ultimately have "length ?R \<le> 1" by (metis distinct_card length_map)
  with d ok show ?thesis by (auto simp: queue_ok_def busy_ok_def)
qed

definition sample_request :: "nat \<Rightarrow> transfer_request" where
  "sample_request n = \<lparr>req_id = [n], req_direction = Upload, req_localPath = js ''/a'',
     req_remotePath = js ''/b'', req_label = js ''a'', req_offset = None\<rparr>"

lemma sample_reachable: "queue_reachable (enqueue (sample_request 2) (enqueue (sample_request 1) new_queue))"
  by (rule reach_step [OF reach_step [OF reach_new do_enqueue] do_enqueue])
    (simp_all add: new_queue_def sample_request_def enqueue_def Let_def pump_def emit_def)

theorem reachable_one_in_flight_witness:
  "map item_id (items (enqueue (sample_request 2) (enqueue (sample_request 1) new_queue))) = [[1], [2]]
   \<and> length (filter (\<lambda>x. status x = Running) (items (enqueue (sample_request 2) (enqueue (sample_request 1) new_queue)))) \<le> 1"
  using reachable_one_in_flight [OF sample_reachable]
  by (simp add: new_queue_def sample_request_def enqueue_def Let_def pump_def emit_def)

text \<open>
  C9. The queue drains in order: if every transfer succeeds, then after one completion per
  queued item, and one more for the transfer in flight, the runner is idle, the queued items
  were handed to the backend exactly once each and in queue order, and exactly the items that
  were queued or running are now completed, everything else about the items unchanged.\<close>

theorem queue_drains_in_order:
  assumes "queue_reachable q" "running q"
  shows "let q' = drain (Suc (length (queued_ids q))) q in
     \<not> running q' \<and> started_ids (log q') = started_ids (log q) @ queued_ids q
     \<and> items q' = map completed (items q)"
  using drain_busy [OF reachable_ok [OF assms(1)] assms(2)]
  unfolding Let_def by (metis idle_settled)

theorem queue_drains_in_order_witness:
  "let q = enqueue (sample_request 2) (enqueue (sample_request 1) new_queue); q' = drain 2 q in
     started_ids (log q) = [[1]] \<and> started_ids (log q') = [[1], [2]] \<and> map status (items q') = [Completed, Completed]"
  using queue_drains_in_order [OF sample_reachable]
  by (simp add: new_queue_def sample_request_def enqueue_def Let_def pump_def emit_def queued_ids_def completed_def numeral_2_eq_2
      settle_ok_def settle_finally_def lookup_item_def find_row_def upd_item_def)

text \<open>
  Pausing and resuming continues where the transfer stopped: when the backend reports
  \<^verbatim>\<open>paused\<close> after \<open>n\<close> bytes and then rejects with a message containing \<^verbatim>\<open>cancelled\<close>, and nothing
  else is queued, the runner is idle with the item paused at offset \<open>n\<close>; \<^verbatim>\<open>resume\<close> then starts
  the same transfer at offset \<open>n\<close>, with the error cleared.\<close>

theorem pause_then_resume:
  assumes "queue_reachable q" "activeId q = Some i" "lookup_item i q = Some it" "queued_ids q = []"
    "ev_kind e = js ''paused''" "includes_str m (js ''cancelled'')"
  shows "let p = settle_err i m (applyEvent i e q); r = resume i p in
     \<not> running p \<and> map_option status (lookup_item i p) = Some Paused
     \<and> running r \<and> activeId r = Some i
     \<and> last (log r) = SftpTransfer i (direction it) (localPath it) (remotePath it) (ev_bytes e)
     \<and> map_option error (lookup_item i r) = Some None"
proof -
  define p where "p = settle_err i m (applyEvent i e q)"
  have nq: "\<forall>x \<in> set (items q). status x \<noteq> Queued"
    using assms(4) by (auto simp: queued_ids_def filter_empty_conv)
  have nq': "\<forall>x \<in> set (items (upd_item i (paused_row e) q)). status x \<noteq> Queued"
    by (rule upd_item_no_queued [OF nq]) simp
  then have "p = emit OnChange ((emit OnChange (upd_item i (paused_row e) q))\<lparr>running := False, activeId := None\<rparr>)"
    unfolding p_def pause_rows [OF assms(3,6)] by (intro settle_idle) simp
  then have p: "\<not> running p" "\<forall>x \<in> set (items p). status x \<noteq> Queued" "lookup_item i p = Some (paused_row e it)"
    using nq' assms(3) by (simp_all add: lookup_upd_item)
  show ?thesis unfolding p_def [symmetric] using resume_paused [OF p] p assms(5) by (simp add: Let_def)
qed

definition paused_at :: "int \<Rightarrow> transfer_event" where
  "paused_at n = \<lparr>ev_kind = js ''paused'', ev_bytes = n, ev_total = None, ev_filesDone = None,
     ev_filesTotal = None, ev_currentFile = None, ev_message = None\<rparr>"

lemma sample_one_reachable: "queue_reachable (enqueue (sample_request 1) new_queue)"
  by (rule reach_step [OF reach_new do_enqueue]) (simp add: new_queue_def)

theorem pause_then_resume_witness:
  "last (log (resume [1] (settle_err [1] (js ''cancelled'') (applyEvent [1] (paused_at 7) (enqueue (sample_request 1) new_queue)))))
   = SftpTransfer [1] Upload (js ''/a'') (js ''/b'') 7"
proof -
  let ?q = "enqueue (sample_request 1) new_queue"
  have "activeId ?q = Some [1]" "queued_ids ?q = []"
    "\<exists>it. lookup_item [1] ?q = Some it \<and> direction it = Upload \<and> localPath it = js ''/a'' \<and> remotePath it = js ''/b''"
    by (simp_all add: new_queue_def sample_request_def enqueue_def Let_def pump_def queued_ids_def
        lookup_item_def find_row_def)
  then obtain it where it: "activeId ?q = Some [1]" "lookup_item [1] ?q = Some it" "queued_ids ?q = []"
    "direction it = Upload" "localPath it = js ''/a''" "remotePath it = js ''/b''" by blast
  have "ev_kind (paused_at 7) = js ''paused''" "includes_str (js ''cancelled'') (js ''cancelled'')"
    by (simp add: paused_at_def) code_simp
  from pause_then_resume [OF sample_one_reachable it(1-3) this] it(4-6) show ?thesis
    by (simp add: Let_def paused_at_def)
qed

text \<open>
  C11. A resume that comes between the \<^verbatim>\<open>paused\<close> event and the rejection of the transfer is lost:
  the row is queued again, but the rejection marks it paused and, with nothing else queued, the
  runner goes idle without starting it.\<close>

theorem early_resume_is_lost:
  assumes "queue_reachable q" "running q" "activeId q = Some i" "lookup_item i q = Some it" "queued_ids q = []"
    "ev_kind e = js ''paused''" "includes_str m (js ''cancelled'')"
  shows "let p = settle_err i m (resume i (applyEvent i e q)) in
     \<not> running p \<and> map_option status (lookup_item i p) = Some Paused
     \<and> started_ids (log p) = started_ids (log q)"
proof -
  define r where "r = (\<lambda>x. (requeue (apply_kind e (apply_counters e x)))\<lparr>status := Paused, error := Some (js ''Paused'')\<rparr>)"
  have nq: "\<forall>x \<in> set (items q). status x \<noteq> Queued"
    using assms(5) by (auto simp: queued_ids_def filter_empty_conv)
  have r: "item_id (r x) = item_id x" "status (r x) = Paused" for x
    by (simp_all add: r_def requeue_def apply_event_row(1))
  have nq': "\<forall>x \<in> set (items (upd_item i r q)). status x \<noteq> Queued"
    by (rule upd_item_no_queued [OF nq]) (simp add: r)
  have "status (apply_kind e (apply_counters e it)) = Paused" using assms(6) by (simp add: apply_kind_def)
  then have "resume i (applyEvent i e q) = emit OnChange (upd_item i requeue
      (emit OnChange (upd_item i (\<lambda>x. apply_kind e (apply_counters e x)) q)))"
    using assms(2,4) by (simp add: resume_def applyEvent_def lookup_upd_item apply_event_row(1) pump_def)
  moreover have "upd_item i (\<lambda>x. x\<lparr>status := Paused, error := Some (js ''Paused'')\<rparr>) \<dots>
      = emit OnChange (emit OnChange (upd_item i r q))"
    by (simp add: upd_item_def emit_def update_first_twice apply_event_row(1) requeue_def r_def)
  ultimately have "settle_err i m (resume i (applyEvent i e q)) = settle_finally (emit OnChange (emit OnChange (upd_item i r q)))"
    using assms(4,7) by (simp add: settle_err_def lookup_upd_item apply_event_row(1) requeue_def)
  with nq' have "settle_err i m (resume i (applyEvent i e q))
      = emit OnChange ((emit OnChange (emit OnChange (upd_item i r q)))\<lparr>running := False, activeId := None\<rparr>)"
    by (simp add: settle_idle)
  with assms(4) show ?thesis by (simp add: Let_def lookup_upd_item r)
qed

theorem early_resume_is_lost_witness:
  "\<not> running (settle_err [1] (js ''cancelled'') (resume [1] (applyEvent [1] (paused_at 7) (enqueue (sample_request 1) new_queue))))"
proof -
  let ?q = "enqueue (sample_request 1) new_queue"
  have "running ?q" "activeId ?q = Some [1]" "queued_ids ?q = []" "\<exists>it. lookup_item [1] ?q = Some it"
    by (simp_all add: new_queue_def sample_request_def enqueue_def Let_def pump_def queued_ids_def
        lookup_item_def find_row_def)
  then obtain it where it: "running ?q" "activeId ?q = Some [1]" "lookup_item [1] ?q = Some it" "queued_ids ?q = []"
    by blast
  have "ev_kind (paused_at 7) = js ''paused''" "includes_str (js ''cancelled'') (js ''cancelled'')"
    by (simp add: paused_at_def) code_simp
  from early_resume_is_lost [OF sample_one_reachable it this] show ?thesis by (simp add: Let_def)
qed

end
