(* ===== verification/Launch.thy ===== *)
theory Launch
  imports JsRegex
begin

text \<open>
  Launching a project: \<^verbatim>\<open>projects/launch.ts\<close> builds the shell text that is typed into a
  fresh terminal, \<^verbatim>\<open>projects/tmuxConf.ts\<close> holds the multiplexer configuration it embeds, and
  \<^verbatim>\<open>projects/agents.ts\<close> chooses the agent. The text is read by a POSIX shell; \<open>sh_lex\<close> is
  the part of the shell's tokenizer (blanks, newlines, \<^verbatim>\<open>&&\<close>, single quotes, backslash and
  plain variable references) that is needed to say what that shell will see. It refuses
  every other construct, so that a theorem about its result also says that the text has
  no expansion or operator in it.
\<close>

section \<open>Agents\<close>

record agent_spec =
  agent_id :: jsstr
  agent_name :: jsstr
  command :: jsstr
  args :: "jsstr list"
  persistent :: bool
  agent_status :: jsstr
  agent_successor :: "jsstr option"
  installMacos :: "jsstr option"
  installLinux :: "jsstr option"
  installWindows :: "jsstr option"
  installDefault :: "jsstr option"

text \<open>JavaScript truthiness of an optional string: absent and empty are falsy.\<close>

definition nonempty :: "jsstr option \<Rightarrow> jsstr option" where
  "nonempty s = (if s = Some [] then None else s)"

definition resolveAgentForLaunch :: "agent_spec list \<Rightarrow> jsstr option \<Rightarrow> agent_spec option \<times> jsstr option" where
  "resolveAgentForLaunch agents preferredId =
     (let shell = find_row agent_id (js ''shell'') agents;
          requested = (case nonempty preferredId of None \<Rightarrow> None | Some i \<Rightarrow> find_row agent_id i agents)
      in case requested of
           None \<Rightarrow> (shell, None)
         | Some r \<Rightarrow>
             (case (if agent_status r = js ''deprecated'' then nonempty (agent_successor r) else None) of
                None \<Rightarrow> (Some r, None)
              | Some sid \<Rightarrow>
                  (case find_row agent_id sid agents of
                     Some succ \<Rightarrow> (Some succ, Some (agent_name r))
                   | None \<Rightarrow> (Some r, None))))"

definition installCommandFor :: "agent_spec \<Rightarrow> jsstr option \<Rightarrow> jsstr option" where
  "installCommandFor agent platform =
     (let specific =
        (if platform = Some (js ''macos'') then installMacos agent
         else if platform = Some (js ''linux'') then installLinux agent
         else if platform = Some (js ''windows'') then installWindows agent
         else None)
      in case specific of Some c \<Rightarrow> Some c | None \<Rightarrow> installDefault agent)"

definition agentDisplayName :: "agent_spec list \<Rightarrow> jsstr option \<Rightarrow> jsstr" where
  "agentDisplayName agents agentId =
     (case nonempty agentId of None \<Rightarrow> js ''shell''
      | Some i \<Rightarrow> (case fst (resolveAgentForLaunch agents (Some i)) of Some a \<Rightarrow> agent_name a | None \<Rightarrow> i))"

definition resolvedAgentId :: "agent_spec list \<Rightarrow> jsstr option \<Rightarrow> jsstr option" where
  "resolvedAgentId agents preferredId = map_option agent_id (fst (resolveAgentForLaunch agents preferredId))"

section \<open>Quoting\<close>

definition quote_escape :: jsstr where
  [js_eval]: "quote_escape = [39, 92, 39, 39]"

definition shellSingleQuote :: "jsstr \<Rightarrow> jsstr" where
  "shellSingleQuote value = [39] @ replace_all (chr 39) quote_escape value @ [39]"

definition safe_char :: "nat \<Rightarrow> bool" where
  [js_eval]: "safe_char c \<longleftrightarrow> is_alpha c \<or> is_digit c \<or> c \<in> set (js ''_./:=+-'')"

definition shellEscape :: "jsstr \<Rightarrow> jsstr" where
  "shellEscape value =
     (if re_test (seqs [Bol, rplus (CC safe_char), Eol]) value then value else shellSingleQuote value)"

definition agentArgv :: "agent_spec option \<Rightarrow> jsstr option" where
  "agentArgv agent =
     (case agent of None \<Rightarrow> None
      | Some a \<Rightarrow> if trim (command a) = [] then None
                  else Some (join (js '' '') (map shellEscape (command a # args a))))"

definition mux_char :: "nat \<Rightarrow> bool" where
  [js_eval]: "mux_char c \<longleftrightarrow> is_alpha c \<or> is_digit c \<or> c = 95 \<or> c = 45"

definition muxSessionName :: "jsstr \<Rightarrow> jsstr" where
  "muxSessionName projectId =
     (let cleaned = replace_all (CC (\<lambda>c. \<not> mux_char c)) [] projectId
      in js ''tethra-'' @ take 24 cleaned)"

text \<open>The Rust side's name for the same session, on the textual form of the project's UUID.\<close>

definition mux_session_name :: "jsstr \<Rightarrow> jsstr" where
  "mux_session_name project_id =
     (let cleaned = filter (\<lambda>c. is_alpha c \<or> is_digit c \<or> c = 45 \<or> c = 95) project_id
      in js ''tethra-'' @ take (min (length cleaned) 24) cleaned)"

section \<open>The tmux configuration\<close>

definition TETHRA_TMUX_SOCKET :: jsstr where
  "TETHRA_TMUX_SOCKET = js ''tethra''"

text \<open>A backslash and a double quote.\<close>

definition bq :: jsstr where
  [js_eval]: "bq = [92, 34]"

definition alert_hook :: "string \<Rightarrow> string \<Rightarrow> jsstr" where
  [js_eval]: \<open>alert_hook event word =
     js ''set-hook -g '' @ js event @ js '' 'run-shell "mkdir -p '' @ bq @ js ''$HOME/.tethra/alerts'' @ bq
     @ js ''; printf '' @ js word @ js '' > '' @ bq @ js ''$HOME/.tethra/alerts/#{session_name}'' @ bq @ [34, 39]\<close>

definition tmux_conf_lines :: "jsstr list" where
  [js_eval]: \<open>tmux_conf_lines =
    [js ''set -g status off'',
     js ''set -g allow-passthrough on'',
     js ''set -sg escape-time 0'',
     js ''set -g focus-events on'',
     js ''set -g default-terminal "tmux-256color"'',
     js ''set -ga terminal-overrides ",*256col*:Tc"'',
     js ''set -ga terminal-overrides ",*:smcup@:rmcup@"'',
     js ''set -g history-limit 100000'',
     js ''setw -g monitor-bell on'',
     js ''setw -g monitor-silence 30'',
     js ''set -g visual-bell off'',
     js ''set -g bell-action any'',
     js ''set -g silence-action any'',
     alert_hook ''alert-bell'' ''bell'',
     alert_hook ''alert-silence'' ''silence'']\<close>

definition TETHRA_TMUX_CONF :: jsstr where
  "TETHRA_TMUX_CONF = join [10] tmux_conf_lines"

section \<open>The launch script\<close>

record launch_options =
  o_projectId :: jsstr
  o_path :: jsstr
  o_agent :: "agent_spec option"
  o_remote :: bool
  o_platform :: "jsstr option"
  o_muxAvailable :: "bool option"
  o_cwdAlreadySet :: bool
  o_byokEnvPath :: "jsstr option"

definition localWindows :: "launch_options \<Rightarrow> bool" where
  "localWindows o1 \<longleftrightarrow> \<not> o_remote o1 \<and> o_platform o1 = Some (js ''windows'')"

definition wantMux :: "launch_options \<Rightarrow> bool" where
  "wantMux o1 \<longleftrightarrow>
     (case o_agent o1 of None \<Rightarrow> False | Some a \<Rightarrow> persistent a) \<and> \<not> localWindows o1 \<and> o_muxAvailable o1 \<noteq> Some False"

definition byokPreamble :: "launch_options \<Rightarrow> jsstr list" where
  "byokPreamble o1 =
     (case nonempty (o_byokEnvPath o1) of None \<Rightarrow> []
      | Some p \<Rightarrow>
          if localWindows o1 then []
          else [js ''set -a'', js ''. '' @ shellSingleQuote p, js ''set +a'', js ''rm -f '' @ shellSingleQuote p])"

text \<open>The branch without a multiplexer.\<close>

definition plain_script :: "launch_options \<Rightarrow> jsstr" where
  "plain_script o1 =
     (let pathQ = shellSingleQuote (o_path o1); argv = agentArgv (o_agent o1); head = byokPreamble o1
      in if localWindows o1 then (case argv of Some a \<Rightarrow> a @ [13, 10] | None \<Rightarrow> [])
         else if o_cwdAlreadySet o1 then
           (let head = head @ (case argv of Some a \<Rightarrow> [a] | None \<Rightarrow> [])
            in if head \<noteq> [] then join [10] head @ [10] else [])
         else case argv of
             Some a \<Rightarrow> join [10] (head @ [js ''cd '' @ pathQ @ js '' && '' @ a]) @ [10]
           | None \<Rightarrow> join [10] (head @ [js ''cd '' @ pathQ]) @ [10])"

definition WIPE_SCREEN :: jsstr where
  "WIPE_SCREEN = js ''printf '' @ [39, 92] @ js ''033[2J'' @ [92] @ js ''033[3J'' @ [92] @ js ''033[H'' @ [39]"

definition pathBootstrap :: "jsstr list" where
  \<open>pathBootstrap =
    [js ''for _p in /opt/homebrew/bin /opt/homebrew/sbin /usr/local/bin /usr/local/sbin "$HOME/.local/bin"; do'',
     js ''  [ -d "$_p" ] || continue'',
     js ''  case ":$PATH:" in *":$_p:"*) ;; *) PATH="$_p:$PATH" ;; esac'',
     js ''done'',
     js ''export PATH'']\<close>

definition ensureRemote :: "launch_options \<Rightarrow> jsstr list" where
  \<open>ensureRemote o1 =
    (if o_remote o1 then
      [js ''if ! command -v tmux >/dev/null 2>&1 && ! command -v zellij >/dev/null 2>&1; then'',
       js ''  if command -v brew >/dev/null 2>&1; then'',
       js ''    echo "tethra: installing tmux via Homebrew on this host'' @ [8230] @ js ''" >&2'',
       js ''    brew install tmux || true'',
       js ''  fi'',
       js ''fi'']
     else [])\<close>

definition tmux_line :: "jsstr \<Rightarrow> jsstr \<Rightarrow> jsstr \<Rightarrow> jsstr" where
  \<open>tmux_line sessionQ pathQ inner =
     js ''  tmux -L '' @ shellSingleQuote TETHRA_TMUX_SOCKET @ js '' -f "$_tethra_tmux_conf" new-session -A -s ''
     @ sessionQ @ js '' -c '' @ pathQ @ js '' -- '' @ inner\<close>

definition zellij_line :: "jsstr \<Rightarrow> jsstr \<Rightarrow> jsstr \<Rightarrow> jsstr" where
  "zellij_line sessionQ pathQ inner =
     js ''  cd '' @ pathQ @ js '' && zellij attach -c '' @ sessionQ @ js '' -- '' @ inner"

definition fallback_line :: "jsstr \<Rightarrow> jsstr \<Rightarrow> jsstr" where
  "fallback_line pathQ inner = js ''  cd '' @ pathQ @ js '' && '' @ inner"

definition mux_lines :: "launch_options \<Rightarrow> jsstr list" where
  \<open>mux_lines o1 =
    (let pathQ = shellSingleQuote (o_path o1);
         sessionQ = shellSingleQuote (muxSessionName (o_projectId o1));
         inner = (case agentArgv (o_agent o1) of Some a \<Rightarrow> a | None \<Rightarrow> js ''$SHELL'');
         wipe = js ''  '' @ WIPE_SCREEN
     in byokPreamble o1 @ pathBootstrap @ ensureRemote o1 @
       [js ''if command -v tmux >/dev/null 2>&1; then'',
        wipe,
        js ''  _tethra_tmux_conf=$(mktemp "${TMPDIR:-/tmp}/tethra-tmux.XXXXXX") || exit 1'',
        js ''  cat > "$_tethra_tmux_conf" <<'TETHRA_TMUX_EOF'' @ [39],
        TETHRA_TMUX_CONF,
        js ''TETHRA_TMUX_EOF'',
        tmux_line sessionQ pathQ inner,
        js ''  rm -f "$_tethra_tmux_conf"'',
        js ''elif command -v zellij >/dev/null 2>&1; then'',
        wipe,
        zellij_line sessionQ pathQ inner,
        js ''else'',
        wipe,
        js ''  echo "tethra: no tmux/zellij '' @ [8212] @ js '' session will not persist across disconnects" >&2'',
        fallback_line pathQ inner,
        js ''fi'',
        []])\<close>

definition projectLaunchScript :: "launch_options \<Rightarrow> jsstr" where
  "projectLaunchScript o1 = (if wantMux o1 then join [10] (mux_lines o1) else plain_script o1)"

section \<open>How a POSIX shell reads the text\<close>

datatype sh_tok = W jsstr | V jsstr | AndIf | Newline

definition flush :: "jsstr option \<Rightarrow> sh_tok list" where
  "flush w = (case w of None \<Rightarrow> [] | Some a \<Rightarrow> [W a])"

definition word_of :: "jsstr option \<Rightarrow> jsstr" where
  "word_of w = (case w of None \<Rightarrow> [] | Some a \<Rightarrow> a)"

text \<open>
  The state is \<open>Inl w\<close> outside quotes, with \<open>w\<close> the word read so far (if one was begun), and
  \<open>Inr a\<close> inside single quotes.
\<close>

function (sequential) sh_lex :: "jsstr option + jsstr \<Rightarrow> jsstr \<Rightarrow> sh_tok list option" where
  "sh_lex (Inl w) [] = Some (flush w)"
| "sh_lex (Inl w) (c # r) =
     (if c = 39 then sh_lex (Inr (word_of w)) r
      else if c = 92 then
        (case r of [] \<Rightarrow> None
         | d # r' \<Rightarrow> if d = 10 then sh_lex (Inl w) r' else sh_lex (Inl (Some (word_of w @ [d]))) r')
      else if c = 32 \<or> c = 9 then map_option ((@) (flush w)) (sh_lex (Inl None) r)
      else if c = 10 then map_option (\<lambda>ts. flush w @ Newline # ts) (sh_lex (Inl None) r)
      else if c = 38 then
        (case r of [] \<Rightarrow> None
         | d # r' \<Rightarrow> if d = 38 then map_option (\<lambda>ts. flush w @ AndIf # ts) (sh_lex (Inl None) r') else None)
      else if c = 34 then
        (if w = None \<and> r \<noteq> [] \<and> hd r = 36 \<and> startsWith (dropWhile is_word (tl r)) [34] then
           map_option ((#) (V (takeWhile is_word (tl r)))) (sh_lex (Inl None) (tl (dropWhile is_word (tl r))))
         else None)
      else if safe_char c then sh_lex (Inl (Some (word_of w @ [c]))) r
      else None)"
| "sh_lex (Inr a) [] = None"
| "sh_lex (Inr a) (c # r) = (if c = 39 then sh_lex (Inl (Some a)) r else sh_lex (Inr (a @ [c])) r)"
  by pat_completeness auto
termination
proof (relation "measure (\<lambda>(m, r). length r)")
  fix r :: jsstr and w c assume "w = None \<and> r \<noteq> [] \<and> hd r = 36 \<and> startsWith (dropWhile is_word (tl r)) [34]"
  then have "length (tl (dropWhile is_word (tl r))) < length (c # r)"
    using length_dropWhile_le [of is_word "tl r"] by (simp add: less_Suc_eq_le)
  then show "((Inl None, tl (dropWhile is_word (tl r))), Inl w, c # r) \<in> measure (\<lambda>(m, r). length r)"
    by simp
qed auto

declare sh_lex.simps [simp del]

definition sh_words :: "jsstr \<Rightarrow> sh_tok list option" where
  "sh_words s = sh_lex (Inl None) s"

section \<open>Quoting is read back\<close>

lemma safe_not_special: "safe_char c \<Longrightarrow> c \<noteq> 39 \<and> c \<noteq> 92 \<and> c \<noteq> 32 \<and> c \<noteq> 9 \<and> c \<noteq> 10 \<and> c \<noteq> 38 \<and> c \<noteq> 34"
  by (auto simp: safe_char_def js_def is_alpha_def is_digit_def)

lemma word_of_simps [simp]: "word_of None = []" "word_of (Some a) = a"
  by (simp_all add: word_of_def)

lemma flush_simps [simp]: "flush None = []" "flush (Some a) = [W a]"
  by (simp_all add: flush_def)

lemma lex_safe: "safe_char c \<Longrightarrow> sh_lex (Inl w) (c # r) = sh_lex (Inl (Some (word_of w @ [c]))) r"
  using safe_not_special [of c] by (simp add: sh_lex.simps)

lemma lex_safe_run:
  "list_all safe_char v \<Longrightarrow> v \<noteq> [] \<Longrightarrow> sh_lex (Inl w) (v @ r) = sh_lex (Inl (Some (word_of w @ v))) r"
proof (induction v arbitrary: w)
  case (Cons c v)
  then show ?case by (cases "v = []") (simp_all add: lex_safe)
qed simp

lemma lex_sep [simp]:
  "sh_lex (Inl w) (32 # r) = map_option ((@) (flush w)) (sh_lex (Inl None) r)"
  "sh_lex (Inl w) (10 # r) = map_option (\<lambda>ts. flush w @ Newline # ts) (sh_lex (Inl None) r)"
  "sh_lex (Inl w) (38 # 38 # r) = map_option (\<lambda>ts. flush w @ AndIf # ts) (sh_lex (Inl None) r)"
  "sh_lex (Inl w) [] = Some (flush w)"
  by (simp_all add: sh_lex.simps)

lemma lex_quoted_body:
  "sh_lex (Inr a) (concat (map (\<lambda>c. if c = 39 then quote_escape else [c]) v) @ 39 # r)
   = sh_lex (Inl (Some (a @ v))) r"
  by (induction v arbitrary: a) (simp_all add: sh_lex.simps quote_escape_def)

lemma lex_single_quote: "sh_lex (Inl w) (shellSingleQuote v @ r) = sh_lex (Inl (Some (word_of w @ v))) r"
  by (simp add: shellSingleQuote_def chr_def replace_all_CC lex_quoted_body sh_lex.simps)

lemma lex_escape: "sh_lex (Inl None) (shellEscape v @ r) = sh_lex (Inl (Some v)) r"
  by (simp add: shellEscape_def re_test_full_class lex_safe_run lex_single_quote)

text \<open>A list of escaped words before the end of a line or of the text.\<close>

lemma lex_escaped_words:
  "vs \<noteq> [] \<Longrightarrow> sh_lex (Inl None) (join (js '' '') (map shellEscape vs) @ r)
     = map_option ((@) (map W (butlast vs))) (sh_lex (Inl (Some (last vs))) r)"
proof (induction vs)
  case (Cons v vs)
  show ?case
  proof (cases vs)
    case Nil
    then show ?thesis by (simp add: lex_escape option.map_ident)
  next
    case (Cons u us)
    have "join (js '' '') (map shellEscape (v # vs)) @ r
        = shellEscape v @ 32 # (join (js '' '') (map shellEscape vs) @ r)"
      using Cons by (simp add: js_def)
    then have "sh_lex (Inl None) (join (js '' '') (map shellEscape (v # vs)) @ r)
        = map_option ((@) [W v]) (sh_lex (Inl None) (join (js '' '') (map shellEscape vs) @ r))"
      by (simp add: lex_escape)
    with Cons.IH Cons show ?thesis by (simp add: option.map_comp o_def)
  qed
qed simp

definition argv_toks :: "agent_spec option \<Rightarrow> sh_tok list" where
  "argv_toks ag = (case ag of None \<Rightarrow> []
     | Some a \<Rightarrow> if trim (command a) = [] then [] else map W (command a # args a))"

lemma lex_argv:
  assumes "agentArgv ag = Some v"
  shows "sh_lex (Inl None) v = Some (argv_toks ag)"
    and "sh_lex (Inl None) (v @ 10 # r) = map_option (\<lambda>ts. argv_toks ag @ Newline # ts) (sh_lex (Inl None) r)"
proof -
  obtain a where a: "ag = Some a" "trim (command a) \<noteq> []"
      "v = join (js '' '') (map shellEscape (command a # args a))"
    using assms by (auto simp: agentArgv_def split: option.splits if_splits)
  have t: "argv_toks ag = map W (butlast (command a # args a)) @ [W (last (command a # args a))]"
    using a by (simp add: argv_toks_def) (metis append_butlast_last_id list.discI map_append list.simps(8,9))
  show "sh_lex (Inl None) v = Some (argv_toks ag)"
    using lex_escaped_words [of "command a # args a" "[]"] a t by simp
  show "sh_lex (Inl None) (v @ 10 # r) = map_option (\<lambda>ts. argv_toks ag @ Newline # ts) (sh_lex (Inl None) r)"
    using lex_escaped_words [of "command a # args a" "10 # r"] a t by (simp add: option.map_comp o_def)
qed

lemmas lit_eval = js_def safe_char_def is_alpha_def is_digit_def lex_safe option.map_comp o_def

definition byok_toks :: "jsstr option \<Rightarrow> sh_tok list" where
  "byok_toks p = (case nonempty p of None \<Rightarrow> []
     | Some f \<Rightarrow> [W (js ''set''), W (js ''-a''), Newline, W (js ''.''), W f, Newline,
                  W (js ''set''), W (js ''+a''), Newline, W (js ''rm''), W (js ''-f''), W f, Newline])"

text \<open>The lines of the script before its last one.\<close>

fun with_newlines :: "jsstr list \<Rightarrow> jsstr" where
  "with_newlines [] = []"
| "with_newlines (l # ls) = l @ 10 # with_newlines ls"

lemma join_newlines: "join [10] (ls @ [l]) @ [10] = with_newlines (ls @ [l])"
proof (induction ls)
  case (Cons x xs)
  then show ?case by (cases "xs @ [l]") auto
qed simp

lemma with_newlines_append: "with_newlines (xs @ ys) = with_newlines xs @ with_newlines ys"
  by (induction xs) auto

lemma lex_preamble:
  "\<not> localWindows o1 \<Longrightarrow> sh_lex (Inl None) (with_newlines (byokPreamble o1) @ r)
     = map_option ((@) (byok_toks (o_byokEnvPath o1))) (sh_lex (Inl None) r)"
  by (cases "sh_lex (Inl None) r")
    (simp_all add: byokPreamble_def byok_toks_def lex_single_quote lit_eval split: option.split)

text \<open>What the shell runs when no multiplexer is wanted.\<close>

definition plain_toks :: "launch_options \<Rightarrow> sh_tok list" where
  "plain_toks o1 =
     (let argv = argv_toks (o_agent o1) in
      byok_toks (o_byokEnvPath o1) @
      (if o_cwdAlreadySet o1 then (if argv = [] then [] else argv @ [Newline])
       else [W (js ''cd''), W (o_path o1)] @ (if argv = [] then [] else AndIf # argv) @ [Newline]))"

lemma argv_toks_None: "agentArgv ag = None \<longleftrightarrow> argv_toks ag = []"
  by (auto simp: agentArgv_def argv_toks_def split: option.split)

lemma with_newlines_last: "with_newlines (ls @ [l]) = with_newlines ls @ l @ [10]"
  by (simp add: with_newlines_append)

lemma lex_plain_script:
  assumes "\<not> localWindows o1"
  shows "sh_words (plain_script o1) = Some (plain_toks o1)"
proof (cases "agentArgv (o_agent o1)")
  case None
  have "byokPreamble o1 = [] \<or> (\<exists>ls l. byokPreamble o1 = ls @ [l])" by (metis append_butlast_last_id)
  then have "o_cwdAlreadySet o1 \<Longrightarrow> plain_script o1 = with_newlines (byokPreamble o1)"
    using None assms by (auto simp: plain_script_def Let_def join_newlines)
  with None assms lex_preamble [OF assms, of "[]"] show ?thesis
    by (cases "o_cwdAlreadySet o1")
      (simp_all add: sh_words_def plain_script_def plain_toks_def join_newlines with_newlines_last
        lex_preamble lex_single_quote argv_toks_None [THEN iffD1] lit_eval)
next
  case (Some v)
  then have "argv_toks (o_agent o1) \<noteq> []" by (metis argv_toks_None option.distinct(1))
  with Some assms show ?thesis
    by (cases "o_cwdAlreadySet o1")
      (simp_all add: sh_words_def plain_script_def plain_toks_def join_newlines with_newlines_last Let_def
        lex_preamble lex_single_quote lex_argv(2) lit_eval)
qed

subsection \<open>The multiplexer lines\<close>

lemma lex_var:
  "list_all is_word n \<Longrightarrow> n \<noteq> [] \<Longrightarrow>
     sh_lex (Inl None) (34 # 36 # n @ 34 # r) = map_option ((#) (V n)) (sh_lex (Inl None) r)"
  by (simp add: sh_lex.simps takeWhile_append dropWhile_append list_all_iff is_word_def is_alpha_def is_digit_def startsWith_def)

lemma conf_var: "list_all is_word (js ''_tethra_tmux_conf'')"
  by (simp add: js_eval)

lemma lex_tmux_line:
  assumes "agentArgv ag = Some line"
  shows "sh_words (tmux_line (shellSingleQuote name) (shellSingleQuote path) line)
    = Some (map W [js ''tmux'', js ''-L'', js ''tethra'', js ''-f''] @ V (js ''_tethra_tmux_conf'')
        # map W [js ''new-session'', js ''-A'', js ''-s'', name, js ''-c'', path, js ''--''] @ argv_toks ag)"
  using lex_argv(1) [OF assms] lex_var [OF conf_var]
  by (simp add: sh_words_def tmux_line_def TETHRA_TMUX_SOCKET_def lex_single_quote lit_eval)

lemma lex_zellij_line:
  assumes "agentArgv ag = Some line"
  shows "sh_words (zellij_line (shellSingleQuote name) (shellSingleQuote path) line)
    = Some ([W (js ''cd''), W path, AndIf] @ map W [js ''zellij'', js ''attach'', js ''-c'', name, js ''--''] @ argv_toks ag)"
  using lex_argv(1) [OF assms] by (simp add: sh_words_def zellij_line_def lex_single_quote lit_eval)

lemma lex_fallback_line:
  assumes "agentArgv ag = Some line"
  shows "sh_words (fallback_line (shellSingleQuote path) line) = Some ([W (js ''cd''), W path, AndIf] @ argv_toks ag)"
  using lex_argv(1) [OF assms] by (simp add: sh_words_def fallback_line_def lex_single_quote lit_eval)

section \<open>Properties\<close>

text \<open>
  C12. Quoting is exact: whatever characters a value holds (quotes, blanks, newlines, dollar
  signs, operators), the shell reads \<^verbatim>\<open>shellSingleQuote\<close> and \<^verbatim>\<open>shellEscape\<close> of it as one word
  equal to it, and the command line of an agent as exactly its command and its arguments.\<close>

theorem quoting_round_trip:
  assumes "trim (command a) \<noteq> []"
  shows "sh_words (shellSingleQuote v) = Some [W v] \<and> sh_words (shellEscape v) = Some [W v]
    \<and> (\<exists>line. agentArgv (Some a) = Some line \<and> sh_words line = Some (map W (command a # args a)))"
proof -
  obtain line where line: "agentArgv (Some a) = Some line" using assms by (simp add: agentArgv_def)
  have "argv_toks (Some a) = map W (command a # args a)" using assms by (simp add: argv_toks_def)
  with lex_argv(1) [OF line] line lex_single_quote [of None v "[]"] lex_escape [of v "[]"]
  show ?thesis by (simp add: sh_words_def)
qed

definition sample_agent :: agent_spec where
  "sample_agent = \<lparr>agent_id = js ''claude'', agent_name = js ''Claude'', command = js ''claude'',
     args = [js ''it's; rm -rf /''], persistent = True, agent_status = js ''active'', agent_successor = None,
     installMacos = None, installLinux = None, installWindows = None, installDefault = None\<rparr>"

theorem quoting_round_trip_witness:
  "\<exists>line. agentArgv (Some sample_agent) = Some line
     \<and> sh_words line = Some [W (js ''claude''), W (js ''it's; rm -rf /'')]"
proof -
  have "trim (command sample_agent) \<noteq> []" by (simp add: sample_agent_def js_eval)
  from quoting_round_trip [OF this] show ?thesis by (simp add: sample_agent_def)
qed

text \<open>
  C13. The script without a multiplexer, read by a POSIX shell, is exactly: source the
  environment file and remove it (when there is one), change to the project's directory
  (unless the terminal already starts there) and, only if that succeeds, run the agent's
  command with its arguments (when there is one). There is no other word, operator or
  expansion in it.\<close>

theorem plain_launch_runs_exactly:
  assumes "\<not> wantMux o1" "\<not> localWindows o1"
  shows "sh_words (projectLaunchScript o1) = Some (plain_toks o1)"
  using assms lex_plain_script by (simp add: projectLaunchScript_def)

definition sample_launch :: launch_options where
  "sample_launch = \<lparr>o_projectId = js ''0a1b-2c'', o_path = js ''/srv/my app'', o_agent = Some sample_agent,
     o_remote = True, o_platform = None, o_muxAvailable = Some False, o_cwdAlreadySet = False, o_byokEnvPath = None\<rparr>"

theorem plain_launch_runs_exactly_witness:
  "sh_words (projectLaunchScript sample_launch)
   = Some [W (js ''cd''), W (js ''/srv/my app''), AndIf, W (js ''claude''), W (js ''it's; rm -rf /''), Newline]"
proof -
  have "\<not> wantMux sample_launch" "\<not> localWindows sample_launch"
    "plain_toks sample_launch
     = [W (js ''cd''), W (js ''/srv/my app''), AndIf, W (js ''claude''), W (js ''it's; rm -rf /''), Newline]"
    by (simp_all add: wantMux_def localWindows_def plain_toks_def argv_toks_def byok_toks_def nonempty_def
        sample_launch_def sample_agent_def js_eval)
  with plain_launch_runs_exactly [of sample_launch] show ?thesis by simp
qed

text \<open>
  C14. With a multiplexer, each of the three branches of the script (tmux, zellij, neither)
  hands the project's directory, the session name and the agent's words to the program
  unchanged, and the lines of the embedded tmux configuration never contain the word that ends
  the here-document.\<close>

theorem mux_launch_lines:
  assumes "wantMux o1" "agentArgv (o_agent o1) = Some line"
  shows "let name = muxSessionName (o_projectId o1);
             tmux = tmux_line (shellSingleQuote name) (shellSingleQuote (o_path o1)) line;
             zellij = zellij_line (shellSingleQuote name) (shellSingleQuote (o_path o1)) line;
             plain = fallback_line (shellSingleQuote (o_path o1)) line
         in projectLaunchScript o1 = join [10] (mux_lines o1) \<and> {tmux, zellij, plain} \<subseteq> set (mux_lines o1)
          \<and> sh_words tmux = Some (map W [js ''tmux'', js ''-L'', js ''tethra'', js ''-f''] @ V (js ''_tethra_tmux_conf'')
              # map W [js ''new-session'', js ''-A'', js ''-s'', name, js ''-c'', o_path o1, js ''--'']
              @ argv_toks (o_agent o1))
          \<and> sh_words zellij = Some ([W (js ''cd''), W (o_path o1), AndIf]
              @ map W [js ''zellij'', js ''attach'', js ''-c'', name, js ''--''] @ argv_toks (o_agent o1))
          \<and> sh_words plain = Some ([W (js ''cd''), W (o_path o1), AndIf] @ argv_toks (o_agent o1))
          \<and> js ''TETHRA_TMUX_EOF'' \<notin> set (split_on 10 TETHRA_TMUX_CONF)"
proof -
  have "js ''TETHRA_TMUX_EOF'' \<notin> set (split_on 10 TETHRA_TMUX_CONF)"
    by (simp add: TETHRA_TMUX_CONF_def js_eval)
  moreover have "projectLaunchScript o1 = join [10] (mux_lines o1)"
    using assms(1) by (simp add: projectLaunchScript_def)
  moreover have "{tmux_line (shellSingleQuote (muxSessionName (o_projectId o1))) (shellSingleQuote (o_path o1)) line,
      zellij_line (shellSingleQuote (muxSessionName (o_projectId o1))) (shellSingleQuote (o_path o1)) line,
      fallback_line (shellSingleQuote (o_path o1)) line} \<subseteq> set (mux_lines o1)"
    using assms(2) by (simp add: mux_lines_def Let_def)
  ultimately show ?thesis
    unfolding Let_def lex_tmux_line [OF assms(2)] lex_zellij_line [OF assms(2)] lex_fallback_line [OF assms(2)]
    by blast
qed

theorem mux_launch_lines_witness:
  "\<exists>line. agentArgv (Some sample_agent) = Some line
     \<and> sh_words (fallback_line (shellSingleQuote (js ''/srv/my app'')) line)
       = Some [W (js ''cd''), W (js ''/srv/my app''), AndIf, W (js ''claude''), W (js ''it's; rm -rf /'')]"
proof -
  let ?o = "sample_launch\<lparr>o_muxAvailable := None\<rparr>"
  have w: "wantMux ?o" by (simp add: wantMux_def localWindows_def sample_launch_def sample_agent_def)
  obtain line where line: "agentArgv (Some sample_agent) = Some line"
    by (simp add: agentArgv_def sample_agent_def js_eval)
  then have "agentArgv (o_agent ?o) = Some line" by (simp add: sample_launch_def)
  from mux_launch_lines [OF w this] line show ?thesis
    by (simp add: Let_def sample_launch_def argv_toks_def sample_agent_def js_eval)
qed

text \<open>
  The session name of a project: it starts with \<^verbatim>\<open>tethra-\<close>, has at most 31 characters, all
  of them letters, digits, hyphens and underscores (so tmux and zellij take it literally), and
  is the name that the Rust side computes.\<close>

theorem mux_session_name_agrees:
  "muxSessionName p = mux_session_name p \<and> startsWith (muxSessionName p) (js ''tethra-'')
   \<and> length (muxSessionName p) \<le> 31 \<and> list_all mux_char (muxSessionName p)
   \<and> shellEscape (muxSessionName p) = muxSessionName p"
proof -
  have e: "muxSessionName p = js ''tethra-'' @ take 24 (filter mux_char p)"
    by (simp add: muxSessionName_def replace_all_CC_delete)
  have "mux_session_name p = js ''tethra-'' @ take 24 (filter mux_char p)"
    by (simp add: mux_session_name_def mux_char_def [abs_def] Let_def disj_commute min_def)
  moreover have m: "list_all mux_char (muxSessionName p)"
    unfolding e by (auto simp: list_all_iff js_def mux_char_def is_alpha_def is_digit_def dest!: in_set_takeD)
  moreover have "list_all safe_char (muxSessionName p)"
    using m by (auto simp: list_all_iff mux_char_def safe_char_def js_def)
  moreover have "muxSessionName p \<noteq> []" by (simp add: e js_def)
  ultimately show ?thesis
    by (simp add: shellEscape_def re_test_full_class) (simp add: e js_def startsWith_def)
qed

text \<open>
  Choosing the agent: a known agent that is not deprecated is used as it is; a deprecated
  one whose successor is known is replaced by the successor and its name is reported; with no
  or an unknown preference the shell agent is used. The agent chosen is always one of the
  catalogue, none is chosen only when the catalogue has no shell agent, and a deprecated agent is
  kept only when it names no successor that the catalogue knows.\<close>

theorem agent_resolution:
  "(case resolveAgentForLaunch agents pref of (ag, migrated) \<Rightarrow>
     (\<forall>a. ag = Some a \<longrightarrow> a \<in> set agents)
     \<and> (ag = None \<longrightarrow> js ''shell'' \<notin> agent_id ` set agents)
     \<and> (\<forall>n. migrated = Some n \<longrightarrow> (\<exists>r s i. pref = Some i \<and> find_row agent_id i agents = Some r
           \<and> agent_status r = js ''deprecated'' \<and> agent_name r = n
           \<and> agent_successor r = Some (agent_id s) \<and> ag = Some s))
     \<and> (migrated = None \<longrightarrow> ag = find_row agent_id (js ''shell'') agents
           \<or> (\<exists>r i. pref = Some i \<and> find_row agent_id i agents = Some r \<and> ag = Some r
                \<and> (agent_status r = js ''deprecated'' \<longrightarrow>
                     (\<forall>s. agent_successor r = Some s \<longrightarrow> s = [] \<or> s \<notin> agent_id ` set agents)))))"
proof -
  have k: "find_row agent_id i agents = Some r \<Longrightarrow> agent_id r = i \<and> r \<in> set agents" for i r
    by (rule find_row_Some_key)
  show ?thesis
    by (auto simp: resolveAgentForLaunch_def Let_def nonempty_def find_row_None split: option.splits if_splits dest: k)
qed

definition old_agent :: agent_spec where
  "old_agent = sample_agent\<lparr>agent_id := js ''old'', agent_name := js ''Old'', agent_status := js ''deprecated'',
     agent_successor := Some (js ''claude'')\<rparr>"

theorem agent_resolution_witness:
  "resolveAgentForLaunch [old_agent, sample_agent] (Some (js ''old'')) = (Some sample_agent, Some (js ''Old''))
   \<and> sample_agent \<in> set [old_agent, sample_agent]"
proof -
  have r: "resolveAgentForLaunch [old_agent, sample_agent] (Some (js ''old'')) = (Some sample_agent, Some (js ''Old''))"
    by (simp add: resolveAgentForLaunch_def Let_def nonempty_def find_row_def old_agent_def sample_agent_def js_eval)
  with agent_resolution [of "[old_agent, sample_agent]" "Some (js ''old'')"] show ?thesis by simp
qed

end
