(* ===== verification/SftpPath.thy ===== *)
theory SftpPath
  imports JsRegex
begin

text \<open>
  Remote paths in the file browser (\<^verbatim>\<open>sftp/path.ts\<close>) and the size column. A path is a string
  with \<^verbatim>\<open>/\<close> as separator; \<^verbatim>\<open>.\<close> stands for the login directory.
\<close>

text \<open>\<^verbatim>\<open>/\/+$/\<close>\<close>

definition TRAILING_SLASHES :: re where
  [js_eval]: "TRAILING_SLASHES = seqs [rplus (chr 47), Eol]"

text \<open>\<^verbatim>\<open>lastIndexOf\<close> of one unit; \<open>None\<close> stands for -1.\<close>

fun lastIndexOf :: "nat \<Rightarrow> jsstr \<Rightarrow> nat option" where
  "lastIndexOf d [] = None"
| "lastIndexOf d (c # s) =
     (case lastIndexOf d s of Some i \<Rightarrow> Some (Suc i) | None \<Rightarrow> if c = d then Some 0 else None)"

definition parentPath :: "jsstr \<Rightarrow> jsstr" where
  "parentPath path =
     (if path = [] \<or> path = js ''.'' \<or> path = js ''/'' then (if path = [] then js ''.'' else path)
      else let normalized = replace_first TRAILING_SLASHES [] path in
        case lastIndexOf 47 normalized of
          None \<Rightarrow> (if startsWith normalized (js ''/'') then js ''/'' else js ''.'')
        | Some index \<Rightarrow>
            if index = 0 then (if startsWith normalized (js ''/'') then js ''/'' else js ''.'')
            else take index normalized)"

definition joinPath :: "jsstr \<Rightarrow> jsstr \<Rightarrow> jsstr" where
  "joinPath parent name =
     (if parent = [] \<or> parent = js ''.'' then name
      else if endsWith parent (js ''/'') then parent @ name
      else parent @ js ''/'' @ name)"

text \<open>
  \<^verbatim>\<open>(bytes / unit).toFixed(1)\<close>: the division by a power of two is exact, and \<^verbatim>\<open>toFixed\<close> takes the
  tenth nearest to the exact value, the larger one of two.
\<close>

definition tenths :: "nat \<Rightarrow> nat \<Rightarrow> nat" where
  "tenths bytes unit = (20 * bytes + unit) div (2 * unit)"

definition toFixed1 :: "nat \<Rightarrow> nat \<Rightarrow> jsstr" where
  "toFixed1 bytes unit = show_nat (tenths bytes unit div 10) @ js ''.'' @ show_nat (tenths bytes unit mod 10)"

definition formatBytes :: "nat option \<Rightarrow> jsstr" where
  "formatBytes value =
     (case value of None \<Rightarrow> [8212]
      | Some bytes \<Rightarrow>
          if bytes < 1024 then show_nat bytes @ js '' B''
          else if bytes < 1024 * 1024 then toFixed1 bytes 1024 @ js '' KB''
          else if bytes < 1024 * 1024 * 1024 then toFixed1 bytes (1024 * 1024) @ js '' MB''
          else toFixed1 bytes (1024 * 1024 * 1024) @ js '' GB'')"

section \<open>Normalising\<close>

text \<open>A path that does not end in a slash is normal already.\<close>

lemma rm_slashes_none: "r \<noteq> [] \<Longrightarrow> last r \<noteq> 47 \<Longrightarrow> rm TRAILING_SLASHES (i, r, []) = []"
proof (rule ccontr)
  assume r: "r \<noteq> []" "last r \<noteq> 47" and "rm TRAILING_SLASHES (i, r, []) \<noteq> []"
  then obtain t where "t \<in> set (rm TRAILING_SLASHES (i, r, []))" by (cases "rm TRAILING_SLASHES (i, r, [])") auto
  then have "\<exists>t0 \<in> set (rm (CC (\<lambda>x. x = 47)) (i, r, [])). t \<in> set (rm (Star (CC (\<lambda>x. x = 47))) t0) \<and> rest_of t = []"
    by (auto simp: TRAILING_SLASHES_def seqs_def rplus_def chr_def split: if_splits)
  then obtain t0 t1 where t: "t0 \<in> set (rm (CC (\<lambda>x. x = 47)) (i, r, []))"
      "t1 \<in> set (rm (Star (CC (\<lambda>x. x = 47))) t0)" "rest_of t1 = []" by blast
  obtain r' where r': "r = 47 # r'" "t0 = (Suc i, r', [])"
    using t(1) r(1) by (cases r) (auto split: if_splits)
  with t(2) obtain k where k: "k \<le> length (takeWhile (\<lambda>x. x = 47) r')" "t1 = (Suc i + k, drop k r', [])"
    by (auto simp: set_rm_Star_CC)
  then have "length r' \<le> length (takeWhile (\<lambda>x. x = 47) r')" using t(3) by simp
  then have "takeWhile (\<lambda>x. x = 47) r' = r'"
    by (metis append_eq_conv_conj length_takeWhile_le le_antisym take_all takeWhile_dropWhile_id)
  then have "\<forall>x \<in> set r'. x = 47" by (simp add: takeWhile_eq_all_conv)
  then have "last r = 47" using r' by (cases "r' = []") auto
  with r(2) show False by simp
qed

lemma exec_slashes_none: "r = [] \<or> last r \<noteq> 47 \<Longrightarrow> exec_from TRAILING_SLASHES i r = None"
proof (induction r arbitrary: i)
  case Nil
  then show ?case by (simp add: TRAILING_SLASHES_def seqs_def rplus_def chr_def)
next
  case (Cons c r)
  then show ?case using rm_slashes_none [of "c # r" i] by (cases "r = []") auto
qed

lemma normal_path: "last p \<noteq> 47 \<Longrightarrow> replace_first TRAILING_SLASHES [] p = p"
  by (simp add: replace_first_def exec_slashes_none)

lemma lastIndexOf_None: "lastIndexOf d s = None \<longleftrightarrow> d \<notin> set s"
  by (induction s) (auto split: option.splits)

lemma lastIndexOf_append: "d \<notin> set t \<Longrightarrow> lastIndexOf d (s @ d # t) = Some (length s)"
  by (induction s) (auto simp: lastIndexOf_None split: option.splits)

section \<open>Properties\<close>

text \<open>
  Entering a directory and going up returns to it: for a file name (not empty, without a
  slash) and a directory in normal form, the parent of the joined path is the directory; from
  the empty path, which stands for the login directory, it is \<^verbatim>\<open>.\<close>.\<close>

theorem parent_of_join:
  assumes "name \<noteq> []" "47 \<notin> set name" "dir = js ''/'' \<or> dir = [] \<or> last dir \<noteq> 47"
  shows "parentPath (joinPath dir name) = (if dir = [] then js ''.'' else dir)"
proof -
  have ln: "last name \<noteq> 47" using assms(1,2) by (metis last_in_set)
  consider (dot) "dir = [] \<or> dir = js ''.''" | (root) "dir = js ''/''"
    | (dir) "dir \<noteq> []" "dir \<noteq> js ''.''" "last dir \<noteq> 47" using assms(3) by blast
  then show ?thesis
  proof cases
    case dot
    then have "joinPath dir name = name" by (auto simp: joinPath_def)
    moreover have "parentPath name = js ''.''"
      using assms(1,2) ln normal_path [OF ln] lastIndexOf_None [of 47 name]
      by (cases name) (auto simp: parentPath_def js_def startsWith_def)
    ultimately show ?thesis using dot by auto
  next
    case root
    then have j: "joinPath dir name = 47 # name" by (simp add: joinPath_def js_def endsWith_def)
    have "replace_first TRAILING_SLASHES [] (47 # name) = 47 # name" using ln assms(1) by (intro normal_path) simp
    then show ?thesis
      using assms(1,2) j root lastIndexOf_append [of 47 name "[]"]
      by (simp add: parentPath_def js_def startsWith_def)
  next
    case dir
    have "\<not> endsWith dir (js ''/'')"
    proof
      assume "endsWith dir (js ''/'')"
      then obtain t where "rev dir = 47 # t" by (auto simp: endsWith_def startsWith_iff js_def)
      then have "dir = rev t @ [47]" by (metis rev.simps(2) rev_rev_ident)
      with dir(3) show False by simp
    qed
    with dir have j: "joinPath dir name = dir @ 47 # name" by (simp add: joinPath_def js_def)
    have "replace_first TRAILING_SLASHES [] (dir @ 47 # name) = dir @ 47 # name"
      using ln assms(1) by (intro normal_path) simp
    moreover have "dir @ 47 # name \<noteq> js ''.''" "dir @ 47 # name \<noteq> js ''/''" "0 < length dir"
      using dir(1) by (cases dir; simp add: js_def)+
    ultimately show ?thesis
      using dir(1) j lastIndexOf_append [OF assms(2), of dir] by (simp add: parentPath_def)
  qed
qed

theorem parent_of_join_witness:
  "parentPath (joinPath (js ''/srv/www'') (js ''a b'')) = js ''/srv/www''"
  using parent_of_join [of "js ''a b''" "js ''/srv/www''"] by (simp add: js_def)

text \<open>The number printed is within half a tenth of the unit.\<close>

lemma tenths_accurate:
  assumes "0 < u"
  shows "20 * b < 2 * u * tenths b u + u \<and> 2 * u * tenths b u \<le> 20 * b + u"
proof -
  have "2 * u * ((20 * b + u) div (2 * u)) + (20 * b + u) mod (2 * u) = 20 * b + u" by (rule mult_div_mod_eq)
  moreover have "(20 * b + u) mod (2 * u) < 2 * u" using assms by simp
  ultimately show ?thesis unfolding tenths_def by linarith
qed

end
