(* ===== verification/PromptLine.thy ===== *)
theory PromptLine
  imports JsRegex
begin

text \<open>
  The prompt heuristics of \<^verbatim>\<open>terminal/blocks.ts\<close>: which rows of the terminal look like a shell
  prompt, and which part of such a row is the command. All of it is regular expressions over
  the text of one row; the expressions are the source's, written with the constructors of
  \<open>JsRegex\<close>.
\<close>

section \<open>Classes\<close>

definition PS1_END_CHARS :: "nat list" where
  [js_eval]: "PS1_END_CHARS = [36, 35, 37, 62, 10095, 10146, 10148, 8250, 187, 10217, 9002, 10140, 8658, 8594, 9654, 8629]"

text \<open>The class written out in the literals, without the last glyph.\<close>

definition PROMPT_GLYPHS :: "nat list" where
  [js_eval]: "PROMPT_GLYPHS = [36, 35, 37, 62, 10095, 10146, 10148, 8250, 187, 10217, 9002, 10140, 8658, 8594, 9654]"

definition ORNAMENTS :: "nat list" where
  [js_eval]: "ORNAMENTS = [183, 8226, 8729, 9650, 9654, 9658, 9656, 9755, 10146, 10025, 9733, 9670, 9671, 9675, 9679]"

text \<open>\<^verbatim>\<open>[\w.-]\<close>, \<^verbatim>\<open>\s\<close>, \<^verbatim>\<open>\S\<close>\<close>

definition is_host_char :: "nat \<Rightarrow> bool" where
  [js_eval]: "is_host_char c \<longleftrightarrow> is_word c \<or> c = 46 \<or> c = 45"

definition ws :: re where
  [js_eval]: "ws = CC is_ws"

definition non_ws :: re where
  [js_eval]: "non_ws = CC (\<lambda>c. \<not> is_ws c)"

definition glyph :: re where
  [js_eval]: "glyph = CC (\<lambda>c. c \<in> set PROMPT_GLYPHS)"

section \<open>Tokens\<close>

text \<open>\<^verbatim>\<open>text.split(/\s+/)\<close>\<close>

function split_ws :: "jsstr \<Rightarrow> jsstr list" where
  "split_ws s =
     (let w = takeWhile (\<lambda>c. \<not> is_ws c) s; r = dropWhile (\<lambda>c. \<not> is_ws c) s
      in if r = [] then [w] else w # split_ws (dropWhile is_ws r))"
  by pat_completeness auto
termination
proof (relation "measure length")
  fix s w r :: jsstr
  assume "w = takeWhile (\<lambda>c. \<not> is_ws c) s" and r: "r = dropWhile (\<lambda>c. \<not> is_ws c) s" "r \<noteq> []"
  then have "is_ws (hd r)" using hd_dropWhile [of "\<lambda>c. \<not> is_ws c" s] by simp
  then have "length (dropWhile is_ws r) < length r"
    using r(2) by (cases r) (auto simp: less_Suc_eq_le length_dropWhile_le)
  also have "length r \<le> length s" using r(1) by (simp add: length_dropWhile_le)
  finally show "(dropWhile is_ws r, s) \<in> measure length" by simp
qed simp

declare split_ws.simps [simp del]

definition ws_tokens :: "jsstr \<Rightarrow> jsstr list" where
  "ws_tokens s = filter (\<lambda>t. t \<noteq> []) (split_ws s)"

section \<open>The heuristics\<close>

definition ps1EndRe :: re where
  [js_eval]: "ps1EndRe = CC (\<lambda>c. c \<in> set PS1_END_CHARS)"

definition stripPs1Re :: re where
  [js_eval]: "stripPs1Re = seqs [Bol, LStar (CC is_dot), CC (\<lambda>c. c \<in> set PS1_END_CHARS), ropt (chr 32)]"

definition stripOrnaments :: "jsstr \<Rightarrow> jsstr" where
  "stripOrnaments raw = trimStart (replace_first (seqs [Bol, CC (\<lambda>c. c \<in> set ORNAMENTS), Star ws]) [] raw)"

definition looksLikeDirectoryListing :: "jsstr \<Rightarrow> bool" where
  "looksLikeDirectoryListing text =
     (let tokens = ws_tokens text in
      if length tokens < 5 then False
      else if re_test (cls ''|;&<>(){}'') text then False
      else if list_ex (\<lambda>t. startsWith t (js ''-'') \<or> includes_str t (js ''/'')) tokens then False
      else list_all (\<lambda>t. re_test (seqs [Bol, rplus (CC (\<lambda>c. is_alpha c \<or> is_digit c \<or> c \<in> set (js ''._+-''))), Eol]) t) tokens)"

text \<open>\<^verbatim>\<open>^[\w.-]+@[\w.-]+\<close>, the prefix shared by three expressions\<close>

definition user_at_host :: "re list" where
  [js_eval]: "user_at_host = [Bol, rplus (CC is_host_char), chr 64, rplus (CC is_host_char)]"

definition CLASSIC_ROW :: re where
  [js_eval]: "CLASSIC_ROW = seqs (user_at_host @ [chr 58, Star non_ws, cls ''#$'', Alt ws Eol])"

definition USERHOST_ROW :: re where
  [js_eval]: "USERHOST_ROW = seqs (user_at_host @ [Star (CC is_dot), glyph, Alt ws Eol])"

text \<open>\<^verbatim>\<open>~(?:\/\S*)?\<close>\<close>

definition home_path :: "re list" where
  [js_eval]: "home_path = [chr 126, ropt (seqs [chr 47, Star non_ws])]"

definition HOME_ROW :: re where
  [js_eval]: "HOME_ROW = seqs (Bol # home_path @
     [alts [seqs [rplus ws, glyph], seqs [Star ws, Eol], seqs [rplus ws, non_ws]]])"

definition HOME_ONLY :: re where
  [js_eval]: "HOME_ONLY = seqs (Bol # home_path @ [Eol])"

definition HOME_AND_WORD :: re where
  [js_eval]: "HOME_AND_WORD = seqs (Bol # home_path @ [rplus ws, non_ws])"

definition GLYPH_NEAR_END :: re where
  [js_eval]: "GLYPH_NEAR_END = seqs [glyph, Star ws, Star non_ws, Eol]"

definition looksLikePromptLine :: "jsstr \<Rightarrow> bool" where
  "looksLikePromptLine raw =
     (let t = trimEnd raw in
      if t = [] then False
      else if re_test CLASSIC_ROW t then True
      else if re_test USERHOST_ROW t then True
      else let line = stripOrnaments t in
        if re_test HOME_ROW line \<and>
           (re_test ps1EndRe t \<or> re_test HOME_ONLY (trim line)
            \<or> re_test HOME_AND_WORD line \<and> length (split_ws line) \<le> 6) then True
        else if re_test GLYPH_NEAR_END t \<and> length t < 200 \<and> re_test ps1EndRe (take 80 t) then True
        else False)"

definition lineHasPs1 :: "jsstr \<Rightarrow> bool" where
  "lineHasPs1 raw = looksLikePromptLine raw"

definition CLASSIC_CMD :: re where
  [js_eval]: "CLASSIC_CMD = seqs (user_at_host @ [chr 58, Star non_ws, cls ''#$'', Star ws, Grp 1 (Star (CC is_dot)), Eol])"

definition USERHOST_CMD :: re where
  [js_eval]: "USERHOST_CMD = seqs (user_at_host @
     [rplus ws, LStar (CC (\<lambda>c. c \<noteq> 10)), glyph, Star ws, Grp 1 (Star (CC is_dot)), Eol])"

definition PATH_PREF :: re where
  [js_eval]: "PATH_PREF = seqs (Bol # home_path @ [chr 32, Grp 1 (Star (CC is_dot)), Eol])"

definition HOME_CMD :: re where
  [js_eval]: "HOME_CMD = seqs (home_path @ [rplus ws, Grp 1 (Seq non_ws (Star (CC is_dot))), Eol])"

text \<open>What follows the first three attempts: the path prefix and the last resort.\<close>

definition strip_path_prefix :: "jsstr \<Rightarrow> jsstr \<Rightarrow> jsstr" where
  "strip_path_prefix raw line =
     (case re_group 1 PATH_PREF line of
        Some cmd \<Rightarrow> trim cmd
      | None \<Rightarrow>
          (case re_group 1 HOME_CMD raw of
             Some cmd \<Rightarrow> if \<not> looksLikeDirectoryListing cmd then trim cmd else trim line
           | None \<Rightarrow> trim line))"

definition stripPs1 :: "jsstr \<Rightarrow> jsstr" where
  "stripPs1 raw =
     (let line = stripOrnaments (stripOrnaments raw) in
      case re_group 1 CLASSIC_CMD line of
        Some cmd \<Rightarrow> trim cmd
      | None \<Rightarrow>
      case re_group 1 USERHOST_CMD line of
        Some cmd \<Rightarrow> trim cmd
      | None \<Rightarrow>
          if re_test ps1EndRe line \<and> re_test ps1EndRe (take 80 line) then
            (let after = replace_first stripPs1Re [] (take 80 line) @ drop 80 line in
             case re_group 1 PATH_PREF after of Some cmd \<Rightarrow> trim cmd | None \<Rightarrow> trim after)
          else strip_path_prefix raw line)"

definition isPlausibleCommandText :: "jsstr \<Rightarrow> bool" where
  "isPlausibleCommandText stripped =
     (let t = trim stripped in
      t \<noteq> [] \<and> length t \<le> 160 \<and> \<not> includes_str t [10]
      \<and> t \<noteq> js ''~'' \<and> t \<noteq> js ''.'' \<and> t \<noteq> js ''..'' \<and> \<not> looksLikeDirectoryListing t)"

section \<open>Deterministic repetition\<close>

text \<open>All the ways a greedy repetition of a class can match, longest first.\<close>

lemma rm_Star_CC:
  "rm (Star (CC p)) (i, r, cs)
   = map (\<lambda>k. (i + k, drop k r, cs)) (rev [0..<Suc (length (takeWhile p r))])"
proof (induction r arbitrary: i)
  case Nil
  then show ?case by (simp add: rm.simps(5))
next
  case (Cons c r)
  show ?case
  proof (cases "p c")
    case True
    have "rm (Star (CC p)) (i, c # r, cs) = rm (Star (CC p)) (Suc i, r, cs) @ [(i, c # r, cs)]"
      using True by (subst rm.simps(5)) simp
    also have "\<dots> = map (\<lambda>k. (i + k, drop k (c # r), cs)) (rev (map Suc [0..<Suc (length (takeWhile p r))])) @ [(i, c # r, cs)]"
      by (simp only: Cons.IH) (simp add: rev_map o_def)
    also have "\<dots> = map (\<lambda>k. (i + k, drop k (c # r), cs)) (rev (0 # map Suc [0..<Suc (length (takeWhile p r))]))"
      by simp
    also have "0 # map Suc [0..<Suc (length (takeWhile p r))] = [0..<Suc (length (takeWhile p (c # r)))]"
      using True by (simp add: map_Suc_upt upt_conv_Cons del: upt_Suc)
    finally show ?thesis .
  next
    case False
    then show ?thesis by (subst rm.simps(5)) simp
  qed
qed

text \<open>A greedy class followed by a character outside of it takes the whole run.\<close>

lemma concat_map_last:
  "(\<And>k. k < n \<Longrightarrow> f k = []) \<Longrightarrow> concat (map f (rev [0..<Suc n])) = f n"
  by simp

lemma drop_takeWhile_hd: "k < length (takeWhile p r) \<Longrightarrow> \<exists>c r'. drop k r = c # r' \<and> p c"
proof -
  assume k: "k < length (takeWhile p r)"
  then have "k < length r" by (meson length_takeWhile_le less_le_trans)
  then have "drop k r = r ! k # drop (Suc k) r" by (rule Cons_nth_drop_Suc [symmetric])
  moreover have "p (r ! k)" using k by (metis nth_mem set_takeWhileD takeWhile_nth)
  ultimately show ?thesis by blast
qed

lemma star_then:
  assumes "\<And>c. p c \<Longrightarrow> \<not> q c"
  shows "rm (Seq (Star (CC p)) (Seq (CC q) re)) (i, r, cs)
    = rm (Seq (CC q) re) (i + length (takeWhile p r), dropWhile p r, cs)"
proof -
  let ?f = "\<lambda>k. rm (Seq (CC q) re) (i + k, drop k r, cs)"
  have "?f k = []" if k: "k < length (takeWhile p r)" for k
    using drop_takeWhile_hd [OF k] assms by auto
  then have "concat (map ?f (rev [0..<Suc (length (takeWhile p r))])) = ?f (length (takeWhile p r))"
    by (rule concat_map_last)
  then show ?thesis by (simp only: rm.simps(3) rm_Star_CC dropWhile_eq_drop) (simp add: o_def)
qed

lemma rm_Seq_CC: "rm (Seq (CC q) re) (i, d # r, cs) = (if q d then rm re (Suc i, r, cs) else [])"
  by simp

lemma rm_Seq_Bol: "rm (Seq Bol re) (0, r, cs) = rm re (0, r, cs)"
  by simp

lemma plus_then:
  assumes "\<And>c. p c \<Longrightarrow> \<not> q c" "list_all p u" "u \<noteq> []" "q d"
  shows "rm (Seq (rplus (CC p)) (Seq (CC q) re)) (i, u @ d # r, cs) = rm re (i + length u + 1, r, cs)"
proof -
  obtain c u' where u: "u = c # u'" "p c" "list_all p u'" using assms(2,3) by (cases u) auto
  have "\<not> p d" using assms(1,4) by blast
  then have t: "takeWhile p (u' @ d # r) = u'" "dropWhile p (u' @ d # r) = d # r"
    using u(3) by (simp_all add: takeWhile_append dropWhile_append list_all_iff)
  have "rm (Seq (rplus (CC p)) (Seq (CC q) re)) (i, u @ d # r, cs)
      = rm (Seq (Star (CC p)) (Seq (CC q) re)) (Suc i, u' @ d # r, cs)"
    using u by (simp add: rplus_def)
  also have "\<dots> = rm (Seq (CC q) re) (Suc i + length u', d # r, cs)"
    using star_then [of p q re "Suc i" "u' @ d # r" cs] assms(1) t by (simp del: rm_base(2))
  finally show ?thesis using assms(4) u(1) by (simp add: rm_Seq_CC del: rm_base(2))
qed

section \<open>A classic prompt\<close>

text \<open>\<open>user@host:path$ \<close> and what the user typed after it.\<close>

definition classic_prompt :: "jsstr \<Rightarrow> jsstr \<Rightarrow> jsstr \<Rightarrow> nat \<Rightarrow> jsstr \<Rightarrow> jsstr" where
  "classic_prompt user host path mark cmd = user @ 64 # host @ 58 # path @ mark # 32 # cmd"

definition prompt_parts_ok :: "jsstr \<Rightarrow> jsstr \<Rightarrow> jsstr \<Rightarrow> nat \<Rightarrow> bool" where
  "prompt_parts_ok user host path mark \<longleftrightarrow> user \<noteq> [] \<and> list_all is_host_char user \<and> host \<noteq> [] \<and> list_all is_host_char host
     \<and> list_all (\<lambda>c. \<not> is_ws c) path \<and> (mark = 35 \<or> mark = 36)"

lemma host_char_facts: "is_host_char c \<Longrightarrow> c \<noteq> 64 \<and> c \<noteq> 58 \<and> \<not> is_ws c \<and> c \<notin> set ORNAMENTS"
  by (auto simp: is_host_char_def is_word_def is_alpha_def is_digit_def is_ws_def ORNAMENTS_def)

text \<open>The head of a prompt row passes the shared prefix of the expressions.\<close>

lemma rm_user_at_host:
  assumes "prompt_parts_ok user host path mark"
  shows "rm (seqs (user_at_host @ (chr 58 # res))) (0, user @ 64 # host @ 58 # rest, cs)
    = rm (seqs res) (length user + length host + 2, rest, cs)"
proof -
  have u: "rm (Seq (rplus (CC is_host_char)) (Seq (CC (\<lambda>x. x = 64)) re)) (0, user @ 64 # r, cs)
      = rm re (length user + 1, r, cs)" for re r
    using plus_then [of is_host_char "\<lambda>x. x = 64" user 64 re 0 r cs] assms host_char_facts
    by (auto simp: prompt_parts_ok_def)
  have h: "rm (Seq (rplus (CC is_host_char)) (Seq (CC (\<lambda>x. x = 58)) re)) (i, host @ 58 # r, cs)
      = rm re (i + length host + 1, r, cs)" for re r i
    using plus_then [of is_host_char "\<lambda>x. x = 58" host 58 re i r cs] assms host_char_facts
    by (auto simp: prompt_parts_ok_def)
  show ?thesis
    unfolding user_at_host_def
    by (simp add: seqs_def chr_def u h rm_Seq_Bol del: rm_base(2))
qed

lemma replace_first_Bol:
  "rm re (0, s, []) = [] \<Longrightarrow> replace_first (Seq Bol re) repl s = s"
  by (cases s) (simp_all add: replace_first_def exec_from_Bol)

lemma no_ornament:
  assumes "s \<noteq> []" "\<not> is_ws (hd s)" "hd s \<notin> set ORNAMENTS"
  shows "stripOrnaments s = s"
proof -
  have "replace_first (seqs [Bol, CC (\<lambda>c. c \<in> set ORNAMENTS), Star ws]) [] s = s"
    using assms(1,3) by (cases s) (simp_all add: seqs_def replace_first_Bol)
  with assms(1,2) show ?thesis by (cases s) (simp_all add: stripOrnaments_def trimStart_def)
qed

text \<open>Trimming stops at a character that is not blank.\<close>

lemma trimEnd_after: "\<not> is_ws c \<Longrightarrow> trimEnd (s @ c # t) = s @ c # trimEnd t"
  by (simp add: trimEnd_def dropWhile_append)

lemma trimEnd_hd: "trimEnd s = [] \<or> hd (trimEnd s) = hd s"
  using trimEnd_prefix [of s] by (metis hd_append2)

lemma classic_prompt_hd:
  assumes "prompt_parts_ok user host path mark"
  shows "stripOrnaments (classic_prompt user host path mark cmd) = classic_prompt user host path mark cmd"
proof (rule no_ornament)
  obtain c u where u: "user = c # u" "is_host_char c" using assms by (cases user) (auto simp: prompt_parts_ok_def)
  show "classic_prompt user host path mark cmd \<noteq> []" by (simp add: classic_prompt_def)
  show "\<not> is_ws (hd (classic_prompt user host path mark cmd))"
    "hd (classic_prompt user host path mark cmd) \<notin> set ORNAMENTS"
    using host_char_facts [OF u(2)] u(1) by (simp_all add: classic_prompt_def)
qed

text \<open>The path takes the run of non-blanks; the prompt mark is its last character.\<close>

lemma rm_path_mark:
  assumes "list_all (\<lambda>c. \<not> is_ws c) path" "mark = 35 \<or> mark = 36" "w = [] \<or> is_ws (hd w)"
  shows "\<exists>ms. rm (Seq (Star non_ws) (Seq (cls ''#$'') re)) (i, path @ mark # w, cs)
    = rm re (i + length path + 1, w, cs) @ ms"
proof -
  let ?r = "path @ mark # w"
  let ?f = "\<lambda>k. rm (Seq (cls ''#$'') re) (i + k, drop k ?r, cs)"
  have "\<not> is_ws mark" using assms(2) by (auto simp: is_ws_def)
  then have "takeWhile (\<lambda>c. \<not> is_ws c) ?r = path @ [mark]"
    using assms(1,3) by (cases w) (simp_all add: takeWhile_append list_all_iff)
  then have "rm (Seq (Star non_ws) (Seq (cls ''#$'') re)) (i, ?r, cs)
      = concat (map ?f (rev [0..<Suc (Suc (length path))]))"
    by (simp only: rm.simps(3) non_ws_def rm_Star_CC) (simp add: o_def)
  also have "\<dots> = ?f (Suc (length path)) @ ?f (length path) @ concat (map ?f (rev [0..<length path]))" by simp
  also have "?f (Suc (length path)) = []"
    using assms(3) by (cases w) (auto simp: cls_def js_def is_ws_def)
  also have "?f (length path) = rm re (i + length path + 1, w, cs)"
    using assms(2) by (auto simp: cls_def js_def)
  finally show ?thesis by auto
qed

text \<open>A row that ends with its mark or goes on with a blank is a prompt.\<close>

lemma classic_row:
  assumes "prompt_parts_ok user host path mark" "w = [] \<or> is_ws (hd w)"
  shows "re_test CLASSIC_ROW (user @ 64 # host @ 58 # path @ mark # w)"
proof -
  let ?i = "length user + length host + 2"
  let ?re = "Seq (Alt ws Eol) Eps"
  have p: "list_all (\<lambda>c. \<not> is_ws c) path" "mark = 35 \<or> mark = 36" using assms(1) by (simp_all add: prompt_parts_ok_def)
  have "rm CLASSIC_ROW (0, user @ 64 # host @ 58 # path @ mark # w, [])
      = rm (Seq (Star non_ws) (Seq (cls ''#$'') ?re)) (?i, path @ mark # w, [])"
    unfolding CLASSIC_ROW_def append.simps rm_user_at_host [OF assms(1)] by (simp add: seqs_def del: rm_base(2))
  moreover have "rm ?re (?i + length path + 1, w, []) \<noteq> []"
    using assms(2) by (cases w) (auto simp: ws_def)
  ultimately have "rm CLASSIC_ROW (0, user @ 64 # host @ 58 # path @ mark # w, []) \<noteq> []"
    using rm_path_mark [OF p assms(2), of ?re ?i "[]"] by (metis append_is_Nil_conv)
  moreover obtain c r where "user @ 64 # host @ 58 # path @ mark # w = c # r" by (cases user) auto
  ultimately show ?thesis by (simp add: re_test_def split: list.split)
qed

lemma rm_blank_rest:
  assumes "list_all is_dot cmd"
  shows "\<exists>ms. rm (Seq (Star ws) (Seq (Grp 1 (Star (CC is_dot))) (Seq Eol Eps))) (i, 32 # cmd, [])
    = (i + 1 + length cmd, [], [(1, dropWhile is_ws cmd)]) # ms"
proof -
  let ?n = "Suc (length (takeWhile is_ws cmd))"
  have w: "takeWhile is_ws (32 # cmd) = 32 # takeWhile is_ws cmd" by (simp add: is_ws_def [of 32])
  define d where "d = dropWhile is_ws cmd"
  have d: "drop ?n (32 # cmd) = d" by (simp add: d_def dropWhile_eq_drop)
  have "list_all is_dot d" using assms by (auto simp: d_def list_all_iff dest: set_dropWhileD)
  then have t: "takeWhile is_dot d = d" by (simp add: list_all_iff takeWhile_eq_all_conv)
  have l: "length (takeWhile is_ws cmd) + length d = length cmd"
    unfolding d_def by (metis length_append takeWhile_dropWhile_id)
  have "rm (Star ws) (i, 32 # cmd, []) = (i + ?n, d, []) # map (\<lambda>k. (i + k, drop k (32 # cmd), [])) (rev [0..<?n])"
    unfolding ws_def rm_Star_CC w using d by simp
  moreover have "\<exists>ms. rm (Star (CC is_dot)) (i + ?n, d, []) = (i + ?n + length d, [], []) # ms"
    unfolding rm_Star_CC t by simp
  ultimately show ?thesis using l by (auto simp: d_def [symmetric])
qed

lemma classic_match:
  assumes "prompt_parts_ok user host path mark" "list_all is_dot cmd"
  shows "re_group 1 CLASSIC_CMD (classic_prompt user host path mark cmd) = Some (dropWhile is_ws cmd)"
proof -
  let ?s = "classic_prompt user host path mark cmd"
  let ?i = "length user + length host + 2"
  let ?re = "Seq (Star ws) (Seq (Grp 1 (Star (CC is_dot))) (Seq Eol Eps))"
  have p: "list_all (\<lambda>c. \<not> is_ws c) path" "mark = 35 \<or> mark = 36" using assms(1) by (simp_all add: prompt_parts_ok_def)
  have "rm CLASSIC_CMD (0, ?s, []) = rm (Seq (Star non_ws) (Seq (cls ''#$'') ?re)) (?i, path @ mark # 32 # cmd, [])"
    unfolding CLASSIC_CMD_def append.simps classic_prompt_def rm_user_at_host [OF assms(1)]
    by (simp add: seqs_def del: rm_base(2))
  with rm_path_mark [OF p, of "32 # cmd" ?re ?i "[]"] rm_blank_rest [OF assms(2), of "?i + length path + 1"] is_ws_def [of 32]
  obtain ms where "rm CLASSIC_CMD (0, ?s, []) = (?i + length path + 1 + 1 + length cmd, [], [(1, dropWhile is_ws cmd)]) # ms"
    by auto
  then show ?thesis by (cases ?s) (simp_all add: re_group_def)
qed

section \<open>Properties\<close>

text \<open>
  C15. A classic prompt row gives back what was typed: for every user and host name, every path
  without blanks, the marks \<^verbatim>\<open>#\<close> and \<^verbatim>\<open>$\<close>, and every command on one line, even one that itself
  contains marks, blanks or another prompt, \<^verbatim>\<open>stripPs1\<close> of the row is the command without
  surrounding blanks, and the row is recognised as a prompt.\<close>

theorem classic_prompt_round_trip:
  assumes "prompt_parts_ok user host path mark" "list_all is_dot cmd"
  shows "stripPs1 (classic_prompt user host path mark cmd) = trim cmd
    \<and> looksLikePromptLine (classic_prompt user host path mark cmd)"
proof
  have "trim (dropWhile is_ws cmd) = trim cmd" by (simp add: trim_def trimStart_def)
  then show "stripPs1 (classic_prompt user host path mark cmd) = trim cmd"
    by (simp add: stripPs1_def classic_prompt_hd [OF assms(1)] classic_match [OF assms] del: One_nat_def)
  have m: "\<not> is_ws mark" using assms(1) by (auto simp: prompt_parts_ok_def is_ws_def)
  define w where "w = trimEnd (32 # cmd)"
  have w: "w = [] \<or> is_ws (hd w)"
    using trimEnd_hd [of "32 # cmd"] is_ws_def [of 32] unfolding w_def by auto
  have "trimEnd (classic_prompt user host path mark cmd) = user @ 64 # host @ 58 # path @ mark # w"
    using m trimEnd_after [of mark "user @ 64 # host @ 58 # path" "32 # cmd"] by (simp add: classic_prompt_def w_def)
  then show "looksLikePromptLine (classic_prompt user host path mark cmd)"
    using classic_row [OF assms(1) w] by (simp add: looksLikePromptLine_def)
qed

theorem classic_prompt_round_trip_witness:
  "stripPs1 (js ''root@web-1:/srv$ echo $X # done '') = js ''echo $X # done''
   \<and> looksLikePromptLine (js ''root@web-1:/srv$ echo $X # done '')"
proof -
  have "js ''root@web-1:/srv$ echo $X # done '' = classic_prompt (js ''root'') (js ''web-1'') (js ''/srv'') 36 (js ''echo $X # done '')"
    by (simp add: js_def classic_prompt_def)
  moreover have "prompt_parts_ok (js ''root'') (js ''web-1'') (js ''/srv'') 36" "list_all is_dot (js ''echo $X # done '')"
    by (simp_all add: prompt_parts_ok_def js_eval is_host_char_def)
  moreover have "trim (js ''echo $X # done '') = js ''echo $X # done''" by (simp add: js_eval)
  ultimately show ?thesis using classic_prompt_round_trip by metis
qed

text \<open>
  Commands of up to four words are never mistaken for a directory listing, whatever
  the words are; one with a pipe, a separator, a redirection, an option or a path in it never
  is, however long.\<close>

theorem listing_guard_spares_commands:
  "(length (ws_tokens s) < 5 \<longrightarrow> \<not> looksLikeDirectoryListing s)
   \<and> ((\<exists>c \<in> set s. c \<in> set (js ''|;&<>(){}'')) \<longrightarrow> \<not> looksLikeDirectoryListing s)
   \<and> ((\<exists>t \<in> set (ws_tokens s). t \<noteq> [] \<and> hd t = 45 \<or> 47 \<in> set t) \<longrightarrow> \<not> looksLikeDirectoryListing s)"
proof (intro conjI impI)
  assume "\<exists>c \<in> set s. c \<in> set (js ''|;&<>(){}'')"
  then have "re_test (cls ''|;&<>(){}'') s" by (simp add: cls_def re_test_CC)
  then show "\<not> looksLikeDirectoryListing s" by (simp add: looksLikeDirectoryListing_def Let_def)
next
  assume "\<exists>t \<in> set (ws_tokens s). t \<noteq> [] \<and> hd t = 45 \<or> 47 \<in> set t"
  moreover have "t \<noteq> [] \<and> hd t = 45 \<Longrightarrow> startsWith t (js ''-'')" for t by (cases t) (auto simp: js_def startsWith_def)
  moreover have "47 \<in> set t \<Longrightarrow> includes_str t (js ''/'')" for t by (simp add: js_def includes_single)
  ultimately have "list_ex (\<lambda>t. startsWith t (js ''-'') \<or> includes_str t (js ''/'')) (ws_tokens s)"
    unfolding list_ex_iff by blast
  then show "\<not> looksLikeDirectoryListing s" by (simp add: looksLikeDirectoryListing_def Let_def)
qed (simp add: looksLikeDirectoryListing_def Let_def)

theorem listing_guard_spares_commands_witness:
  "length (ws_tokens (js ''sudo apt update now'')) < 5 \<and> \<not> looksLikeDirectoryListing (js ''sudo apt update now'')
   \<and> looksLikeDirectoryListing (js ''bin etc home lib opt'')"
proof -
  have "length (ws_tokens (js ''sudo apt update now'')) < 5" by (simp add: ws_tokens_def split_ws.simps js_eval)
  moreover have "looksLikeDirectoryListing (js ''bin etc home lib opt'')"
    by (simp add: looksLikeDirectoryListing_def ws_tokens_def split_ws.simps Let_def js_eval)
  ultimately show ?thesis using listing_guard_spares_commands [of "js ''sudo apt update now''"] by blast
qed

text \<open>
  What passes for a command from the screen is short and on one line: not empty after
  trimming, at most 160 characters, without a line feed, and not a bare path crumb.\<close>

theorem plausible_command_shape:
  assumes "isPlausibleCommandText s"
  shows "trim s \<noteq> [] \<and> length (trim s) \<le> 160 \<and> 10 \<notin> set (trim s) \<and> trim s \<notin> {js ''~'', js ''.'', js ''..''}
    \<and> isPlausibleCommandText (trim s)"
  using assms by (simp add: isPlausibleCommandText_def Let_def includes_single)

theorem plausible_command_shape_witness:
  "isPlausibleCommandText (js '' ls -la '') \<and> length (trim (js '' ls -la '')) \<le> 160"
proof -
  have "trim (js '' ls -la '') = js ''ls -la''" by (simp add: js_eval)
  moreover have "\<not> looksLikeDirectoryListing (js ''ls -la'')"
    by (simp add: looksLikeDirectoryListing_def ws_tokens_def split_ws.simps Let_def js_eval)
  ultimately have "isPlausibleCommandText (js '' ls -la '')"
    by (simp add: isPlausibleCommandText_def includes_single) (simp add: js_def)
  with plausible_command_shape show ?thesis by blast
qed

end
