(* ===== verification/Blocks.thy ===== *)
theory Blocks
  imports PromptLine
begin

text \<open>
  Command blocks (\<^verbatim>\<open>terminal/blocks.ts\<close>) and the full-screen-program signals they reset
  (\<^verbatim>\<open>TuiState\<close> of \<^verbatim>\<open>terminal/registry.ts\<close>). The shell reports its phases by OSC 133 marks; each
  mark is queued and applied, one per flush, against the state of the terminal at that
  moment. The tracker turns them into finished blocks and into the snapshot that the overlay
  paints.

  The terminal emulator is xterm.js, which is not part of the repository: the operations the
  code calls (cursor, rows, markers) are the fields of the record \<open>xterm_api\<close>, over an
  arbitrary type of terminal states. The theory is about one session; a marker is the number
  under which the emulator knows it. The clock is read once per operation.
\<close>

section \<open>The emulator as a parameter\<close>

type_synonym marker = nat

record 'x xterm_api =
  x_baseY :: "'x \<Rightarrow> int"
  x_cursorY :: "'x \<Rightarrow> int"
  x_cursorX :: "'x \<Rightarrow> int"
  x_alternate :: "'x \<Rightarrow> bool"
  x_text :: "'x \<Rightarrow> int \<Rightarrow> jsstr option"  \<comment> \<open>\<^verbatim>\<open>getLine(y)?.translateToString(true)\<close>\<close>
  x_padded :: "'x \<Rightarrow> int \<Rightarrow> jsstr option"  \<comment> \<open>\<^verbatim>\<open>getLine(y)?.translateToString(false)\<close>\<close>
  x_registerMarker :: "int \<Rightarrow> 'x \<Rightarrow> (marker \<times> 'x) option"
  x_line :: "'x \<Rightarrow> marker \<Rightarrow> int"
  x_isDisposed :: "'x \<Rightarrow> marker \<Rightarrow> bool"
  x_dispose :: "marker \<Rightarrow> 'x \<Rightarrow> 'x"

section \<open>State\<close>

record tui_state =
  t_sync :: bool
  t_mouse :: bool
  t_cursorHidden :: bool
  t_agentLaunched :: bool
  t_launchWiped :: bool

definition freshTuiState :: tui_state where
  "freshTuiState = \<lparr>t_sync = False, t_mouse = False, t_cursorHidden = False,
     t_agentLaunched = False, t_launchWiped = False\<rparr>"

record block_meta =
  m_cwd :: "jsstr option"
  m_gitBranch :: "jsstr option"
  m_startedAt :: int
  m_endedAt :: "int option"

record finished_block =
  b_id :: jsstr
  b_prompt :: marker
  b_command :: marker
  b_end :: marker
  b_fromInput :: bool
  b_commandText :: jsstr
  b_outputText :: jsstr
  b_exitCode :: "int option"
  b_meta :: block_meta
  b_lineCount :: int

record active_block =
  a_prompt :: marker
  a_command :: marker
  a_meta :: block_meta

record open_block =
  promptStart :: "marker option"
  commandStart :: "marker option"
  outputStart :: "marker option"
  open_commandText :: "jsstr option"
  commandFromInput :: bool
  open_meta :: "block_meta option"

datatype phase = PromptStart | CommandStart | OutputStart | CommandEnd

text \<open>The callbacks of the context and of \<^verbatim>\<open>onRerun\<close> are identified by numbers.\<close>

record session_block_context =
  c_waiting :: bool
  c_waitingMessage :: "jsstr option"
  c_isAgentSession :: bool
  c_onReview :: "nat option"
  c_onJumpToAgent :: "nat option"

record block_tracker =
  tr_open :: open_block
  pending :: "(phase \<times> int option) list"
  finished :: "finished_block list"
  active :: "active_block option"
  tr_context :: session_block_context
  tr_onRerun :: "nat option"
  nextId :: nat
  uncoverLivePrompt :: bool

definition empty_open :: open_block where
  "empty_open = \<lparr>promptStart = None, commandStart = None, outputStart = None,
     open_commandText = None, commandFromInput = False, open_meta = None\<rparr>"

definition empty_context :: session_block_context where
  "empty_context = \<lparr>c_waiting = False, c_waitingMessage = None, c_isAgentSession = False,
     c_onReview = None, c_onJumpToAgent = None\<rparr>"

definition new_tracker :: block_tracker where
  "new_tracker = \<lparr>tr_open = empty_open, pending = [], finished = [], active = None,
     tr_context = empty_context, tr_onRerun = None, nextId = 0, uncoverLivePrompt = False\<rparr>"

datatype log_entry =
    PhaseLog jsstr int int "(int \<times> jsstr) option" "jsstr list"
  | DendLog jsstr bool bool
  | WriteLog nat jsstr

text \<open>
  One session: its terminal and the rest of its \<^verbatim>\<open>TerminalRecord\<close> while the registry has it
  (\<open>w_live\<close>), its tracker, its queue of submitted commands, the log of the phase handlers, and
  how often the chrome was told to repaint.
\<close>

record 'x session_world =
  w_live :: bool
  w_x :: 'x
  w_tui :: tui_state
  w_cwd :: "jsstr option"
  w_gitBranch :: "jsstr option"
  w_tracker :: "block_tracker option"
  w_submitted :: "(jsstr \<times> int) list"
  w_log :: "log_entry list"
  w_syncs :: nat

section \<open>TUI state (registry)\<close>

definition syncChrome :: "'x session_world \<Rightarrow> 'x session_world" where
  "syncChrome w = w\<lparr>w_syncs := Suc (w_syncs w)\<rparr>"

definition getTuiState :: "'x session_world \<Rightarrow> tui_state option" where
  "getTuiState w = (if w_live w then Some (w_tui w) else None)"

definition resetTuiState :: "'x session_world \<Rightarrow> 'x session_world" where
  "resetTuiState w =
     (if \<not> w_live w then w
      else let t = w_tui w in
        if \<not> t_sync t \<and> \<not> t_mouse t \<and> \<not> t_cursorHidden t then w
        else syncChrome (w\<lparr>w_tui := t\<lparr>t_sync := False, t_mouse := False, t_cursorHidden := False\<rparr>\<rparr>))"

definition markAgentLaunched :: "bool \<Rightarrow> 'x session_world \<Rightarrow> 'x session_world" where
  "markAgentLaunched on w =
     (if \<not> w_live w \<or> t_agentLaunched (w_tui w) = on then w
      else let t = (w_tui w)\<lparr>t_agentLaunched := on\<rparr>;
               t = (if \<not> on then t\<lparr>t_launchWiped := False\<rparr> else t)
           in syncChrome (w\<lparr>w_tui := t\<rparr>))"

definition MOUSE_MODES :: "int list" where
  "MOUSE_MODES = [1000, 1001, 1002, 1003, 1005, 1006, 1015]"

text \<open>A CSI parameter is a number or a list of sub-parameters.\<close>

datatype csi_param = Param int | SubParams "int list"

fun flattenModes :: "csi_param list \<Rightarrow> int list" where
  "flattenModes [] = []"
| "flattenModes (Param p # ps) = p # flattenModes ps"
| "flattenModes (SubParams l # ps) = l @ flattenModes ps"

text \<open>One round of the loop of \<^verbatim>\<open>onDecMode\<close>, on the state and the \<^verbatim>\<open>changed\<close> flag.\<close>

definition dec_mode :: "bool \<Rightarrow> int \<Rightarrow> tui_state \<times> bool \<Rightarrow> tui_state \<times> bool" where
  "dec_mode on mode = (\<lambda>(t, changed).
     if mode = 2026 then (if \<not> t_sync t then (t\<lparr>t_sync := True\<rparr>, True) else (t, changed))
     else if mode \<in> set MOUSE_MODES then
       (if t_mouse t \<noteq> on then (t\<lparr>t_mouse := on\<rparr>, True) else (t, changed))
     else if mode = 25 then
       (if t_cursorHidden t \<noteq> (\<not> on) then (t\<lparr>t_cursorHidden := \<not> on\<rparr>, True) else (t, changed))
     else (t, changed))"

definition onDecMode :: "bool \<Rightarrow> csi_param list \<Rightarrow> 'x session_world \<Rightarrow> 'x session_world" where
  "onDecMode on params w =
     (if \<not> w_live w then w
      else let (t, changed) = fold (dec_mode on) (flattenModes params) (w_tui w, False);
               w = w\<lparr>w_tui := t\<rparr>
           in if changed then syncChrome w else w)"

section \<open>Markers and rows\<close>

definition markerLine :: "'x xterm_api \<Rightarrow> 'x \<Rightarrow> marker option \<Rightarrow> int option" where
  "markerLine T x m = (case m of None \<Rightarrow> None | Some k \<Rightarrow> if x_isDisposed T x k then None else Some (x_line T x k))"

definition row_text :: "'x xterm_api \<Rightarrow> 'x \<Rightarrow> int \<Rightarrow> jsstr" where
  "row_text T x y = (case x_text T x y of Some t \<Rightarrow> t | None \<Rightarrow> [])"

definition cursorAbs :: "'x xterm_api \<Rightarrow> 'x \<Rightarrow> int" where
  "cursorAbs T x = x_baseY T x + x_cursorY T x"

definition extractCommandLine :: "'x xterm_api \<Rightarrow> 'x \<Rightarrow> marker option \<Rightarrow> marker option \<Rightarrow> jsstr" where
  "extractCommandLine T x command prompt =
     (case or_else (markerLine T x command) (markerLine T x prompt) of
        None \<Rightarrow> []
      | Some lineNo \<Rightarrow>
          (let raw = row_text T x lineNo in
           if \<not> lineHasPs1 raw then []
           else let stripped = trim (stripPs1 raw) in
             if isPlausibleCommandText stripped then stripped else []))"

text \<open>The body of the two upward scans: the command on row \<open>y\<close>, if it is a prompt row with one.\<close>

definition command_on_row :: "'x xterm_api \<Rightarrow> 'x \<Rightarrow> int \<Rightarrow> (int \<times> jsstr) option" where
  "command_on_row T x y =
     (let raw = row_text T x y in
      if trim raw = [] then None
      else if \<not> looksLikePromptLine raw then None
      else let stripped = trim (stripPs1 raw) in
        if \<not> isPlausibleCommandText stripped then None else Some (y, stripped))"

fun first_some :: "('a \<Rightarrow> 'b option) \<Rightarrow> 'a list \<Rightarrow> 'b option" where
  "first_some f [] = None"
| "first_some f (x # xs) = (case f x of Some y \<Rightarrow> Some y | None \<Rightarrow> first_some f xs)"

definition findCommandAboveCursor :: "'x xterm_api \<Rightarrow> 'x \<Rightarrow> (int \<times> jsstr) option" where
  "findCommandAboveCursor T x =
     (let cursor = cursorAbs T x in first_some (command_on_row T x) (rev [max 0 (cursor - 6)..cursor]))"

definition markerAtLine :: "'x xterm_api \<Rightarrow> int \<Rightarrow> 'x \<Rightarrow> (marker \<times> 'x) option" where
  "markerAtLine T absLine x =
     (let offset = absLine - cursorAbs T x in
      if offset < -4000 \<or> offset > 10 then None else x_registerMarker T offset x)"

definition findFirstPromptRowAbove :: "'x xterm_api \<Rightarrow> 'x \<Rightarrow> int \<Rightarrow> int \<Rightarrow> (int \<times> jsstr) option" where
  "findFirstPromptRowAbove T x fromLine maxUp =
     first_some (command_on_row T x) (rev [max 0 (fromLine - maxUp)..fromLine])"

definition textBetween :: "'x xterm_api \<Rightarrow> 'x \<Rightarrow> marker option \<Rightarrow> marker option \<Rightarrow> jsstr" where
  "textBetween T x start end1 =
     (case (start, end1) of
        (Some s, Some e) \<Rightarrow>
          if x_isDisposed T x s \<or> x_isDisposed T x e then []
          else let from1 = x_line T x s; to1 = x_line T x e in
            if from1 < 0 \<or> to1 < 0 \<or> to1 < from1 then []
            else trim (join [10] (List.map_filter (x_text T x) [from1..to1]))
      | _ \<Rightarrow> [])"

section \<open>Submitted commands and the phase log\<close>

definition noteSubmittedCommand :: "int \<Rightarrow> jsstr \<Rightarrow> 'x session_world \<Rightarrow> 'x session_world" where
  "noteSubmittedCommand now text w =
     (let t = trim text in
      if t = [] then w else w\<lparr>w_submitted := push_shift 32 (t, now) (w_submitted w)\<rparr>)"

fun takeSubmittedCommand :: "int \<Rightarrow> (jsstr \<times> int) list \<Rightarrow> jsstr option \<times> (jsstr \<times> int) list" where
  "takeSubmittedCommand now [] = (None, [])"
| "takeSubmittedCommand now ((t, at) # q) =
     (if now - at \<le> 30000 then (Some t, q) else takeSubmittedCommand now q)"

text \<open>\<^verbatim>\<open>phaseLog.push(e); if (phaseLog.length > 40) phaseLog.shift();\<close>\<close>

definition log_push :: "log_entry \<Rightarrow> log_entry list \<Rightarrow> log_entry list" where
  "log_push e l = (let l' = l @ [e] in if length l' > 40 then tl l' else l')"

definition show_int :: "int \<Rightarrow> jsstr" where
  "show_int n = (if n < 0 then 45 # show_nat (nat (- n)) else show_nat (nat n))"

definition recordPhaseLog :: "'x xterm_api \<Rightarrow> jsstr \<Rightarrow> (int \<times> jsstr) option \<Rightarrow> 'x session_world \<Rightarrow> 'x session_world" where
  "recordPhaseLog T ph found w =
     (let c = cursorAbs T (w_x w);
          rows = map (\<lambda>y. show_int y @ js '':'' @ take 45 (row_text T (w_x w) y)) [max 0 (c - 6)..c]
      in w\<lparr>w_log := log_push (PhaseLog ph c (x_baseY T (w_x w)) found rows) (w_log w)\<rparr>)"

definition recordOpLog :: "log_entry \<Rightarrow> 'x session_world \<Rightarrow> 'x session_world" where
  "recordOpLog e w = w\<lparr>w_log := log_push e (w_log w)\<rparr>"

section \<open>The phases\<close>

definition registerMarker :: "'x xterm_api \<Rightarrow> 'x session_world \<Rightarrow> (marker \<times> 'x session_world) option" where
  "registerMarker T w = map_option (\<lambda>(m, x). (m, w\<lparr>w_x := x\<rparr>)) (x_registerMarker T 0 (w_x w))"

definition dispose :: "'x xterm_api \<Rightarrow> marker \<Rightarrow> 'x session_world \<Rightarrow> 'x session_world" where
  "dispose T m w = w\<lparr>w_x := x_dispose T m (w_x w)\<rparr>"

definition dispose_opt :: "'x xterm_api \<Rightarrow> marker option \<Rightarrow> 'x session_world \<Rightarrow> 'x session_world" where
  "dispose_opt T m w = (case m of None \<Rightarrow> w | Some k \<Rightarrow> dispose T k w)"

definition getTerminalCwd :: "'x session_world \<Rightarrow> jsstr option" where
  "getTerminalCwd w = (if w_live w then w_cwd w else None)"

definition getTerminalGitBranch :: "'x session_world \<Rightarrow> jsstr option" where
  "getTerminalGitBranch w = (if w_live w then w_gitBranch w else None)"

definition fresh_meta :: "int \<Rightarrow> 'x session_world \<Rightarrow> block_meta" where
  "fresh_meta now w = \<lparr>m_cwd = getTerminalCwd w, m_gitBranch = getTerminalGitBranch w,
     m_startedAt = now, m_endedAt = None\<rparr>"

type_synonym 'x phase_state = "'x session_world \<times> block_tracker"

definition onPromptStart :: "'x xterm_api \<Rightarrow> int \<Rightarrow> 'x phase_state \<Rightarrow> 'x phase_state" where
  "onPromptStart T now = (\<lambda>(w, tr).
     let w = resetTuiState w in
     case registerMarker T w of
       None \<Rightarrow> (w, tr)
     | Some (m, w) \<Rightarrow>
         let meta = fresh_meta now w in
         (w, tr\<lparr>tr_open := (tr_open tr)\<lparr>promptStart := Some m, open_meta := Some meta\<rparr>,
                active := Some \<lparr>a_prompt = m, a_command = m, a_meta = meta\<rparr>\<rparr>))"

definition onCommandStart :: "'x xterm_api \<Rightarrow> int \<Rightarrow> 'x phase_state \<Rightarrow> 'x phase_state" where
  "onCommandStart T now = (\<lambda>(w, tr).
     case registerMarker T w of
       None \<Rightarrow> (w, tr)
     | Some (m, w) \<Rightarrow>
         let prompt = (case promptStart (tr_open tr) of Some p \<Rightarrow> p | None \<Rightarrow> m);
             meta = (case open_meta (tr_open tr) of Some t \<Rightarrow> t | None \<Rightarrow> fresh_meta now w)
         in (w, tr\<lparr>active := Some \<lparr>a_prompt = prompt, a_command = m, a_meta = meta\<rparr>,
                   tr_open := empty_open\<lparr>promptStart := Some prompt, commandStart := Some m, open_meta := Some meta\<rparr>\<rparr>))"

text \<open>Replacing drifted markers by the row the scan found.\<close>

definition rebind_open :: "'x xterm_api \<Rightarrow> int \<Rightarrow> 'x phase_state \<Rightarrow> 'x phase_state" where
  "rebind_open T line = (\<lambda>(w, tr).
     case markerAtLine T line (w_x w) of
       None \<Rightarrow> (w, tr)
     | Some (rebound, x) \<Rightarrow>
         let w = w\<lparr>w_x := x\<rparr>;
             prompt = promptStart (tr_open tr); command = commandStart (tr_open tr);
             w = (if prompt \<noteq> None \<and> prompt \<noteq> Some rebound then dispose_opt T prompt w else w);
             w = (if command \<noteq> None \<and> command \<noteq> prompt \<and> command \<noteq> Some rebound then dispose_opt T command w else w)
         in (w, tr\<lparr>tr_open := (tr_open tr)\<lparr>promptStart := Some rebound, commandStart := Some rebound\<rparr>,
                   active := map_option (\<lambda>a. \<lparr>a_prompt = rebound, a_command = rebound, a_meta = a_meta a\<rparr>) (active tr)\<rparr>))"

definition found_matches :: "(int \<times> jsstr) option \<Rightarrow> jsstr option \<Rightarrow> bool" where
  "found_matches found submitted =
     (case found of None \<Rightarrow> False
      | Some (_, cmd) \<Rightarrow>
          (case submitted of None \<Rightarrow> True | Some s \<Rightarrow> cmd = s \<or> startsWith cmd (s @ js '' '')))"

definition rebind_found :: "'x xterm_api \<Rightarrow> (int \<times> jsstr) option \<Rightarrow> jsstr option \<Rightarrow> 'x phase_state \<Rightarrow> 'x phase_state" where
  "rebind_found T found submitted s =
     (case found of None \<Rightarrow> s
      | Some (line, _) \<Rightarrow> if found_matches found submitted then rebind_open T line s else s)"

definition onOutputStart :: "'x xterm_api \<Rightarrow> int \<Rightarrow> 'x phase_state \<Rightarrow> 'x phase_state" where
  "onOutputStart T now = (\<lambda>(w, tr).
     case registerMarker T w of
       None \<Rightarrow> (w, tr)
     | Some (cursorMarker, w) \<Rightarrow>
         let found = findCommandAboveCursor T (w_x w);
             w = recordPhaseLog T (js ''C'') found w;
             (submitted, q) = takeSubmittedCommand now (w_submitted w);
             w = w\<lparr>w_submitted := q\<rparr>;
             commandText = (case submitted of Some s \<Rightarrow> s
                            | None \<Rightarrow> (case found of Some (_, c) \<Rightarrow> c | None \<Rightarrow> []));
             tr = (if submitted \<noteq> None \<and> submitted \<noteq> Some []
                   then tr\<lparr>tr_open := (tr_open tr)\<lparr>commandFromInput := True\<rparr>\<rparr> else tr);
             (w, tr) = rebind_found T found submitted (w, tr);
             commandText = (if commandText = []
                            then extractCommandLine T (w_x w) (commandStart (tr_open tr)) (promptStart (tr_open tr))
                            else commandText)
         in (w, tr\<lparr>tr_open := (tr_open tr)\<lparr>outputStart := Some cursorMarker, open_commandText := Some commandText\<rparr>\<rparr>))"

text \<open>\<^verbatim>\<open>commandEnd\<close>, first part: re-deriving the text and the markers from the settled buffer.\<close>

definition settle_command ::
  "'x xterm_api \<Rightarrow> marker \<Rightarrow> marker \<Rightarrow> marker \<Rightarrow> jsstr \<Rightarrow> 'x session_world
     \<Rightarrow> 'x session_world \<times> marker \<times> marker \<times> jsstr" where
  "settle_command T end1 prompt command commandText w =
     (let settled = findFirstPromptRowAbove T (w_x w) (x_line T (w_x w) end1 - 1) 2000;
          w = recordPhaseLog T (js ''D@'' @ show_int (x_line T (w_x w) end1)) settled w
      in case settled of
           None \<Rightarrow> (w, prompt, command, commandText)
         | Some (line, cmd) \<Rightarrow>
             (case markerAtLine T line (w_x w) of
                None \<Rightarrow> (w, prompt, command, cmd)
              | Some (rebound, x) \<Rightarrow>
                  let w = w\<lparr>w_x := x\<rparr>;
                      w = (if prompt \<noteq> rebound \<and> prompt \<noteq> end1 then dispose T prompt w else w);
                      w = (if command \<noteq> rebound \<and> command \<noteq> prompt \<and> command \<noteq> end1 then dispose T command w else w)
                  in (w, rebound, rebound, cmd)))"

text \<open>Second part: the guard against a first output row taken for the command.\<close>

definition dup_guard :: "'x xterm_api \<Rightarrow> 'x \<Rightarrow> marker \<Rightarrow> bool \<Rightarrow> jsstr \<Rightarrow> jsstr \<Rightarrow> jsstr" where
  "dup_guard T x prompt fromInput outputText commandText =
     (let outFirst = trim (hd (split_on 10 (trim outputText))) in
      if \<not> fromInput \<and> commandText \<noteq> [] \<and> outFirst = commandText
         \<and> \<not> re_test (CC (\<lambda>c. is_ws c \<or> c \<in> set (js ''|;&<>''))) commandText
      then let fromPs1 = extractCommandLine T x (Some prompt) (Some prompt) in
        if fromPs1 \<noteq> [] \<and> fromPs1 \<noteq> commandText then fromPs1
        else case findCommandAboveCursor T x of
               Some (_, c) \<Rightarrow> if c \<noteq> commandText then c else []
             | None \<Rightarrow> []
      else commandText)"

definition disposeFinished :: "'x xterm_api \<Rightarrow> finished_block \<Rightarrow> 'x session_world \<Rightarrow> 'x session_world" where
  "disposeFinished T b w = dispose T (b_end b) (dispose T (b_command b) (dispose T (b_prompt b) w))"

fun shift_finished ::
  "'x xterm_api \<Rightarrow> nat \<Rightarrow> finished_block list \<Rightarrow> 'x session_world \<Rightarrow> 'x session_world \<times> finished_block list" where
  "shift_finished T cap [] w = (w, [])"
| "shift_finished T cap (b # bs) w =
     (if cap < length (b # bs) then shift_finished T cap bs (disposeFinished T b w) else (w, b # bs))"

definition block_id :: "nat \<Rightarrow> jsstr" where
  "block_id n = js ''block-'' @ show_nat n"

text \<open>Last part: a block, or none for a bare Enter and for the launch script.\<close>

definition finish_block ::
  "'x xterm_api \<Rightarrow> int \<Rightarrow> int option \<Rightarrow> marker \<Rightarrow> marker \<Rightarrow> marker \<Rightarrow> jsstr \<Rightarrow> jsstr \<Rightarrow> 'x phase_state \<Rightarrow> 'x phase_state" where
  "finish_block T now exitCode prompt command end1 commandText outputText = (\<lambda>(w, tr).
     let fromInput = commandFromInput (tr_open tr);
         launchScript = (case getTuiState w of None \<Rightarrow> False | Some t \<Rightarrow> t_agentLaunched t \<and> t_launchWiped t);
         w = (if launchScript then markAgentLaunched False w else w)
     in if commandText = [] \<or> launchScript \<or> (\<not> fromInput \<and> \<not> isPlausibleCommandText commandText) then
          (let w = dispose T prompt w;
               w = (if command \<noteq> prompt then dispose T command w else w);
               w = dispose T end1 w;
               w = dispose_opt T (outputStart (tr_open tr)) w
           in (w, tr\<lparr>tr_open := empty_open\<rparr>))
        else
          (let om = open_meta (tr_open tr);
               meta = \<lparr>m_cwd = or_else (Option.bind om m_cwd) (getTerminalCwd w),
                       m_gitBranch = or_else (Option.bind om m_gitBranch) (getTerminalGitBranch w),
                       m_startedAt = (case om of Some t \<Rightarrow> m_startedAt t | None \<Rightarrow> now),
                       m_endedAt = Some now\<rparr>;
               n = Suc (nextId tr);
               b = \<lparr>b_id = block_id n, b_prompt = prompt, b_command = command, b_end = end1,
                    b_fromInput = fromInput, b_commandText = commandText, b_outputText = outputText,
                    b_exitCode = exitCode, b_meta = meta,
                    b_lineCount = max 1 (x_line T (w_x w) end1 - x_line T (w_x w) prompt + 1)\<rparr>;
               (w, fin) = shift_finished T 80 (finished tr @ [b]) w
           in (w, tr\<lparr>nextId := n, finished := fin, tr_open := empty_open\<rparr>)))"

definition onCommandEnd :: "'x xterm_api \<Rightarrow> int \<Rightarrow> int option \<Rightarrow> 'x phase_state \<Rightarrow> 'x phase_state" where
  "onCommandEnd T now exitCode = (\<lambda>(w, tr).
     let w = resetTuiState w in
     case registerMarker T w of
       None \<Rightarrow> (w, tr)
     | Some (end1, w) \<Rightarrow>
         let op = tr_open tr;
             command = (case commandStart op of Some c \<Rightarrow> c | None \<Rightarrow> end1);
             prompt = (case promptStart op of Some p \<Rightarrow> p | None \<Rightarrow> command);
             commandText = trim (case open_commandText op of Some t \<Rightarrow> t | None \<Rightarrow> []);
             (w, prompt, command, commandText) =
               (if commandFromInput op then (w, prompt, command, commandText)
                else settle_command T end1 prompt command commandText w);
             commandText = (if commandText = []
                            then (case findCommandAboveCursor T (w_x w) of Some (_, c) \<Rightarrow> c | None \<Rightarrow> [])
                            else commandText);
             commandText = (if commandText = []
                            then trim (extractCommandLine T (w_x w) (Some command) (Some prompt)) else commandText);
             outputText = textBetween T (w_x w) (outputStart op) (Some end1);
             commandText = dup_guard T (w_x w) prompt (commandFromInput op) outputText commandText;
             tr = tr\<lparr>active := None\<rparr>;
             w = recordOpLog (DendLog commandText (commandFromInput op) (isPlausibleCommandText commandText)) w
         in finish_block T now exitCode prompt command end1 commandText outputText (w, tr))"

definition applyPhase :: "'x xterm_api \<Rightarrow> int \<Rightarrow> phase \<Rightarrow> int option \<Rightarrow> 'x phase_state \<Rightarrow> 'x phase_state" where
  "applyPhase T now ph exitCode s =
     (case ph of
        PromptStart \<Rightarrow> onPromptStart T now s
      | CommandStart \<Rightarrow> onCommandStart T now s
      | OutputStart \<Rightarrow> onOutputStart T now s
      | CommandEnd \<Rightarrow> onCommandEnd T now exitCode s)"

section \<open>Operations on the tracker\<close>

definition ensure :: "'x session_world \<Rightarrow> block_tracker" where
  "ensure w = (case w_tracker w of Some tr \<Rightarrow> tr | None \<Rightarrow> new_tracker)"

definition queueBlockPhase :: "phase \<Rightarrow> int option \<Rightarrow> 'x session_world \<Rightarrow> 'x session_world" where
  "queueBlockPhase ph exitCode w =
     w\<lparr>w_tracker := Some ((ensure w)\<lparr>pending := pending (ensure w) @ [(ph, exitCode)]\<rparr>)\<rparr>"

definition flushBlockPhases :: "'x xterm_api \<Rightarrow> int \<Rightarrow> 'x session_world \<Rightarrow> 'x session_world" where
  "flushBlockPhases T now w =
     (case w_tracker w of None \<Rightarrow> w
      | Some tr \<Rightarrow>
          (case pending tr of [] \<Rightarrow> w
           | (ph, exitCode) # rest \<Rightarrow>
               let (w, tr) = applyPhase T now ph exitCode (w, tr\<lparr>pending := rest\<rparr>)
               in syncChrome (w\<lparr>w_tracker := Some tr\<rparr>)))"

definition setBlockRerunHandler :: "nat option \<Rightarrow> 'x session_world \<Rightarrow> 'x session_world" where
  "setBlockRerunHandler h w = syncChrome (w\<lparr>w_tracker := Some ((ensure w)\<lparr>tr_onRerun := h\<rparr>)\<rparr>)"

definition setBlockSessionContext :: "session_block_context \<Rightarrow> 'x session_world \<Rightarrow> 'x session_world" where
  "setBlockSessionContext c w = syncChrome (w\<lparr>w_tracker := Some ((ensure w)\<lparr>tr_context := c\<rparr>)\<rparr>)"

definition setUncoverLivePrompt :: "bool \<Rightarrow> 'x session_world \<Rightarrow> 'x session_world" where
  "setUncoverLivePrompt uncover w =
     (let tr = ensure w; w = w\<lparr>w_tracker := Some tr\<rparr> in
      if uncoverLivePrompt tr = uncover then w
      else syncChrome (w\<lparr>w_tracker := Some (tr\<lparr>uncoverLivePrompt := uncover\<rparr>)\<rparr>))"

definition getUncoverLivePrompt :: "'x session_world \<Rightarrow> bool" where
  "getUncoverLivePrompt w = (case w_tracker w of None \<Rightarrow> False | Some tr \<Rightarrow> uncoverLivePrompt tr)"

definition forgetFinishedBlocks :: "'x xterm_api \<Rightarrow> 'x session_world \<Rightarrow> 'x session_world" where
  "forgetFinishedBlocks T w =
     (case w_tracker w of None \<Rightarrow> w
      | Some tr \<Rightarrow>
          if finished tr = [] then w
          else syncChrome ((fold (disposeFinished T) (finished tr) w)\<lparr>w_tracker := Some (tr\<lparr>finished := []\<rparr>)\<rparr>))"

definition disposeBlockTracker :: "'x xterm_api \<Rightarrow> 'x session_world \<Rightarrow> 'x session_world" where
  "disposeBlockTracker T w =
     (case w_tracker w of None \<Rightarrow> w
      | Some tr \<Rightarrow>
          let w = fold (disposeFinished T) (finished tr) w;
              w = dispose_opt T (promptStart (tr_open tr)) w;
              w = dispose_opt T (commandStart (tr_open tr)) w;
              w = dispose_opt T (outputStart (tr_open tr)) w
          in w\<lparr>w_tracker := None\<rparr>)"

section \<open>What the chrome sees\<close>

datatype block_kind = ActiveKind | OkKind | FailedKind

record chrome_entry =
  e_id :: jsstr
  e_kind :: block_kind
  e_composing :: bool
  e_promptLine :: int
  e_commandLine :: int
  e_endLine :: int
  e_commandText :: jsstr
  e_outputText :: jsstr
  e_exitCode :: "int option"
  e_meta :: block_meta
  e_lineCount :: int

record chrome_snapshot =
  s_blocks :: "chrome_entry list"
  s_context :: session_block_context
  s_onRerun :: "nat option"
  s_uncoverLivePrompt :: bool
  s_running :: bool

text \<open>One round of the loop over the finished blocks: entries so far, prompt lines seen, sentinels used.\<close>

definition snap_block ::
  "'x xterm_api \<Rightarrow> 'x \<Rightarrow> finished_block \<Rightarrow> chrome_entry list \<times> int list \<times> int \<Rightarrow> chrome_entry list \<times> int list \<times> int" where
  "snap_block T x b = (\<lambda>(blocks, seen, disposedSeq).
     let commandText = trim (b_commandText b) in
     if commandText = [] \<or> (\<not> b_fromInput b \<and> \<not> isPlausibleCommandText commandText) then (blocks, seen, disposedSeq)
     else let sentinel = -100000 - disposedSeq;
              (promptLine, commandLine, endLine, disposedSeq) =
                (case (markerLine T x (Some (b_prompt b)), markerLine T x (Some (b_end b))) of
                   (Some p, Some e) \<Rightarrow>
                     (p, (case markerLine T x (Some (b_command b)) of Some c \<Rightarrow> c | None \<Rightarrow> p), e, disposedSeq)
                 | _ \<Rightarrow> (sentinel, sentinel, sentinel, disposedSeq + 1))
          in if promptLine \<in> set seen then (blocks, seen, disposedSeq)
             else (blocks @ [\<lparr>e_id = b_id b,
                     e_kind = (if b_exitCode b \<noteq> None \<and> b_exitCode b \<noteq> Some 0 then FailedKind else OkKind),
                     e_composing = False, e_promptLine = promptLine,
                     e_commandLine = max promptLine commandLine, e_endLine = endLine,
                     e_commandText = commandText, e_outputText = b_outputText b, e_exitCode = b_exitCode b,
                     e_meta = b_meta b, e_lineCount = b_lineCount b\<rparr>],
                   promptLine # seen, disposedSeq))"

definition snap_active :: "'x xterm_api \<Rightarrow> 'x session_world \<Rightarrow> block_tracker \<Rightarrow> active_block \<Rightarrow> chrome_entry list" where
  "snap_active T w tr a =
     (let promptMarkerLine = markerLine T (w_x w) (Some (a_prompt a));
          commandMarkerLine = markerLine T (w_x w) (Some (a_command a));
          cursorLine = (if w_live w then Some (cursorAbs T (w_x w)) else None);
          composing = (outputStart (tr_open tr) = None);
          promptLine = (if composing then or_else cursorLine promptMarkerLine else promptMarkerLine);
          commandLine = (if composing then or_else cursorLine (or_else commandMarkerLine promptLine)
                         else or_else commandMarkerLine promptLine)
      in case (promptLine, commandLine) of
           (Some p, Some c) \<Rightarrow>
             let captured = trim (case open_commandText (tr_open tr) of Some t \<Rightarrow> t | None \<Rightarrow> []);
                 liveCmd =
                   (if composing then []
                    else if captured \<noteq> [] then captured
                    else if w_live w then
                      (let stripped = trim (stripPs1 (row_text T (w_x w) p)) in
                       if isPlausibleCommandText stripped then stripped else [])
                    else []);
                 bottom = (case cursorLine of Some l \<Rightarrow> l | None \<Rightarrow> c)
             in [\<lparr>e_id = js ''active'', e_kind = ActiveKind, e_composing = composing, e_promptLine = p,
                  e_commandLine = max p c, e_endLine = max p bottom, e_commandText = liveCmd, e_outputText = [],
                  e_exitCode = None, e_meta = a_meta a, e_lineCount = max 1 (bottom - p + 1)\<rparr>]
         | _ \<Rightarrow> [])"

definition tracker_running :: "block_tracker \<Rightarrow> bool" where
  "tracker_running tr \<longleftrightarrow> active tr \<noteq> None \<and> outputStart (tr_open tr) \<noteq> None"

definition getBlockChromeSnapshot :: "'x xterm_api \<Rightarrow> 'x session_world \<Rightarrow> chrome_snapshot option" where
  "getBlockChromeSnapshot T w =
     (case w_tracker w of None \<Rightarrow> None
      | Some tr \<Rightarrow>
          Some \<lparr>s_blocks = fst (fold (snap_block T (w_x w)) (finished tr) ([], [], 0))
                  @ (case active tr of None \<Rightarrow> [] | Some a \<Rightarrow> snap_active T w tr a),
                s_context = tr_context tr, s_onRerun = tr_onRerun tr,
                s_uncoverLivePrompt = uncoverLivePrompt tr, s_running = tracker_running tr\<rparr>)"

definition readActiveShellInputLine :: "'x xterm_api \<Rightarrow> 'x session_world \<Rightarrow> jsstr option" where
  "readActiveShellInputLine T w =
     (case w_tracker w of None \<Rightarrow> None
      | Some tr \<Rightarrow>
     case active tr of None \<Rightarrow> None
      | Some a \<Rightarrow>
          if \<not> w_live w \<or> x_alternate T (w_x w) then None
          else let commandLine = or_else (markerLine T (w_x w) (Some (a_command a))) (markerLine T (w_x w) (Some (a_prompt a)));
                   cur = cursorAbs T (w_x w);
                   lineNo = (case commandLine of None \<Rightarrow> cur | Some l \<Rightarrow> if cur \<ge> l then cur else l)
               in case x_padded T (w_x w) lineNo of None \<Rightarrow> None
                  | Some padded \<Rightarrow>
                      let trimmedLen = length (trimEnd padded);
                          upto1 = (if lineNo = cur
                                   then max trimmedLen (nat (min (x_cursorX T (w_x w)) (int (length padded))))
                                   else trimmedLen);
                          raw = take upto1 padded;
                          head = trimEnd raw;
                          trailing = drop (length head) raw;
                          stripped = stripPs1 head
                      in if stripped = [] then Some []
                         else if stripped = head
                              \<and> (\<not> re_test (CC (\<lambda>c. is_alpha c \<or> is_digit c \<or> c \<in> set (js ''./_-''))) stripped
                                 \<or> re_test HOME_ONLY (trim stripped)) then Some []
                         else Some (stripped @ trailing))"

section \<open>What runs in the session\<close>

definition AGENT_COMMAND_RE :: re where
  [js_eval]: "AGENT_COMMAND_RE =
     seqs [Bol, alts (map lit [''claude'', ''codex'', ''gemini'', ''agy'', ''opencode'', ''aider'']), Alt ws Eol]"

definition SCREEN_COMMAND_RE :: re where
  [js_eval]: "SCREEN_COMMAND_RE =
     seqs [Bol,
       ropt (seqs [lit ''sudo'', rplus ws, Star (seqs [chr 45, rplus non_ws, rplus ws])]),
       ropt (seqs [Star non_ws, chr 47]),
       alts (seqs [lit ''vi'', ropt (chr 109)] # map lit
         [''nvim'', ''vimdiff'', ''nano'', ''pico'', ''emacs'', ''micro'', ''helix'', ''hx'', ''less'', ''more'',
          ''most'', ''man'', ''htop'', ''btop'', ''top'', ''atop'', ''glances'', ''nmon'', ''iotop'', ''iftop'',
          ''nethogs'', ''ranger'', ''mc'', ''lazygit'', ''lazydocker'', ''tig'', ''k9s'', ''tmux'', ''screen'',
          ''zellij'', ''ssh'', ''mosh'', ''watch'', ''journalctl'', ''ncdu'', ''cmus'', ''mutt'', ''neomutt'',
          ''weechat'', ''irssi'', ''nvtop'']),
       Alt ws Eol]"

definition currentCommandText :: "'x xterm_api \<Rightarrow> 'x session_world \<Rightarrow> jsstr" where
  "currentCommandText T w =
     (case w_tracker w of None \<Rightarrow> []
      | Some tr \<Rightarrow>
          if \<not> tracker_running tr then []
          else let cmd = trim (case open_commandText (tr_open tr) of Some t \<Rightarrow> t | None \<Rightarrow> []) in
            if cmd \<noteq> [] then cmd
            else case getBlockChromeSnapshot T w of None \<Rightarrow> []
              | Some sn \<Rightarrow>
                  (case find (\<lambda>e. e_kind e = ActiveKind) (s_blocks sn) of
                     None \<Rightarrow> [] | Some e \<Rightarrow> trim (e_commandText e)))"

definition sessionRunsScreenCommand :: "'x xterm_api \<Rightarrow> 'x session_world \<Rightarrow> bool" where
  "sessionRunsScreenCommand T w =
     (re_test AGENT_COMMAND_RE (currentCommandText T w) \<or> re_test SCREEN_COMMAND_RE (currentCommandText T w))"

definition sessionRunsAgentCommand :: "'x xterm_api \<Rightarrow> 'x session_world \<Rightarrow> bool" where
  "sessionRunsAgentCommand T w = re_test AGENT_COMMAND_RE (currentCommandText T w)"

definition sessionHasRunningCommand :: "'x session_world \<Rightarrow> bool" where
  "sessionHasRunningCommand w = (case w_tracker w of None \<Rightarrow> False | Some tr \<Rightarrow> tracker_running tr)"

definition sessionScreenApp :: "'x xterm_api \<Rightarrow> 'x session_world \<Rightarrow> bool" where
  "sessionScreenApp T w =
     (if w_live w \<and> x_alternate T (w_x w) then True
      else case getTuiState w of None \<Rightarrow> False
        | Some t \<Rightarrow> if t_agentLaunched t \<or> t_sync t \<or> t_mouse t then True else sessionRunsScreenCommand T w)"

definition lastBlockCommand :: "'x session_world \<Rightarrow> jsstr option" where
  "lastBlockCommand w =
     (case w_tracker w of None \<Rightarrow> None
      | Some tr \<Rightarrow>
          first_some (\<lambda>b. let cmd = trim (b_commandText b) in if cmd \<noteq> [] then Some cmd else None) (rev (finished tr)))"

definition blockCount :: "'x session_world \<Rightarrow> nat" where
  "blockCount w =
     (case w_tracker w of None \<Rightarrow> 0
      | Some tr \<Rightarrow>
          length (filter (\<lambda>b. trim (b_commandText b) \<noteq> []) (finished tr)) + (if active tr \<noteq> None then 1 else 0))"

section \<open>Frames\<close>

text \<open>What the helpers leave alone.\<close>

lemma syncChrome_frame [simp]:
  "w_live (syncChrome w) = w_live w" "w_x (syncChrome w) = w_x w" "w_tui (syncChrome w) = w_tui w"
  "w_tracker (syncChrome w) = w_tracker w" "w_submitted (syncChrome w) = w_submitted w" "w_log (syncChrome w) = w_log w"
  by (simp_all add: syncChrome_def)

lemma resetTuiState_frame [simp]:
  "w_live (resetTuiState w) = w_live w" "w_x (resetTuiState w) = w_x w" "w_tracker (resetTuiState w) = w_tracker w"
  "w_submitted (resetTuiState w) = w_submitted w" "w_log (resetTuiState w) = w_log w"
  "t_agentLaunched (w_tui (resetTuiState w)) = t_agentLaunched (w_tui w)"
  "t_launchWiped (w_tui (resetTuiState w)) = t_launchWiped (w_tui w)"
  by (simp_all add: resetTuiState_def Let_def)

lemma markAgentLaunched_frame [simp]:
  "w_live (markAgentLaunched on w) = w_live w" "w_x (markAgentLaunched on w) = w_x w"
  "w_tracker (markAgentLaunched on w) = w_tracker w"
  "w_submitted (markAgentLaunched on w) = w_submitted w" "w_log (markAgentLaunched on w) = w_log w"
  by (simp_all add: markAgentLaunched_def Let_def)

lemma dispose_frame [simp]:
  "w_live (dispose T m w) = w_live w" "w_tui (dispose T m w) = w_tui w" "w_tracker (dispose T m w) = w_tracker w"
  "w_submitted (dispose T m w) = w_submitted w" "w_log (dispose T m w) = w_log w"
  by (simp_all add: dispose_def)

lemma dispose_opt_frame [simp]:
  "w_live (dispose_opt T k w) = w_live w" "w_tui (dispose_opt T k w) = w_tui w" "w_tracker (dispose_opt T k w) = w_tracker w"
  "w_submitted (dispose_opt T k w) = w_submitted w" "w_log (dispose_opt T k w) = w_log w"
  by (simp_all add: dispose_opt_def split: option.split)

lemma disposeFinished_frame [simp]:
  "w_live (disposeFinished T b w) = w_live w" "w_tui (disposeFinished T b w) = w_tui w"
  "w_tracker (disposeFinished T b w) = w_tracker w"
  "w_submitted (disposeFinished T b w) = w_submitted w" "w_log (disposeFinished T b w) = w_log w"
  by (simp_all add: disposeFinished_def)

lemma fold_disposeFinished_frame [simp]:
  "w_submitted (fold (disposeFinished T) bs w) = w_submitted w" "w_log (fold (disposeFinished T) bs w) = w_log w"
  "w_tui (fold (disposeFinished T) bs w) = w_tui w" "w_live (fold (disposeFinished T) bs w) = w_live w"
  by (induction bs arbitrary: w) simp_all

lemma shift_finished_frame [simp]:
  "w_submitted (fst (shift_finished T cap bs w)) = w_submitted w" "w_log (fst (shift_finished T cap bs w)) = w_log w"
  "w_tui (fst (shift_finished T cap bs w)) = w_tui w" "w_live (fst (shift_finished T cap bs w)) = w_live w"
  by (induction T cap bs w rule: shift_finished.induct) simp_all

lemma snd_shift_finished [simp]: "snd (shift_finished T cap bs w) = shift_to cap bs"
  by (induction T cap bs w rule: shift_finished.induct) simp_all

lemma registerMarker_Some:
  "registerMarker T w = Some (m, w') \<longleftrightarrow> (\<exists>x. x_registerMarker T 0 (w_x w) = Some (m, x) \<and> w' = w\<lparr>w_x := x\<rparr>)"
  by (auto simp: registerMarker_def)

lemma recordPhaseLog_frame [simp]:
  "w_live (recordPhaseLog T p f w) = w_live w" "w_x (recordPhaseLog T p f w) = w_x w" "w_tui (recordPhaseLog T p f w) = w_tui w"
  "w_submitted (recordPhaseLog T p f w) = w_submitted w" "w_tracker (recordPhaseLog T p f w) = w_tracker w"
  by (simp_all add: recordPhaseLog_def Let_def)

lemma recordOpLog_frame [simp]:
  "w_live (recordOpLog e w) = w_live w" "w_x (recordOpLog e w) = w_x w" "w_tui (recordOpLog e w) = w_tui w"
  "w_submitted (recordOpLog e w) = w_submitted w" "w_tracker (recordOpLog e w) = w_tracker w"
  by (simp_all add: recordOpLog_def)

section \<open>Bounded histories\<close>

text \<open>The phase log and the list of finished blocks are logs that keep their newest entries.\<close>

interpretation phase_log: bounded_log log_push 40
proof
  fix xs :: "log_entry list" and x
  assume "length xs \<le> 40"
  then show "log_push x xs = slice_last 40 (xs @ [x])"
    by (cases "length xs < 40") (auto simp: log_push_def slice_last_def Let_def drop_Suc tl_append split: list.split)
qed

interpretation finished_log: bounded_log "\<lambda>b bs. snd (shift_finished T 80 (bs @ [b]) w)" 80 for T w
  by unfold_locales (simp add: shift_to_slice_last)

lemma snd_takeSubmitted_length: "length (snd (takeSubmittedCommand now q)) \<le> length q"
  by (induction now q rule: takeSubmittedCommand.induct) auto

lemma set_takeSubmitted: "set (snd (takeSubmittedCommand now q)) \<subseteq> set q"
  by (induction now q rule: takeSubmittedCommand.induct) auto

lemma fst_takeSubmitted: "fst (takeSubmittedCommand now q) = Some t \<Longrightarrow> \<exists>at. (t, at) \<in> set q \<and> now - at \<le> 30000"
  by (induction now q rule: takeSubmittedCommand.induct) (auto split: if_splits)

section \<open>The invariant\<close>

definition ids_ok :: "nat \<Rightarrow> finished_block list \<Rightarrow> bool" where
  "ids_ok n bs \<longleftrightarrow> (\<exists>ns. map b_id bs = map block_id ns \<and> sorted_wrt (<) ns \<and> (\<forall>k \<in> set ns. k \<le> n))"

definition block_ok :: "finished_block \<Rightarrow> bool" where
  "block_ok b \<longleftrightarrow> b_commandText b \<noteq> [] \<and> (b_fromInput b \<or> isPlausibleCommandText (b_commandText b))"

definition tracker_ok :: "block_tracker \<Rightarrow> bool" where
  "tracker_ok tr \<longleftrightarrow> length (finished tr) \<le> 80 \<and> ids_ok (nextId tr) (finished tr) \<and> (\<forall>b \<in> set (finished tr). block_ok b)"

definition queues_ok :: "'x session_world \<Rightarrow> bool" where
  "queues_ok w \<longleftrightarrow> length (w_submitted w) \<le> 32 \<and> length (w_log w) \<le> 40
     \<and> (\<forall>(t, at) \<in> set (w_submitted w). t \<noteq> [] \<and> trim t = t)"

definition session_ok :: "'x session_world \<Rightarrow> bool" where
  "session_ok w \<longleftrightarrow> queues_ok w \<and> (\<forall>tr. w_tracker w = Some tr \<longrightarrow> tracker_ok tr)"

lemma queues_ok_cong:
  "w_submitted w' = w_submitted w \<Longrightarrow> w_log w' = w_log w \<Longrightarrow> queues_ok w' = queues_ok w"
  by (simp add: queues_ok_def)

lemma queues_ok_log:
  "queues_ok w \<Longrightarrow> queues_ok (recordOpLog e w)" "queues_ok w \<Longrightarrow> queues_ok (recordPhaseLog T p f w)"
  using phase_log.push_bounded by (auto simp: queues_ok_def recordOpLog_def recordPhaseLog_def Let_def)

lemma tracker_ok_cong:
  "finished tr' = finished tr \<Longrightarrow> nextId tr' = nextId tr \<Longrightarrow> tracker_ok tr' = tracker_ok tr"
  by (simp add: tracker_ok_def)

lemma tracker_ok_upd [simp]:
  "tracker_ok (tr\<lparr>tr_open := op\<rparr>) = tracker_ok tr" "tracker_ok (tr\<lparr>active := a\<rparr>) = tracker_ok tr"
  "tracker_ok (tr\<lparr>pending := p\<rparr>) = tracker_ok tr" "tracker_ok (tr\<lparr>tr_context := c\<rparr>) = tracker_ok tr"
  "tracker_ok (tr\<lparr>tr_onRerun := h\<rparr>) = tracker_ok tr" "tracker_ok (tr\<lparr>uncoverLivePrompt := u\<rparr>) = tracker_ok tr"
  by (simp_all add: tracker_ok_def)

lemma queues_ok_upd [simp]:
  "queues_ok (w\<lparr>w_x := x\<rparr>) = queues_ok w" "queues_ok (w\<lparr>w_tracker := z\<rparr>) = queues_ok w"
  "queues_ok (syncChrome w) = queues_ok w" "queues_ok (resetTuiState w) = queues_ok w"
  "queues_ok (markAgentLaunched on w) = queues_ok w" "queues_ok (dispose T m w) = queues_ok w"
  "queues_ok (dispose_opt T k w) = queues_ok w" "queues_ok (disposeFinished T b w) = queues_ok w"
  "queues_ok (fold (disposeFinished T) bs w) = queues_ok w"
  "queues_ok (fst (shift_finished T cap bs w)) = queues_ok w"
  by (simp_all add: queues_ok_def)

lemma new_tracker_ok: "tracker_ok new_tracker"
  by (auto simp: tracker_ok_def new_tracker_def ids_ok_def)

lemma ensure_ok: "\<forall>tr. w_tracker w = Some tr \<longrightarrow> tracker_ok tr \<Longrightarrow> tracker_ok (ensure w)"
  by (simp add: ensure_def new_tracker_ok split: option.split)

text \<open>A new block takes the next number, and dropping the oldest keeps the order.\<close>

lemma ids_ok_push: "ids_ok n bs \<Longrightarrow> b_id b = block_id (Suc n) \<Longrightarrow> ids_ok (Suc n) (shift_to cap (bs @ [b]))"
proof -
  assume "ids_ok n bs" and b: "b_id b = block_id (Suc n)"
  then obtain ns where ns: "map b_id bs = map block_id ns" "sorted_wrt (<) ns" "\<forall>k \<in> set ns. k \<le> n"
    by (auto simp: ids_ok_def)
  let ?d = "length (bs @ [b]) - cap"
  have "map b_id (shift_to cap (bs @ [b])) = map block_id (drop ?d (ns @ [Suc n]))"
    unfolding shift_to_slice_last slice_last_def by (simp only: drop_map [symmetric] map_append ns(1)) (simp add: b)
  moreover have "sorted_wrt (<) (drop ?d (ns @ [Suc n]))"
    by (rule sorted_wrt_drop) (use ns in \<open>auto simp: sorted_wrt_append less_Suc_eq_le\<close>)
  moreover have "\<forall>k \<in> set (drop ?d (ns @ [Suc n])). k \<le> Suc n"
    using ns(3) by (fastforce dest: in_set_dropD)
  ultimately show ?thesis unfolding ids_ok_def by blast
qed

lemma set_shift_to: "set (shift_to cap xs) \<subseteq> set xs"
  by (metis shift_to_slice_last slice_last_def set_drop_subset)

lemma finish_block_ok:
  assumes "queues_ok w" "tracker_ok tr"
  shows "queues_ok (fst (finish_block T now ec prompt command end1 txt out (w, tr)))
    \<and> tracker_ok (snd (finish_block T now ec prompt command end1 txt out (w, tr)))"
proof -
  have push: "tracker_ok (tr\<lparr>nextId := Suc (nextId tr), finished := shift_to 80 (finished tr @ [b])\<rparr>)"
    if "b_id b = block_id (Suc (nextId tr))" "block_ok b" for b
    using assms(2) that ids_ok_push [of "nextId tr" "finished tr" b 80] set_shift_to [of 80 "finished tr @ [b]"]
    by (auto simp: tracker_ok_def shift_to_slice_last)
  show ?thesis
    unfolding finish_block_def using assms
    by (simp add: Let_def case_prod_beta) (intro impI conjI push; simp add: block_ok_def)
qed

lemma rebind_open_keeps:
  "w_submitted (fst (rebind_open T line (w, tr))) = w_submitted w"
  "w_log (fst (rebind_open T line (w, tr))) = w_log w"
  "w_live (fst (rebind_open T line (w, tr))) = w_live w"
  "w_tui (fst (rebind_open T line (w, tr))) = w_tui w"
  "finished (snd (rebind_open T line (w, tr))) = finished tr"
  "nextId (snd (rebind_open T line (w, tr))) = nextId tr"
  "commandFromInput (tr_open (snd (rebind_open T line (w, tr)))) = commandFromInput (tr_open tr)"
  "(active (snd (rebind_open T line (w, tr))) = None) = (active tr = None)"
  by (auto simp: rebind_open_def Let_def split: option.split)

lemma rebind_found_keeps [simp]:
  "w_submitted (fst (rebind_found T f sb (w, tr))) = w_submitted w"
  "w_log (fst (rebind_found T f sb (w, tr))) = w_log w"
  "w_live (fst (rebind_found T f sb (w, tr))) = w_live w"
  "w_tui (fst (rebind_found T f sb (w, tr))) = w_tui w"
  "finished (snd (rebind_found T f sb (w, tr))) = finished tr"
  "commandFromInput (tr_open (snd (rebind_found T f sb (w, tr)))) = commandFromInput (tr_open tr)"
  "(active (snd (rebind_found T f sb (w, tr))) = None) = (active tr = None)"
  "queues_ok (fst (rebind_found T f sb (w, tr))) = queues_ok w"
  "tracker_ok (snd (rebind_found T f sb (w, tr))) = tracker_ok tr"
  by (auto simp: rebind_found_def rebind_open_keeps tracker_ok_def queues_ok_def split: option.split)

lemma queues_ok_take:
  assumes "queues_ok w"
  shows "queues_ok (recordPhaseLog T p f w\<lparr>w_submitted := snd (takeSubmittedCommand now (w_submitted w))\<rparr>)"
  using queues_ok_log(2) [OF assms, of T p f] snd_takeSubmitted_length [of now "w_submitted w"]
    set_takeSubmitted [of now "w_submitted w"]
  by (auto simp: queues_ok_def)

lemma settle_command_keeps:
  "w_submitted (fst (settle_command T e p c t w)) = w_submitted w"
  "w_live (fst (settle_command T e p c t w)) = w_live w"
  "w_tui (fst (settle_command T e p c t w)) = w_tui w"
  "queues_ok w \<Longrightarrow> queues_ok (fst (settle_command T e p c t w))"
  by (auto simp: settle_command_def Let_def queues_ok_log split: option.split)

lemma onPromptStart_ok:
  "queues_ok w \<Longrightarrow> tracker_ok tr \<Longrightarrow>
     queues_ok (fst (onPromptStart T now (w, tr))) \<and> tracker_ok (snd (onPromptStart T now (w, tr)))"
  by (auto simp: onPromptStart_def Let_def registerMarker_Some split: option.split)

lemma onCommandStart_ok:
  "queues_ok w \<Longrightarrow> tracker_ok tr \<Longrightarrow>
     queues_ok (fst (onCommandStart T now (w, tr))) \<and> tracker_ok (snd (onCommandStart T now (w, tr)))"
  by (auto simp: onCommandStart_def Let_def registerMarker_Some split: option.split)

lemma onCommandEnd_ok:
  assumes "queues_ok w" "tracker_ok tr"
  shows "queues_ok (fst (onCommandEnd T now ec (w, tr))) \<and> tracker_ok (snd (onCommandEnd T now ec (w, tr)))"
proof (cases "registerMarker T (resetTuiState w)")
  case None
  with assms show ?thesis by (simp add: onCommandEnd_def Let_def)
next
  case (Some p)
  then obtain m w' where p: "registerMarker T (resetTuiState w) = Some (m, w')" by (cases p) auto
  then have w': "queues_ok w'" using assms(1) by (auto simp: registerMarker_Some)
  have fin: "queues_ok (fst (finish_block T now ec a b c d e (recordOpLog l v, tr\<lparr>active := None\<rparr>)))
      \<and> tracker_ok (snd (finish_block T now ec a b c d e (recordOpLog l v, tr\<lparr>active := None\<rparr>)))"
    if "queues_ok v" for a b c d e l v
    by (rule finish_block_ok) (simp_all add: that queues_ok_log assms(2))
  show ?thesis
    unfolding onCommandEnd_def using p w' settle_command_keeps(4) [OF w']
    by (simp add: Let_def case_prod_beta fin)
qed

lemma onOutputStart_ok:
  assumes "queues_ok w" "tracker_ok tr"
  shows "queues_ok (fst (onOutputStart T now (w, tr))) \<and> tracker_ok (snd (onOutputStart T now (w, tr)))"
proof (cases "registerMarker T w")
  case None
  with assms show ?thesis by (simp add: onOutputStart_def)
next
  case (Some p)
  then obtain m w' where p: "registerMarker T w = Some (m, w')" by (cases p) auto
  then have "queues_ok w'" using assms(1) by (auto simp: registerMarker_Some)
  with p assms(2) show ?thesis
    by (simp add: onOutputStart_def Let_def case_prod_beta queues_ok_take)
qed

lemma applyPhase_ok:
  assumes "queues_ok w" "tracker_ok tr"
  shows "queues_ok (fst (applyPhase T now ph ec (w, tr))) \<and> tracker_ok (snd (applyPhase T now ph ec (w, tr)))"
  using onPromptStart_ok [OF assms] onCommandStart_ok [OF assms] onOutputStart_ok [OF assms] onCommandEnd_ok [OF assms]
  by (cases ph) (simp_all add: applyPhase_def)

section \<open>Sessions over time\<close>

text \<open>
  What can happen to a session's blocks: commands are submitted, phases queued and flushed,
  context and handlers set, blocks forgotten, the tracker disposed; in between, output and the
  rest of the program change the terminal, the record and the TUI state at will, and writes are logged.
\<close>

inductive block_step :: "'x xterm_api \<Rightarrow> 'x session_world \<Rightarrow> 'x session_world \<Rightarrow> bool" for T where
  "block_step T w (noteSubmittedCommand now cmd w)"
| "block_step T w (queueBlockPhase ph ec w)"
| "block_step T w (flushBlockPhases T now w)"
| "block_step T w (setBlockRerunHandler h w)"
| "block_step T w (setBlockSessionContext c w)"
| "block_step T w (setUncoverLivePrompt u w)"
| "block_step T w (forgetFinishedBlocks T w)"
| "block_step T w (disposeBlockTracker T w)"
| "block_step T w (recordOpLog e w)"
| "block_step T w (w\<lparr>w_live := l, w_x := x, w_tui := t, w_cwd := d, w_gitBranch := g\<rparr>)"

inductive block_reachable :: "'x xterm_api \<Rightarrow> 'x session_world \<Rightarrow> bool" for T where
  start: "w_tracker w = None \<Longrightarrow> w_submitted w = [] \<Longrightarrow> w_log w = [] \<Longrightarrow> block_reachable T w"
| step: "block_reachable T w \<Longrightarrow> block_step T w w' \<Longrightarrow> block_reachable T w'"

lemma noteSubmittedCommand_ok: "queues_ok w \<Longrightarrow> queues_ok (noteSubmittedCommand now cmd w)"
proof -
  assume q: "queues_ok w"
  have "set (push_shift 32 (trim cmd, now) (w_submitted w)) \<subseteq> set (w_submitted w) \<union> {(trim cmd, now)}"
    using set_shift_to [of 32 "w_submitted w @ [(trim cmd, now)]"] by (simp add: push_shift_def)
  with q show ?thesis
    using push_shift.push_bounded [of "w_submitted w" 32 "(trim cmd, now)"]
    by (auto simp: noteSubmittedCommand_def Let_def queues_ok_def)
qed

lemma flush_ok: "session_ok w \<Longrightarrow> session_ok (flushBlockPhases T now w)"
proof (cases "w_tracker w")
  case (Some tr)
  assume ok: "session_ok w"
  show ?thesis
  proof (cases "pending tr")
    case (Cons p ps)
    obtain ph ec where p: "p = (ph, ec)" by (cases p)
    have "queues_ok w" "tracker_ok (tr\<lparr>pending := ps\<rparr>)" using ok Some by (simp_all add: session_ok_def)
    from applyPhase_ok [OF this, of T now ph ec] Some Cons p show ?thesis
      by (simp add: flushBlockPhases_def session_ok_def Let_def case_prod_beta)
  qed (use ok Some in \<open>simp add: flushBlockPhases_def\<close>)
qed (simp add: flushBlockPhases_def)

lemma block_step_ok: "block_step T w w' \<Longrightarrow> session_ok w \<Longrightarrow> session_ok w'"
proof (induction rule: block_step.induct)
  case (1 w now cmd)
  then show ?case using noteSubmittedCommand_ok [of w now cmd] by (auto simp: session_ok_def noteSubmittedCommand_def Let_def)
next
  case (3 w now)
  then show ?case by (rule flush_ok)
next
  case (9 w e)
  then show ?case by (simp add: session_ok_def queues_ok_log)
next
  case (10 w l x t d g)
  then show ?case by (simp add: session_ok_def queues_ok_def)
qed (auto simp: session_ok_def queueBlockPhase_def setBlockRerunHandler_def setBlockSessionContext_def
    setUncoverLivePrompt_def forgetFinishedBlocks_def disposeBlockTracker_def Let_def
    tracker_ok_def [of "_\<lparr>finished := []\<rparr>"] ids_ok_def [of _ "[]"]
    intro: ensure_ok split: option.splits if_splits)

lemma block_reachable_ok: "block_reachable T w \<Longrightarrow> session_ok w"
proof (induction rule: block_reachable.induct)
  case (start w)
  then show ?case by (simp add: session_ok_def queues_ok_def)
next
  case (step w w')
  then show ?case by (blast intro: block_step_ok)
qed

section \<open>One command through its phases\<close>

lemma finish_block_push:
  assumes "txt \<noteq> []" "commandFromInput (tr_open tr) \<or> isPlausibleCommandText txt"
    "\<not> (w_live w \<and> t_agentLaunched (w_tui w) \<and> t_launchWiped (w_tui w))"
  shows "\<exists>b. finished (snd (finish_block T now ec prompt command end1 txt out (w, tr))) = slice_last 80 (finished tr @ [b])
    \<and> b_id b = block_id (Suc (nextId tr)) \<and> b_commandText b = txt \<and> b_fromInput b = commandFromInput (tr_open tr)
    \<and> b_exitCode b = ec \<and> m_endedAt (b_meta b) = Some now"
  using assms
  by (auto simp: finish_block_def Let_def case_prod_beta getTuiState_def shift_to_slice_last)

lemma trim_not_Nil: "t \<noteq> [] \<Longrightarrow> trim t = t \<Longrightarrow> trim t \<noteq> []"
  by simp

text \<open>With a text from the input box, the command end neither scans nor guards.\<close>

lemma onCommandEnd_from_input:
  assumes "commandFromInput (tr_open tr)" "open_commandText (tr_open tr) = Some t" "t \<noteq> []" "trim t = t"
    "x_registerMarker T 0 (w_x w) \<noteq> None"
    "\<not> (w_live w \<and> t_agentLaunched (w_tui w) \<and> t_launchWiped (w_tui w))"
  shows "\<exists>b. finished (snd (onCommandEnd T now ec (w, tr))) = slice_last 80 (finished tr @ [b])
    \<and> b_id b = block_id (Suc (nextId tr)) \<and> b_commandText b = t \<and> b_fromInput b
    \<and> b_exitCode b = ec \<and> m_endedAt (b_meta b) = Some now"
proof -
  obtain m x where m: "x_registerMarker T 0 (w_x w) = Some (m, x)" using assms(5) by auto
  then have r: "registerMarker T (resetTuiState w) = Some (m, (resetTuiState w)\<lparr>w_x := x\<rparr>)"
    by (simp add: registerMarker_def)
  have d: "dup_guard T y p True out t = t" for y p out by (simp add: dup_guard_def)
  show ?thesis
    using finish_block_push [of t "tr\<lparr>active := None\<rparr>" "recordOpLog (DendLog t True (isPlausibleCommandText t)) ((resetTuiState w)\<lparr>w_x := x\<rparr>)"]
      assms(1-4,6)
    by (simp add: onCommandEnd_def Let_def r d)
qed

lemma finish_block_active: "active (snd (finish_block T now ec p c e txt out (w, tr))) = active tr"
  "tr_open (snd (finish_block T now ec p c e txt out (w, tr))) = empty_open"
  by (auto simp: finish_block_def Let_def case_prod_beta)

lemma onCommandEnd_clears:
  assumes "x_registerMarker T 0 (w_x w) \<noteq> None"
  shows "active (snd (onCommandEnd T now ec (w, tr))) = None \<and> tr_open (snd (onCommandEnd T now ec (w, tr))) = empty_open"
proof -
  obtain m x where m: "x_registerMarker T 0 (w_x w) = Some (m, x)" using assms by auto
  then have "registerMarker T (resetTuiState w) = Some (m, (resetTuiState w)\<lparr>w_x := x\<rparr>)"
    by (simp add: registerMarker_def)
  then show ?thesis by (simp add: onCommandEnd_def Let_def case_prod_beta finish_block_active)
qed

lemma onCommandEnd_pending: "pending (snd (onCommandEnd T now ec (w, tr))) = pending tr"
  by (auto simp: onCommandEnd_def finish_block_def Let_def case_prod_beta split: option.split)

lemma onOutputStart_takes:
  assumes "w_submitted w = (t, at) # q" "now - at \<le> 30000" "t \<noteq> []" "x_registerMarker T 0 (w_x w) \<noteq> None"
  shows "let (w1, tr1) = onOutputStart T now (w, tr) in
     commandFromInput (tr_open tr1) \<and> open_commandText (tr_open tr1) = Some t \<and> outputStart (tr_open tr1) \<noteq> None
     \<and> finished tr1 = finished tr \<and> (active tr1 = None) = (active tr = None) \<and> w_submitted w1 = q
     \<and> w_live w1 = w_live w \<and> w_tui w1 = w_tui w"
proof -
  obtain m x where m: "x_registerMarker T 0 (w_x w) = Some (m, x)" using assms(4) by auto
  then show ?thesis using assms(1-3)
    by (simp add: onOutputStart_def registerMarker_def Let_def case_prod_beta)
qed

text \<open>A command end clears the signals of the program that ran, and the launch flag of a launch script.\<close>

lemma finish_block_tui:
  "w_tui (fst (finish_block T now ec p c e txt out (w, tr)))
   = (if w_live w \<and> t_agentLaunched (w_tui w) \<and> t_launchWiped (w_tui w)
      then (w_tui w)\<lparr>t_agentLaunched := False, t_launchWiped := False\<rparr> else w_tui w)"
  "w_live (fst (finish_block T now ec p c e txt out (w, tr))) = w_live w"
  by (simp_all add: finish_block_def Let_def case_prod_beta getTuiState_def markAgentLaunched_def)

lemma onCommandEnd_tui:
  assumes "x_registerMarker T 0 (w_x w) \<noteq> None" "w_live w" "t_agentLaunched (w_tui w) \<longrightarrow> t_launchWiped (w_tui w)"
  shows "let t = w_tui (fst (onCommandEnd T now ec (w, tr))) in \<not> t_sync t \<and> \<not> t_mouse t \<and> \<not> t_agentLaunched t"
proof -
  obtain m x where m: "x_registerMarker T 0 (w_x w) = Some (m, x)" using assms(1) by auto
  then have r: "registerMarker T (resetTuiState w) = Some (m, (resetTuiState w)\<lparr>w_x := x\<rparr>)"
    by (simp add: registerMarker_def)
  have "\<not> t_sync (w_tui (resetTuiState w)) \<and> \<not> t_mouse (w_tui (resetTuiState w))"
    using assms(2) by (simp add: resetTuiState_def Let_def)
  with assms(2,3) show ?thesis
    by (simp add: onCommandEnd_def r Let_def case_prod_beta finish_block_tui settle_command_keeps)
qed

lemma onCommandEnd_live: "w_live (fst (onCommandEnd T now ec (w, tr))) = w_live w"
proof (cases "registerMarker T (resetTuiState w)")
  case (Some p)
  then obtain m x where "registerMarker T (resetTuiState w) = Some (m, (resetTuiState w)\<lparr>w_x := x\<rparr>)"
    by (cases p) (auto simp: registerMarker_Some)
  then show ?thesis
    by (simp add: onCommandEnd_def Let_def case_prod_beta finish_block_tui settle_command_keeps)
qed (simp add: onCommandEnd_def)

section \<open>The snapshot loop\<close>

definition displayable :: "finished_block \<Rightarrow> bool" where
  "displayable b \<longleftrightarrow> trim (b_commandText b) \<noteq> [] \<and> (b_fromInput b \<or> isPlausibleCommandText (trim (b_commandText b)))"

definition markers_lost :: "'x xterm_api \<Rightarrow> 'x \<Rightarrow> finished_block \<Rightarrow> bool" where
  "markers_lost T x b \<longleftrightarrow> x_isDisposed T x (b_prompt b) \<or> x_isDisposed T x (b_end b)"

definition lines_nonneg :: "'x xterm_api \<Rightarrow> 'x \<Rightarrow> bool" where
  "lines_nonneg T x \<longleftrightarrow> (\<forall>m. \<not> x_isDisposed T x m \<longrightarrow> 0 \<le> x_line T x m)"

definition snap_inv :: "chrome_entry list \<times> int list \<times> int \<Rightarrow> bool" where
  "snap_inv = (\<lambda>(blocks, seen, seq). distinct (map e_promptLine blocks) \<and> e_promptLine ` set blocks = set seen
     \<and> (\<forall>l \<in> set seen. 0 \<le> l \<or> -100000 - seq < l) \<and> 0 \<le> seq
     \<and> (\<forall>e \<in> set blocks. e_promptLine e \<le> e_commandLine e \<and> e_commandText e \<noteq> [] \<and> e_kind e \<noteq> ActiveKind))"

lemma snap_block_inv:
  assumes "lines_nonneg T x" "snap_inv s"
  shows "snap_inv (snap_block T x b s)"
  using assms by (cases s) (fastforce simp: snap_inv_def snap_block_def Let_def markerLine_def lines_nonneg_def)

lemma snap_block_mono: "set (fst s) \<subseteq> set (fst (snap_block T x b s))"
  by (cases s) (auto simp: snap_block_def Let_def markerLine_def)

lemma snap_block_lost:
  assumes "snap_inv s" "displayable b" "markers_lost T x b"
  shows "\<exists>e \<in> set (fst (snap_block T x b s)). e_id e = b_id b \<and> e_commandText e = trim (b_commandText b)"
proof -
  obtain blocks seen seq where s: "s = (blocks, seen, seq)" by (cases s)
  have "-100000 - seq \<notin> set seen" using assms(1) s by (fastforce simp: snap_inv_def)
  with assms(2,3) s show ?thesis
    by (auto simp: snap_block_def Let_def markerLine_def markers_lost_def displayable_def)
qed

lemma snap_fold:
  assumes "lines_nonneg T x" "snap_inv s"
  shows "snap_inv (fold (snap_block T x) bs s) \<and> set (fst s) \<subseteq> set (fst (fold (snap_block T x) bs s))
    \<and> (\<forall>b \<in> set bs. displayable b \<longrightarrow> markers_lost T x b \<longrightarrow>
         (\<exists>e \<in> set (fst (fold (snap_block T x) bs s)). e_id e = b_id b \<and> e_commandText e = trim (b_commandText b)))"
  using assms(2)
proof (induction bs arbitrary: s)
  case (Cons b bs)
  let ?s = "snap_block T x b s"
  have i: "snap_inv ?s" by (rule snap_block_inv [OF assms(1) Cons.prems])
  from Cons.IH [OF i] snap_block_mono [of s T x b] snap_block_lost [OF Cons.prems, of b T x]
  show ?case by fastforce
qed simp

section \<open>Properties\<close>

text \<open>
  C16. However submissions, phases, flushes, output and disposal interleave, a session keeps at
  most 80 finished blocks, 32 submitted commands and 40 log entries; block identifiers never
  repeat; and every finished block has a command, which came from the input box or passed the
  plausibility check.\<close>

theorem blocks_stay_bounded:
  assumes "block_reachable T w"
  shows "length (w_submitted w) \<le> 32 \<and> length (w_log w) \<le> 40
    \<and> (\<forall>tr. w_tracker w = Some tr \<longrightarrow> length (finished tr) \<le> 80 \<and> distinct (map b_id (finished tr))
         \<and> (\<forall>b \<in> set (finished tr). b_commandText b \<noteq> [] \<and> (b_fromInput b \<or> isPlausibleCommandText (b_commandText b))))"
proof -
  have ok: "session_ok w" using assms by (rule block_reachable_ok)
  have "distinct (map b_id bs)" if "ids_ok n bs" for n bs
  proof -
    from that obtain ns where "map b_id bs = map block_id ns" "sorted_wrt (<) ns" by (auto simp: ids_ok_def)
    moreover from this(2) have "distinct ns" by (simp add: strict_sorted_iff)
    moreover have "inj block_id" by (simp add: inj_def block_id_def)
    ultimately show ?thesis by (simp add: distinct_map) (meson inj_on_subset subset_UNIV)
  qed
  with ok show ?thesis by (auto simp: session_ok_def queues_ok_def tracker_ok_def block_ok_def)
qed

text \<open>A terminal with one empty row whose markers are numbered from the state.\<close>

definition sample_xterm :: "nat xterm_api" where
  "sample_xterm = \<lparr>x_baseY = (\<lambda>_. 0), x_cursorY = (\<lambda>_. 0), x_cursorX = (\<lambda>_. 0), x_alternate = (\<lambda>_. False),
     x_text = (\<lambda>_ _. None), x_padded = (\<lambda>_ _. None), x_registerMarker = (\<lambda>_ n. Some (n, Suc n)),
     x_line = (\<lambda>_ m. int m), x_isDisposed = (\<lambda>_ _. False), x_dispose = (\<lambda>_ n. n)\<rparr>"

definition sample_world :: "nat session_world" where
  "sample_world = \<lparr>w_live = True, w_x = 0, w_tui = freshTuiState, w_cwd = None, w_gitBranch = None,
     w_tracker = None, w_submitted = [], w_log = [], w_syncs = 0\<rparr>"

theorem blocks_stay_bounded_witness:
  "block_reachable sample_xterm (noteSubmittedCommand 5 (js ''ls '') sample_world)
   \<and> length (w_submitted (noteSubmittedCommand 5 (js ''ls '') sample_world)) \<le> 32"
proof -
  have "block_reachable sample_xterm sample_world" by (rule start) (simp_all add: sample_world_def)
  then have r: "block_reachable sample_xterm (noteSubmittedCommand 5 (js ''ls '') sample_world)"
    by (rule step) (rule block_step.intros)
  with blocks_stay_bounded [OF r] show ?thesis by blast
qed

lemma block_from_submission:
  assumes "w_submitted w = (t, at) # q" "now - at \<le> 30000" "t \<noteq> []" "trim t = t"
    "x_registerMarker T 0 (w_x w) \<noteq> None" "x_registerMarker T 0 x' \<noteq> None"
    "\<not> (t_agentLaunched (w_tui w) \<and> t_launchWiped (w_tui w))"
  shows "let (w1, tr1) = applyPhase T now OutputStart None (w, tr);
             (w2, tr2) = applyPhase T later CommandEnd ec (w1\<lparr>w_x := x'\<rparr>, tr1)
         in w_submitted w1 = q \<and> active tr2 = None \<and>
            (\<exists>b. finished tr2 = slice_last 80 (finished tr @ [b]) \<and> b_commandText b = t \<and> b_fromInput b
               \<and> b_exitCode b = ec \<and> m_endedAt (b_meta b) = Some later)"
proof -
  obtain w1 tr1 where o1: "onOutputStart T now (w, tr) = (w1, tr1)" by (cases "onOutputStart T now (w, tr)")
  have f: "commandFromInput (tr_open tr1)" "open_commandText (tr_open tr1) = Some t" "finished tr1 = finished tr"
      "w_submitted w1 = q" "w_tui w1 = w_tui w"
    using onOutputStart_takes [OF assms(1-3,5), of tr] o1 by simp_all
  obtain b where b: "finished (snd (onCommandEnd T later ec (w1\<lparr>w_x := x'\<rparr>, tr1))) = slice_last 80 (finished tr1 @ [b])"
    "b_commandText b = t" "b_fromInput b" "b_exitCode b = ec" "m_endedAt (b_meta b) = Some later"
    using onCommandEnd_from_input [OF f(1,2) assms(3,4), of T "w1\<lparr>w_x := x'\<rparr>" later ec] assms(6,7) f(5) by auto
  have "active (snd (onCommandEnd T later ec (w1\<lparr>w_x := x'\<rparr>, tr1))) = None"
    using onCommandEnd_clears [of T "w1\<lparr>w_x := x'\<rparr>"] assms(6) by simp
  with b f o1 show ?thesis by (auto simp: applyPhase_def case_prod_beta)
qed

text \<open>
  The line submitted in the input box labels its block: when the oldest submission is at
  most 30 seconds old at the output mark, then whatever the screen shows then or later, the
  command end (unless it is that of a project's launch script) adds exactly one block, newest,
  with that text and the reported exit code.\<close>

theorem submitted_command_labels_block:
  assumes "w_submitted w = (t, at) # q" "now - at \<le> 30000" "t \<noteq> []" "trim t = t"
    "x_registerMarker T 0 (w_x w) \<noteq> None" "x_registerMarker T 0 x' \<noteq> None"
    "\<not> (t_agentLaunched (w_tui w) \<and> t_launchWiped (w_tui w))"
  shows "let (w1, tr1) = applyPhase T now OutputStart None (w, tr);
             (w2, tr2) = applyPhase T later CommandEnd ec (w1\<lparr>w_x := x'\<rparr>, tr1)
         in w_submitted w1 = q \<and> active tr2 = None \<and>
            (\<exists>b. finished tr2 = slice_last 80 (finished tr @ [b]) \<and> b_commandText b = t \<and> b_fromInput b
               \<and> b_exitCode b = ec \<and> m_endedAt (b_meta b) = Some later)"
  using assms by (rule block_from_submission)

theorem submitted_command_labels_block_witness:
  "\<exists>b. finished (snd (applyPhase sample_xterm 900 CommandEnd (Some 0)
          ((fst (applyPhase sample_xterm 7 OutputStart None (sample_world\<lparr>w_submitted := [(js ''ls'', 5)]\<rparr>, new_tracker)))\<lparr>w_x := 9\<rparr>,
           snd (applyPhase sample_xterm 7 OutputStart None (sample_world\<lparr>w_submitted := [(js ''ls'', 5)]\<rparr>, new_tracker)))))
        = [b] \<and> b_commandText b = js ''ls'' \<and> b_exitCode b = Some 0"
proof -
  let ?w = "sample_world\<lparr>w_submitted := [(js ''ls'', 5)]\<rparr>"
  have h: "w_submitted ?w = [(js ''ls'', 5)]" "7 - 5 \<le> (30000 :: int)" "js ''ls'' \<noteq> []" "trim (js ''ls'') = js ''ls''"
    "x_registerMarker sample_xterm 0 (w_x ?w) \<noteq> None" "x_registerMarker sample_xterm 0 9 \<noteq> None"
    "\<not> (t_agentLaunched (w_tui ?w) \<and> t_launchWiped (w_tui ?w))"
    by (simp_all add: js_eval sample_xterm_def sample_world_def freshTuiState_def)
  have "finished new_tracker = []" by (simp add: new_tracker_def)
  with submitted_command_labels_block [OF h, of new_tracker 900 "Some 0"] show ?thesis
    by (auto simp: Let_def case_prod_beta)
qed

text \<open>
  A finished program hands the screen back: applying a command-end mark (with no launch
  script still before its wipe) leaves the session without a running command, without the
  synchronized-output and mouse signals and, unless the terminal is in its alternate buffer,
  not counted as showing a full-screen program.\<close>

theorem command_end_hands_screen_back:
  assumes "w_tracker w = Some tr" "pending tr = (CommandEnd, ec) # rest" "x_registerMarker T 0 (w_x w) \<noteq> None"
    "t_agentLaunched (w_tui w) \<longrightarrow> t_launchWiped (w_tui w)"
  shows "let w' = flushBlockPhases T now w in
     \<not> sessionHasRunningCommand w' \<and> (\<not> x_alternate T (w_x w') \<longrightarrow> \<not> sessionScreenApp T w')
     \<and> map_option pending (w_tracker w') = Some rest"
proof -
  let ?s = "onCommandEnd T now ec (w, tr\<lparr>pending := rest\<rparr>)"
  have f: "flushBlockPhases T now w = syncChrome ((fst ?s)\<lparr>w_tracker := Some (snd ?s)\<rparr>)"
    using assms(1,2) by (simp add: flushBlockPhases_def applyPhase_def case_prod_beta)
  have c: "active (snd ?s) = None" "tr_open (snd ?s) = empty_open"
    using onCommandEnd_clears [OF assms(3)] by simp_all
  have l: "w_live (fst ?s) = w_live w" by (rule onCommandEnd_live)
  have t: "w_live w \<Longrightarrow> \<not> t_sync (w_tui (fst ?s)) \<and> \<not> t_mouse (w_tui (fst ?s)) \<and> \<not> t_agentLaunched (w_tui (fst ?s))"
    using onCommandEnd_tui [OF assms(3) _ assms(4), of now ec "tr\<lparr>pending := rest\<rparr>"] by (simp add: Let_def)
  have p: "pending (snd ?s) = rest" by (rule onCommandEnd_pending [of T now ec w "tr\<lparr>pending := rest\<rparr>", simplified])
  have run: "\<not> tracker_running (snd ?s)" by (simp add: tracker_running_def c)
  have "\<not> re_test AGENT_COMMAND_RE []" "\<not> re_test SCREEN_COMMAND_RE []" by (simp_all add: js_eval)
  then have "\<not> sessionRunsScreenCommand T (flushBlockPhases T now w)"
    by (simp add: sessionRunsScreenCommand_def currentCommandText_def f run)
  then show ?thesis
    using t run p l by (auto simp: Let_def f sessionHasRunningCommand_def sessionScreenApp_def getTuiState_def)
qed

theorem command_end_hands_screen_back_witness:
  "let w = sample_world\<lparr>w_tracker := Some (new_tracker\<lparr>pending := [(CommandEnd, Some 0)]\<rparr>), w_tui := freshTuiState\<lparr>t_sync := True\<rparr>\<rparr>
   in sessionScreenApp sample_xterm w \<and> \<not> sessionScreenApp sample_xterm (flushBlockPhases sample_xterm 7 w)"
proof -
  let ?tr = "new_tracker\<lparr>pending := [(CommandEnd, Some 0)]\<rparr>"
  let ?w = "sample_world\<lparr>w_tracker := Some ?tr, w_tui := freshTuiState\<lparr>t_sync := True\<rparr>\<rparr>"
  have h: "w_tracker ?w = Some ?tr" "pending ?tr = (CommandEnd, Some 0) # []" "x_registerMarker sample_xterm 0 (w_x ?w) \<noteq> None"
    "t_agentLaunched (w_tui ?w) \<longrightarrow> t_launchWiped (w_tui ?w)"
    by (simp_all add: sample_xterm_def freshTuiState_def)
  have "sessionScreenApp sample_xterm ?w"
    by (simp add: sessionScreenApp_def getTuiState_def sample_world_def)
  moreover have "\<not> x_alternate sample_xterm (w_x (flushBlockPhases sample_xterm 7 ?w))" by (simp add: sample_xterm_def)
  ultimately show ?thesis using command_end_hands_screen_back [OF h, of 7] by (simp add: Let_def)
qed

text \<open>
  The snapshot loses no block to disposed markers: for a terminal that numbers the rows of its
  live markers from 0, the entries of the finished blocks have distinct prompt lines, never start
  after their command line and have a command; and every finished block with a command to show whose
  prompt or end marker is gone still has its entry.\<close>

theorem snapshot_keeps_lost_blocks:
  assumes "lines_nonneg T (w_x w)" "w_tracker w = Some tr" "active tr = None"
  shows "\<exists>sn. getBlockChromeSnapshot T w = Some sn \<and> distinct (map e_promptLine (s_blocks sn))
    \<and> (\<forall>e \<in> set (s_blocks sn). e_promptLine e \<le> e_commandLine e \<and> e_commandText e \<noteq> [])
    \<and> (\<forall>b \<in> set (finished tr). displayable b \<longrightarrow> markers_lost T (w_x w) b \<longrightarrow>
         (\<exists>e \<in> set (s_blocks sn). e_id e = b_id b \<and> e_commandText e = trim (b_commandText b)))"
proof -
  have "snap_inv ([], [], 0)" by (simp add: snap_inv_def)
  from snap_fold [OF assms(1) this, of "finished tr"] show ?thesis
    using assms(2,3) by (auto simp: getBlockChromeSnapshot_def snap_inv_def case_prod_beta)
qed

definition sample_block :: finished_block where
  "sample_block = \<lparr>b_id = block_id 1, b_prompt = 0, b_command = 0, b_end = 1, b_fromInput = True,
     b_commandText = js ''apt update'', b_outputText = [], b_exitCode = Some 0,
     b_meta = \<lparr>m_cwd = None, m_gitBranch = None, m_startedAt = 0, m_endedAt = Some 1\<rparr>, b_lineCount = 1\<rparr>"

theorem snapshot_keeps_lost_blocks_witness:
  "\<exists>sn e. getBlockChromeSnapshot (sample_xterm\<lparr>x_isDisposed := \<lambda>_ _. True\<rparr>)
       (sample_world\<lparr>w_tracker := Some (new_tracker\<lparr>finished := [sample_block]\<rparr>)\<rparr>) = Some sn
     \<and> e \<in> set (s_blocks sn) \<and> e_commandText e = js ''apt update''"
proof -
  let ?T = "sample_xterm\<lparr>x_isDisposed := \<lambda>_ _. True\<rparr>"
  let ?tr = "new_tracker\<lparr>finished := [sample_block]\<rparr>"
  let ?w = "sample_world\<lparr>w_tracker := Some ?tr\<rparr>"
  have t: "trim (js ''apt update'') = js ''apt update''" "js ''apt update'' \<noteq> []" by (simp_all add: js_eval)
  have h: "lines_nonneg ?T (w_x ?w)" "w_tracker ?w = Some ?tr" "active ?tr = None"
    by (simp_all add: lines_nonneg_def new_tracker_def)
  have b: "sample_block \<in> set (finished ?tr)" "displayable sample_block" "markers_lost ?T (w_x ?w) sample_block"
    using t by (simp_all add: displayable_def markers_lost_def sample_block_def)
  from snapshot_keeps_lost_blocks [OF h] b t show ?thesis by (fastforce simp: sample_block_def)
qed

end
