(* ===== verification/Registry.thy ===== *)
theory Registry
  imports Blocks SyncFilter Inject
begin

text \<open>
  The registry of live terminals (\<^verbatim>\<open>terminal/registry.ts\<close>) and the store of scrollback snapshots
  (\<^verbatim>\<open>terminal/scrollback.ts\<close>). Each session has a record (byte filter, timers), its block state
  (\<open>session_world\<close> of theory \<open>Blocks\<close>) and a queue of terminal operations that run one after the
  other. Gates drop what the emulator sends back while the program itself types into a shell.

  The emulator stays a parameter; \<open>xterm_term\<close> adds the operations the registry calls. Feeding
  bytes to the emulator calls back into the handlers the registry installed: \<open>x_parse\<close> consumes
  bytes up to the next sequence with such a handler and returns it with the rest of the input.
\<close>

section \<open>The emulator's operations\<close>

datatype parser_event =
    Osc7 jsstr
  | Osc133 jsstr
  | DecSet "csi_param list"
  | DecReset "csi_param list"
  | EraseDisplay "csi_param list"

record 'x xterm_term = "'x xterm_api" +
  x_parse :: "nat list \<Rightarrow> 'x \<Rightarrow> 'x \<times> (parser_event \<times> nat list) option"
  x_clear :: "'x \<Rightarrow> 'x"
  x_viewportY :: "'x \<Rightarrow> int"
  x_scrollToBottom :: "'x \<Rightarrow> 'x"
  x_getSelection :: "'x \<Rightarrow> jsstr"
  x_serialize :: "nat \<Rightarrow> 'x \<Rightarrow> jsstr option"  \<comment> \<open>\<open>None\<close> when it throws\<close>
  x_new :: 'x

abbreviation api :: "'x xterm_term \<Rightarrow> 'x xterm_api" where
  "api T \<equiv> xterm_api.truncate T"

section \<open>State\<close>

text \<open>
  A queued operation: the promise chain of \<^verbatim>\<open>enqueueTerminalOp\<close> is the list of operations still to
  run. A clear keeps the terminal it was issued for, which \<open>instance_no\<close> identifies.
\<close>

datatype term_op = WriteOp "nat list" | FlushOp | ClearOp nat

record terminal_record =
  instance_no :: nat
  syncFilter :: sync_filter
  attachSweepTimer :: bool
  attachSwept :: bool
  resizeTimer :: "(nat \<times> nat) option"

text \<open>
  What leaves the registry: calls of the installed callbacks and the bytes given to the emulator.
  \<open>terminalOps\<close> is the current chain of a session; disposing the terminal drops the reference to
  the chain (\<open>detachedOps\<close>) but its operations still run. \<open>created\<close> counts the terminals made.
\<close>

datatype reg_out =
    OnInput session_id jsstr
  | OnResize session_id nat nat
  | OnCwd session_id jsstr
  | OnGitBranch session_id jsstr
  | TermBytes session_id "nat list"
  | ClipboardText jsstr

record 'x registry =
  terminals :: "session_id \<Rightarrow> terminal_record option"
  sessions :: "session_id \<Rightarrow> 'x session_world"
  terminalOps :: "session_id \<Rightarrow> term_op list"
  detachedOps :: "session_id \<Rightarrow> term_op list list"
  lastSelections :: "session_id \<Rightarrow> jsstr option"
  inputSuppressedUntil :: "session_id \<Rightarrow> int option"
  globalInputSuppressedUntil :: int
  inputHandlers :: "session_id \<Rightarrow> nat option"
  created :: nat
  outputs :: "reg_out list"

definition emit_out :: "reg_out \<Rightarrow> 'x registry \<Rightarrow> 'x registry" where
  "emit_out e r = r\<lparr>outputs := outputs r @ [e]\<rparr>"

definition upd_session :: "session_id \<Rightarrow> ('x session_world \<Rightarrow> 'x session_world) \<Rightarrow> 'x registry \<Rightarrow> 'x registry" where
  "upd_session sid f r = r\<lparr>sessions := (sessions r)(sid := f (sessions r sid))\<rparr>"

definition upd_record :: "session_id \<Rightarrow> (terminal_record \<Rightarrow> terminal_record) \<Rightarrow> 'x registry \<Rightarrow> 'x registry" where
  "upd_record sid f r = r\<lparr>terminals := (terminals r)(sid := map_option f (terminals r sid))\<rparr>"

text \<open>A callback of the session, when handlers are installed.\<close>

definition callback :: "session_id \<Rightarrow> reg_out \<Rightarrow> 'x registry \<Rightarrow> 'x registry" where
  "callback sid e r = (if inputHandlers r sid = None then r else emit_out e r)"

section \<open>Input gates\<close>

definition until_of :: "session_id \<Rightarrow> 'x registry \<Rightarrow> int" where
  "until_of sid r = (case inputSuppressedUntil r sid of Some u \<Rightarrow> u | None \<Rightarrow> 0)"

definition inputIsSuppressed :: "session_id \<Rightarrow> int \<Rightarrow> 'x registry \<Rightarrow> bool" where
  "inputIsSuppressed sid now r =
     (if now < globalInputSuppressedUntil r then True else now < until_of sid r)"

definition suppressTerminalUserInput :: "session_id \<Rightarrow> int \<Rightarrow> int \<Rightarrow> 'x registry \<Rightarrow> 'x registry" where
  "suppressTerminalUserInput sid now durationMs r =
     (let until = now + durationMs
      in r\<lparr>inputSuppressedUntil := (inputSuppressedUntil r)(sid \<mapsto> max (until_of sid r) until),
          globalInputSuppressedUntil := max (globalInputSuppressedUntil r) until\<rparr>)"

definition suppressAllTerminalUserInput :: "int \<Rightarrow> int \<Rightarrow> 'x registry \<Rightarrow> 'x registry" where
  "suppressAllTerminalUserInput now durationMs r =
     (let until = now + durationMs
      in r\<lparr>globalInputSuppressedUntil := max (globalInputSuppressedUntil r) until,
          inputSuppressedUntil :=
            (\<lambda>sid. if terminals r sid \<noteq> None then Some (max (until_of sid r) until)
                   else inputSuppressedUntil r sid)\<rparr>)"

section \<open>Parser handlers\<close>

definition WINDOWS_DRIVE :: re where
  [js_eval]: "WINDOWS_DRIVE = seqs [Bol, chr 47, CC is_alpha, chr 58, chr 47]"

text \<open>The platform's URL parser and percent decoder; \<open>None\<close> when they throw.\<close>

record url_api =
  url_pathname :: "jsstr \<Rightarrow> jsstr option"
  decodeURIComponent :: "jsstr \<Rightarrow> jsstr option"

definition non_empty :: "jsstr \<Rightarrow> jsstr option" where
  "non_empty s = (if s = [] then None else Some s)"

definition index_from :: "nat \<Rightarrow> nat \<Rightarrow> jsstr \<Rightarrow> nat option" where
  "index_from d k s = map_option ((+) k) (List.find (\<lambda>i. drop k s ! i = d) [0..<length (drop k s)])"

definition parseOsc7 :: "url_api \<Rightarrow> jsstr \<Rightarrow> jsstr option" where
  "parseOsc7 U data =
     (let trimmed = trim data in
      if trimmed = [] then None
      else if startsWith trimmed (js ''file://'') then
        (case Option.bind (url_pathname U trimmed) (decodeURIComponent U) of
           Some path \<Rightarrow> non_empty (if re_test WINDOWS_DRIVE path then drop 1 path else path)
         | None \<Rightarrow>
             (case index_from 47 7 trimmed of None \<Rightarrow> None
              | Some slash \<Rightarrow>
                  (case decodeURIComponent U (drop slash trimmed) of
                     Some p \<Rightarrow> non_empty p | None \<Rightarrow> non_empty (drop slash trimmed))))
      else Some trimmed)"

definition onOsc7 :: "url_api \<Rightarrow> session_id \<Rightarrow> jsstr \<Rightarrow> 'x registry \<Rightarrow> 'x registry" where
  "onOsc7 U sid data r =
     (case parseOsc7 U data of None \<Rightarrow> r
      | Some cwd \<Rightarrow>
          let r = (if terminals r sid = None then r else upd_session sid (\<lambda>w. w\<lparr>w_cwd := Some cwd\<rparr>) r)
          in callback sid (OnCwd sid cwd) r)"

definition onOsc133 :: "session_id \<Rightarrow> jsstr \<Rightarrow> 'x registry \<Rightarrow> 'x registry" where
  "onOsc133 sid data r =
     (if \<not> startsWith data (js ''G;'') then r
      else let branch = trim (drop 2 data) in
        if branch = [] then r
        else let r = (if terminals r sid = None then r else upd_session sid (\<lambda>w. w\<lparr>w_gitBranch := Some branch\<rparr>) r)
             in callback sid (OnGitBranch sid branch) r)"

text \<open>\<^verbatim>\<open>CSI Ps J\<close>: only the first parameter counts, and only when it is a plain number.\<close>

definition is_ed3 :: "csi_param list \<Rightarrow> bool" where
  "is_ed3 params = (case params of Param p # _ \<Rightarrow> p = 3 | _ \<Rightarrow> False)"

definition onEraseDisplay :: "'x xterm_term \<Rightarrow> session_id \<Rightarrow> csi_param list \<Rightarrow> 'x registry \<Rightarrow> 'x registry" where
  "onEraseDisplay T sid params r =
     (if is_ed3 params \<and> \<not> x_alternate T (w_x (sessions r sid)) then
        (let r = upd_session sid (forgetFinishedBlocks (api T)) r in
         if terminals r sid \<noteq> None \<and> t_agentLaunched (w_tui (sessions r sid))
         then upd_session sid (\<lambda>w. w\<lparr>w_tui := (w_tui w)\<lparr>t_launchWiped := True\<rparr>\<rparr>) r else r)
      else r)"

definition on_parser_event :: "'x xterm_term \<Rightarrow> url_api \<Rightarrow> session_id \<Rightarrow> parser_event \<Rightarrow> 'x registry \<Rightarrow> 'x registry" where
  "on_parser_event T U sid e r =
     (case e of
        Osc7 d \<Rightarrow> onOsc7 U sid d r
      | Osc133 d \<Rightarrow> onOsc133 sid d r
      | DecSet ps \<Rightarrow> upd_session sid (onDecMode True ps) r
      | DecReset ps \<Rightarrow> upd_session sid (onDecMode False ps) r
      | EraseDisplay ps \<Rightarrow> onEraseDisplay T sid ps r)"

text \<open>\<^verbatim>\<open>terminal.write(bytes)\<close>\<close>

function feed :: "'x xterm_term \<Rightarrow> url_api \<Rightarrow> session_id \<Rightarrow> nat list \<Rightarrow> 'x registry \<Rightarrow> 'x registry" where
  "feed T U sid bs r =
     (let (x, ev) = x_parse T bs (w_x (sessions r sid));
          r = upd_session sid (\<lambda>w. w\<lparr>w_x := x\<rparr>) r
      in case ev of None \<Rightarrow> r
         | Some (e, rest) \<Rightarrow>
             if length rest < length bs then feed T U sid rest (on_parser_event T U sid e r)
             else on_parser_event T U sid e r)"
  by pat_completeness auto
termination by (relation "measure (\<lambda>(T, U, sid, bs, r). length bs)") auto

declare feed.simps [simp del]

definition write_bytes :: "'x xterm_term \<Rightarrow> url_api \<Rightarrow> session_id \<Rightarrow> nat list \<Rightarrow> 'x registry \<Rightarrow> 'x registry" where
  "write_bytes T U sid bs r = feed T U sid bs (emit_out (TermBytes sid bs) r)"

section \<open>Terminal callbacks\<close>

definition onData :: "session_id \<Rightarrow> int \<Rightarrow> jsstr \<Rightarrow> 'x registry \<Rightarrow> 'x registry" where
  "onData sid now data r =
     (if inputIsSuppressed sid now r then r
      else if looksLikeDeviceReport data then r
      else let payload = stripDeviceReports data in
        if payload = [] then r
        else if looksLikeDeviceReport payload then r
        else callback sid (OnInput sid payload) r)"

definition onSelectionChange :: "'x xterm_term \<Rightarrow> session_id \<Rightarrow> bool \<Rightarrow> 'x registry \<Rightarrow> 'x registry" where
  "onSelectionChange T sid copyOnSelect r =
     (let text = x_getSelection T (w_x (sessions r sid));
          r = (if text \<noteq> [] then r\<lparr>lastSelections := (lastSelections r)(sid \<mapsto> text)\<rparr> else r)
      in if \<not> copyOnSelect then r
         else if text \<noteq> [] then emit_out (ClipboardText text) r else r)"

text \<open>\<^verbatim>\<open>onResize\<close> re-arms a 100 ms timer; \<open>resize_fires\<close> is its callback.\<close>

definition onResize :: "session_id \<Rightarrow> nat \<Rightarrow> nat \<Rightarrow> 'x registry \<Rightarrow> 'x registry" where
  "onResize sid cols rows r =
     (if terminals r sid = None then r else upd_record sid (\<lambda>t. t\<lparr>resizeTimer := Some (cols, rows)\<rparr>) r)"

definition resize_fires :: "session_id \<Rightarrow> 'x registry \<Rightarrow> 'x registry" where
  "resize_fires sid r =
     (case Option.bind (terminals r sid) resizeTimer of None \<Rightarrow> r
      | Some (cols, rows) \<Rightarrow>
          callback sid (OnResize sid cols rows) (upd_record sid (\<lambda>t. t\<lparr>resizeTimer := None\<rparr>) r))"

definition fresh_record :: "nat \<Rightarrow> terminal_record" where
  "fresh_record i = \<lparr>instance_no = i, syncFilter = fresh_filter, attachSweepTimer = False, attachSwept = False, resizeTimer = None\<rparr>"

text \<open>\<^verbatim>\<open>createTerminal\<close>: handlers are replaced, an existing terminal is kept.\<close>

definition createTerminal :: "'x xterm_term \<Rightarrow> session_id \<Rightarrow> nat \<Rightarrow> 'x registry \<Rightarrow> 'x registry" where
  "createTerminal T sid callbacks r =
     (let r = r\<lparr>inputHandlers := (inputHandlers r)(sid \<mapsto> callbacks)\<rparr> in
      if terminals r sid \<noteq> None then r
      else upd_session sid
             (\<lambda>w. w\<lparr>w_live := True, w_x := x_new T, w_tui := freshTuiState, w_cwd := None, w_gitBranch := None\<rparr>)
             (r\<lparr>terminals := (terminals r)(sid \<mapsto> fresh_record (created r)), created := Suc (created r)\<rparr>))"

section \<open>The operation queue\<close>

definition enqueueTerminalOp :: "session_id \<Rightarrow> term_op \<Rightarrow> 'x registry \<Rightarrow> 'x registry" where
  "enqueueTerminalOp sid op r = r\<lparr>terminalOps := (terminalOps r)(sid := terminalOps r sid @ [op])\<rparr>"

definition scheduleAttachSweep :: "session_id \<Rightarrow> 'x registry \<Rightarrow> 'x registry" where
  "scheduleAttachSweep sid r =
     upd_record sid (\<lambda>t. if attachSwept t \<or> attachSweepTimer t then t else t\<lparr>attachSweepTimer := True\<rparr>) r"

definition ED3 :: "nat list" where
  "ED3 = 27 # js ''[3J''"

text \<open>The timer of the sweep fires.\<close>

definition sweep_fires :: "'x xterm_term \<Rightarrow> url_api \<Rightarrow> session_id \<Rightarrow> 'x registry \<Rightarrow> 'x registry" where
  "sweep_fires T U sid r =
     (if terminals r sid = None then r
      else let r = upd_record sid (\<lambda>t. t\<lparr>attachSweepTimer := False, attachSwept := True\<rparr>) r;
               x = w_x (sessions r sid)
           in if sessionScreenApp (api T) (sessions r sid) \<and> \<not> x_alternate T x
                 \<and> x_baseY T x > 0 \<and> x_viewportY T x = x_baseY T x
              then upd_session sid (\<lambda>w. w\<lparr>w_x := x_scrollToBottom T (w_x w)\<rparr>) (write_bytes T U sid ED3 r)
              else r)"

definition writeTerminal :: "session_id \<Rightarrow> nat list \<Rightarrow> 'x registry \<Rightarrow> 'x registry" where
  "writeTerminal sid data r =
     (if terminals r sid = None then r else enqueueTerminalOp sid (WriteOp data) (scheduleAttachSweep sid r))"

definition scheduleFlushBlockPhases :: "session_id \<Rightarrow> 'x registry \<Rightarrow> 'x registry" where
  "scheduleFlushBlockPhases sid r = enqueueTerminalOp sid FlushOp r"

definition clearTerminalViewport :: "session_id \<Rightarrow> 'x registry \<Rightarrow> 'x registry" where
  "clearTerminalViewport sid r =
     (case terminals r sid of None \<Rightarrow> r | Some t \<Rightarrow> enqueueTerminalOp sid (ClearOp (instance_no t)) r)"

text \<open>
  The body of a queued operation. After a write the blocks are refreshed (and, in development
  builds, the write is logged).
\<close>

definition run_op :: "'x xterm_term \<Rightarrow> url_api \<Rightarrow> int \<Rightarrow> session_id \<Rightarrow> term_op \<Rightarrow> 'x registry \<Rightarrow> 'x registry" where
  "run_op T U now sid op r =
     (case op of
        WriteOp raw \<Rightarrow>
          (case terminals r sid of None \<Rightarrow> r
           | Some current \<Rightarrow>
               let (f, bytes) = push (syncFilter current) raw;
                   r = upd_record sid (\<lambda>t. t\<lparr>syncFilter := f\<rparr>) r
               in if bytes = [] then upd_session sid syncChrome r
                  else upd_session sid syncChrome (write_bytes T U sid bytes r))
      | FlushOp \<Rightarrow>
          (if terminals r sid = None then r
           else upd_session sid (\<lambda>w. syncChrome (flushBlockPhases (api T) now w)) r)
      | ClearOp i \<Rightarrow>
          if map_option instance_no (terminals r sid) = Some i
          then upd_session sid (\<lambda>w. w\<lparr>w_x := x_clear T (w_x w)\<rparr>) r else r)"

text \<open>The head of the queue runs when everything before it has completed.\<close>

definition run_next :: "'x xterm_term \<Rightarrow> url_api \<Rightarrow> int \<Rightarrow> session_id \<Rightarrow> 'x registry \<Rightarrow> 'x registry" where
  "run_next T U now sid r =
     (case terminalOps r sid of [] \<Rightarrow> r
      | op # rest \<Rightarrow> run_op T U now sid op (r\<lparr>terminalOps := (terminalOps r)(sid := rest)\<rparr>))"

definition run_detached :: "'x xterm_term \<Rightarrow> url_api \<Rightarrow> int \<Rightarrow> session_id \<Rightarrow> nat \<Rightarrow> 'x registry \<Rightarrow> 'x registry" where
  "run_detached T U now sid i r =
     (if i < length (detachedOps r sid) then
        (case detachedOps r sid ! i of [] \<Rightarrow> r
         | op # rest \<Rightarrow> run_op T U now sid op (r\<lparr>detachedOps := (detachedOps r)(sid := (detachedOps r sid)[i := rest])\<rparr>))
      else r)"

definition writeTerminalMessage :: "'x xterm_term \<Rightarrow> url_api \<Rightarrow> session_id \<Rightarrow> jsstr \<Rightarrow> 'x registry \<Rightarrow> 'x registry" where
  "writeTerminalMessage T U sid message r =
     (if terminals r sid = None then r else write_bytes T U sid ([13, 10] @ message @ [13, 10]) r)"

section \<open>Reading and disposing\<close>

definition getTerminalSelection :: "'x xterm_term \<Rightarrow> session_id \<Rightarrow> 'x registry \<Rightarrow> jsstr" where
  "getTerminalSelection T sid r = (if terminals r sid = None then [] else x_getSelection T (w_x (sessions r sid)))"

definition getTerminalSelectionForCopy :: "'x xterm_term \<Rightarrow> session_id \<Rightarrow> 'x registry \<Rightarrow> jsstr" where
  "getTerminalSelectionForCopy T sid r =
     (let live = getTerminalSelection T sid r in
      if live \<noteq> [] then live else case lastSelections r sid of Some s \<Rightarrow> s | None \<Rightarrow> [])"

definition copyTerminalSelection :: "'x xterm_term \<Rightarrow> session_id \<Rightarrow> 'x registry \<Rightarrow> 'x registry" where
  "copyTerminalSelection T sid r =
     (let text = getTerminalSelectionForCopy T sid r in if text = [] then r else emit_out (ClipboardText text) r)"

definition disposeTerminal :: "'x xterm_term \<Rightarrow> session_id \<Rightarrow> 'x registry \<Rightarrow> 'x registry" where
  "disposeTerminal T sid r =
     (if terminals r sid = None then r
      else let r = r\<lparr>inputSuppressedUntil := (inputSuppressedUntil r)(sid := None),
                      inputHandlers := (inputHandlers r)(sid := None),
                      lastSelections := (lastSelections r)(sid := None),
                      terminalOps := (terminalOps r)(sid := []),
                      detachedOps := (detachedOps r)(sid := terminalOps r sid # detachedOps r sid)\<rparr>;
               r = upd_session sid (disposeBlockTracker (api T)) r
           in upd_session sid (\<lambda>w. w\<lparr>w_live := False\<rparr>) (r\<lparr>terminals := (terminals r)(sid := None)\<rparr>))"

definition disposeAllTerminals :: "'x xterm_term \<Rightarrow> session_id list \<Rightarrow> 'x registry \<Rightarrow> 'x registry" where
  "disposeAllTerminals T ids r = fold (disposeTerminal T) ids r"

definition hasTerminal :: "session_id \<Rightarrow> 'x registry \<Rightarrow> bool" where
  "hasTerminal sid r \<longleftrightarrow> terminals r sid \<noteq> None"

section \<open>Scrollback snapshots\<close>

text \<open>The IndexedDB store, keyed by project; \<open>db_ok\<close> says whether the database can be opened and used.\<close>

record snapshot_row =
  sn_data :: jsstr
  sn_savedAt :: int

record snapshot_store =
  rows :: "jsstr \<Rightarrow> snapshot_row option"
  db_ok :: bool

definition SCROLLBACK_LINE_CAP :: nat where
  "SCROLLBACK_LINE_CAP = 2500"

definition MAX_CHARS :: nat where
  "MAX_CHARS = 400000"

definition saveScrollbackSnapshot :: "int \<Rightarrow> jsstr \<Rightarrow> jsstr \<Rightarrow> snapshot_store \<Rightarrow> snapshot_store" where
  "saveScrollbackSnapshot now projectId data db =
     (if projectId = [] \<or> data = [] then db
      else let trimmed = (if length data > MAX_CHARS then drop (length data - MAX_CHARS) data else data) in
        if db_ok db then db\<lparr>rows := (rows db)(projectId \<mapsto> \<lparr>sn_data = trimmed, sn_savedAt = now\<rparr>)\<rparr> else db)"

definition loadScrollbackSnapshot :: "jsstr \<Rightarrow> snapshot_store \<Rightarrow> jsstr option" where
  "loadScrollbackSnapshot projectId db =
     (if projectId = [] then None else if db_ok db then map_option sn_data (rows db projectId) else None)"

definition clearScrollbackSnapshot :: "jsstr \<Rightarrow> snapshot_store \<Rightarrow> snapshot_store" where
  "clearScrollbackSnapshot projectId db =
     (if projectId = [] then db else if db_ok db then db\<lparr>rows := (rows db)(projectId := None)\<rparr> else db)"

definition persistProjectScrollback ::
  "'x xterm_term \<Rightarrow> int \<Rightarrow> session_id \<Rightarrow> jsstr \<Rightarrow> 'x registry \<Rightarrow> snapshot_store \<Rightarrow> snapshot_store" where
  "persistProjectScrollback T now sid projectId r db =
     (if terminals r sid = None \<or> projectId = [] then db
      else case x_serialize T SCROLLBACK_LINE_CAP (w_x (sessions r sid)) of None \<Rightarrow> db
        | Some data \<Rightarrow> if trim data \<noteq> [] then saveScrollbackSnapshot now projectId data db else db)"

definition restoreProjectScrollback ::
  "'x xterm_term \<Rightarrow> url_api \<Rightarrow> session_id \<Rightarrow> jsstr \<Rightarrow> snapshot_store \<Rightarrow> 'x registry \<Rightarrow> bool \<times> 'x registry" where
  "restoreProjectScrollback T U sid projectId db r =
     (if terminals r sid = None \<or> projectId = [] then (False, r)
      else case loadScrollbackSnapshot projectId db of None \<Rightarrow> (False, r)
        | Some data \<Rightarrow> if trim data = [] then (False, r) else (True, write_bytes T U sid data r))"

section \<open>Frames\<close>

lemma upd_session_frame [simp]:
  "terminals (upd_session sid f r) = terminals r" "terminalOps (upd_session sid f r) = terminalOps r"
  "outputs (upd_session sid f r) = outputs r" "inputHandlers (upd_session sid f r) = inputHandlers r"
  "lastSelections (upd_session sid f r) = lastSelections r"
  "inputSuppressedUntil (upd_session sid f r) = inputSuppressedUntil r"
  "globalInputSuppressedUntil (upd_session sid f r) = globalInputSuppressedUntil r"
  by (simp_all add: upd_session_def)

lemma upd_session_get [simp]: "sessions (upd_session sid f r) s = (if s = sid then f (sessions r sid) else sessions r s)"
  by (simp add: upd_session_def)

lemma upd_record_frame [simp]:
  "sessions (upd_record sid f r) = sessions r" "terminalOps (upd_record sid f r) = terminalOps r"
  "outputs (upd_record sid f r) = outputs r" "inputHandlers (upd_record sid f r) = inputHandlers r"
  "lastSelections (upd_record sid f r) = lastSelections r"
  "inputSuppressedUntil (upd_record sid f r) = inputSuppressedUntil r"
  "globalInputSuppressedUntil (upd_record sid f r) = globalInputSuppressedUntil r"
  by (simp_all add: upd_record_def)

lemma upd_record_get [simp]:
  "terminals (upd_record sid f r) s = (if s = sid then map_option f (terminals r sid) else terminals r s)"
  by (simp add: upd_record_def)

lemma emit_out_frame [simp]:
  "terminals (emit_out e r) = terminals r" "sessions (emit_out e r) = sessions r" "terminalOps (emit_out e r) = terminalOps r"
  "inputHandlers (emit_out e r) = inputHandlers r" "outputs (emit_out e r) = outputs r @ [e]"
  "lastSelections (emit_out e r) = lastSelections r" "inputSuppressedUntil (emit_out e r) = inputSuppressedUntil r"
  "globalInputSuppressedUntil (emit_out e r) = globalInputSuppressedUntil r"
  by (simp_all add: emit_out_def)

lemma callback_frame [simp]:
  "terminals (callback sid e r) = terminals r" "sessions (callback sid e r) = sessions r"
  "terminalOps (callback sid e r) = terminalOps r" "inputHandlers (callback sid e r) = inputHandlers r"
  by (simp_all add: callback_def)

section \<open>The stream that reaches the emulator\<close>

fun term_stream :: "session_id \<Rightarrow> reg_out list \<Rightarrow> nat list" where
  "term_stream sid [] = []"
| "term_stream sid (TermBytes s bs # es) = (if s = sid then bs else []) @ term_stream sid es"
| "term_stream sid (_ # es) = term_stream sid es"

lemma term_stream_append [simp]: "term_stream sid (xs @ ys) = term_stream sid xs @ term_stream sid ys"
  by (induction sid xs rule: term_stream.induct) auto

definition is_term_bytes :: "reg_out \<Rightarrow> bool" where
  "is_term_bytes e = (case e of TermBytes _ _ \<Rightarrow> True | _ \<Rightarrow> False)"

lemma term_stream_callback [simp]:
  "\<not> is_term_bytes e \<Longrightarrow> term_stream s (outputs (callback sid e r)) = term_stream s (outputs r)"
  by (cases e) (auto simp: callback_def is_term_bytes_def)

text \<open>Handlers change neither the records nor the queue, and write nothing to the emulator.\<close>

lemma on_parser_event_frame:
  "terminals (on_parser_event T U sid e r) = terminals r \<and> terminalOps (on_parser_event T U sid e r) = terminalOps r
   \<and> inputHandlers (on_parser_event T U sid e r) = inputHandlers r
   \<and> term_stream s (outputs (on_parser_event T U sid e r)) = term_stream s (outputs r)"
  by (cases e)
    (auto simp: on_parser_event_def onOsc7_def onOsc133_def onEraseDisplay_def Let_def is_term_bytes_def split: option.split)

text \<open>What every handler and every change of the emulator keeps, a write keeps.\<close>

lemma feed_invariant:
  assumes "P r" "\<And>r x. P r \<Longrightarrow> P (upd_session sid (\<lambda>w. w\<lparr>w_x := x\<rparr>) r)"
    "\<And>r e. P r \<Longrightarrow> P (on_parser_event T U sid e r)"
  shows "P (feed T U sid bs r)"
  using assms(1)
proof (induction bs arbitrary: r rule: length_induct)
  case (1 bs)
  obtain x ev where x: "x_parse T bs (w_x (sessions r sid)) = (x, ev)" by (cases "x_parse T bs (w_x (sessions r sid))")
  let ?r = "upd_session sid (\<lambda>w. w\<lparr>w_x := x\<rparr>) r"
  have r: "P ?r" by (rule assms(2) [OF "1.prems"])
  show ?case
  proof (cases ev)
    case None
    with r show ?thesis by (simp add: feed.simps [of T U sid bs r] x)
  next
    case (Some p)
    obtain e rest where p: "p = (e, rest)" by (cases p)
    have "P (on_parser_event T U sid e ?r)" by (rule assms(3) [OF r])
    with "1.IH" show ?thesis by (simp add: feed.simps [of T U sid bs r] x Some p Let_def)
  qed
qed

lemma feed_frame:
  "terminals (feed T U sid bs r) = terminals r \<and> terminalOps (feed T U sid bs r) = terminalOps r
   \<and> inputHandlers (feed T U sid bs r) = inputHandlers r
   \<and> term_stream s (outputs (feed T U sid bs r)) = term_stream s (outputs r)"
  by (rule feed_invariant) (simp_all add: on_parser_event_frame)

lemma write_bytes_frame:
  "terminals (write_bytes T U sid bs r) = terminals r" "terminalOps (write_bytes T U sid bs r) = terminalOps r"
  "inputHandlers (write_bytes T U sid bs r) = inputHandlers r"
  "term_stream s (outputs (write_bytes T U sid bs r)) = term_stream s (outputs r) @ (if s = sid then bs else [])"
  using feed_frame [of T U sid bs "emit_out (TermBytes sid bs) r"] by (auto simp: write_bytes_def)

fun op_bytes :: "term_op \<Rightarrow> nat list" where
  "op_bytes (WriteOp bs) = bs"
| "op_bytes FlushOp = []"
| "op_bytes (ClearOp i) = []"

text \<open>One operation feeds the emulator what the filter lets through of its bytes.\<close>

lemma run_op_stream:
  assumes "terminals r sid = Some t"
  shows "\<exists>t'. terminals (run_op T U now sid op r) sid = Some t' \<and> syncFilter t' = fst (push (syncFilter t) (op_bytes op))
     \<and> terminalOps (run_op T U now sid op r) = terminalOps r
     \<and> term_stream sid (outputs (run_op T U now sid op r)) = term_stream sid (outputs r) @ snd (push (syncFilter t) (op_bytes op))"
  using assms filter_chunks.chunk_Nil [of "syncFilter t"]
  by (cases op) (auto simp: run_op_def Let_def case_prod_beta write_bytes_frame)

primrec run_all :: "'x xterm_term \<Rightarrow> url_api \<Rightarrow> int \<Rightarrow> session_id \<Rightarrow> nat \<Rightarrow> 'x registry \<Rightarrow> 'x registry" where
  "run_all T U now sid 0 r = r"
| "run_all T U now sid (Suc n) r = run_all T U now sid n (run_next T U now sid r)"

lemma run_all_stream:
  assumes "terminals r sid = Some t" "terminalOps r sid = ops"
  shows "\<exists>t'. terminals (run_all T U now sid (length ops) r) sid = Some t'
     \<and> syncFilter t' = fst (push (syncFilter t) (concat (map op_bytes ops)))
     \<and> terminalOps (run_all T U now sid (length ops) r) sid = []
     \<and> term_stream sid (outputs (run_all T U now sid (length ops) r))
       = term_stream sid (outputs r) @ snd (push (syncFilter t) (concat (map op_bytes ops)))"
  using assms
proof (induction ops arbitrary: r t)
  case Nil
  then show ?case using filter_chunks.chunk_Nil [of "syncFilter t"] by simp
next
  case (Cons op ops)
  let ?r = "r\<lparr>terminalOps := (terminalOps r)(sid := ops)\<rparr>"
  have n: "run_next T U now sid r = run_op T U now sid op ?r" using Cons.prems(2) by (simp add: run_next_def)
  have "terminals ?r sid = Some t" using Cons.prems(1) by simp
  from run_op_stream [OF this, of T U now op] obtain t1 where t1:
    "terminals (run_next T U now sid r) sid = Some t1" "syncFilter t1 = fst (push (syncFilter t) (op_bytes op))"
    "terminalOps (run_next T U now sid r) sid = ops"
    "term_stream sid (outputs (run_next T U now sid r)) = term_stream sid (outputs r) @ snd (push (syncFilter t) (op_bytes op))"
    unfolding n by auto
  from Cons.IH [OF t1(1,3)] t1(2,4) show ?case
    by (auto simp: filter_chunks.chunk_append Let_def case_prod_beta)
qed

section \<open>The input gate of a session\<close>

interpretation session_gate: deadline_gate "suppressTerminalUserInput s" "inputIsSuppressed sid" for s sid
  by unfold_locales (auto simp: inputIsSuppressed_def suppressTerminalUserInput_def until_of_def Let_def split: if_splits option.splits)

interpretation all_gate: deadline_gate suppressAllTerminalUserInput "inputIsSuppressed sid" for sid
  by unfold_locales (auto simp: inputIsSuppressed_def suppressAllTerminalUserInput_def until_of_def Let_def split: if_splits option.splits)

text \<open>Gates armed one after the other, each for one session or for all.\<close>

definition arm_gate :: "session_id option \<times> int \<times> int \<Rightarrow> 'x registry \<Rightarrow> 'x registry" where
  "arm_gate a r =
     (case a of (None, now, ms) \<Rightarrow> suppressAllTerminalUserInput now ms r
      | (Some s, now, ms) \<Rightarrow> suppressTerminalUserInput s now ms r)"

lemma arm_gate_laws:
  "now \<le> t \<Longrightarrow> t < now + ms \<Longrightarrow> inputIsSuppressed sid t (arm_gate (who, now, ms) r)"
  "inputIsSuppressed sid t r \<Longrightarrow> inputIsSuppressed sid t (arm_gate a r)"
  "inputIsSuppressed sid t (arm_gate (who, now, ms) r) \<Longrightarrow> inputIsSuppressed sid t r \<or> t < now + ms"
  "inputHandlers (arm_gate a r) = inputHandlers r"
  unfolding arm_gate_def
  by (auto split: option.splits prod.splits
      intro: session_gate.arm_closes all_gate.arm_closes session_gate.arm_keeps all_gate.arm_keeps
      dest: session_gate.arm_exact all_gate.arm_exact)
    (simp_all add: suppressAllTerminalUserInput_def suppressTerminalUserInput_def Let_def)

lemma gates_keep: "inputIsSuppressed sid t r \<Longrightarrow> inputIsSuppressed sid t (fold arm_gate arms r)"
  by (induction arms arbitrary: r) (simp_all add: arm_gate_laws)

lemma gates_close:
  "(who, now, ms) \<in> set arms \<Longrightarrow> now \<le> t \<Longrightarrow> t < now + ms \<Longrightarrow> inputIsSuppressed sid t (fold arm_gate arms r)"
  by (induction arms arbitrary: r) (auto intro: gates_keep arm_gate_laws(1))

lemma gates_reopen:
  "\<not> inputIsSuppressed sid t r \<Longrightarrow> \<forall>(who, now, ms) \<in> set arms. now + ms \<le> t \<Longrightarrow> \<not> inputIsSuppressed sid t (fold arm_gate arms r)"
proof (induction arms arbitrary: r)
  case (Cons a arms)
  obtain who now ms where a: "a = (who, now, ms)" by (cases a)
  with Cons.prems have "\<not> inputIsSuppressed sid t (arm_gate a r)" using arm_gate_laws(3) by fastforce
  with Cons show ?case by simp
qed simp

lemma gates_handlers: "inputHandlers (fold arm_gate arms r) = inputHandlers r"
  by (induction arms arbitrary: r) (simp_all add: arm_gate_laws)

section \<open>The invariant of the registry\<close>

text \<open>
  The block state of a session is alive exactly while the registry has its record, handlers and
  remembered selections exist only for live sessions, and every session's block state is in order.
\<close>

definition registry_ok :: "'x registry \<Rightarrow> bool" where
  "registry_ok r \<longleftrightarrow> (\<forall>sid. (w_live (sessions r sid) \<longleftrightarrow> terminals r sid \<noteq> None)
     \<and> (terminals r sid = None \<longrightarrow> inputHandlers r sid = None \<and> lastSelections r sid = None)
     \<and> session_ok (sessions r sid))"

inductive reg_step :: "'x xterm_term \<Rightarrow> url_api \<Rightarrow> 'x registry \<Rightarrow> 'x registry \<Rightarrow> bool" for T U where
  "reg_step T U r (createTerminal T sid cb r)"
| "reg_step T U r (writeTerminal sid data r)"
| "reg_step T U r (scheduleFlushBlockPhases sid r)"
| "reg_step T U r (clearTerminalViewport sid r)"
| "reg_step T U r (run_next T U now sid r)"
| "reg_step T U r (run_detached T U now sid i r)"
| "reg_step T U r (sweep_fires T U sid r)"
| "reg_step T U r (resize_fires sid r)"
| "reg_step T U r (onData sid now data r)"
| "terminals r sid \<noteq> None \<Longrightarrow> reg_step T U r (onSelectionChange T sid b r)"
| "reg_step T U r (onResize sid cols rws r)"
| "reg_step T U r (writeTerminalMessage T U sid msg r)"
| "reg_step T U r (suppressTerminalUserInput sid now ms r)"
| "reg_step T U r (suppressAllTerminalUserInput now ms r)"
| "reg_step T U r (disposeTerminal T sid r)"
| "reg_step T U r (snd (restoreProjectScrollback T U sid pid db r))"
| "block_step (api T) (sessions r sid) w \<Longrightarrow> w_live w = w_live (sessions r sid) \<Longrightarrow> reg_step T U r (upd_session sid (\<lambda>_. w) r)"

text \<open>A change of a session that keeps it alive and in order keeps the invariant.\<close>

lemma registry_ok_session:
  "registry_ok r \<Longrightarrow> w_live (f (sessions r sid)) = w_live (sessions r sid) \<Longrightarrow> session_ok (f (sessions r sid)) \<Longrightarrow>
     registry_ok (upd_session sid f r)"
  by (simp add: registry_ok_def)

lemma registry_ok_emit [simp]: "registry_ok (emit_out e r) = registry_ok r" "registry_ok (callback sid e r) = registry_ok r"
  by (simp_all add: registry_ok_def callback_def)

lemma registry_ok_record: "registry_ok r \<Longrightarrow> registry_ok (upd_record sid f r)"
  by (simp add: registry_ok_def)

lemma session_ok_upd:
  "session_ok w \<Longrightarrow> session_ok (w\<lparr>w_x := x\<rparr>)" "session_ok w \<Longrightarrow> session_ok (w\<lparr>w_cwd := c\<rparr>)"
  "session_ok w \<Longrightarrow> session_ok (w\<lparr>w_gitBranch := c\<rparr>)" "session_ok w \<Longrightarrow> session_ok (w\<lparr>w_tui := t\<rparr>)"
  "session_ok w \<Longrightarrow> session_ok (syncChrome w)"
  by (simp_all add: session_ok_def queues_ok_def)

lemma registry_okD: "registry_ok r \<Longrightarrow> session_ok (sessions r sid)"
  by (simp add: registry_ok_def)

lemma onDecMode_ok: "session_ok w \<Longrightarrow> session_ok (onDecMode on ps w) \<and> w_live (onDecMode on ps w) = w_live w"
  by (auto simp: onDecMode_def Let_def case_prod_beta intro!: session_ok_upd)

lemma forget_ok: "session_ok w \<Longrightarrow> session_ok (forgetFinishedBlocks T w)"
  by (blast intro: block_step_ok block_step.intros)

lemma forget_live [simp]: "w_live (forgetFinishedBlocks T w) = w_live w"
  by (simp add: forgetFinishedBlocks_def split: option.split)

lemma flush_live [simp]: "w_live (flushBlockPhases T now w) = w_live w"
proof -
  have "w_live (fst (applyPhase T now ph ec (w, tr))) = w_live w" for ph ec tr
    using onCommandEnd_live [of T now ec w tr]
    by (cases ph)
      (auto simp: applyPhase_def onPromptStart_def onCommandStart_def onOutputStart_def registerMarker_def Let_def
        case_prod_beta split: option.split)
  then show ?thesis by (simp add: flushBlockPhases_def Let_def case_prod_beta split: option.split list.split)
qed

lemma on_parser_event_ok: "registry_ok r \<Longrightarrow> registry_ok (on_parser_event T U sid e r)"
proof -
  assume r: "registry_ok r"
  have s: "session_ok (sessions r sid)" by (rule registry_okD [OF r])
  have f: "registry_ok (upd_session sid (forgetFinishedBlocks (api T)) r)"
    using r s by (intro registry_ok_session) (simp_all add: forget_ok)
  show ?thesis
  proof (cases e)
    case (EraseDisplay ps)
    with r f show ?thesis
      by (auto simp: on_parser_event_def onEraseDisplay_def Let_def intro!: registry_ok_session [OF f] session_ok_upd forget_ok [OF s])
  qed (use r s in \<open>auto simp: on_parser_event_def onOsc7_def onOsc133_def Let_def onDecMode_ok
      split: option.split intro!: registry_ok_session [OF r] session_ok_upd\<close>)
qed

lemma write_bytes_ok: "registry_ok r \<Longrightarrow> registry_ok (write_bytes T U sid bs r)"
  unfolding write_bytes_def
  by (rule feed_invariant) (auto intro!: registry_ok_session session_ok_upd on_parser_event_ok intro: registry_okD)

lemma run_op_ok: "registry_ok r \<Longrightarrow> registry_ok (run_op T U now sid op r)"
proof -
  assume r: "registry_ok r"
  have c: "registry_ok q \<Longrightarrow> registry_ok (upd_session sid syncChrome q)" for q :: "'a registry"
    by (rule registry_ok_session) (auto intro: session_ok_upd registry_okD)
  have "registry_ok (upd_session sid (\<lambda>w. syncChrome (flushBlockPhases (api T) now w)) r)"
    by (rule registry_ok_session [OF r]) (auto intro: session_ok_upd flush_ok registry_okD [OF r])
  moreover have "registry_ok (upd_session sid (\<lambda>w. w\<lparr>w_x := x_clear T (w_x w)\<rparr>) r)"
    by (rule registry_ok_session [OF r]) (auto intro: session_ok_upd registry_okD [OF r])
  ultimately show ?thesis
    using r by (cases op) (auto simp: run_op_def Let_def case_prod_beta split: option.split
        intro!: c write_bytes_ok registry_ok_record)
qed

lemma run_next_ok: "registry_ok r \<Longrightarrow> registry_ok (run_next T U now sid r)"
  unfolding run_next_def by (auto split: list.split intro!: run_op_ok) (simp add: registry_ok_def)

lemma run_detached_ok: "registry_ok r \<Longrightarrow> registry_ok (run_detached T U now sid i r)"
  unfolding run_detached_def by (auto split: list.split intro!: run_op_ok) (simp add: registry_ok_def)

lemma createTerminal_ok: "registry_ok r \<Longrightarrow> registry_ok (createTerminal T sid cb r)"
  by (auto simp: createTerminal_def Let_def registry_ok_def session_ok_def queues_ok_def)

lemma disposeBlockTracker_keeps:
  "session_ok w \<Longrightarrow> session_ok (disposeBlockTracker T w)" "w_tracker (disposeBlockTracker T w) = None"
  by (blast intro: block_step_ok block_step.intros) (simp add: disposeBlockTracker_def Let_def split: option.split)

lemma disposeTerminal_ok: "registry_ok r \<Longrightarrow> registry_ok (disposeTerminal T sid r)"
proof -
  assume r: "registry_ok r"
  have "session_ok (disposeBlockTracker (api T) (sessions r sid))"
    by (intro disposeBlockTracker_keeps registry_okD [OF r])
  then have "session_ok (disposeBlockTracker (api T) (sessions r sid)\<lparr>w_live := False\<rparr>)"
    by (simp add: session_ok_def queues_ok_def)
  with r show ?thesis by (simp add: disposeTerminal_def Let_def registry_ok_def)
qed

lemma sweep_fires_ok: "registry_ok r \<Longrightarrow> registry_ok (sweep_fires T U sid r)"
  unfolding sweep_fires_def Let_def
  by (auto intro!: registry_ok_session session_ok_upd write_bytes_ok registry_ok_record intro: registry_okD)

lemma registry_ok_plain:
  "sessions r' = sessions r \<Longrightarrow> terminals r' = terminals r \<Longrightarrow> inputHandlers r' = inputHandlers r \<Longrightarrow>
     (\<forall>sid. terminals r sid = None \<longrightarrow> lastSelections r' sid = lastSelections r sid) \<Longrightarrow> registry_ok r \<Longrightarrow> registry_ok r'"
  by (simp add: registry_ok_def)

lemma writeTerminal_ok: "registry_ok r \<Longrightarrow> registry_ok (writeTerminal sid data r)"
proof -
  assume r: "registry_ok r"
  have "registry_ok (scheduleAttachSweep sid r)" unfolding scheduleAttachSweep_def by (rule registry_ok_record [OF r])
  then have "registry_ok (enqueueTerminalOp sid (WriteOp data) (scheduleAttachSweep sid r))"
    by (rule registry_ok_plain [rotated -1]) (simp_all add: enqueueTerminalOp_def)
  with r show ?thesis by (simp add: writeTerminal_def)
qed

lemma gates_keep_ok:
  "registry_ok (suppressTerminalUserInput sid now ms r) = registry_ok r"
  "registry_ok (suppressAllTerminalUserInput now ms r) = registry_ok r"
  "registry_ok (enqueueTerminalOp sid op r) = registry_ok r"
  by (simp_all add: registry_ok_def suppressTerminalUserInput_def suppressAllTerminalUserInput_def enqueueTerminalOp_def Let_def)

lemma queue_keep_ok:
  "registry_ok (scheduleFlushBlockPhases sid r) = registry_ok r"
  "registry_ok (clearTerminalViewport sid r) = registry_ok r"
  by (simp_all add: scheduleFlushBlockPhases_def clearTerminalViewport_def gates_keep_ok split: option.split)

lemma callbacks_keep_ok:
  assumes "registry_ok r"
  shows "registry_ok (onData sid now data r)" "registry_ok (onResize sid cols rws r)" "registry_ok (resize_fires sid r)"
    "registry_ok (writeTerminalMessage T U sid msg r)" "registry_ok (snd (restoreProjectScrollback T U sid pid db r))"
    "terminals r sid \<noteq> None \<Longrightarrow> registry_ok (onSelectionChange T sid b r)"
proof -
  have "terminals r sid \<noteq> None \<Longrightarrow> registry_ok (r\<lparr>lastSelections := (lastSelections r)(sid \<mapsto> u)\<rparr>)" for u
    using assms by (simp add: registry_ok_def)
  with assms show "terminals r sid \<noteq> None \<Longrightarrow> registry_ok (onSelectionChange T sid b r)"
    by (simp add: onSelectionChange_def Let_def)
qed (use assms in \<open>auto simp: onData_def onResize_def resize_fires_def writeTerminalMessage_def
    restoreProjectScrollback_def Let_def split: option.split intro: registry_ok_record write_bytes_ok\<close>)

lemma reg_step_ok: "reg_step T U r r' \<Longrightarrow> registry_ok r \<Longrightarrow> registry_ok r'"
proof (induction rule: reg_step.induct)
  case (17 r sid w)
  have "session_ok w" by (rule block_step_ok [OF "17.hyps"(1) registry_okD [OF "17.prems"]])
  with 17 show ?case by (intro registry_ok_session) simp_all
qed (blast intro: queue_keep_ok [THEN iffD2] gates_keep_ok [THEN iffD2] createTerminal_ok run_next_ok run_detached_ok
    sweep_fires_ok disposeTerminal_ok writeTerminal_ok callbacks_keep_ok)+

inductive reg_reachable :: "'x xterm_term \<Rightarrow> url_api \<Rightarrow> 'x registry \<Rightarrow> bool" for T U where
  reg_start: "(\<And>sid. terminals r sid = None \<and> inputHandlers r sid = None \<and> lastSelections r sid = None
      \<and> \<not> w_live (sessions r sid) \<and> w_tracker (sessions r sid) = None \<and> w_submitted (sessions r sid) = []
      \<and> w_log (sessions r sid) = []) \<Longrightarrow> reg_reachable T U r"
| reg_next: "reg_reachable T U r \<Longrightarrow> reg_step T U r r' \<Longrightarrow> reg_reachable T U r'"

lemma reg_reachable_ok: "reg_reachable T U r \<Longrightarrow> registry_ok r"
proof (induction rule: reg_reachable.induct)
  case (reg_start r)
  then show ?case by (simp add: registry_ok_def session_ok_def queues_ok_def)
next
  case (reg_next r r')
  then show ?case by (blast intro: reg_step_ok)
qed

section \<open>Properties\<close>

text \<open>
  C17. The emulator sees the filtered stream, whatever the chunks: when the queued operations of
  a live session have run, the bytes written to its terminal are what the byte filter makes of
  the concatenation of the queued chunks, in order, and the queue is empty. Block marks queued
  between writes do not disturb the stream.\<close>

theorem terminal_sees_filtered_stream:
  assumes "terminals r sid = Some t" "terminalOps r sid = ops"
  shows "let r' = run_all T U now sid (length ops) r; out = push (syncFilter t) (concat (map op_bytes ops)) in
     terminalOps r' sid = [] \<and> map_option syncFilter (terminals r' sid) = Some (fst out)
     \<and> term_stream sid (outputs r') = term_stream sid (outputs r) @ snd out"
  using run_all_stream [OF assms, of T U now] by (auto simp: Let_def)

text \<open>
  C18. Gates may be armed in any order, each for one session or for all. While one of them is closed,
  nothing that the emulator of any session emits, typed text and device reports alike, changes the
  registry or reaches a shell; once every deadline has passed, text without the characters of a
  device report is handed to the session's handler unchanged, and what looks like a device report
  is still dropped.\<close>

theorem input_gate_is_exact:
  "let g = fold arm_gate arms r in
     ((\<exists>(who, now, ms) \<in> set arms. now \<le> t \<and> t < now + ms) \<longrightarrow> onData sid t data g = g)
     \<and> (globalInputSuppressedUntil r \<le> t \<and> until_of sid r \<le> t \<and> (\<forall>(who, now, ms) \<in> set arms. now + ms \<le> t) \<longrightarrow>
          (inputHandlers r sid \<noteq> None \<and> data \<noteq> [] \<and> (\<forall>c \<in> set data. c \<notin> {27, 7, 63, 62, 59}) \<longrightarrow>
             onData sid t data g = emit_out (OnInput sid data) g)
          \<and> (looksLikeDeviceReport data \<longrightarrow> onData sid t data g = g))"
proof -
  let ?g = "fold arm_gate arms r"
  have closed: "inputIsSuppressed sid t ?g" if "\<exists>(who, now, ms) \<in> set arms. now \<le> t \<and> t < now + ms"
    using that gates_close by fast
  have opened: "\<not> inputIsSuppressed sid t ?g"
    if "globalInputSuppressedUntil r \<le> t" "until_of sid r \<le> t" "\<forall>(who, now, ms) \<in> set arms. now + ms \<le> t"
    by (rule gates_reopen [OF _ that(3)]) (use that(1,2) in \<open>simp add: inputIsSuppressed_def\<close>)
  have plain: "stripDeviceReports data = data \<and> \<not> looksLikeDeviceReport data"
    if "\<forall>c \<in> set data. c \<notin> {27, 7, 63, 62, 59}" "data \<noteq> []"
  proof -
    have "\<forall>c \<in> set data. c \<notin> {7, 27, 59, 62, 63}" using that(1) by auto
    then have "stripDeviceReports data = data" by (rule stripDeviceReports_id)
    with that(2) show ?thesis by (simp add: looksLikeDeviceReport_def)
  qed
  show ?thesis unfolding Let_def
  proof (intro conjI impI, goal_cases)
    case 1
    then show ?case using closed by (simp add: onData_def)
  next
    case 2
    then show ?case using opened plain by (auto simp: onData_def callback_def gates_handlers)
  next
    case 3
    then show ?case by (simp add: onData_def)
  qed
qed

text \<open>A registry without terminals, over the sample emulator, which parses no sequence.\<close>

definition sample_term :: "nat xterm_term" where
  "sample_term = xterm_api.extend sample_xterm
     \<lparr>x_parse = (\<lambda>bs x. (x, None)), x_clear = id, x_viewportY = (\<lambda>_. 0), x_scrollToBottom = id,
      x_getSelection = (\<lambda>_. []), x_serialize = (\<lambda>_ _. None), x_new = 0\<rparr>"

definition sample_url :: url_api where
  "sample_url = \<lparr>url_pathname = (\<lambda>_. None), decodeURIComponent = Some\<rparr>"

definition empty_registry :: "nat registry" where
  "empty_registry = \<lparr>terminals = (\<lambda>_. None), sessions = (\<lambda>_. sample_world\<lparr>w_live := False\<rparr>), terminalOps = (\<lambda>_. []), detachedOps = (\<lambda>_. []),
     lastSelections = (\<lambda>_. None), inputSuppressedUntil = (\<lambda>_. None), globalInputSuppressedUntil = 0,
     inputHandlers = (\<lambda>_. None), created = 0, outputs = []\<rparr>"

theorem input_gate_is_exact_witness:
  "let r = createTerminal sample_term [1] 7 empty_registry;
       g = suppressAllTerminalUserInput 100 400 (suppressTerminalUserInput [2] 100 50 r)
   in onData [1] 150 (js ''ls'') g = g \<and> onData [1] 150 [27, 91, 63, 54, 99] g = g
     \<and> onData [1] 500 (js ''ls'') g = emit_out (OnInput [1] (js ''ls'')) g"
proof -
  let ?r = "createTerminal sample_term [1] 7 empty_registry"
  have h: "inputHandlers ?r [1] \<noteq> None" "\<forall>c \<in> set (js ''ls''). c \<notin> {27, 7, 63, 62, 59}" "js ''ls'' \<noteq> []"
    "globalInputSuppressedUntil ?r = 0" "until_of [1] ?r = 0"
    by (simp_all add: createTerminal_def empty_registry_def until_of_def js_def Let_def)
  have a: "fold arm_gate [(Some [2], 100, 50), (None, 100, 400)] ?r
      = suppressAllTerminalUserInput 100 400 (suppressTerminalUserInput [2] 100 50 ?r)"
    by (simp add: arm_gate_def)
  show ?thesis
    using input_gate_is_exact [where arms = "[(Some [2], 100, 50), (None, 100, 400)]" and r = ?r and t = 150 and sid = "[1]" and data = "js ''ls''"]
      input_gate_is_exact [where arms = "[(Some [2], 100, 50), (None, 100, 400)]" and r = ?r and t = 150 and sid = "[1]" and data = "[27, 91, 63, 54, 99]"]
      input_gate_is_exact [where arms = "[(Some [2], 100, 50), (None, 100, 400)]" and r = ?r and t = 500 and sid = "[1]" and data = "js ''ls''"] h
    unfolding a Let_def by simp
qed

theorem terminal_sees_filtered_stream_witness:
  "let r = scheduleFlushBlockPhases [1] (writeTerminal [1] [104, 105] (createTerminal sample_term [1] 7 empty_registry))
   in term_stream [1] (outputs (run_all sample_term sample_url 5 [1] 2 r)) = [104, 105]"
proof -
  let ?r = "scheduleFlushBlockPhases [1] (writeTerminal [1] [104, 105] (createTerminal sample_term [1] 7 empty_registry))"
  have o1: "terminalOps ?r [1] = [WriteOp [104, 105], FlushOp]" "outputs ?r = []"
    "\<exists>t. terminals ?r [1] = Some t \<and> syncFilter t = fresh_filter"
    by (simp_all add: scheduleFlushBlockPhases_def writeTerminal_def enqueueTerminalOp_def scheduleAttachSweep_def
        createTerminal_def empty_registry_def fresh_record_def Let_def)
  then obtain t where t: "terminals ?r [1] = Some t" "syncFilter t = fresh_filter" by blast
  have "push fresh_filter [104, 105] = (fresh_filter, [104, 105])" by (simp add: push_eq_loop step_def fresh_filter_def)
  with terminal_sees_filtered_stream [OF t(1) o1(1), of sample_term sample_url 5] o1(2) t(2) show ?thesis
    by (simp add: Let_def numeral_2_eq_2)
qed

lemma concat_update_length:
  "i < length xs \<Longrightarrow> length (concat (xs[i := ys])) + length (xs ! i) = length (concat xs) + length ys"
  by (induction xs arbitrary: i) (auto simp: nth_Cons split: nat.split)

lemma disposeBlockTracker_rest:
  "w_submitted (disposeBlockTracker T w) = w_submitted w" "w_log (disposeBlockTracker T w) = w_log w"
proof -
  have "w_submitted (fold (disposeFinished T) bs w) = w_submitted w \<and> w_log (fold (disposeFinished T) bs w) = w_log w" for bs w
    by (induction bs arbitrary: w) (simp_all add: disposeFinished_def dispose_def)
  then show "w_submitted (disposeBlockTracker T w) = w_submitted w" "w_log (disposeBlockTracker T w) = w_log w"
    by (simp_all add: disposeBlockTracker_def Let_def dispose_opt_def dispose_def split: option.split)
qed

text \<open>
  C19. Disposing a session that has a terminal, in every reachable state: its record with the timers,
  its handlers, remembered selection, input gate, queue and block tracker are gone, the other
  sessions are as they were, and what is left running for it, input events, timers and the operations
  of the detached queue, changes nothing (the queue only gets shorter) until a terminal is created
  for it again. What is not removed is the list of submitted commands and the phase log. A session
  without a terminal is left as it is.\<close>

theorem disposed_session_is_silent:
  assumes "reg_reachable T U r"
  shows "let r' = disposeTerminal T sid r in
     (terminals r sid = None \<longrightarrow> r' = r)
     \<and> (terminals r sid \<noteq> None \<longrightarrow> inputSuppressedUntil r' sid = None \<and> w_tracker (sessions r' sid) = None
          \<and> terminalOps r' sid = [] \<and> detachedOps r' sid = terminalOps r sid # detachedOps r sid)
     \<and> terminals r' sid = None \<and> inputHandlers r' sid = None \<and> lastSelections r' sid = None \<and> \<not> w_live (sessions r' sid)
     \<and> w_submitted (sessions r' sid) = w_submitted (sessions r sid) \<and> w_log (sessions r' sid) = w_log (sessions r sid)
     \<and> (s \<noteq> sid \<longrightarrow> terminals r' s = terminals r s \<and> sessions r' s = sessions r s \<and> terminalOps r' s = terminalOps r s
          \<and> inputHandlers r' s = inputHandlers r s \<and> inputSuppressedUntil r' s = inputSuppressedUntil r s
          \<and> lastSelections r' s = lastSelections r s)
     \<and> onData sid now data r' = r' \<and> resize_fires sid r' = r' \<and> sweep_fires T U sid r' = r'
     \<and> (\<exists>q. run_detached T U now sid i r' = r'\<lparr>detachedOps := (detachedOps r')(sid := q)\<rparr>
          \<and> length (concat q) = length (concat (detachedOps r' sid))
               - (if i < length (detachedOps r' sid) \<and> detachedOps r' sid ! i \<noteq> [] then 1 else 0))"
proof -
  let ?d = "disposeTerminal T sid r"
  have r: "registry_ok r" by (rule reg_reachable_ok [OF assms])
  have d: "registry_ok ?d" by (rule disposeTerminal_ok [OF r])
  have t: "terminals ?d sid = None" by (simp add: disposeTerminal_def Let_def)
  with d have off: "inputHandlers ?d sid = None" "lastSelections ?d sid = None" "\<not> w_live (sessions ?d sid)"
    by (auto simp: registry_ok_def)
  have gone: "terminals r sid \<noteq> None \<Longrightarrow> inputSuppressedUntil ?d sid = None \<and> w_tracker (sessions ?d sid) = None
      \<and> terminalOps ?d sid = [] \<and> detachedOps ?d sid = terminalOps r sid # detachedOps r sid"
    by (auto simp: disposeTerminal_def Let_def disposeBlockTracker_keeps(2) upd_session_def)
  have kept: "w_submitted (sessions ?d sid) = w_submitted (sessions r sid)" "w_log (sessions ?d sid) = w_log (sessions r sid)"
    by (simp_all add: disposeTerminal_def Let_def disposeBlockTracker_rest)
  have op: "run_op T U now sid op q = q" if "terminals q sid = None" for op q
    using that by (simp add: run_op_def split: term_op.split)
  have "\<exists>q. run_detached T U now sid i ?d = ?d\<lparr>detachedOps := (detachedOps ?d)(sid := q)\<rparr>
      \<and> length (concat q) = length (concat (detachedOps ?d sid))
          - (if i < length (detachedOps ?d sid) \<and> detachedOps ?d sid ! i \<noteq> [] then 1 else 0)"
  proof (cases "i < length (detachedOps ?d sid) \<and> detachedOps ?d sid ! i \<noteq> []")
    case True
    then obtain o1 rest where o: "detachedOps ?d sid ! i = o1 # rest" by (meson neq_Nil_conv)
    have "length (concat ((detachedOps ?d sid)[i := rest])) = length (concat (detachedOps ?d sid)) - 1"
      using concat_update_length [of i "detachedOps ?d sid" rest] True o by simp
    with True o t show ?thesis by (auto simp: run_detached_def op)
  next
    case False
    then have "run_detached T U now sid i ?d = ?d\<lparr>detachedOps := (detachedOps ?d)(sid := detachedOps ?d sid)\<rparr>"
      by (auto simp: run_detached_def split: list.split)
    then have "run_detached T U now sid i ?d = ?d\<lparr>detachedOps := (detachedOps ?d)(sid := detachedOps ?d sid)\<rparr>
      \<and> length (concat (detachedOps ?d sid)) = length (concat (detachedOps ?d sid))
          - (if i < length (detachedOps ?d sid) \<and> detachedOps ?d sid ! i \<noteq> [] then 1 else 0)"
      using False by (simp only: if_not_P [OF False]) simp
    then show ?thesis by blast
  qed
  with t off gone kept show ?thesis
    unfolding Let_def
    by (auto simp: onData_def callback_def resize_fires_def sweep_fires_def disposeTerminal_def upd_session_def Let_def)
qed

theorem disposed_session_is_silent_witness:
  "let r = disposeTerminal sample_term [1] (createTerminal sample_term [1] 7 empty_registry)
   in \<not> hasTerminal [1] r \<and> onData [1] 9 (js ''ls'') r = r"
proof -
  have "reg_reachable sample_term sample_url empty_registry"
    by (rule reg_start) (simp add: empty_registry_def sample_world_def)
  then have "reg_reachable sample_term sample_url (createTerminal sample_term [1] 7 empty_registry)"
    by (rule reg_next) (rule reg_step.intros)
  from disposed_session_is_silent [OF this, where sid = "[1]" and now = 9 and data = "js ''ls''"] show ?thesis
    by (simp add: Let_def hasTerminal_def)
qed

end
