(* ===== verification/Overlay.thy ===== *)
theory Overlay
  imports Blocks
begin

text \<open>
  The block overlay (\<^verbatim>\<open>terminal/blockOverlay.ts\<close>): which rows of the viewport are covered by the
  header of which block, and which raw prompt rows are blanked. The module has its own, looser
  copies of the prompt heuristics. Covers are opaque, so what matters is that no row is used
  twice and that no row is covered that does not look like a prompt.

  The DOM elements themselves are not modelled: \<open>syncBlockOverlay\<close> yields the list of what is
  drawn. Row geometry (\<^verbatim>\<open>lineRect\<close>) is a parameter: it is \<open>None\<close> for a row that cannot be placed.
\<close>

section \<open>Prompt heuristics of the overlay\<close>

definition strict_glyph :: re where
  [js_eval]: "strict_glyph = CC (\<lambda>c. c \<in> set [36, 35, 37, 10095])"

text \<open>\<^verbatim>\<open>r{0,n}\<close> is \<open>rep_upto n r\<close>.\<close>

definition not_lf :: re where
  [js_eval]: "not_lf = CC (\<lambda>c. c \<noteq> 10)"

definition STRICT_USERHOST :: re where
  [js_eval]: "STRICT_USERHOST = seqs (user_at_host @ [rep_upto 60 not_lf, strict_glyph, Alt ws Eol])"

definition STRICT_HOME :: re where
  [js_eval]: "STRICT_HOME = seqs (Bol # home_path @ [Star ws, ropt (CC (\<lambda>c. c \<in> set [36, 35, 37, 10095, 62])), Star ws, Eol])"

definition STRICT_HOME_CMD :: re where
  [js_eval]: "STRICT_HOME_CMD = seqs (Bol # home_path @ [rplus ws, strict_glyph, rplus ws, non_ws, rep_upto 160 not_lf, Eol])"

definition strictPromptRow :: "jsstr \<Rightarrow> bool" where
  "strictPromptRow raw =
     (let t = trimEnd raw in
      if t = [] then False
      else if re_test CLASSIC_ROW t then True
      else if re_test STRICT_USERHOST t then True
      else let line = stripOrnaments t in
        if re_test STRICT_HOME line then True
        else if re_test STRICT_HOME_CMD line then True
        else False)"

definition STRIP_GLYPH :: re where
  [js_eval]: "STRIP_GLYPH = seqs [Bol, LStar (CC is_dot), glyph, ropt (chr 32)]"

definition stripPs1Local :: "jsstr \<Rightarrow> jsstr" where
  "stripPs1Local raw =
     (let line = stripOrnaments (stripOrnaments raw) in
      case re_group 1 CLASSIC_CMD line of
        Some cmd \<Rightarrow> trim cmd
      | None \<Rightarrow>
      case re_group 1 USERHOST_CMD line of
        Some cmd \<Rightarrow> trim cmd
      | None \<Rightarrow>
          if re_test glyph (take 80 line) then
            (let line = replace_first STRIP_GLYPH [] (take 80 line) @ drop 80 line in
             case re_group 1 PATH_PREF line of Some cmd \<Rightarrow> trim cmd | None \<Rightarrow> trim line)
          else case re_group 1 PATH_PREF line of
            Some cmd \<Rightarrow> trim cmd
          | None \<Rightarrow> (case re_group 1 HOME_CMD raw of Some cmd \<Rightarrow> trim cmd | None \<Rightarrow> trim line))"

definition HOME_AND_BLANK :: re where
  [js_eval]: "HOME_AND_BLANK = seqs (Bol # home_path @ [rplus ws])"

definition lineLooksLikePrompt :: "jsstr \<Rightarrow> bool" where
  "lineLooksLikePrompt raw =
     (let t = trimEnd raw in
      if t = [] then False
      else if re_test CLASSIC_ROW t then True
      else if re_test USERHOST_ROW t then True
      else let line = stripOrnaments t in
        if re_test HOME_ONLY (trim line) then True
        else if re_test HOME_AND_BLANK line \<and> re_test glyph (take 80 t) then True
        else if re_test HOME_AND_WORD line \<and> length (split_ws line) \<le> 6 then True
        else if re_test glyph (take 80 t) \<and> length t < 200 then True
        else False)"

section \<open>Choosing the cover row\<close>

text \<open>The viewport as the module reads it.\<close>

record viewport =
  v_start :: int
  v_rows :: int
  v_cursor :: int
  v_row :: "int \<Rightarrow> jsstr"

definition v_end :: "viewport \<Rightarrow> int" where
  "v_end v = v_start v + v_rows v - 1"

definition tryTake :: "viewport \<Rightarrow> int \<Rightarrow> int list \<Rightarrow> int option \<times> int list" where
  "tryTake v y used =
     (if y < v_start v \<or> y > v_end v then (None, used)
      else if y \<in> set used then (None, used)
      else (Some y, y # used))"

text \<open>The first element of a list sorted by distance: \<^verbatim>\<open>sort\<close> is stable.\<close>

fun nearest :: "int \<Rightarrow> (int \<times> jsstr) list \<Rightarrow> int option" where
  "nearest prefer [] = None"
| "nearest prefer ((y, c) # rs) =
     (case nearest prefer rs of None \<Rightarrow> Some y
      | Some z \<Rightarrow> if \<bar>y - prefer\<bar> \<le> \<bar>z - prefer\<bar> then Some y else Some z)"

definition shows_command :: "jsstr \<Rightarrow> jsstr \<Rightarrow> bool" where
  "shows_command cmd text \<longleftrightarrow> text = cmd \<or> startsWith text (cmd @ js '' '')"

text \<open>Steps 3 and 4 of the choice, on the rows they try in turn.\<close>

fun try_active :: "viewport \<Rightarrow> jsstr \<Rightarrow> int list \<Rightarrow> int list \<Rightarrow> int option \<times> int list" where
  "try_active v cmd [] used = (None, used)"
| "try_active v cmd (y # ys) used =
     (if lineLooksLikePrompt (v_row v y) \<and> includes_str (v_row v y) cmd
      then (case tryTake v y used of (Some z, used') \<Rightarrow> (Some z, used') | (None, used') \<Rightarrow> try_active v cmd ys used')
      else try_active v cmd ys used)"

fun try_marker :: "viewport \<Rightarrow> bool \<Rightarrow> jsstr \<Rightarrow> int list \<Rightarrow> int list \<Rightarrow> int option \<times> int list" where
  "try_marker v isActive cmd [] used = (None, used)"
| "try_marker v isActive cmd (y # ys) used =
     (if y < v_start v \<or> y > v_end v \<or> y \<in> set used then try_marker v isActive cmd ys used
      else if \<not> isActive \<and> y = v_cursor v then try_marker v isActive cmd ys used
      else if \<not> lineLooksLikePrompt (v_row v y) then try_marker v isActive cmd ys used
      else if shows_command cmd (trim (stripPs1Local (v_row v y))) then tryTake v y used
      else try_marker v isActive cmd ys used)"

definition command_matches ::
  "viewport \<Rightarrow> bool \<Rightarrow> jsstr \<Rightarrow> bool \<Rightarrow> int list \<Rightarrow> (int \<times> jsstr) list \<Rightarrow> (int \<times> jsstr) list" where
  "command_matches v isActive cmd running used promptRows =
     (if cmd \<noteq> [] \<and> (isActive \<or> \<not> running)
      then filter (\<lambda>(y, c). y \<notin> set used \<and> (isActive \<or> y \<noteq> v_cursor v) \<and> shows_command cmd c) promptRows
      else [])"

definition pickExclusiveCoverLine ::
  "viewport \<Rightarrow> chrome_entry \<Rightarrow> chrome_snapshot \<Rightarrow> (int \<times> jsstr) list \<Rightarrow> int list \<Rightarrow> int option \<times> int list" where
  "pickExclusiveCoverLine v block sn promptRows used =
     (let isActive = (e_kind block = ActiveKind) in
      if isActive \<and> s_uncoverLivePrompt sn then (None, used)
      else
        let cmd = trim (e_commandText block)
        in case nearest (e_promptLine block) (command_matches v isActive cmd (s_running sn) used promptRows) of
             Some y \<Rightarrow> tryTake v y used
           | None \<Rightarrow>
               if isActive \<and> cmd = [] then
                 (case tryTake v (e_commandLine block) used of
                    (Some y, used') \<Rightarrow> (Some y, used')
                  | (None, used') \<Rightarrow> tryTake v (e_promptLine block) used')
               else
                 (case (if isActive then try_active v cmd [e_commandLine block, e_promptLine block] used else (None, used)) of
                    (Some y, used') \<Rightarrow> (Some y, used')
                  | (None, used') \<Rightarrow>
                      if cmd \<noteq> [] then try_marker v isActive cmd [e_commandLine block, e_promptLine block] used'
                      else (None, used')))"

section \<open>One synchronisation\<close>

text \<open>What is drawn: the cover of a block (\<open>None\<close> when it gets no chrome) and the blanked rows.\<close>

record painting =
  covers :: "(jsstr \<times> int option) list"
  blanks :: "int list"

fun assign_covers ::
  "viewport \<Rightarrow> chrome_snapshot \<Rightarrow> (int \<times> jsstr) list \<Rightarrow> chrome_entry list \<Rightarrow> int list \<Rightarrow> (jsstr \<times> int option) list \<times> int list" where
  "assign_covers v sn prs [] used = ([], used)"
| "assign_covers v sn prs (b # bs) used =
     (let (c, used) = pickExclusiveCoverLine v b sn prs used;
          (cs, used) = assign_covers v sn prs bs used
      in ((e_id b, c) # cs, used))"

definition prompt_rows :: "viewport \<Rightarrow> (int \<times> jsstr) list" where
  "prompt_rows v =
     map (\<lambda>y. (y, trim (stripPs1Local (v_row v y))))
       (filter (\<lambda>y. trim (v_row v y) \<noteq> [] \<and> lineLooksLikePrompt (v_row v y)) [v_start v..v_end v])"

definition blank_rows :: "viewport \<Rightarrow> (int \<Rightarrow> bool) \<Rightarrow> int list \<Rightarrow> int list" where
  "blank_rows v placed used =
     filter (\<lambda>y. y \<notin> set used \<and> trim (v_row v y) \<noteq> [] \<and> strictPromptRow (v_row v y) \<and> placed y) [v_start v..v_end v]"

definition syncBlockOverlay :: "viewport \<Rightarrow> (int \<Rightarrow> bool) \<Rightarrow> bool \<Rightarrow> chrome_snapshot option \<Rightarrow> painting" where
  "syncBlockOverlay v placed screenApp snap =
     (case snap of None \<Rightarrow> \<lparr>covers = [], blanks = []\<rparr>
      | Some sn \<Rightarrow>
          if screenApp then \<lparr>covers = [], blanks = []\<rparr>
          else let (cs, used) = assign_covers v sn (prompt_rows v) (s_blocks sn) [] in
            \<lparr>covers = cs,
             blanks = (if list_ex (\<lambda>b. e_kind b = ActiveKind) (s_blocks sn) \<and> \<not> s_running sn \<and> \<not> s_uncoverLivePrompt sn
                       then blank_rows v placed used else [])\<rparr>)"

definition lastContentLine :: "viewport \<Rightarrow> int \<Rightarrow> int \<Rightarrow> int" where
  "lastContentLine v promptLine endLine =
     (case List.find (\<lambda>y. trim (v_row v y) \<noteq> []) (rev [promptLine..endLine]) of Some y \<Rightarrow> y | None \<Rightarrow> endLine)"

section \<open>Exclusivity\<close>

text \<open>A pick takes at most one row, of the viewport, that was free, and marks it.\<close>

definition takes :: "viewport \<Rightarrow> int list \<Rightarrow> int option \<times> int list \<Rightarrow> bool" where
  "takes v used res = (case res of (None, u) \<Rightarrow> u = used
     | (Some y, u) \<Rightarrow> u = y # used \<and> y \<notin> set used \<and> v_start v \<le> y \<and> y \<le> v_end v)"

lemma tryTake_takes: "takes v used (tryTake v y used)"
  by (simp add: takes_def tryTake_def)

lemma try_active_takes: "takes v used (try_active v cmd ys used)"
  by (induction v cmd ys used rule: try_active.induct) (auto simp: takes_def tryTake_def split: option.splits)

lemma try_marker_takes: "takes v used (try_marker v a cmd ys used)"
  by (induction v a cmd ys used rule: try_marker.induct) (auto simp: takes_def tryTake_def split: option.splits)

lemma takes_none: "takes v used (None, used)"
  by (simp add: takes_def)

lemma takes_or_else:
  assumes "takes v used r" "takes v used (f used)"
  shows "takes v used (case r of (Some y, u) \<Rightarrow> (Some y, u) | (None, u) \<Rightarrow> f u)"
proof (cases r)
  case (Pair c u)
  with assms show ?thesis by (cases c) (simp_all add: takes_def [of v used "(None, u)"])
qed

lemma pick_takes: "takes v used (pickExclusiveCoverLine v b sn prs used)"
proof -
  have s4: "takes v used (if c \<noteq> [] then try_marker v a c ys used else (None, used))" for a c ys
    by (simp add: takes_none try_marker_takes)
  have s3: "takes v used (if a then try_active v c ys used else (None, used))" for a c ys
    by (simp add: takes_none try_active_takes)
  show ?thesis
    unfolding pickExclusiveCoverLine_def Let_def
    by (simp only: split: if_split option.split) (intro conjI impI allI takes_none tryTake_takes takes_or_else s3 s4 try_active_takes try_marker_takes)
qed

text \<open>So the covers of one synchronisation are pairwise different rows of the viewport.\<close>

definition covered :: "(jsstr \<times> int option) list \<Rightarrow> int list" where
  "covered cs = List.map_filter snd cs"

lemma covered_Cons [simp]: "covered ((i, c) # cs) = (case c of None \<Rightarrow> covered cs | Some y \<Rightarrow> y # covered cs)"
  by (simp add: covered_def map_filter_simps split: option.split)

lemma covered_Nil [simp]: "covered [] = []"
  by (simp add: covered_def map_filter_simps)

lemma assign_covers_exclusive:
  assumes "distinct used"
  shows "let (cs, u) = assign_covers v sn prs bs used in
     distinct u \<and> set u = set used \<union> set (covered cs) \<and> distinct (covered cs) \<and> set (covered cs) \<inter> set used = {}
     \<and> (\<forall>y \<in> set (covered cs). v_start v \<le> y \<and> y \<le> v_end v) \<and> map fst cs = map e_id bs"
  using assms
proof (induction bs arbitrary: used)
  case (Cons b bs)
  obtain c u1 where p: "pickExclusiveCoverLine v b sn prs used = (c, u1)" by (cases "pickExclusiveCoverLine v b sn prs used")
  obtain cs u where a: "assign_covers v sn prs bs u1 = (cs, u)" by (cases "assign_covers v sn prs bs u1")
  have t: "takes v used (c, u1)" using pick_takes p by metis
  then have "distinct u1" using Cons.prems by (cases c) (auto simp: takes_def)
  from Cons.IH [OF this] a t p show ?case
    by (cases c) (auto simp: takes_def)
qed simp

section \<open>What may be covered\<close>

text \<open>A finished block is only drawn over a row that looks like a prompt and shows its command.\<close>

lemma nearest_in: "nearest p rs = Some y \<Longrightarrow> \<exists>c. (y, c) \<in> set rs"
  by (induction p rs arbitrary: y rule: nearest.induct) (auto split: option.splits if_splits)

lemma tryTake_row: "tryTake v y used = (Some z, u) \<Longrightarrow> z = y"
  by (auto simp: tryTake_def split: if_splits)

lemma try_marker_row:
  "try_marker v a cmd ys used = (Some z, u) \<Longrightarrow>
     lineLooksLikePrompt (v_row v z) \<and> shows_command cmd (trim (stripPs1Local (v_row v z))) \<and> (a \<or> z \<noteq> v_cursor v)"
  by (induction v a cmd ys used rule: try_marker.induct) (auto split: if_splits dest: tryTake_row)

lemma finished_cover_row:
  assumes "pickExclusiveCoverLine v b sn (prompt_rows v) used = (Some y, u)" "e_kind b \<noteq> ActiveKind"
  shows "lineLooksLikePrompt (v_row v y) \<and> shows_command (trim (e_commandText b)) (trim (stripPs1Local (v_row v y)))
    \<and> y \<noteq> v_cursor v"
proof (cases "nearest (e_promptLine b) (command_matches v False (trim (e_commandText b)) (s_running sn) used (prompt_rows v))")
  case None
  with assms have "try_marker v False (trim (e_commandText b)) [e_commandLine b, e_promptLine b] used = (Some y, u)"
    by (simp add: pickExclusiveCoverLine_def Let_def del: try_marker.simps split: if_splits)
  from try_marker_row [OF this] show ?thesis by simp
next
  case (Some z)
  with assms have "tryTake v z used = (Some y, u)" by (simp add: pickExclusiveCoverLine_def Let_def)
  then have "y = z" by (rule tryTake_row)
  moreover obtain c where "(z, c) \<in> set (command_matches v False (trim (e_commandText b)) (s_running sn) used (prompt_rows v))"
    using nearest_in [OF Some] by blast
  ultimately show ?thesis by (auto simp: command_matches_def prompt_rows_def split: if_splits)
qed

lemma assign_covers_ids: "map fst (fst (assign_covers v sn prs bs used)) = map e_id bs"
  by (induction bs arbitrary: used) (auto simp: case_prod_beta)

lemma covers_row:
  assumes "assign_covers v sn (prompt_rows v) bs used = (cs, u)" "b \<in> set bs" "e_kind b \<noteq> ActiveKind"
    "distinct (map e_id bs)" "(e_id b, Some y) \<in> set cs"
  shows "lineLooksLikePrompt (v_row v y) \<and> shows_command (trim (e_commandText b)) (trim (stripPs1Local (v_row v y)))
    \<and> y \<noteq> v_cursor v"
  using assms
proof (induction bs arbitrary: used cs u)
  case (Cons a bs)
  obtain c u1 where p: "pickExclusiveCoverLine v a sn (prompt_rows v) used = (c, u1)"
    by (cases "pickExclusiveCoverLine v a sn (prompt_rows v) used")
  obtain ds u2 where d: "assign_covers v sn (prompt_rows v) bs u1 = (ds, u2)"
    by (cases "assign_covers v sn (prompt_rows v) bs u1")
  have cs: "cs = (e_id a, c) # ds" using Cons.prems(1) p d by simp
  have "map fst ds = map e_id bs" using assign_covers_ids [of v sn "prompt_rows v" bs u1] d by simp
  then have ids: "fst ` set ds = e_id ` set bs" by (metis set_map)
  show ?case
  proof (cases "a = b")
    case True
    have "e_id a \<notin> fst ` set ds" using Cons.prems(4) ids by simp
    with True have "(e_id b, Some y) \<notin> set ds" by (metis fst_conv image_eqI)
    with Cons.prems(5) cs True have "c = Some y" by simp
    with p True show ?thesis using finished_cover_row [OF _ Cons.prems(3)] by blast
  next
    case False
    then have "b \<in> set bs" "e_id a \<noteq> e_id b" using Cons.prems(2,4) by auto
    then show ?thesis using Cons.IH [OF d _ Cons.prems(3)] Cons.prems(4,5) cs by auto
  qed
qed simp

section \<open>Finding a match\<close>

lemma rm_SeqI: "m \<in> set (rm a s) \<Longrightarrow> t \<in> set (rm b m) \<Longrightarrow> t \<in> set (rm (Seq a b) s)"
  by auto

lemma rm_rplus_run:
  assumes "list_all p u" "u \<noteq> []"
  shows "(i + length u, r, cs) \<in> set (rm (rplus (CC p)) (i, u @ r, cs))"
proof -
  obtain c v where u: "u = c # v" "p c" "list_all p v" using assms by (cases u) auto
  have "length v \<le> length (takeWhile p (v @ r))" using u(3) by (simp add: list_all_iff takeWhile_append)
  then have "(Suc i + length v, drop (length v) (v @ r), cs) \<in> set (rm (Star (CC p)) (Suc i, v @ r, cs))"
    unfolding set_rm_Star_CC by blast
  then show ?thesis using u by (simp add: rplus_def)
qed

lemma rm_rep_upto_run:
  "length u \<le> n \<Longrightarrow> list_all p u \<Longrightarrow> (i + length u, r, cs) \<in> set (rm (rep_upto n (CC p)) (i, u @ r, cs))"
proof (induction n arbitrary: i u)
  case (Suc n)
  show ?case
  proof (cases u)
    case Nil
    then show ?thesis by simp
  next
    case (Cons c v)
    with Suc.prems Suc.IH [of v "Suc i"] show ?thesis by simp
  qed
qed simp

section \<open>Properties\<close>

text \<open>
  C20. No row is drawn over twice: in one synchronisation every block is considered once, the rows
  covered by headers are pairwise different rows of the viewport, and a blanked row is none of
  them and has an unmistakable prompt shape. Nothing at all is drawn while a full-screen program
  owns the session.\<close>

theorem overlay_rows_exclusive:
  "let p = syncBlockOverlay v placed screenApp (Some sn) in
     distinct (covered (covers p) @ blanks p)
     \<and> (\<forall>y \<in> set (covered (covers p) @ blanks p). v_start v \<le> y \<and> y \<le> v_end v)
     \<and> (\<forall>y \<in> set (blanks p). strictPromptRow (v_row v y))
     \<and> map fst (covers p) = (if screenApp then [] else map e_id (s_blocks sn))
     \<and> (screenApp \<longrightarrow> p = \<lparr>covers = [], blanks = []\<rparr>)"
proof -
  obtain cs u where a: "assign_covers v sn (prompt_rows v) (s_blocks sn) [] = (cs, u)"
    by (cases "assign_covers v sn (prompt_rows v) (s_blocks sn) []")
  have c: "set u = set (covered cs)" "distinct (covered cs)" "\<forall>y \<in> set (covered cs). v_start v \<le> y \<and> y \<le> v_end v"
    "map fst cs = map e_id (s_blocks sn)"
    using assign_covers_exclusive [of "[]" v sn "prompt_rows v" "s_blocks sn"] a by simp_all
  have b: "distinct (blank_rows v placed u)" "set (blank_rows v placed u) \<inter> set u = {}"
    "\<forall>y \<in> set (blank_rows v placed u). v_start v \<le> y \<and> y \<le> v_end v \<and> strictPromptRow (v_row v y)"
    by (auto simp: blank_rows_def)
  show ?thesis using a b c by (auto simp: syncBlockOverlay_def Let_def)
qed

text \<open>Two rows: a prompt with the command \<^verbatim>\<open>ls\<close>, and the cursor's row below it.\<close>

definition sample_view :: viewport where
  "sample_view = \<lparr>v_start = 0, v_rows = 2, v_cursor = 1,
     v_row = (\<lambda>y. if y = 0 then classic_prompt (js ''root'') (js ''h'') (js ''~'') 35 (js ''ls'') else [])\<rparr>"

definition sample_entry :: chrome_entry where
  "sample_entry = \<lparr>e_id = js ''block-1'', e_kind = OkKind, e_composing = False, e_promptLine = 0, e_commandLine = 0,
     e_endLine = 1, e_commandText = js ''ls'', e_outputText = [], e_exitCode = Some 0,
     e_meta = \<lparr>m_cwd = None, m_gitBranch = None, m_startedAt = 0, m_endedAt = None\<rparr>, e_lineCount = 2\<rparr>"

definition sample_snapshot :: chrome_snapshot where
  "sample_snapshot = \<lparr>s_blocks = [sample_entry], s_context = empty_context, s_onRerun = None,
     s_uncoverLivePrompt = False, s_running = False\<rparr>"

lemma sample_prompt_row:
  "prompt_rows sample_view = [(0, js ''ls'')]"
proof -
  let ?s = "classic_prompt (js ''root'') (js ''h'') (js ''~'') 35 (js ''ls'')"
  have ok: "prompt_parts_ok (js ''root'') (js ''h'') (js ''~'') 35" "list_all is_dot (js ''ls'')"
    by (simp_all add: prompt_parts_ok_def js_eval is_host_char_def)
  have t: "trim (js ''ls'') = js ''ls''" "dropWhile is_ws (js ''ls'') = js ''ls''" "trimEnd ?s = ?s" "trim ?s \<noteq> []" "?s \<noteq> []"
    by (simp_all add: js_eval classic_prompt_def)
  have "re_test CLASSIC_ROW ?s" using classic_row [OF ok(1), of "32 # js ''ls''"] by (simp add: classic_prompt_def is_ws_def)
  then have "lineLooksLikePrompt ?s" using t(3,5) by (simp add: lineLooksLikePrompt_def)
  moreover have "stripPs1Local ?s = js ''ls''"
    using t(1,2) by (simp add: stripPs1Local_def classic_prompt_hd [OF ok(1)] classic_match [OF ok] del: One_nat_def)
  moreover have "[0..1] = [0, 1 :: int]" by (simp add: upto.simps)
  moreover have "trim [] = []" by simp
  ultimately show ?thesis using t by (simp add: prompt_rows_def sample_view_def v_end_def)
qed

lemma sample_covers: "covers (syncBlockOverlay sample_view placed False (Some sample_snapshot)) = [(js ''block-1'', Some 0)]"
proof -
  have "trim (js ''ls'') = js ''ls''" "js ''ls'' \<noteq> []" by (simp_all add: js_eval)
  then show ?thesis
    by (simp add: syncBlockOverlay_def sample_snapshot_def sample_prompt_row pickExclusiveCoverLine_def command_matches_def
        sample_entry_def shows_command_def Let_def tryTake_def)
      (simp add: sample_view_def v_end_def)
qed

theorem overlay_rows_exclusive_witness:
  "distinct (covered (covers (syncBlockOverlay sample_view (\<lambda>_. True) False (Some sample_snapshot))))
   \<and> covered (covers (syncBlockOverlay sample_view (\<lambda>_. True) False (Some sample_snapshot))) = [0]"
  using overlay_rows_exclusive [of sample_view "\<lambda>_. True" False sample_snapshot] sample_covers [of "\<lambda>_. True"]
  by (simp add: Let_def)

text \<open>
  A finished block's header is never drawn over output: with distinct block identifiers, the
  row that covers a finished block looks like a prompt, shows the block's command after its
  prompt, and is not the row of the cursor, where the user is typing.\<close>

theorem finished_header_on_its_prompt:
  assumes "b \<in> set (s_blocks sn)" "e_kind b \<noteq> ActiveKind" "distinct (map e_id (s_blocks sn))"
    "(e_id b, Some y) \<in> set (covers (syncBlockOverlay v placed screenApp (Some sn)))"
  shows "lineLooksLikePrompt (v_row v y) \<and> shows_command (trim (e_commandText b)) (trim (stripPs1Local (v_row v y)))
    \<and> y \<noteq> v_cursor v"
proof -
  obtain cs u where a: "assign_covers v sn (prompt_rows v) (s_blocks sn) [] = (cs, u)"
    by (cases "assign_covers v sn (prompt_rows v) (s_blocks sn) []")
  with assms(4) have "(e_id b, Some y) \<in> set cs" by (simp add: syncBlockOverlay_def split: if_splits)
  from covers_row [OF a assms(1-3) this] show ?thesis .
qed

theorem finished_header_on_its_prompt_witness:
  "lineLooksLikePrompt (v_row sample_view 0) \<and> 0 \<noteq> v_cursor sample_view"
proof -
  have "sample_entry \<in> set (s_blocks sample_snapshot)" "e_kind sample_entry \<noteq> ActiveKind"
    "distinct (map e_id (s_blocks sample_snapshot))"
    "(e_id sample_entry, Some 0) \<in> set (covers (syncBlockOverlay sample_view (\<lambda>_. True) False (Some sample_snapshot)))"
    unfolding sample_covers by (simp_all add: sample_snapshot_def sample_entry_def)
  from finished_header_on_its_prompt [OF this] show ?thesis by blast
qed

text \<open>
  The strict shape used for blanking also matches program output: every line that starts with
  a mail address and has a dollar, hash or percent sign followed by a blank within the next sixty
  characters counts as a prompt, so that the row is blanked; for instance a disk quota report.\<close>

theorem strict_row_matches_output:
  assumes "user \<noteq> []" "list_all is_host_char user" "host \<noteq> []" "list_all is_host_char host"
    "length mid \<le> 60" "10 \<notin> set mid" "g \<in> {35, 36, 37}" "rest \<noteq> []" "\<not> is_ws (last rest)"
  shows "strictPromptRow (user @ 64 # host @ mid @ g # 32 # rest)"
proof -
  let ?r4 = "32 # rest" let ?r3 = "g # ?r4" let ?r2 = "mid @ ?r3" let ?r1 = "host @ ?r2" let ?t = "user @ 64 # ?r1"
  have u: "(length user, 64 # ?r1, []) \<in> set (rm (rplus (CC is_host_char)) (0, ?t, []))"
    using rm_rplus_run [OF assms(2,1), of 0 "64 # ?r1" "[]"] by simp
  have h: "(Suc (length user) + length host, ?r2, []) \<in> set (rm (rplus (CC is_host_char)) (Suc (length user), ?r1, []))"
    by (rule rm_rplus_run [OF assms(4,3)])
  have m: "(Suc (length user) + length host + length mid, ?r3, []) \<in> set (rm (rep_upto 60 not_lf) (Suc (length user) + length host, ?r2, []))"
    unfolding not_lf_def using assms(5,6) by (intro rm_rep_upto_run) (auto simp: list_all_iff)
  let ?n = "Suc (Suc (length user) + length host + length mid)"
  have e: "(Suc ?n, rest, []) \<in> set (rm (Seq strict_glyph (Seq (Alt ws Eol) Eps)) (Suc (length user) + length host + length mid, ?r3, []))"
    using assms(7) by (auto simp: strict_glyph_def ws_def is_ws_def)
  have "(Suc ?n, rest, []) \<in> set (rm (Seq (rep_upto 60 not_lf) (Seq strict_glyph (Seq (Alt ws Eol) Eps))) (Suc (length user) + length host, ?r2, []))"
    by (rule rm_SeqI [OF m e])
  from rm_SeqI [OF h this] have "(Suc ?n, rest, []) \<in> set (rm (Seq (chr 64) (Seq (rplus (CC is_host_char))
      (Seq (rep_upto 60 not_lf) (Seq strict_glyph (Seq (Alt ws Eol) Eps))))) (length user, 64 # ?r1, []))"
    by (simp add: chr_def)
  from rm_SeqI [OF u this] have "(Suc ?n, rest, []) \<in> set (rm STRICT_USERHOST (0, ?t, []))"
    by (simp add: STRICT_USERHOST_def user_at_host_def seqs_def rm_Seq_Bol del: rm_base(2))
  then have "rm STRICT_USERHOST (0, ?t, []) \<noteq> []" by force
  then have "re_test STRICT_USERHOST ?t" by (cases ?t) (auto simp: re_test_def split: list.split)
  moreover have "trimEnd ?t = ?t"
    using assms(8,9) trimEnd_append_non_ws [of "last rest" "user @ 64 # host @ mid @ g # 32 # butlast rest"] by simp
  ultimately show ?thesis by (simp add: strictPromptRow_def)
qed

theorem strict_row_matches_output_witness: "strictPromptRow (js ''bob@mail.org: quota at 50% of 2G'')"
proof -
  have "js ''bob@mail.org: quota at 50% of 2G'' = js ''bob'' @ 64 # js ''mail.org'' @ js '': quota at 50'' @ 37 # 32 # js ''of 2G''"
    by (simp add: js_def)
  moreover have "strictPromptRow (js ''bob'' @ 64 # js ''mail.org'' @ js '': quota at 50'' @ 37 # 32 # js ''of 2G'')"
    by (rule strict_row_matches_output) (simp_all add: js_eval is_host_char_def)
  ultimately show ?thesis by simp
qed

end
