(* ===== verification/Prefs.thy ===== *)
theory Prefs
  imports JsNumber JsRegex
begin

text \<open>
  Client-side preferences (\<^verbatim>\<open>lib/prefs.ts\<close>): typed getters and setters over the strings of
  \<^verbatim>\<open>localStorage\<close>. The store may be unavailable (private mode); then reads give nothing and
  writes are dropped. Numbers are stored as text: the conversions \<^verbatim>\<open>String(n)\<close> and \<^verbatim>\<open>Number(s)\<close>
  are modelled for decimal numerals (and, for reading, exponents and radix prefixes).
\<close>

section \<open>Numbers as text\<close>

text \<open>The fewest decimal places, up to \<open>n\<close>, in which a number can be written.\<close>

definition is_int :: "rat \<Rightarrow> bool" where
  "is_int a \<longleftrightarrow> of_int \<lfloor>a\<rfloor> = a"

lemma is_int_iff: "is_int a \<longleftrightarrow> a \<in> \<int>"
  unfolding is_int_def by (metis Ints_cases Ints_of_int floor_of_int)

fun places_upto :: "nat \<Rightarrow> rat \<Rightarrow> nat" where
  "places_upto 0 a = 0"
| "places_upto (Suc n) a = (if is_int a then 0 else Suc (places_upto n (10 * a)))"

definition pad0 :: "nat \<Rightarrow> jsstr \<Rightarrow> jsstr" where
  "pad0 k s = replicate (k - length s) 48 @ s"

definition dec_text :: "rat \<Rightarrow> jsstr" where
  "dec_text a =
     (let k = places_upto 20 a; n = nat \<lfloor>a * 10 ^ k\<rfloor>
      in show_nat (n div 10 ^ k) @ (if k = 0 then [] else 46 # pad0 k (show_nat (n mod 10 ^ k))))"

text \<open>\<^verbatim>\<open>String(n)\<close>\<close>

fun num_text :: "jsnum \<Rightarrow> jsstr" where
  "num_text NaN = js ''NaN''"
| "num_text PosInf = js ''Infinity''"
| "num_text NegInf = js ''-Infinity''"
| "num_text (Num a) = (if a < 0 then 45 # dec_text (- a) else dec_text a)"

definition digit_val :: "nat \<Rightarrow> nat" where
  "digit_val c = (if is_digit c then c - 48 else if 97 \<le> c then c - 87 else c - 55)"

text \<open>\<^verbatim>\<open>0x\<close>, \<^verbatim>\<open>0o\<close> and \<^verbatim>\<open>0b\<close> numerals\<close>

definition radix_number :: "nat \<Rightarrow> jsstr \<Rightarrow> jsnum" where
  "radix_number b s =
     (if s \<noteq> [] \<and> list_all (\<lambda>c. is_hex c \<and> digit_val c < b) s
      then Num (of_nat (foldl (\<lambda>n c. b * n + digit_val c) 0 s)) else NaN)"

definition exponent_of :: "jsstr \<Rightarrow> int option" where
  "exponent_of r =
     (case r of [] \<Rightarrow> Some 0
      | e # s \<Rightarrow>
          if e \<noteq> 101 \<and> e \<noteq> 69 then None
          else let (sg, d) = (case s of c # d \<Rightarrow> if c = 45 then (- 1, d) else if c = 43 then (1, d) else (1, s) | [] \<Rightarrow> (1, s))
               in if d \<noteq> [] \<and> list_all is_digit d then Some (sg * int (read_nat d)) else None)"

definition unsigned_number :: "jsstr \<Rightarrow> jsnum" where
  "unsigned_number r =
     (if r = js ''Infinity'' then PosInf
      else let ip = takeWhile is_digit r; r1 = dropWhile is_digit r;
               (fp, r2) = (case r1 of c # r' \<Rightarrow> if c = 46 then (takeWhile is_digit r', dropWhile is_digit r') else ([], r1)
                           | [] \<Rightarrow> ([], r1))
           in if ip = [] \<and> fp = [] then NaN
              else case exponent_of r2 of None \<Rightarrow> NaN
                | Some e \<Rightarrow> Num (of_nat (read_nat (ip @ fp)) / 10 ^ length fp * 10 powi e))"

fun negate :: "jsnum \<Rightarrow> jsnum" where
  "negate (Num a) = Num (- a)"
| "negate PosInf = NegInf"
| "negate NegInf = PosInf"
| "negate NaN = NaN"

text \<open>\<^verbatim>\<open>Number(s)\<close>; \<open>None\<close> is \<^verbatim>\<open>undefined\<close>.\<close>

definition to_number :: "jsstr option \<Rightarrow> jsnum" where
  "to_number s =
     (case s of None \<Rightarrow> NaN
      | Some s \<Rightarrow>
          let t = trim s in
          case t of [] \<Rightarrow> Num 0
          | c # r \<Rightarrow>
              if c = 45 then negate (unsigned_number r)
              else if c = 43 then unsigned_number r
              else if startsWith t (js ''0x'') \<or> startsWith t (js ''0X'') then radix_number 16 (drop 2 t)
              else if startsWith t (js ''0o'') \<or> startsWith t (js ''0O'') then radix_number 8 (drop 2 t)
              else if startsWith t (js ''0b'') \<or> startsWith t (js ''0B'') then radix_number 2 (drop 2 t)
              else unsigned_number t)"

subsection \<open>Writing and reading back\<close>

text \<open>A decimal: a number with at most twenty decimal places.\<close>

definition decimal :: "rat \<Rightarrow> bool" where
  "decimal a \<longleftrightarrow> is_int (a * 10 ^ 20)"

lemma places_upto_int: "a * 10 ^ n \<in> \<int> \<Longrightarrow> a * 10 ^ places_upto n a \<in> \<int>"
proof (induction n arbitrary: a)
  case (Suc n)
  show ?case
  proof (cases "is_int a")
    case False
    have "10 * a * 10 ^ n \<in> \<int>" using Suc.prems by (simp add: mult_ac)
    from Suc.IH [OF this] False show ?thesis by (simp add: mult_ac)
  qed (simp add: is_int_iff)
qed simp

lemma read_nat_append: "read_nat (xs @ ys) = read_nat xs * 10 ^ length ys + read_nat ys"
proof -
  have g: "foldl (\<lambda>n d. 10 * n + (d - 48)) m ys = m * 10 ^ length ys + foldl (\<lambda>n d. 10 * n + (d - 48)) 0 ys" for m :: nat
  proof (induction ys arbitrary: m)
    case (Cons y ys)
    have "foldl (\<lambda>n d. 10 * n + (d - 48)) m (y # ys) = (10 * m + (y - 48)) * 10 ^ length ys + foldl (\<lambda>n d. 10 * n + (d - 48)) 0 ys"
      using Cons.IH [of "10 * m + (y - 48)"] by simp
    moreover have "foldl (\<lambda>n d. 10 * n + (d - 48)) 0 (y # ys) = (y - 48) * 10 ^ length ys + foldl (\<lambda>n d. 10 * n + (d - 48)) 0 ys"
      using Cons.IH [of "y - 48"] by simp
    ultimately show ?case by (simp add: algebra_simps)
  qed simp
  show ?thesis unfolding read_nat_def foldl_append by (rule g)
qed

lemma read_nat_zeros: "read_nat (replicate k 48) = 0"
  by (induction k) (simp_all add: read_nat_def)

lemma read_pad0: "read_nat (pad0 k s) = read_nat s"
  by (simp add: pad0_def read_nat_append read_nat_zeros)

lemma length_show_nat: "n < 10 ^ Suc k \<Longrightarrow> length (show_nat n) \<le> Suc k"
proof (induction k arbitrary: n)
  case 0
  then show ?case by (subst show_nat.simps) simp
next
  case (Suc k)
  then have "n div 10 < 10 ^ Suc k" by (simp add: less_mult_imp_div_less mult.commute)
  from Suc.IH [OF this] show ?case by (subst show_nat.simps) simp
qed

lemma length_pad0: "n < 10 ^ k \<Longrightarrow> 0 < k \<Longrightarrow> length (pad0 k (show_nat n)) = k"
  using length_show_nat [of n "k - 1"] by (simp add: pad0_def)

lemma digits_show: "list_all is_digit (show_nat n)"
  using show_nat_digits [of _ n] by (auto simp: list_all_iff is_digit_def)

lemma digits_pad0: "list_all is_digit (pad0 k (show_nat n))"
  using digits_show [of n] by (auto simp: list_all_iff pad0_def is_digit_def)

lemma trim_plain: "\<forall>c \<in> set s. \<not> is_ws c \<Longrightarrow> trim s = s"
proof -
  assume s: "\<forall>c \<in> set s. \<not> is_ws c"
  then have "trimStart s = s" by (cases s) (simp_all add: trimStart_def)
  moreover have "trimEnd s = s" using s by (cases s rule: rev_cases) (simp_all add: trimEnd_def)
  ultimately show ?thesis by (simp add: trim_def)
qed

lemma dec_text_cases:
  assumes "decimal a" "0 \<le> a"
  obtains q ds where "dec_text a = show_nat q @ (if ds = [] then [] else 46 # ds)" "list_all is_digit ds"
    "of_nat (read_nat (show_nat q @ ds)) / 10 ^ length ds = a"
proof -
  define k where "k = places_upto 20 a"
  define n where "n = nat \<lfloor>a * 10 ^ k\<rfloor>"
  define ds where "ds = (if k = 0 then [] else pad0 k (show_nat (n mod 10 ^ k)))"
  have k: "a * 10 ^ k \<in> \<int>" unfolding k_def using assms(1) by (intro places_upto_int) (simp only: decimal_def is_int_iff)
  then obtain z where z: "a * 10 ^ k = of_int z" by (auto elim: Ints_cases)
  have "0 \<le> a * 10 ^ k" using assms(2) by simp
  then have "0 \<le> z" unfolding z by simp
  then have n: "(of_nat n :: rat) = a * 10 ^ k" by (simp add: n_def z)
  have l: "length ds = k" using length_pad0 [of "n mod 10 ^ k" k] by (simp add: ds_def)
  have ne: "ds = [] \<longleftrightarrow> k = 0" using l by auto
  have "read_nat (show_nat (n div 10 ^ k) @ ds) = n"
  proof (cases "k = 0")
    case False
    have "read_nat ds = n mod 10 ^ k" using False by (simp add: ds_def read_pad0 read_show_nat)
    then show ?thesis using l by (simp add: read_nat_append read_show_nat div_mult_mod_eq)
  qed (simp add: read_show_nat ds_def)
  then have "of_nat (read_nat (show_nat (n div 10 ^ k) @ ds)) / 10 ^ length ds = a"
    unfolding l using n by simp
  moreover have "dec_text a = show_nat (n div 10 ^ k) @ (if ds = [] then [] else 46 # ds)"
    unfolding ne by (simp add: dec_text_def Let_def k_def [symmetric] n_def [symmetric] ds_def)
  moreover have "list_all is_digit ds" by (simp add: digits_pad0 ds_def)
  ultimately show ?thesis by (rule that [rotated 2])
qed

lemma take_digits:
  "list_all is_digit ds \<Longrightarrow> takeWhile is_digit ds = ds" "list_all is_digit ds \<Longrightarrow> dropWhile is_digit ds = []"
  by (induction ds) auto

lemma unsigned_dec_text:
  assumes "decimal a" "0 \<le> a"
  shows "unsigned_number (dec_text a) = Num a"
proof -
  obtain q ds where d: "dec_text a = show_nat q @ (if ds = [] then [] else 46 # ds)" "list_all is_digit ds"
    "of_nat (read_nat (show_nat q @ ds)) / 10 ^ length ds = a" using dec_text_cases [OF assms] by blast
  have hd: "is_digit (hd (dec_text a))" "dec_text a \<noteq> []"
    using digits_show [of q] by (cases "show_nat q"; simp add: d(1))+
  have inf: "dec_text a \<noteq> js ''Infinity''" using hd by (auto simp: js_def is_digit_def)
  have nd: "\<not> is_digit 46" by (simp add: is_digit_def)
  have tw: "takeWhile is_digit (dec_text a) = show_nat q"
    "dropWhile is_digit (dec_text a) = (if ds = [] then [] else 46 # ds)"
    using digits_show [of q] nd by (auto simp: d(1) list_all_iff takeWhile_append2 dropWhile_append2 take_digits)
  show ?thesis
    using inf d(2,3) by (cases ds) (simp_all add: unsigned_number_def tw take_digits exponent_of_def Let_def)
qed

lemma dec_text_chars: "decimal a \<Longrightarrow> 0 \<le> a \<Longrightarrow> c \<in> set (dec_text a) \<Longrightarrow> is_digit c \<or> c = 46"
  using digits_show by (elim dec_text_cases [of a]) (auto simp: list_all_iff split: if_splits)

text \<open>What \<^verbatim>\<open>String\<close> writes, \<^verbatim>\<open>Number\<close> reads back.\<close>

lemma to_number_num_text: "decimal a \<Longrightarrow> to_number (Some (num_text (Num a))) = Num a"
proof -
  assume a: "decimal a"
  have neg: "decimal (- a)" using a by (simp add: decimal_def is_int_iff)
  have ws: "\<not> is_ws c" if "is_digit c \<or> c = 46 \<or> c = 45" for c using that by (auto simp: is_ws_def is_digit_def)
  show ?thesis
  proof (cases "a < 0")
    case True
    then have "\<forall>c \<in> set (num_text (Num a)). \<not> is_ws c"
      using dec_text_chars [OF neg] ws by auto
    then have "trim (num_text (Num a)) = 45 # dec_text (- a)" using True by (simp add: trim_plain)
    with True neg show ?thesis by (simp add: to_number_def unsigned_dec_text del: num_text.simps)
  next
    case False
    then have p: "0 \<le> a" by simp
    have ch: "\<forall>c \<in> set (dec_text a). is_digit c \<or> c = 46" using dec_text_chars [OF a p] by blast
    then have t: "trim (dec_text a) = dec_text a" using ws by (intro trim_plain) blast
    obtain c r where cr: "dec_text a = c # r"
      using unsigned_dec_text [OF a p] by (cases "dec_text a") (auto simp: unsigned_number_def js_def)
    have "c \<noteq> 45" "c \<noteq> 43" using ch by (auto simp: cr is_digit_def)
    moreover have "\<not> startsWith (c # r) [48, x]" if "\<not> is_digit x \<and> x \<noteq> 46" for x
      using ch that by (cases r) (auto simp: cr startsWith_def)
    ultimately show ?thesis
      using False t unsigned_dec_text [OF a p] by (simp add: to_number_def cr js_def is_digit_def)
  qed
qed

section \<open>The store\<close>

text \<open>\<^verbatim>\<open>window.localStorage\<close>; reading or writing may throw.\<close>

record storage =
  items :: "jsstr \<Rightarrow> jsstr option"
  readable :: bool
  writable :: bool

datatype pref_key =
    K_landing | K_fontSize | K_fontFamily | K_lineHeight | K_ligatures | K_cursorBlink | K_cursorStyle
  | K_scrollback | K_copyOnSelect | K_bell | K_notifyWaiting | K_notifyDone | K_notifyFailed
  | K_idleLockSecs | K_material | K_chromeOpacity | K_terminalOpacity | K_defaultShell | K_loginShell

fun KEYS :: "pref_key \<Rightarrow> jsstr" where
  "KEYS K_landing = js ''tethra.landing''"
| "KEYS K_fontSize = js ''tethra.terminal.fontSize''"
| "KEYS K_fontFamily = js ''tethra.terminal.fontFamily''"
| "KEYS K_lineHeight = js ''tethra.terminal.lineHeight''"
| "KEYS K_ligatures = js ''tethra.terminal.ligatures''"
| "KEYS K_cursorBlink = js ''tethra.terminal.cursorBlink''"
| "KEYS K_cursorStyle = js ''tethra.terminal.cursorStyle''"
| "KEYS K_scrollback = js ''tethra.terminal.scrollback''"
| "KEYS K_copyOnSelect = js ''tethra.terminal.copyOnSelect''"
| "KEYS K_bell = js ''tethra.terminal.bell''"
| "KEYS K_notifyWaiting = js ''tethra.notify.waiting''"
| "KEYS K_notifyDone = js ''tethra.notify.done''"
| "KEYS K_notifyFailed = js ''tethra.notify.failed''"
| "KEYS K_idleLockSecs = js ''tethra.vault.idleLockSecs''"
| "KEYS K_material = js ''tethra.chrome.material''"
| "KEYS K_chromeOpacity = js ''tethra.chrome.opacity''"
| "KEYS K_terminalOpacity = js ''tethra.terminal.opacity''"
| "KEYS K_defaultShell = js ''tethra.shell.default''"
| "KEYS K_loginShell = js ''tethra.shell.login''"

definition readString :: "pref_key \<Rightarrow> storage \<Rightarrow> jsstr option" where
  "readString k s = (if readable s then items s (KEYS k) else None)"

definition writeString :: "pref_key \<Rightarrow> jsstr \<Rightarrow> storage \<Rightarrow> storage" where
  "writeString k v s = (if writable s then s\<lparr>items := (items s)(KEYS k \<mapsto> v)\<rparr> else s)"

lemma KEYS_eq [simp]: "KEYS a = KEYS b \<longleftrightarrow> a = b"
  by (cases a; cases b; simp add: js_def)

lemma read_write [simp]:
  "writable s \<Longrightarrow> readString k (writeString j v s) = (if readable s \<and> j = k then Some v else readString k s)"
  "readable (writeString j v s) = readable s" "writable (writeString j v s) = writable s"
  by (auto simp: readString_def writeString_def)

section \<open>Getters and setters\<close>

datatype landing_pref = Launcher | Workspace
datatype material_pref = Opaque | Vibrant | Custom | Acrylic
datatype cursor_style = BlockCursor | UnderlineCursor | BarCursor

fun landing_text :: "landing_pref \<Rightarrow> jsstr" where
  "landing_text Launcher = js ''launcher''"
| "landing_text Workspace = js ''workspace''"

fun material_text :: "material_pref \<Rightarrow> jsstr" where
  "material_text Opaque = js ''opaque''"
| "material_text Vibrant = js ''vibrant''"
| "material_text Custom = js ''custom''"
| "material_text Acrylic = js ''acrylic''"

fun cursor_text :: "cursor_style \<Rightarrow> jsstr" where
  "cursor_text BlockCursor = js ''block''"
| "cursor_text UnderlineCursor = js ''underline''"
| "cursor_text BarCursor = js ''bar''"

record pref_values =
  d_landing :: landing_pref
  d_fontSize :: jsnum
  d_fontFamily :: jsstr
  d_lineHeight :: jsnum
  d_ligatures :: bool
  d_cursorBlink :: bool
  d_cursorStyle :: cursor_style
  d_scrollback :: jsnum
  d_copyOnSelect :: bool
  d_bell :: bool
  d_notifyWaiting :: bool
  d_notifyDone :: bool
  d_notifyFailed :: bool
  d_idleLockSecs :: jsnum
  d_material :: material_pref
  d_chromeOpacity :: jsnum
  d_terminalOpacity :: jsnum
  d_defaultShell :: jsstr
  d_loginShell :: bool

definition DEFAULTS :: pref_values where
  "DEFAULTS = \<lparr>d_landing = Launcher, d_fontSize = Num (25 / 2), d_fontFamily = js ''JetBrains Mono Variable'',
     d_lineHeight = Num 1, d_ligatures = False, d_cursorBlink = True, d_cursorStyle = BarCursor,
     d_scrollback = Num 10000, d_copyOnSelect = False, d_bell = False, d_notifyWaiting = True,
     d_notifyDone = False, d_notifyFailed = True, d_idleLockSecs = Num (15 * 60), d_material = Opaque,
     d_chromeOpacity = Num 92, d_terminalOpacity = Num 100, d_defaultShell = [], d_loginShell = True\<rparr>"

definition IDLE_LOCK_OPTIONS :: "(rat \<times> jsstr) list" where
  "IDLE_LOCK_OPTIONS =
     [(0, js ''Never''), (5 * 60, js ''5 minutes''), (15 * 60, js ''15 minutes''), (30 * 60, js ''30 minutes''),
      (60 * 60, js ''1 hour''), (4 * 60 * 60, js ''4 hours'')]"

text \<open>A flag read strictly (off unless it says on), or leniently (on unless it says off).\<close>

definition readBool :: "pref_key \<Rightarrow> bool \<Rightarrow> storage \<Rightarrow> bool" where
  "readBool k fallback s =
     (case readString k s of None \<Rightarrow> fallback | Some raw \<Rightarrow> raw = js ''1'' \<or> raw = js ''true'')"

definition readBoolOn :: "pref_key \<Rightarrow> bool \<Rightarrow> storage \<Rightarrow> bool" where
  "readBoolOn k fallback s =
     (case readString k s of None \<Rightarrow> fallback | Some raw \<Rightarrow> raw \<noteq> js ''0'' \<and> raw \<noteq> js ''false'')"

definition writeBool :: "pref_key \<Rightarrow> bool \<Rightarrow> storage \<Rightarrow> storage" where
  "writeBool k on s = writeString k (if on then js ''1'' else js ''0'') s"

definition getLandingPref :: "storage \<Rightarrow> landing_pref" where
  "getLandingPref s = (if readString K_landing s = Some (js ''workspace'') then Workspace else d_landing DEFAULTS)"

definition setLandingPref :: "landing_pref \<Rightarrow> storage \<Rightarrow> storage" where
  "setLandingPref v s = writeString K_landing (landing_text v) s"

definition getTerminalFontSize :: "storage \<Rightarrow> jsnum" where
  "getTerminalFontSize s =
     (let raw = to_number (readString K_fontSize s) in
      if raw = Num 13 then d_fontSize DEFAULTS
      else if \<not> isFinite raw \<or> js_less raw (Num 10) \<or> js_less (Num 24) raw then d_fontSize DEFAULTS
      else raw)"

definition setTerminalFontSize :: "jsnum \<Rightarrow> storage \<Rightarrow> storage" where
  "setTerminalFontSize v s = writeString K_fontSize (num_text (clamp 10 24 v)) s"

definition getTerminalLigatures :: "storage \<Rightarrow> bool" where
  "getTerminalLigatures s = readBool K_ligatures (d_ligatures DEFAULTS) s"

definition setTerminalLigatures :: "bool \<Rightarrow> storage \<Rightarrow> storage" where
  "setTerminalLigatures on s = writeBool K_ligatures on s"

definition getTerminalCursorBlink :: "storage \<Rightarrow> bool" where
  "getTerminalCursorBlink s = readBoolOn K_cursorBlink (d_cursorBlink DEFAULTS) s"

definition setTerminalCursorBlink :: "bool \<Rightarrow> storage \<Rightarrow> storage" where
  "setTerminalCursorBlink on s = writeBool K_cursorBlink on s"

definition getTerminalCopyOnSelect :: "storage \<Rightarrow> bool" where
  "getTerminalCopyOnSelect s = readBool K_copyOnSelect (d_copyOnSelect DEFAULTS) s"

definition setTerminalCopyOnSelect :: "bool \<Rightarrow> storage \<Rightarrow> storage" where
  "setTerminalCopyOnSelect on s = writeBool K_copyOnSelect on s"

definition getTerminalFontFamily :: "storage \<Rightarrow> jsstr" where
  "getTerminalFontFamily s =
     (case readString K_fontFamily s of None \<Rightarrow> d_fontFamily DEFAULTS
      | Some raw \<Rightarrow> if raw = [] then d_fontFamily DEFAULTS else raw)"

definition setTerminalFontFamily :: "jsstr \<Rightarrow> storage \<Rightarrow> storage" where
  "setTerminalFontFamily v s =
     writeString K_fontFamily (if trim v = [] then d_fontFamily DEFAULTS else trim v) s"

text \<open>\<^verbatim>\<open>Math.round(x * 100) / 100\<close>\<close>

fun round_cents :: "jsnum \<Rightarrow> jsnum" where
  "round_cents (Num a) = Num (of_int \<lfloor>a * 100 + 1 / 2\<rfloor> / 100)"
| "round_cents x = x"

definition getTerminalLineHeight :: "storage \<Rightarrow> jsnum" where
  "getTerminalLineHeight s =
     (let raw = to_number (readString K_lineHeight s) in
      if raw = Num (5 / 4) then d_lineHeight DEFAULTS
      else if \<not> isFinite raw \<or> js_less raw (Num 1) \<or> js_less (Num 2) raw then d_lineHeight DEFAULTS
      else round_cents raw)"

definition setTerminalLineHeight :: "jsnum \<Rightarrow> storage \<Rightarrow> storage" where
  "setTerminalLineHeight v s = writeString K_lineHeight (num_text (clamp 1 2 (round_cents v))) s"

definition getTerminalCursorStyle :: "storage \<Rightarrow> cursor_style" where
  "getTerminalCursorStyle s =
     (let raw = readString K_cursorStyle s in
      if raw = Some (js ''block'') then BlockCursor
      else if raw = Some (js ''underline'') then UnderlineCursor
      else if raw = Some (js ''bar'') then BarCursor
      else d_cursorStyle DEFAULTS)"

definition setTerminalCursorStyle :: "cursor_style \<Rightarrow> storage \<Rightarrow> storage" where
  "setTerminalCursorStyle v s = writeString K_cursorStyle (cursor_text v) s"

definition getTerminalScrollback :: "storage \<Rightarrow> jsnum" where
  "getTerminalScrollback s =
     (let raw = to_number (readString K_scrollback s) in
      if \<not> isFinite raw \<or> js_less raw (Num 1000) \<or> js_less (Num 100000) raw then d_scrollback DEFAULTS
      else math_round raw)"

definition setTerminalScrollback :: "jsnum \<Rightarrow> storage \<Rightarrow> storage" where
  "setTerminalScrollback v s = writeString K_scrollback (num_text (clamp 1000 100000 (math_round v))) s"

definition getTerminalBell :: "storage \<Rightarrow> bool" where
  "getTerminalBell s = readBool K_bell (d_bell DEFAULTS) s"

definition setTerminalBell :: "bool \<Rightarrow> storage \<Rightarrow> storage" where
  "setTerminalBell on s = writeBool K_bell on s"

definition getNotifyWaiting :: "storage \<Rightarrow> bool" where
  "getNotifyWaiting s = readBool K_notifyWaiting (d_notifyWaiting DEFAULTS) s"

definition setNotifyWaiting :: "bool \<Rightarrow> storage \<Rightarrow> storage" where
  "setNotifyWaiting on s = writeBool K_notifyWaiting on s"

definition getNotifyDone :: "storage \<Rightarrow> bool" where
  "getNotifyDone s = readBool K_notifyDone (d_notifyDone DEFAULTS) s"

definition setNotifyDone :: "bool \<Rightarrow> storage \<Rightarrow> storage" where
  "setNotifyDone on s = writeBool K_notifyDone on s"

definition getNotifyFailed :: "storage \<Rightarrow> bool" where
  "getNotifyFailed s = readBool K_notifyFailed (d_notifyFailed DEFAULTS) s"

definition setNotifyFailed :: "bool \<Rightarrow> storage \<Rightarrow> storage" where
  "setNotifyFailed on s = writeBool K_notifyFailed on s"

definition getDefaultShell :: "storage \<Rightarrow> jsstr" where
  "getDefaultShell s = (case readString K_defaultShell s of None \<Rightarrow> d_defaultShell DEFAULTS | Some raw \<Rightarrow> raw)"

definition setDefaultShell :: "jsstr \<Rightarrow> storage \<Rightarrow> storage" where
  "setDefaultShell v s = writeString K_defaultShell v s"

definition getLoginShell :: "storage \<Rightarrow> bool" where
  "getLoginShell s = readBoolOn K_loginShell (d_loginShell DEFAULTS) s"

definition setLoginShell :: "bool \<Rightarrow> storage \<Rightarrow> storage" where
  "setLoginShell on s = writeBool K_loginShell on s"

definition getIdleLockSecs :: "storage \<Rightarrow> jsnum" where
  "getIdleLockSecs s =
     (let raw = to_number (readString K_idleLockSecs s) in
      if \<not> isFinite raw \<or> js_less raw (Num 0) then d_idleLockSecs DEFAULTS
      else if raw = Num 0 then Num 0
      else if list_ex (\<lambda>(secs, label). Num secs = raw) IDLE_LOCK_OPTIONS then raw
      else d_idleLockSecs DEFAULTS)"

definition setIdleLockSecs :: "jsnum \<Rightarrow> storage \<Rightarrow> storage" where
  "setIdleLockSecs secs s = writeString K_idleLockSecs (num_text (math_max (Num 0) (math_round secs))) s"

definition getMaterialPref :: "storage \<Rightarrow> material_pref" where
  "getMaterialPref s =
     (let raw = readString K_material s in
      if raw = Some (js ''opaque'') then Opaque
      else if raw = Some (js ''vibrant'') then Vibrant
      else if raw = Some (js ''custom'') then Custom
      else if raw = Some (js ''acrylic'') then Acrylic
      else d_material DEFAULTS)"

definition setMaterialPref :: "material_pref \<Rightarrow> storage \<Rightarrow> storage" where
  "setMaterialPref v s = writeString K_material (material_text v) s"

definition getChromeOpacity :: "storage \<Rightarrow> jsnum" where
  "getChromeOpacity s =
     (let raw = to_number (readString K_chromeOpacity s) in
      if \<not> isFinite raw then d_chromeOpacity DEFAULTS else clamp 85 100 (math_round raw))"

definition setChromeOpacity :: "jsnum \<Rightarrow> storage \<Rightarrow> storage" where
  "setChromeOpacity v s = writeString K_chromeOpacity (num_text (clamp 85 100 (math_round v))) s"

definition getTerminalOpacity :: "storage \<Rightarrow> jsnum" where
  "getTerminalOpacity s =
     (let raw = to_number (readString K_terminalOpacity s) in
      if \<not> isFinite raw then d_terminalOpacity DEFAULTS else clamp 85 100 (math_round raw))"

definition setTerminalOpacity :: "jsnum \<Rightarrow> storage \<Rightarrow> storage" where
  "setTerminalOpacity v s = writeString K_terminalOpacity (num_text (clamp 85 100 (math_round v))) s"

definition resetTerminalPrefs :: "storage \<Rightarrow> storage" where
  "resetTerminalPrefs s =
     (let s = setTerminalFontSize (d_fontSize DEFAULTS) s;
          s = setTerminalFontFamily (d_fontFamily DEFAULTS) s;
          s = setTerminalLineHeight (d_lineHeight DEFAULTS) s;
          s = setTerminalLigatures (d_ligatures DEFAULTS) s;
          s = setTerminalCursorBlink (d_cursorBlink DEFAULTS) s;
          s = setTerminalCursorStyle (d_cursorStyle DEFAULTS) s;
          s = setTerminalScrollback (d_scrollback DEFAULTS) s;
          s = setTerminalCopyOnSelect (d_copyOnSelect DEFAULTS) s
      in setTerminalBell (d_bell DEFAULTS) s)"

section \<open>The contract of a preference\<close>

text \<open>
  A preference reads only its own key, writes only its own key, and gives back what was written,
  for the values it keeps.
\<close>

locale preference =
  fixes key :: pref_key and get :: "storage \<Rightarrow> 'a" and put :: "'a \<Rightarrow> storage \<Rightarrow> storage" and kept :: "'a \<Rightarrow> bool"
  assumes get_local: "readString key s = readString key s' \<Longrightarrow> get s = get s'"
    and put_other: "writable s \<Longrightarrow> k \<noteq> key \<Longrightarrow> readString k (put v s) = readString k s"
    and put_flags: "readable (put v s) = readable s" "writable (put v s) = writable s"
    and get_put: "readable s \<Longrightarrow> writable s \<Longrightarrow> kept v \<Longrightarrow> get (put v s) = v"
begin

text \<open>Nothing that leaves the key alone changes the preference.\<close>

lemma later: "readable s \<Longrightarrow> writable s \<Longrightarrow> kept v \<Longrightarrow> readString key q = readString key (put v s) \<Longrightarrow> get q = v"
  using get_local [of q "put v s"] get_put by simp

end

text \<open>The values a preference keeps.\<close>

definition font_size_kept :: "jsnum \<Rightarrow> bool" where
  "font_size_kept v = (case v of Num a \<Rightarrow> decimal a \<and> 10 \<le> a \<and> a \<le> 24 \<and> a \<noteq> 13 | _ \<Rightarrow> False)"

definition line_height_kept :: "jsnum \<Rightarrow> bool" where
  "line_height_kept v = (case v of Num a \<Rightarrow> is_int (a * 100) \<and> 1 \<le> a \<and> a \<le> 2 \<and> a \<noteq> 5 / 4 | _ \<Rightarrow> False)"

definition int_kept :: "rat \<Rightarrow> rat \<Rightarrow> jsnum \<Rightarrow> bool" where
  "int_kept lo hi v = (case v of Num a \<Rightarrow> is_int a \<and> lo \<le> a \<and> a \<le> hi | _ \<Rightarrow> False)"

definition idle_kept :: "jsnum \<Rightarrow> bool" where
  "idle_kept v = list_ex (\<lambda>(secs, label). Num secs = v) IDLE_LOCK_OPTIONS"

definition font_family_kept :: "jsstr \<Rightarrow> bool" where
  "font_family_kept v \<longleftrightarrow> v \<noteq> [] \<and> trim v = v"

lemma int_decimal: "is_int a \<Longrightarrow> decimal a"
  by (auto simp: decimal_def is_int_iff)

lemma cents_decimal: "is_int (a * 100) \<Longrightarrow> decimal a"
proof -
  assume "is_int (a * 100)"
  then obtain z where z: "a * 100 = of_int z" unfolding is_int_iff by (auto elim: Ints_cases)
  have "a * 10 ^ 20 = a * 100 * 10 ^ 18" by simp
  also have "\<dots> = of_int (z * 10 ^ 18)" unfolding z by simp
  finally show ?thesis by (simp only: decimal_def is_int_iff Ints_of_int)
qed

lemma round_int: "is_int a \<Longrightarrow> math_round (Num a) = Num a"
  by (auto simp: is_int_iff elim!: Ints_cases intro!: floor_unique)

lemma round_cents_id: "is_int (a * 100) \<Longrightarrow> round_cents (Num a) = Num a"
proof -
  assume "is_int (a * 100)"
  then obtain z where z: "a * 100 = of_int z" unfolding is_int_iff by (auto elim: Ints_cases)
  then have "\<lfloor>a * 100 + 1 / 2\<rfloor> = z" by (simp add: floor_unique)
  with z show ?thesis by simp
qed

lemma idle_int: "idle_kept v \<Longrightarrow> \<exists>a. v = Num a \<and> is_int a \<and> 0 \<le> a"
  by (auto simp: idle_kept_def IDLE_LOCK_OPTIONS_def is_int_def)

lemmas read_back = to_number_num_text [OF int_decimal] to_number_num_text [OF cents_decimal] to_number_num_text

interpretation landing: preference K_landing getLandingPref setLandingPref "\<lambda>_. True"
proof unfold_locales
  fix s and v :: landing_pref
  show "readable s \<Longrightarrow> writable s \<Longrightarrow> getLandingPref (setLandingPref v s) = v"
    by (cases v) (simp_all add: getLandingPref_def setLandingPref_def DEFAULTS_def js_def)
qed (simp_all add: getLandingPref_def setLandingPref_def)

interpretation fontSize: preference K_fontSize getTerminalFontSize setTerminalFontSize "font_size_kept"
  by unfold_locales
    (auto simp: getTerminalFontSize_def setTerminalFontSize_def Let_def font_size_kept_def line_height_kept_def int_kept_def isFinite_def min_def max_def
      round_cents_id round_int read_back simp del: num_text.simps math_round.simps round_cents.simps split: jsnum.splits)

interpretation fontFamily: preference K_fontFamily getTerminalFontFamily setTerminalFontFamily "font_family_kept"
  by unfold_locales (auto simp: font_family_kept_def getTerminalFontFamily_def setTerminalFontFamily_def readBool_def readBoolOn_def writeBool_def js_def)

interpretation lineHeight: preference K_lineHeight getTerminalLineHeight setTerminalLineHeight "line_height_kept"
  by unfold_locales
    (auto simp: getTerminalLineHeight_def setTerminalLineHeight_def Let_def font_size_kept_def line_height_kept_def int_kept_def isFinite_def min_def max_def
      round_cents_id round_int read_back simp del: num_text.simps math_round.simps round_cents.simps split: jsnum.splits)

interpretation ligatures: preference K_ligatures getTerminalLigatures setTerminalLigatures "\<lambda>_. True"
  by unfold_locales (auto simp: getTerminalLigatures_def setTerminalLigatures_def readBool_def readBoolOn_def writeBool_def js_def)

interpretation cursorBlink: preference K_cursorBlink getTerminalCursorBlink setTerminalCursorBlink "\<lambda>_. True"
  by unfold_locales (auto simp: getTerminalCursorBlink_def setTerminalCursorBlink_def readBool_def readBoolOn_def writeBool_def js_def)

interpretation cursorStyle: preference K_cursorStyle getTerminalCursorStyle setTerminalCursorStyle "\<lambda>_. True"
proof unfold_locales
  fix s and v :: cursor_style
  show "readable s \<Longrightarrow> writable s \<Longrightarrow> getTerminalCursorStyle (setTerminalCursorStyle v s) = v"
    by (cases v) (simp_all add: getTerminalCursorStyle_def setTerminalCursorStyle_def js_def)
qed (simp_all add: getTerminalCursorStyle_def setTerminalCursorStyle_def)

interpretation scrollback: preference K_scrollback getTerminalScrollback setTerminalScrollback "int_kept 1000 100000"
  by unfold_locales
    (auto simp: getTerminalScrollback_def setTerminalScrollback_def Let_def font_size_kept_def line_height_kept_def int_kept_def isFinite_def min_def max_def
      round_cents_id round_int read_back simp del: num_text.simps math_round.simps round_cents.simps split: jsnum.splits)

interpretation copyOnSelect: preference K_copyOnSelect getTerminalCopyOnSelect setTerminalCopyOnSelect "\<lambda>_. True"
  by unfold_locales (auto simp: getTerminalCopyOnSelect_def setTerminalCopyOnSelect_def readBool_def readBoolOn_def writeBool_def js_def)

interpretation bell: preference K_bell getTerminalBell setTerminalBell "\<lambda>_. True"
  by unfold_locales (auto simp: getTerminalBell_def setTerminalBell_def readBool_def readBoolOn_def writeBool_def js_def)

interpretation notifyWaiting: preference K_notifyWaiting getNotifyWaiting setNotifyWaiting "\<lambda>_. True"
  by unfold_locales (auto simp: getNotifyWaiting_def setNotifyWaiting_def readBool_def readBoolOn_def writeBool_def js_def)

interpretation notifyDone: preference K_notifyDone getNotifyDone setNotifyDone "\<lambda>_. True"
  by unfold_locales (auto simp: getNotifyDone_def setNotifyDone_def readBool_def readBoolOn_def writeBool_def js_def)

interpretation notifyFailed: preference K_notifyFailed getNotifyFailed setNotifyFailed "\<lambda>_. True"
  by unfold_locales (auto simp: getNotifyFailed_def setNotifyFailed_def readBool_def readBoolOn_def writeBool_def js_def)

interpretation idleLock: preference K_idleLockSecs getIdleLockSecs setIdleLockSecs "idle_kept"
proof unfold_locales
  fix s :: storage and v
  assume s: "readable s" "writable s" and v: "idle_kept v"
  obtain a where a: "v = Num a" "is_int a" "0 \<le> a" using idle_int [OF v] by blast
  have "math_max (Num 0) (math_round v) = v" using a by (simp add: round_int math_max_def del: math_round.simps)
  then have "to_number (readString K_idleLockSecs (setIdleLockSecs v s)) = v"
    using s a by (simp add: setIdleLockSecs_def read_back del: num_text.simps)
  with a v show "getIdleLockSecs (setIdleLockSecs v s) = v"
    by (simp add: getIdleLockSecs_def isFinite_def idle_kept_def Let_def)
qed (simp_all add: getIdleLockSecs_def setIdleLockSecs_def)

interpretation material: preference K_material getMaterialPref setMaterialPref "\<lambda>_. True"
proof unfold_locales
  fix s and v :: material_pref
  show "readable s \<Longrightarrow> writable s \<Longrightarrow> getMaterialPref (setMaterialPref v s) = v"
    by (cases v) (simp_all add: getMaterialPref_def setMaterialPref_def js_def)
qed (simp_all add: getMaterialPref_def setMaterialPref_def)

interpretation chromeOpacity: preference K_chromeOpacity getChromeOpacity setChromeOpacity "int_kept 85 100"
  by unfold_locales
    (auto simp: getChromeOpacity_def setChromeOpacity_def Let_def font_size_kept_def line_height_kept_def int_kept_def isFinite_def min_def max_def
      round_cents_id round_int read_back simp del: num_text.simps math_round.simps round_cents.simps split: jsnum.splits)

interpretation terminalOpacity: preference K_terminalOpacity getTerminalOpacity setTerminalOpacity "int_kept 85 100"
  by unfold_locales
    (auto simp: getTerminalOpacity_def setTerminalOpacity_def Let_def font_size_kept_def line_height_kept_def int_kept_def isFinite_def min_def max_def
      round_cents_id round_int read_back simp del: num_text.simps math_round.simps round_cents.simps split: jsnum.splits)

interpretation defaultShell: preference K_defaultShell getDefaultShell setDefaultShell "\<lambda>_. True"
  by unfold_locales (auto simp: getDefaultShell_def setDefaultShell_def readBool_def readBoolOn_def writeBool_def js_def)

interpretation loginShell: preference K_loginShell getLoginShell setLoginShell "\<lambda>_. True"
  by unfold_locales (auto simp: getLoginShell_def setLoginShell_def readBool_def readBoolOn_def writeBool_def js_def)


section \<open>All setters together\<close>

datatype setting =
    SetLanding landing_pref
  | SetFontSize jsnum
  | SetFontFamily jsstr
  | SetLineHeight jsnum
  | SetLigatures bool
  | SetCursorBlink bool
  | SetCursorStyle cursor_style
  | SetScrollback jsnum
  | SetCopyOnSelect bool
  | SetBell bool
  | SetNotifyWaiting bool
  | SetNotifyDone bool
  | SetNotifyFailed bool
  | SetIdleLock jsnum
  | SetMaterial material_pref
  | SetChromeOpacity jsnum
  | SetTerminalOpacity jsnum
  | SetDefaultShell jsstr
  | SetLoginShell bool

fun apply_setting :: "setting \<Rightarrow> storage \<Rightarrow> storage" where
  "apply_setting (SetLanding v) s = setLandingPref v s"
| "apply_setting (SetFontSize v) s = setTerminalFontSize v s"
| "apply_setting (SetFontFamily v) s = setTerminalFontFamily v s"
| "apply_setting (SetLineHeight v) s = setTerminalLineHeight v s"
| "apply_setting (SetLigatures v) s = setTerminalLigatures v s"
| "apply_setting (SetCursorBlink v) s = setTerminalCursorBlink v s"
| "apply_setting (SetCursorStyle v) s = setTerminalCursorStyle v s"
| "apply_setting (SetScrollback v) s = setTerminalScrollback v s"
| "apply_setting (SetCopyOnSelect v) s = setTerminalCopyOnSelect v s"
| "apply_setting (SetBell v) s = setTerminalBell v s"
| "apply_setting (SetNotifyWaiting v) s = setNotifyWaiting v s"
| "apply_setting (SetNotifyDone v) s = setNotifyDone v s"
| "apply_setting (SetNotifyFailed v) s = setNotifyFailed v s"
| "apply_setting (SetIdleLock v) s = setIdleLockSecs v s"
| "apply_setting (SetMaterial v) s = setMaterialPref v s"
| "apply_setting (SetChromeOpacity v) s = setChromeOpacity v s"
| "apply_setting (SetTerminalOpacity v) s = setTerminalOpacity v s"
| "apply_setting (SetDefaultShell v) s = setDefaultShell v s"
| "apply_setting (SetLoginShell v) s = setLoginShell v s"

fun setting_key :: "setting \<Rightarrow> pref_key" where
  "setting_key (SetLanding v) = K_landing"
| "setting_key (SetFontSize v) = K_fontSize"
| "setting_key (SetFontFamily v) = K_fontFamily"
| "setting_key (SetLineHeight v) = K_lineHeight"
| "setting_key (SetLigatures v) = K_ligatures"
| "setting_key (SetCursorBlink v) = K_cursorBlink"
| "setting_key (SetCursorStyle v) = K_cursorStyle"
| "setting_key (SetScrollback v) = K_scrollback"
| "setting_key (SetCopyOnSelect v) = K_copyOnSelect"
| "setting_key (SetBell v) = K_bell"
| "setting_key (SetNotifyWaiting v) = K_notifyWaiting"
| "setting_key (SetNotifyDone v) = K_notifyDone"
| "setting_key (SetNotifyFailed v) = K_notifyFailed"
| "setting_key (SetIdleLock v) = K_idleLockSecs"
| "setting_key (SetMaterial v) = K_material"
| "setting_key (SetChromeOpacity v) = K_chromeOpacity"
| "setting_key (SetTerminalOpacity v) = K_terminalOpacity"
| "setting_key (SetDefaultShell v) = K_defaultShell"
| "setting_key (SetLoginShell v) = K_loginShell"

text \<open>The getter returns the value of the setting.\<close>

fun in_force :: "setting \<Rightarrow> storage \<Rightarrow> bool" where
  "in_force (SetLanding v) s = (getLandingPref s = v)"
| "in_force (SetFontSize v) s = (getTerminalFontSize s = v)"
| "in_force (SetFontFamily v) s = (getTerminalFontFamily s = v)"
| "in_force (SetLineHeight v) s = (getTerminalLineHeight s = v)"
| "in_force (SetLigatures v) s = (getTerminalLigatures s = v)"
| "in_force (SetCursorBlink v) s = (getTerminalCursorBlink s = v)"
| "in_force (SetCursorStyle v) s = (getTerminalCursorStyle s = v)"
| "in_force (SetScrollback v) s = (getTerminalScrollback s = v)"
| "in_force (SetCopyOnSelect v) s = (getTerminalCopyOnSelect s = v)"
| "in_force (SetBell v) s = (getTerminalBell s = v)"
| "in_force (SetNotifyWaiting v) s = (getNotifyWaiting s = v)"
| "in_force (SetNotifyDone v) s = (getNotifyDone s = v)"
| "in_force (SetNotifyFailed v) s = (getNotifyFailed s = v)"
| "in_force (SetIdleLock v) s = (getIdleLockSecs s = v)"
| "in_force (SetMaterial v) s = (getMaterialPref s = v)"
| "in_force (SetChromeOpacity v) s = (getChromeOpacity s = v)"
| "in_force (SetTerminalOpacity v) s = (getTerminalOpacity s = v)"
| "in_force (SetDefaultShell v) s = (getDefaultShell s = v)"
| "in_force (SetLoginShell v) s = (getLoginShell s = v)"

fun settable :: "setting \<Rightarrow> bool" where
  "settable (SetFontSize v) = font_size_kept v"
| "settable (SetFontFamily v) = font_family_kept v"
| "settable (SetLineHeight v) = line_height_kept v"
| "settable (SetScrollback v) = int_kept 1000 100000 v"
| "settable (SetIdleLock v) = idle_kept v"
| "settable (SetChromeOpacity v) = int_kept 85 100 v"
| "settable (SetTerminalOpacity v) = int_kept 85 100 v"
| "settable _ = True"

lemmas pref_put_flags = landing.put_flags fontSize.put_flags fontFamily.put_flags lineHeight.put_flags ligatures.put_flags
  cursorBlink.put_flags cursorStyle.put_flags scrollback.put_flags copyOnSelect.put_flags bell.put_flags
  notifyWaiting.put_flags notifyDone.put_flags notifyFailed.put_flags idleLock.put_flags material.put_flags
  chromeOpacity.put_flags terminalOpacity.put_flags defaultShell.put_flags loginShell.put_flags

lemmas pref_put_other = landing.put_other fontSize.put_other fontFamily.put_other lineHeight.put_other ligatures.put_other
  cursorBlink.put_other cursorStyle.put_other scrollback.put_other copyOnSelect.put_other bell.put_other
  notifyWaiting.put_other notifyDone.put_other notifyFailed.put_other idleLock.put_other material.put_other
  chromeOpacity.put_other terminalOpacity.put_other defaultShell.put_other loginShell.put_other

lemmas pref_later = landing.later fontSize.later fontFamily.later lineHeight.later ligatures.later
  cursorBlink.later cursorStyle.later scrollback.later copyOnSelect.later bell.later
  notifyWaiting.later notifyDone.later notifyFailed.later idleLock.later material.later
  chromeOpacity.later terminalOpacity.later defaultShell.later loginShell.later

lemma apply_setting_flags [simp]:
  "readable (apply_setting x s) = readable s" "writable (apply_setting x s) = writable s"
  by (cases x; simp add: pref_put_flags)+

lemma apply_setting_other: "writable s \<Longrightarrow> k \<noteq> setting_key x \<Longrightarrow> readString k (apply_setting x s) = readString k s"
  by (cases x) (simp_all add: pref_put_other)

lemma fold_settings:
  "writable s \<Longrightarrow> \<forall>y \<in> set ys. setting_key y \<noteq> k \<Longrightarrow> readString k (fold apply_setting ys s) = readString k s"
  "readable (fold apply_setting ys s) = readable s" "writable (fold apply_setting ys s) = writable s"
  by (induction ys arbitrary: s) (auto simp: apply_setting_other)

lemma setting_survives:
  assumes "readable s" "writable s" "settable x" "\<forall>y \<in> set ys. setting_key y \<noteq> setting_key x"
  shows "in_force x (fold apply_setting ys (apply_setting x s))"
proof -
  have "readString (setting_key x) (fold apply_setting ys (apply_setting x s)) = readString (setting_key x) (apply_setting x s)"
    using assms(2,4) by (intro fold_settings) simp_all
  then show ?thesis using assms(1-3) 
    by (cases x)
      (simp_all only: in_force.simps setting_key.simps apply_setting.simps settable.simps,
        (rule pref_later, assumption, assumption, (assumption | rule TrueI), assumption)+)
qed

text \<open>A group of settings with different keys takes effect as a whole.\<close>

lemma settings_in_force:
  assumes "readable s" "writable s" "distinct (map setting_key xs)" "list_all settable xs"
  shows "list_all (\<lambda>x. in_force x (fold apply_setting xs s)) xs"
  unfolding list_all_iff
proof
  fix x assume "x \<in> set xs"
  then obtain as bs where xs: "xs = as @ x # bs" by (auto dest: split_list)
  show "in_force x (fold apply_setting xs s)"
    unfolding xs fold_append fold_simps(2) comp_apply
  proof (rule setting_survives)
    show "\<forall>y \<in> set bs. setting_key y \<noteq> setting_key x" using assms(3) image_iff unfolding xs by fastforce
  qed (use assms xs in \<open>simp_all add: fold_settings\<close>)
qed

section \<open>Properties\<close>

text \<open>
  C21. Preferences are safe to use whatever the store contains, also when it cannot be read:
  font size, line height, scrollback and opacities are finite numbers in their ranges, the idle
  lock is one of the offered options, and the font family is not empty.\<close>

theorem prefs_always_legal:
  "in_range 10 24 (getTerminalFontSize s) \<and> in_range 1 2 (getTerminalLineHeight s)
   \<and> in_range 1000 100000 (getTerminalScrollback s) \<and> in_range 85 100 (getChromeOpacity s)
   \<and> in_range 85 100 (getTerminalOpacity s) \<and> idle_kept (getIdleLockSecs s) \<and> getTerminalFontFamily s \<noteq> []"
proof (intro conjI)
  show "in_range 10 24 (getTerminalFontSize s)"
    by (cases "to_number (readString K_fontSize s)")
      (auto simp: getTerminalFontSize_def in_range_def isFinite_def DEFAULTS_def Let_def)
  show "in_range 1 2 (getTerminalLineHeight s)"
  proof (cases "to_number (readString K_lineHeight s)")
    case (Num a)
    have "(1::rat) \<le> of_int \<lfloor>a * 100 + 1 / 2\<rfloor> / 100 \<and> of_int \<lfloor>a * 100 + 1 / 2\<rfloor> / 100 \<le> (2::rat)" if "1 \<le> a" "a \<le> 2"
    proof -
      have "100 \<le> \<lfloor>a * 100 + 1 / 2\<rfloor>" "\<lfloor>a * 100 + 1 / 2\<rfloor> < 201" using that by (simp_all add: le_floor_iff floor_less_iff)
      then show ?thesis by (simp add: divide_simps)
    qed
    with Num show ?thesis by (auto simp: getTerminalLineHeight_def in_range_def isFinite_def DEFAULTS_def Let_def)
  qed (auto simp: getTerminalLineHeight_def in_range_def isFinite_def DEFAULTS_def Let_def)
  show "in_range 1000 100000 (getTerminalScrollback s)"
  proof (cases "to_number (readString K_scrollback s)")
    case (Num a)
    have "1000 \<le> (of_int \<lfloor>a + 1 / 2\<rfloor> :: rat) \<and> (of_int \<lfloor>a + 1 / 2\<rfloor> :: rat) \<le> 100000" if "1000 \<le> a" "a \<le> 100000"
    proof -
      have "1000 \<le> \<lfloor>a + 1 / 2\<rfloor>" "\<lfloor>a + 1 / 2\<rfloor> < 100001" using that by (simp_all add: le_floor_iff floor_less_iff)
      then show ?thesis by simp
    qed
    with Num show ?thesis by (auto simp: getTerminalScrollback_def in_range_def isFinite_def DEFAULTS_def Let_def)
  qed (auto simp: getTerminalScrollback_def in_range_def isFinite_def DEFAULTS_def Let_def)
  show "in_range 85 100 (getChromeOpacity s)"
    by (cases "to_number (readString K_chromeOpacity s)")
      (auto simp: getChromeOpacity_def in_range_def isFinite_def DEFAULTS_def Let_def)
  show "in_range 85 100 (getTerminalOpacity s)"
    by (cases "to_number (readString K_terminalOpacity s)")
      (auto simp: getTerminalOpacity_def in_range_def isFinite_def DEFAULTS_def Let_def)
  show "idle_kept (getIdleLockSecs s)"
    by (auto simp: getIdleLockSecs_def idle_kept_def DEFAULTS_def IDLE_LOCK_OPTIONS_def Let_def)
  show "getTerminalFontFamily s \<noteq> []"
    by (auto simp: getTerminalFontFamily_def DEFAULTS_def js_def split: option.split)
qed

text \<open>
  Two values of the controls cannot be chosen: a font size of 13 is stored and read back as
  12.5, and a line height of 1.25 as 1, because the getters take them for old defaults.\<close>

theorem migrated_choice_is_lost:
  assumes "readable s" "writable s"
  shows "getTerminalFontSize (setTerminalFontSize (Num 13) s) = Num (25 / 2)
     \<and> getTerminalLineHeight (setTerminalLineHeight (Num (5 / 4)) s) = Num 1"
proof -
  have i: "is_int 13" "is_int (5 / 4 * 100)" by (simp_all add: is_int_def)
  have "to_number (Some (num_text (Num 13))) = Num 13" "to_number (Some (num_text (Num (5 / 4)))) = Num (5 / 4)"
    by (rule read_back(1) [OF i(1)], rule read_back(2) [OF i(2)])
  moreover have "round_cents (Num (5 / 4)) = Num (5 / 4)" by (rule round_cents_id [OF i(2)])
  ultimately show ?thesis
    using assms by (simp add: getTerminalFontSize_def setTerminalFontSize_def getTerminalLineHeight_def
        setTerminalLineHeight_def DEFAULTS_def del: num_text.simps round_cents.simps)
qed

theorem migrated_choice_is_lost_witness:
  "getTerminalFontSize (setTerminalFontSize (Num 13) \<lparr>items = (\<lambda>_. None), readable = True, writable = True\<rparr>) = Num (25 / 2)"
  using migrated_choice_is_lost [of "\<lparr>items = (\<lambda>_. None), readable = True, writable = True\<rparr>"] by simp

text \<open>
  The values in the ranges the settings dialog offers, the two migrated ones included, and what is
  read back of a stored value.
\<close>

fun offered :: "setting \<Rightarrow> bool" where
  "offered (SetFontSize v) = (v = Num 13 \<or> font_size_kept v)"
| "offered (SetLineHeight v) = (v = Num (5 / 4) \<or> line_height_kept v)"
| "offered x = settable x"

fun reads_as :: "setting \<Rightarrow> setting" where
  "reads_as (SetFontSize v) = SetFontSize (if v = Num 13 then Num (25 / 2) else v)"
| "reads_as (SetLineHeight v) = SetLineHeight (if v = Num (5 / 4) then Num 1 else v)"
| "reads_as x = x"

lemma offered_cases:
  assumes "offered x"
  obtains "settable x" "reads_as x = x" | "x = SetFontSize (Num 13)" | "x = SetLineHeight (Num (5 / 4))"
proof -
  have "\<not> font_size_kept (Num 13)" "\<not> line_height_kept (Num (5 / 4))" by (simp_all add: font_size_kept_def line_height_kept_def)
  then show ?thesis using assms that by (cases x) (fastforce split: if_splits)+
qed

text \<open>
  C22. What becomes of a preference that is set: with a working store, after a setter has stored a
  value, its getter returns, through the text in the store and through any later changes of other
  preferences, that very value, except that a font size of 13 reads back as 12.5 and a line height
  of 1.25 as 1 (the getters take them for old defaults). The values are all flags and choices, finite
  decimal font sizes from 10 to 24, line heights from 1 to 2 in hundredths, whole scrollbacks and
  opacities in range, the offered idle times, and trimmed font names.\<close>

theorem preference_stays_in_force:
  assumes "readable s" "writable s" "offered x" "\<forall>y \<in> set ys. setting_key y \<noteq> setting_key x"
  shows "in_force (reads_as x) (fold apply_setting ys (apply_setting x s))"
  using assms(3)
proof (cases rule: offered_cases)
  case 1
  with setting_survives [OF assms(1,2) _ assms(4)] show ?thesis by simp
next
  case 2
  have "readString K_fontSize (fold apply_setting ys (apply_setting x s)) = readString K_fontSize (apply_setting x s)"
    using assms(2,4) 2 by (intro fold_settings) (simp_all add: apply_setting_flags del: apply_setting.simps)
  then have "getTerminalFontSize (fold apply_setting ys (apply_setting x s)) = getTerminalFontSize (apply_setting x s)"
    by (simp add: getTerminalFontSize_def)
  with migrated_choice_is_lost [OF assms(1,2)] 2 show ?thesis by simp
next
  case 3
  have "readString K_lineHeight (fold apply_setting ys (apply_setting x s)) = readString K_lineHeight (apply_setting x s)"
    using assms(2,4) 3 by (intro fold_settings) (simp_all add: apply_setting_flags del: apply_setting.simps)
  then have "getTerminalLineHeight (fold apply_setting ys (apply_setting x s)) = getTerminalLineHeight (apply_setting x s)"
    by (simp add: getTerminalLineHeight_def)
  with migrated_choice_is_lost [OF assms(1,2)] 3 show ?thesis by simp
qed

theorem preference_stays_in_force_witness:
  "let s = \<lparr>items = (\<lambda>_. None), readable = True, writable = True\<rparr> in
     getTerminalFontSize (setTerminalBell True (setTerminalFontSize (Num (29 / 2)) s)) = Num (29 / 2)
     \<and> getTerminalFontSize (setTerminalBell True (setTerminalFontSize (Num 13) s)) = Num (25 / 2)"
proof -
  let ?s = "\<lparr>items = (\<lambda>_. None), readable = True, writable = True\<rparr>"
  have k: "offered (SetFontSize (Num (29 / 2)))" "offered (SetFontSize (Num 13))"
    by (simp_all add: font_size_kept_def decimal_def is_int_def)
  have o: "\<forall>y \<in> set [SetBell True]. setting_key y \<noteq> setting_key (SetFontSize v)" for v by simp
  from preference_stays_in_force [OF _ _ k(1) o, of ?s] preference_stays_in_force [OF _ _ k(2) o, of ?s]
  show ?thesis by (simp add: Let_def)
qed

text \<open>
  \<^verbatim>\<open>resetTerminalPrefs\<close> restores the defaults of the nine terminal preferences and touches
  no other preference.\<close>

theorem reset_restores_defaults:
  assumes "readable s" "writable s"
  shows "list_all (\<lambda>x. in_force x (resetTerminalPrefs s))
       [SetFontSize (d_fontSize DEFAULTS), SetFontFamily (d_fontFamily DEFAULTS), SetLineHeight (d_lineHeight DEFAULTS),
        SetLigatures (d_ligatures DEFAULTS), SetCursorBlink (d_cursorBlink DEFAULTS), SetCursorStyle (d_cursorStyle DEFAULTS),
        SetScrollback (d_scrollback DEFAULTS), SetCopyOnSelect (d_copyOnSelect DEFAULTS), SetBell (d_bell DEFAULTS)]
     \<and> (k \<notin> {K_fontSize, K_fontFamily, K_lineHeight, K_ligatures, K_cursorBlink, K_cursorStyle, K_scrollback,
             K_copyOnSelect, K_bell} \<longrightarrow> readString k (resetTerminalPrefs s) = readString k s)"
proof -
  let ?xs = "[SetFontSize (d_fontSize DEFAULTS), SetFontFamily (d_fontFamily DEFAULTS), SetLineHeight (d_lineHeight DEFAULTS),
        SetLigatures (d_ligatures DEFAULTS), SetCursorBlink (d_cursorBlink DEFAULTS), SetCursorStyle (d_cursorStyle DEFAULTS),
        SetScrollback (d_scrollback DEFAULTS), SetCopyOnSelect (d_copyOnSelect DEFAULTS), SetBell (d_bell DEFAULTS)]"
  have r: "resetTerminalPrefs s = fold apply_setting ?xs s" by (simp add: resetTerminalPrefs_def Let_def)
  have "list_all settable ?xs"
    by (simp add: DEFAULTS_def font_size_kept_def font_family_kept_def line_height_kept_def int_kept_def decimal_def is_int_def js_eval)
  moreover have "distinct (map setting_key ?xs)" by simp
  ultimately have "list_all (\<lambda>x. in_force x (fold apply_setting ?xs s)) ?xs" by (intro settings_in_force assms)
  moreover have "k \<notin> set (map setting_key ?xs) \<Longrightarrow> readString k (fold apply_setting ?xs s) = readString k s"
    by (rule fold_settings(1) [OF assms(2)]) auto
  ultimately show ?thesis unfolding r by simp
qed

theorem reset_restores_defaults_witness:
  "getTerminalScrollback (resetTerminalPrefs
     \<lparr>items = [KEYS K_scrollback \<mapsto> js ''2000''], readable = True, writable = True\<rparr>) = Num 10000"
  using reset_restores_defaults [of "\<lparr>items = [KEYS K_scrollback \<mapsto> js ''2000''], readable = True, writable = True\<rparr>"]
  by (simp add: DEFAULTS_def)

end
