(* ===== verification/Attention.thy ===== *)
theory Attention
  imports Prefs
begin

text \<open>
  What an agent session wants from the user (\<^verbatim>\<open>lib/sessionAttention.ts\<close>) and the desktop
  notifications for it (\<^verbatim>\<open>lib/agentNotify.ts\<close>). Signals arrive from several sources; the merge
  decides which of them may raise the waiting banner.
\<close>

section \<open>State\<close>

datatype attention_state = Running | Waiting | Done | Failed

record session_attention =
  at_state :: attention_state
  at_message :: "jsstr option"
  at_noWatch :: "bool option"

abbreviation attention :: "attention_state \<Rightarrow> jsstr option \<Rightarrow> bool option \<Rightarrow> session_attention" where
  "attention st m n \<equiv> \<lparr>at_state = st, at_message = m, at_noWatch = n\<rparr>"

section \<open>Merging\<close>

definition mergeAttention :: "session_attention option \<Rightarrow> session_attention \<Rightarrow> jsstr \<Rightarrow> session_attention" where
  "mergeAttention prev next_at source =
     (if source = js ''silence'' then
        (case prev of Some p \<Rightarrow> p | None \<Rightarrow> attention Running None None)
      else if at_state next_at = Waiting \<and> source \<noteq> js ''bel'' \<and> source \<noteq> js ''osc'' \<and> source \<noteq> js ''tmux'' then
        (case prev of Some p \<Rightarrow> p | None \<Rightarrow> attention Running None (at_noWatch next_at))
      else attention (at_state next_at)
             (or_else (at_message next_at) (Option.bind prev at_message))
             (or_else (at_noWatch next_at) (Option.bind prev at_noWatch)))"

fun attentionChipClass :: "attention_state \<Rightarrow> jsstr" where
  "attentionChipClass Waiting = js ''bg-warning/15 text-warning''"
| "attentionChipClass Done = js ''bg-success/15 text-success''"
| "attentionChipClass Failed = js ''bg-danger/15 text-danger''"
| "attentionChipClass Running = js ''bg-elevated text-fg-subtle''"

fun attentionLabel :: "attention_state \<Rightarrow> jsstr" where
  "attentionLabel Waiting = js ''waiting''"
| "attentionLabel Done = js ''done''"
| "attentionLabel Failed = js ''failed''"
| "attentionLabel Running = js ''running''"

fun attentionDotClass :: "attention_state \<Rightarrow> jsstr" where
  "attentionDotClass Waiting = js ''bg-warning''"
| "attentionDotClass Failed = js ''bg-danger''"
| "attentionDotClass Done = js ''bg-success''"
| "attentionDotClass Running = js ''bg-success''"

section \<open>Notifications\<close>

text \<open>What is handed to the notification plugin; a failure of the plugin is swallowed.\<close>

record notification =
  n_title :: jsstr
  n_body :: jsstr
  n_runningId :: jsstr

definition notify_wanted :: "storage \<Rightarrow> attention_state \<Rightarrow> bool" where
  "notify_wanted prefs st =
     (case st of Waiting \<Rightarrow> getNotifyWaiting prefs | Done \<Rightarrow> getNotifyDone prefs
      | Failed \<Rightarrow> getNotifyFailed prefs | Running \<Rightarrow> False)"

definition maybeNotifyAttention ::
  "storage \<Rightarrow> attention_state \<Rightarrow> jsstr \<Rightarrow> jsstr option \<Rightarrow> jsstr \<Rightarrow> notification option" where
  "maybeNotifyAttention prefs st title body runningId =
     (if \<not> notify_wanted prefs st then None
      else let label = (if st = Waiting then js ''needs attention'' else if st = Failed then js ''failed'' else js ''done'')
           in Some \<lparr>n_title = js ''Tethra '' @ [183] @ js '' '' @ title,
                    n_body = (case body of Some b \<Rightarrow> b | None \<Rightarrow> js ''Session '' @ label),
                    n_runningId = runningId\<rparr>)"

section \<open>Facts\<close>

lemma merge_silence: "mergeAttention prev n (js ''silence'') = (case prev of Some p \<Rightarrow> p | None \<Rightarrow> attention Running None None)"
  by (simp add: mergeAttention_def)

lemma merge_accepts:
  "source \<in> {js ''bel'', js ''osc'', js ''tmux''} \<Longrightarrow> at_state (mergeAttention prev n source) = at_state n"
  by (auto simp: mergeAttention_def js_def)

lemma merge_non_waiting:
  "source \<noteq> js ''silence'' \<Longrightarrow> at_state n \<noteq> Waiting \<Longrightarrow> at_state (mergeAttention prev n source) = at_state n"
  by (simp add: mergeAttention_def)

text \<open>A session that was not waiting only starts to wait on a bell, an OSC message or a tmux alert.\<close>

lemma merge_waiting_source:
  assumes "at_state (mergeAttention prev n source) = Waiting" "\<forall>p. prev = Some p \<longrightarrow> at_state p \<noteq> Waiting"
  shows "source \<in> {js ''bel'', js ''osc'', js ''tmux''}"
  using assms by (auto simp: mergeAttention_def split: if_splits option.splits)

section \<open>Properties\<close>

text \<open>
  Over any sequence of signals a session is waiting at the end only if it was waiting before
  or one of the signals came from a bell, an OSC message or a tmux alert; silence changes nothing,
  and a signal that is not about waiting always takes effect. Whatever happens, a notification is
  only produced when its preference is on, never for a running session.\<close>

theorem waiting_needs_a_signal:
  fixes prev :: session_attention and sigs :: "(session_attention \<times> jsstr) list"
  defines "final \<equiv> foldl (\<lambda>p (n, src). mergeAttention (Some p) n src) prev sigs"
  shows "(at_state final = Waiting \<longrightarrow>
            at_state prev = Waiting \<or> (\<exists>(n, src) \<in> set sigs. at_state n = Waiting \<and> src \<in> {js ''bel'', js ''osc'', js ''tmux''}))
     \<and> mergeAttention (Some final) n (js ''silence'') = final
     \<and> (src \<noteq> js ''silence'' \<and> at_state n \<noteq> Waiting \<longrightarrow> at_state (mergeAttention (Some final) n src) = at_state n)
     \<and> (maybeNotifyAttention prefs (at_state final) t b i \<noteq> None \<longrightarrow>
          at_state final \<noteq> Running \<and> notify_wanted prefs (at_state final))"
proof -
  have step: "at_state (mergeAttention (Some p) n src) = Waiting \<Longrightarrow>
      at_state p = Waiting \<or> at_state n = Waiting \<and> src \<in> {js ''bel'', js ''osc'', js ''tmux''}" for p n src
    using merge_waiting_source [of "Some p" n src] by (auto simp: mergeAttention_def split: if_splits)
  have "at_state (foldl (\<lambda>p (n, src). mergeAttention (Some p) n src) prev sigs) = Waiting \<Longrightarrow>
      at_state prev = Waiting \<or> (\<exists>(n, src) \<in> set sigs. at_state n = Waiting \<and> src \<in> {js ''bel'', js ''osc'', js ''tmux''})"
  proof (induction sigs arbitrary: prev)
    case (Cons a sigs)
    obtain n src where a: "a = (n, src)" by (cases a)
    from Cons.IH [of "mergeAttention (Some prev) n src"] Cons.prems step [of prev n src] show ?case by (auto simp: a)
  qed simp
  moreover have "maybeNotifyAttention prefs (at_state final) t b i \<noteq> None \<Longrightarrow>
      at_state final \<noteq> Running \<and> notify_wanted prefs (at_state final)"
    by (auto simp: maybeNotifyAttention_def notify_wanted_def split: if_splits)
  ultimately show ?thesis by (simp add: final_def merge_silence merge_non_waiting)
qed

theorem waiting_needs_a_signal_witness:
  "at_state (mergeAttention (Some (attention Running None None)) (attention Waiting None None) (js ''activity'')) \<noteq> Waiting"
  using waiting_needs_a_signal [of "attention Running None None" "[(attention Waiting None None, js ''activity'')]"]
  by (auto simp: js_def)

end
