(* ===== verification/Workspace.thy ===== *)
theory Workspace
  imports Layout Attention Launch
begin

text \<open>
  The workspace component (\<^verbatim>\<open>App.tsx\<close>): the open tabs, the active and the zoomed tab, the pane
  layout, the navigation, and the bookkeeping kept per session. React state and refs are the
  fields of one record. A callback reads the values of the render it was created in, not the
  current ones: such an operation takes that render as its argument \<open>v\<close> (\<open>view\<close>), while updates
  written as functions of the current value, and refs, read the record. \<open>render ws\<close> is the view
  of the current state.

  Calls that leave the component (terminal registry, backend, notifications) are appended to
  \<open>ws_effects\<close> in order. An asynchronous operation is one definition per stretch between awaits,
  with the awaited result as an argument.
\<close>

section \<open>Data\<close>

datatype tab_kind = TerminalTab | LocalTab | SftpTab

record tab =
  tab_id :: session_id
  tab_host :: jsstr
  tab_title :: jsstr
  tab_kind :: tab_kind
  tab_connected :: bool
  tab_muxName :: "jsstr option"
  tab_color :: "jsstr option"
  tab_remotePath :: "jsstr option"
  tab_localPath :: "jsstr option"
  tab_cwd :: "jsstr option"
  tab_gitBranch :: "jsstr option"
  tab_projectId :: "jsstr option"
  tab_agentForward :: "jsstr option"
  tab_agentForwardHint :: "jsstr option"

definition is_pty :: "tab \<Rightarrow> bool" where
  "is_pty t \<longleftrightarrow> tab_kind t = TerminalTab \<or> tab_kind t = LocalTab"

text \<open>A tab with the required fields; the optional ones are absent.\<close>

definition plain_tab :: "session_id \<Rightarrow> jsstr \<Rightarrow> jsstr \<Rightarrow> tab_kind \<Rightarrow> bool \<Rightarrow> jsstr option \<Rightarrow> tab" where
  "plain_tab sid host title kind conn color =
     \<lparr>tab_id = sid, tab_host = host, tab_title = title, tab_kind = kind, tab_connected = conn,
      tab_muxName = None, tab_color = color, tab_remotePath = None, tab_localPath = None, tab_cwd = None,
      tab_gitBranch = None, tab_projectId = None, tab_agentForward = None, tab_agentForwardHint = None\<rparr>"

record host =
  h_id :: jsstr
  h_label :: jsstr
  h_hostname :: jsstr
  h_port :: int
  h_username :: jsstr
  h_color :: "jsstr option"
  h_lastConnectedAt :: "jsstr option"

datatype project_location = LocalPath jsstr | RemotePath jsstr jsstr

record project =
  p_id :: jsstr
  p_name :: jsstr
  p_location :: project_location
  p_defaultAgent :: "jsstr option"
  p_assistKeyId :: "jsstr option"
  p_lastOpened :: "jsstr option"

record running_session =
  r_id :: jsstr
  r_projectId :: jsstr
  r_projectName :: jsstr
  r_hostId :: jsstr
  r_muxSession :: jsstr

datatype app_mode = LauncherMode | WorkspaceMode

datatype rail_nav = NavOverview | NavProjects | NavHosts | NavTunnels | NavIdentities | NavFiles | NavAssist

datatype surface = VaultSurface | AssistSurface | AgentsSurface | IdentitiesSurface

datatype launcher_section = AllSection | HostsSection | ProjectsSection

datatype ws_effect =
    CreateTerminal session_id
  | RestoreScrollback session_id jsstr
  | PersistScrollback session_id jsstr
  | DisposeTerminal session_id
  | CloseTerminal session_id
  | CloseSftp session_id
  | FocusTerminal session_id
  | WriteTerminal session_id "nat list"
  | TerminalMessage session_id jsstr
  | QueueBlockPhase session_id jsstr "int option"
  | FlushBlockPhases session_id
  | SendInput session_id jsstr
  | InjectText session_id jsstr bool bool  \<comment> \<open>run, clear the line first\<close>
  | MarkAgentLaunched session_id
  | ClearSnapshot jsstr
  | KillMux jsstr jsstr
  | EndRunning jsstr
  | UpdateProject jsstr jsstr
  | Notify notification
  | DockBadge nat
  | ReconnectTimer session_id int
  | CopySelection session_id
  | ClearTerm session_id
  | ResetTerm session_id

text \<open>
  The closure that \<^verbatim>\<open>attachOutput\<close> registers for a session: the render it was made in, its closing
  message, and the events held back until the scrollback has been restored. The number of the
  closure is its identity; each call makes a new one.
\<close>

datatype terminal_event =
    DataEvent jsstr bool
  | BlockEvent jsstr "int option"
  | AttentionEvent attention_state "jsstr option" jsstr
  | ClosedEvent

record view =
  v_tabs :: "tab list"
  v_activeId :: "session_id option"
  v_zoomedId :: "session_id option"
  v_layout :: "layout option"
  v_hosts :: "host list"
  v_projects :: "project list"
  v_railNav :: rail_nav
  v_activeSurface :: "surface option"
  v_appMode :: app_mode

record attachment =
  a_serial :: nat
  a_view :: view
  a_closedMessage :: jsstr
  a_ready :: bool
  a_pending :: "terminal_event list"

record workspace =
  ws_hosts :: "host list"
  ws_projects :: "project list"
  ws_running :: "running_session list"
  ws_sessionAttention :: "jsstr \<Rightarrow> session_attention option"
  ws_ptyAttention :: "session_id \<Rightarrow> session_attention option"
  ws_ptyToRunning :: "session_id \<Rightarrow> jsstr option"
  ws_tabs :: "tab list"
  ws_appMode :: app_mode
  ws_activeId :: "session_id option"
  ws_layout :: "layout option"
  ws_zoomedId :: "session_id option"
  ws_findSessionId :: "session_id option"
  ws_tunnels :: "session_id \<Rightarrow> nat option"
  ws_outputHandlers :: "session_id \<Rightarrow> attachment option"
  ws_transcripts :: "session_id \<Rightarrow> jsstr option"
  ws_lastExitCodes :: "session_id \<Rightarrow> int option"
  ws_reconnectAttempts :: "session_id \<Rightarrow> nat option"
  ws_connectingHostId :: "jsstr option"
  ws_error :: "jsstr option"
  ws_agentNotice :: "jsstr option"
  ws_settingsOpen :: bool
  ws_settingsSection :: jsstr
  ws_activeSurface :: "surface option"
  ws_railNav :: rail_nav
  ws_launcherSection :: launcher_section
  ws_assistOpen :: bool
  ws_paletteOpen :: bool
  ws_muxHint :: "session_id option"
  ws_uuids :: nat
  ws_closures :: nat
  ws_effects :: "ws_effect list"

definition render :: "workspace \<Rightarrow> view" where
  "render ws = \<lparr>v_tabs = ws_tabs ws, v_activeId = ws_activeId ws, v_zoomedId = ws_zoomedId ws, v_layout = ws_layout ws,
     v_hosts = ws_hosts ws, v_projects = ws_projects ws, v_railNav = ws_railNav ws,
     v_activeSurface = ws_activeSurface ws, v_appMode = ws_appMode ws\<rparr>"

definition emit :: "ws_effect list \<Rightarrow> workspace \<Rightarrow> workspace" where
  "emit es ws = ws\<lparr>ws_effects := ws_effects ws @ es\<rparr>"

abbreviation find_tab :: "session_id \<Rightarrow> tab list \<Rightarrow> tab option" where
  "find_tab \<equiv> find_row tab_id"

definition active_tab :: "view \<Rightarrow> tab option" where
  "active_tab v = Option.bind (v_activeId v) (\<lambda>a. find_tab a (v_tabs v))"

section \<open>Navigation\<close>

text \<open>A split layout that already shows the session is kept; otherwise the session fills the workspace.\<close>

definition is_split :: "layout option \<Rightarrow> bool" where
  "is_split l = (case l of Some (Split _ _ _ _ _) \<Rightarrow> True | _ \<Rightarrow> False)"

definition in_layout :: "layout option \<Rightarrow> session_id \<Rightarrow> bool" where
  "in_layout l sid = (case l of None \<Rightarrow> False | Some t \<Rightarrow> containsSession t sid)"

definition activateSession :: "session_id \<Rightarrow> workspace \<Rightarrow> workspace" where
  "activateSession sid ws =
     ws\<lparr>ws_activeId := Some sid,
        ws_zoomedId := (if ws_zoomedId ws \<noteq> None \<and> ws_zoomedId ws \<noteq> Some sid then None else ws_zoomedId ws),
        ws_layout := (if is_split (ws_layout ws) \<and> in_layout (ws_layout ws) sid then ws_layout ws else Some (Leaf sid))\<rparr>"

definition enterWorkspace :: "workspace \<Rightarrow> workspace" where
  "enterWorkspace ws =
     ws\<lparr>ws_railNav := (if ws_railNav ws = NavFiles \<or> ws_railNav ws = NavTunnels then NavHosts else ws_railNav ws),
        ws_appMode := WorkspaceMode\<rparr>"

definition surfaceForSettingsSection :: "jsstr \<Rightarrow> surface option" where
  "surfaceForSettingsSection section =
     (if section = js ''vault'' \<or> section = js ''sync'' then Some VaultSurface
      else if section = js ''ai'' then Some AssistSurface
      else if section = js ''agents'' then Some AgentsSurface
      else None)"

definition openSurface :: "surface \<Rightarrow> workspace \<Rightarrow> workspace" where
  "openSurface s ws =
     ws\<lparr>ws_settingsOpen := False, ws_paletteOpen := False, ws_activeSurface := Some s,
        ws_railNav := (if s = IdentitiesSurface then NavIdentities else if s = AssistSurface then NavAssist else ws_railNav ws)\<rparr>"

definition closeSurface :: "view \<Rightarrow> workspace \<Rightarrow> workspace" where
  "closeSurface v ws =
     ws\<lparr>ws_activeSurface := None,
        ws_railNav := (if v_railNav v = NavIdentities \<or> v_railNav v = NavAssist then NavHosts else ws_railNav ws)\<rparr>"

definition prefSections :: "jsstr list" where
  "prefSections = map js [''general'', ''appearance'', ''terminal'', ''shell'', ''keyboard'', ''advanced'']"

definition openSettings :: "jsstr \<Rightarrow> workspace \<Rightarrow> workspace" where
  "openSettings section ws =
     (case surfaceForSettingsSection section of
        Some s \<Rightarrow> openSurface s ws
      | None \<Rightarrow> ws\<lparr>ws_settingsSection := (if section \<in> set prefSections then section else js ''general''),
                    ws_activeSurface := None, ws_settingsOpen := True\<rparr>)"

definition goLauncher :: "view \<Rightarrow> workspace \<Rightarrow> workspace" where
  "goLauncher v ws =
     ws\<lparr>ws_appMode := LauncherMode, ws_assistOpen := False, ws_zoomedId := None,
        ws_railNav := (if v_activeSurface v = None then NavHosts else ws_railNav ws)\<rparr>"

definition handleRailNav :: "view \<Rightarrow> rail_nav \<Rightarrow> workspace \<Rightarrow> workspace" where
  "handleRailNav v nav ws =
     (let ws = ws\<lparr>ws_railNav := nav\<rparr> in
      case nav of
        NavOverview \<Rightarrow> goLauncher v (closeSurface v (ws\<lparr>ws_launcherSection := AllSection\<rparr>))
      | NavHosts \<Rightarrow> goLauncher v (closeSurface v (ws\<lparr>ws_launcherSection := HostsSection\<rparr>))
      | NavProjects \<Rightarrow> goLauncher v (closeSurface v (ws\<lparr>ws_launcherSection := ProjectsSection\<rparr>))
      | NavIdentities \<Rightarrow> openSurface IdentitiesSurface ws
      | NavAssist \<Rightarrow> openSurface AssistSurface ws
      | _ \<Rightarrow> let ws = ws\<lparr>ws_activeSurface := None\<rparr> in
             if v_appMode v = WorkspaceMode then goLauncher v ws else ws)"

definition selectTab :: "view \<Rightarrow> session_id \<Rightarrow> workspace \<Rightarrow> workspace" where
  "selectTab v sid ws =
     (let ws = enterWorkspace (activateSession sid ws) in
      case find_tab sid (v_tabs v) of
        Some t \<Rightarrow> if tab_kind t \<noteq> SftpTab then emit [FocusTerminal sid] ws else ws
      | None \<Rightarrow> ws)"

text \<open>Next and previous tab of the menu: positions modulo the number of tabs, \<open>- 1\<close> when none is active.\<close>

definition findIndex :: "('a \<Rightarrow> bool) \<Rightarrow> 'a list \<Rightarrow> int" where
  "findIndex p xs = (case List.find (\<lambda>i. p (xs ! i)) [0..<length xs] of Some i \<Rightarrow> int i | None \<Rightarrow> - 1)"

definition active_index :: "workspace \<Rightarrow> int" where
  "active_index ws = findIndex (\<lambda>t. Some (tab_id t) = ws_activeId ws) (ws_tabs ws)"

text \<open>\<^verbatim>\<open>%\<close> takes the sign of the dividend; \<^verbatim>\<open>list[-0]\<close> is the first element.\<close>

definition js_rem :: "int \<Rightarrow> int \<Rightarrow> int" where
  "js_rem a b = (if a < 0 then - ((- a) mod b) else a mod b)"

definition tab_at :: "tab list \<Rightarrow> int \<Rightarrow> tab option" where
  "tab_at ts i = (if 0 \<le> i \<and> i < int (length ts) then Some (ts ! nat i) else None)"

definition next_tab :: "view \<Rightarrow> workspace \<Rightarrow> workspace" where
  "next_tab v ws =
     (let ts = ws_tabs ws in
      if ts = [] then ws
      else case tab_at ts (js_rem (active_index ws + 1) (int (length ts))) of
        Some t \<Rightarrow> selectTab v (tab_id t) ws | None \<Rightarrow> ws)"

definition prev_tab :: "view \<Rightarrow> workspace \<Rightarrow> workspace" where
  "prev_tab v ws =
     (let ts = ws_tabs ws in
      if ts = [] then ws
      else case tab_at ts (js_rem (active_index ws - 1 + int (length ts)) (int (length ts))) of
        Some t \<Rightarrow> selectTab v (tab_id t) ws | None \<Rightarrow> ws)"

text \<open>What is shown: the layout only wins when it is a split with the active session.\<close>

definition effectiveLayout :: "view \<Rightarrow> layout option" where
  "effectiveLayout v =
     (case v_activeId v of
        Some a \<Rightarrow> if is_split (v_layout v) \<and> in_layout (v_layout v) a then v_layout v else Some (Leaf a)
      | None \<Rightarrow>
          (case v_layout v of
             Some (Leaf s) \<Rightarrow> Some (Leaf s)
           | _ \<Rightarrow> (case v_tabs v of t # _ \<Rightarrow> Some (Leaf (tab_id t)) | [] \<Rightarrow> None)))"

text \<open>
  The sessions that are visible: the pool shows the active terminal unless a split owns it, a split
  shows its panes (one pane when zoomed or narrow) as far as they have a tab, and an active file
  browser lies on top.
\<close>

fun firstLeaf :: "layout \<Rightarrow> session_id" where
  "firstLeaf (Leaf s) = s"
| "firstLeaf (Split i o1 r a b) = firstLeaf a"

definition split_panes :: "view \<Rightarrow> bool \<Rightarrow> layout \<Rightarrow> session_id list" where
  "split_panes v narrow l =
     (if narrow \<or> v_zoomedId v \<noteq> None
      then [case v_zoomedId v of Some z \<Rightarrow> z | None \<Rightarrow> (case v_activeId v of Some a \<Rightarrow> a | None \<Rightarrow> firstLeaf l)]
      else collectSessionIds l)"

definition shown_sessions :: "view \<Rightarrow> bool \<Rightarrow> session_id list" where
  "shown_sessions v narrow =
     (if v_appMode v \<noteq> WorkspaceMode then []
      else
        let eff = effectiveLayout v;
            owned = (\<lambda>t. is_split eff \<and> in_layout eff (tab_id t));
            pool = map tab_id (filter (\<lambda>t. is_pty t \<and> \<not> owned t \<and> v_activeId v = Some (tab_id t)) (v_tabs v));
            panes = (case eff of
                       Some (Split i o1 r a b) \<Rightarrow>
                         filter (\<lambda>s. find_tab s (v_tabs v) \<noteq> None) (split_panes v narrow (Split i o1 r a b))
                     | _ \<Rightarrow> []);
            files = (case active_tab v of Some t \<Rightarrow> if tab_kind t = SftpTab then [tab_id t] else [] | None \<Rightarrow> [])
        in pool @ panes @ files)"

section \<open>Closing and moving tabs\<close>

definition neighbour :: "int \<Rightarrow> tab list \<Rightarrow> session_id option" where
  "neighbour index ts = map_option tab_id (tab_at ts (max 0 (index - 1)))"

definition remove_pane :: "session_id \<Rightarrow> layout option \<Rightarrow> layout option" where
  "remove_pane sid l = Option.bind l (\<lambda>t. removeSession t sid)"

text \<open>Everything kept per session is forgotten.\<close>

definition forget_session :: "session_id \<Rightarrow> workspace \<Rightarrow> workspace" where
  "forget_session sid ws =
     ws\<lparr>ws_outputHandlers := (ws_outputHandlers ws)(sid := None),
        ws_transcripts := (ws_transcripts ws)(sid := None),
        ws_lastExitCodes := (ws_lastExitCodes ws)(sid := None),
        ws_ptyToRunning := (ws_ptyToRunning ws)(sid := None),
        ws_ptyAttention := (ws_ptyAttention ws)(sid := None)\<rparr>"

text \<open>The terminal of a tab is disposed, after its scrollback was saved for its project.\<close>

definition persist_and_dispose :: "tab \<Rightarrow> ws_effect list" where
  "persist_and_dispose t =
     (case nonempty (tab_projectId t) of None \<Rightarrow> [] | Some p \<Rightarrow> [PersistScrollback (tab_id t) p])
       @ [DisposeTerminal (tab_id t)]"

definition close_effects :: "session_id \<Rightarrow> tab option \<Rightarrow> ws_effect list" where
  "close_effects sid tab =
     (case tab of
        Some t \<Rightarrow> if is_pty t then persist_and_dispose t @ [CloseTerminal sid] else [CloseSftp sid]
      | None \<Rightarrow> [CloseSftp sid])"

definition kills_mux :: "tab option \<Rightarrow> bool \<Rightarrow> workspace \<Rightarrow> (jsstr \<times> jsstr) option" where
  "kills_mux tab keepMux ws =
     (case tab of None \<Rightarrow> None
      | Some t \<Rightarrow>
          if \<not> keepMux \<and> tab_kind t = TerminalTab \<and> nonempty (tab_projectId t) = None
             \<and> nonempty (ws_ptyToRunning ws (tab_id t)) = None
          then map_option (Pair (tab_host t)) (nonempty (tab_muxName t)) else None)"

definition closeTab :: "view \<Rightarrow> session_id \<Rightarrow> bool \<Rightarrow> workspace \<Rightarrow> workspace" where
  "closeTab v sid keepMux ws =
     (let tab = find_tab sid (v_tabs v);
          index = findIndex (\<lambda>t. tab_id t = sid) (v_tabs v);
          nextTabs = drop_rows tab_id sid (v_tabs v);
          ws = ws\<lparr>ws_tunnels := (ws_tunnels ws)(sid := None)\<rparr>;
          ws = (case kills_mux tab keepMux ws of Some (h, m) \<Rightarrow> emit [KillMux h m] ws | None \<Rightarrow> ws);
          ws = ws\<lparr>ws_reconnectAttempts := (ws_reconnectAttempts ws)(sid := None),
                  ws_layout := remove_pane sid (ws_layout ws),
                  ws_zoomedId := (if v_zoomedId v = Some sid then None else ws_zoomedId ws),
                  ws_tabs := nextTabs,
                  ws_activeId := (if v_activeId v = Some sid then neighbour index nextTabs else ws_activeId ws)\<rparr>;
          ws = (if nextTabs = [] then goLauncher v ws else ws)
      in emit (close_effects sid tab) (forget_session sid ws))"

definition toggleZoom :: "view \<Rightarrow> workspace \<Rightarrow> workspace" where
  "toggleZoom v ws =
     (case v_activeId v of None \<Rightarrow> ws
      | Some a \<Rightarrow>
          if v_zoomedId v = None \<and> \<not> is_split (v_layout v) then ws
          else ws\<lparr>ws_zoomedId := (if ws_zoomedId ws = Some a then None else Some a)\<rparr>)"

text \<open>
  A tab moves to another window: the message is sent, then (after the await) the tab is removed
  here. The layout travels as JSON text; the model carries the tree, \<open>None\<close> for \<^verbatim>\<open>null\<close> and for text
  that does not parse.
\<close>

record transfer =
  tr_tabs :: "tab list"
  tr_layout :: "layout option"
  tr_activeId :: "session_id option"
  tr_zoomedId :: "session_id option"

definition move_message :: "view \<Rightarrow> tab \<Rightarrow> transfer" where
  "move_message v t =
     \<lparr>tr_tabs = [t], tr_layout = Some (Leaf (tab_id t)), tr_activeId = Some (tab_id t),
      tr_zoomedId = (if v_zoomedId v = Some (tab_id t) then Some (tab_id t) else None)\<rparr>"

definition move_done :: "view \<Rightarrow> tab \<Rightarrow> workspace \<Rightarrow> workspace" where
  "move_done v t ws =
     (let sid = tab_id t;
          index = findIndex (\<lambda>u. tab_id u = sid) (ws_tabs ws);
          nextTabs = drop_rows tab_id sid (ws_tabs ws);
          ws = ws\<lparr>ws_tabs := nextTabs,
                  ws_activeId := (if v_activeId v = Some sid then neighbour index nextTabs else ws_activeId ws),
                  ws_layout := remove_pane sid (ws_layout ws),
                  ws_zoomedId := (if v_zoomedId v = Some sid then None else ws_zoomedId ws)\<rparr>
      in if is_pty t
         then emit (persist_and_dispose t) (ws\<lparr>ws_outputHandlers := (ws_outputHandlers ws)(sid := None)\<rparr>)
         else ws)"

text \<open>\<^verbatim>\<open>Map\<close> keeps the position of a key that is set again and appends a new one.\<close>

definition upsert :: "tab \<Rightarrow> tab list \<Rightarrow> tab list" where
  "upsert t ts = (if find_tab (tab_id t) ts = None then ts @ [t] else map_rows tab_id (tab_id t) (\<lambda>_. t) ts)"

text \<open>\<^verbatim>\<open>wireTerminal\<close> and \<^verbatim>\<open>attachOutput\<close> up to its await.\<close>

definition wireTerminal :: "session_id \<Rightarrow> workspace \<Rightarrow> workspace" where
  "wireTerminal sid ws = emit [CreateTerminal sid] ws"

definition attachOutput :: "view \<Rightarrow> session_id \<Rightarrow> jsstr \<Rightarrow> jsstr option \<Rightarrow> workspace \<Rightarrow> workspace" where
  "attachOutput v sid closedMessage restoreProjectId ws =
     (let r = nonempty restoreProjectId;
          ws = ws\<lparr>ws_outputHandlers := (ws_outputHandlers ws)(sid \<mapsto>
                 \<lparr>a_serial = ws_closures ws, a_view = v, a_closedMessage = closedMessage, a_ready = (r = None), a_pending = []\<rparr>),
                  ws_closures := Suc (ws_closures ws)\<rparr>
      in case r of None \<Rightarrow> ws | Some p \<Rightarrow> emit [RestoreScrollback sid p] ws)"

definition closed_message :: "tab \<Rightarrow> jsstr" where
  "closed_message t = (if tab_kind t = LocalTab then js ''Local shell closed.'' else js ''Connection closed.'')"

definition adopt_tab :: "view \<Rightarrow> tab \<Rightarrow> workspace \<Rightarrow> workspace" where
  "adopt_tab v t ws =
     (if is_pty t then attachOutput v (tab_id t) (closed_message t) (tab_projectId t) (wireTerminal (tab_id t) ws) else ws)"

definition adoptTransfer :: "view \<Rightarrow> transfer \<Rightarrow> workspace \<Rightarrow> workspace" where
  "adoptTransfer v tr ws =
     (let ws = ws\<lparr>ws_tabs := fold upsert (tr_tabs tr) (ws_tabs ws),
                  ws_layout := tr_layout tr,
                  ws_activeId := (case tr_activeId tr of Some a \<Rightarrow> Some a | None \<Rightarrow> ws_activeId ws),
                  ws_zoomedId := (case tr_zoomedId tr of Some z \<Rightarrow> Some z | None \<Rightarrow> ws_zoomedId ws)\<rparr>
      in fold (adopt_tab v) (tr_tabs tr) ws)"

text \<open>A secondary window that is closed hands everything back.\<close>

definition reclaim_message :: "workspace \<Rightarrow> transfer" where
  "reclaim_message ws =
     \<lparr>tr_tabs = ws_tabs ws, tr_layout = ws_layout ws, tr_activeId = ws_activeId ws, tr_zoomedId = ws_zoomedId ws\<rparr>"

definition window_closing :: "workspace \<Rightarrow> workspace" where
  "window_closing ws =
     fold (\<lambda>t ws. if is_pty t
                  then emit (persist_and_dispose t) (ws\<lparr>ws_outputHandlers := (ws_outputHandlers ws)(tab_id t := None)\<rparr>)
                  else ws) (ws_tabs ws) ws"

section \<open>Locking and deleting\<close>

definition dispose_tab :: "tab \<Rightarrow> workspace \<Rightarrow> workspace" where
  "dispose_tab t ws =
     emit (persist_and_dispose t @ [CloseTerminal (tab_id t)])
       (ws\<lparr>ws_outputHandlers := (ws_outputHandlers ws)(tab_id t := None)\<rparr>)"

text \<open>\<^verbatim>\<open>lockNow\<close> up to the call of the backend.\<close>

definition lockNow :: "view \<Rightarrow> workspace \<Rightarrow> workspace" where
  "lockNow v ws =
     (let ws = ws\<lparr>ws_error := None\<rparr>;
          ws = fold (\<lambda>t ws. if is_pty t then dispose_tab t ws else emit [CloseSftp (tab_id t)] ws) (v_tabs v) ws;
          localTabs = filter (\<lambda>t. tab_kind t = LocalTab) (v_tabs v)
      in ws\<lparr>ws_tabs := localTabs, ws_layout := None, ws_zoomedId := None,
            ws_activeId := map_option tab_id (tab_at localTabs 0)\<rparr>)"

text \<open>
  The effect that runs when the vault is locked: terminals are disposed (the saving of their
  scrollback is awaited in between, the state below is set at once), only local tabs stay.
\<close>

definition lock_tabs :: "workspace \<Rightarrow> workspace" where
  "lock_tabs ws =
     (let closing = filter is_pty (ws_tabs ws);
          local = filter (\<lambda>t. tab_kind t = LocalTab) (ws_tabs ws);
          ws = fold (\<lambda>t ws. emit (persist_and_dispose t) (ws\<lparr>ws_outputHandlers := (ws_outputHandlers ws)(tab_id t := None)\<rparr>)) closing ws
      in ws\<lparr>ws_layout := None, ws_zoomedId := None, ws_appMode := LauncherMode, ws_tabs := local,
            ws_activeId := (if list_ex (\<lambda>t. Some (tab_id t) = ws_activeId ws) local then ws_activeId ws
                            else map_option tab_id (tab_at local 0)),
            ws_paletteOpen := False, ws_settingsOpen := False\<rparr>)"

text \<open>The tabs that go away with a deleted host or project; afterwards the first remaining tab is active.\<close>

definition drop_related :: "view \<Rightarrow> (tab \<Rightarrow> bool) \<Rightarrow> workspace \<Rightarrow> workspace" where
  "drop_related v rel ws =
     (let related = filter rel (v_tabs v);
          nextTabs = filter (\<lambda>t. \<not> rel t) (v_tabs v);
          ws = ws\<lparr>ws_tabs := nextTabs,
                  ws_activeId := (if list_ex (\<lambda>t. Some (tab_id t) = v_activeId v) related
                                  then map_option tab_id (tab_at nextTabs 0) else ws_activeId ws),
                  ws_layout := panes.remove_many (ws_layout ws) (map tab_id related)\<rparr>
      in if nextTabs = [] then goLauncher v ws else ws)"

text \<open>\<^verbatim>\<open>confirmDelete\<close> after the backend deleted the host.\<close>

definition host_deleted :: "view \<Rightarrow> jsstr \<Rightarrow> workspace \<Rightarrow> workspace" where
  "host_deleted v hid ws =
     (let ws = ws\<lparr>ws_hosts := drop_rows h_id hid (ws_hosts ws)\<rparr>;
          ws = fold (\<lambda>t ws. if tab_kind t = TerminalTab then dispose_tab t ws else emit [CloseSftp (tab_id t)] ws)
                 (filter (\<lambda>t. tab_host t = hid) (v_tabs v)) ws
      in drop_related v (\<lambda>t. tab_host t = hid) ws)"

definition project_deleted :: "view \<Rightarrow> jsstr \<Rightarrow> workspace \<Rightarrow> workspace" where
  "project_deleted v pid ws =
     (let ws = emit [ClearSnapshot pid]
                 (ws\<lparr>ws_projects := drop_rows p_id pid (ws_projects ws),
                     ws_running := drop_rows r_projectId pid (ws_running ws)\<rparr>);
          ws = fold (\<lambda>t ws. if is_pty t
                            then emit [DisposeTerminal (tab_id t), CloseTerminal (tab_id t)]
                                   (ws\<lparr>ws_outputHandlers := (ws_outputHandlers ws)(tab_id t := None)\<rparr>)
                            else ws)
                 (filter (\<lambda>t. tab_projectId t = Some pid) (v_tabs v)) ws
      in drop_related v (\<lambda>t. tab_projectId t = Some pid) ws)"

definition failed :: "jsstr \<Rightarrow> workspace \<Rightarrow> workspace" where
  "failed reason ws = ws\<lparr>ws_error := Some reason\<rparr>"

section \<open>Opening sessions\<close>

record connect_options =
  co_forceNew :: bool
  co_muxName :: "jsstr option"

text \<open>An open terminal of the host to focus instead of connecting again.\<close>

definition existing_terminal :: "host \<Rightarrow> connect_options \<Rightarrow> workspace \<Rightarrow> tab option" where
  "existing_terminal h opts ws =
     (if co_forceNew opts then None
      else List.find (\<lambda>t. tab_host t = h_id h \<and> tab_kind t = TerminalTab \<and> tab_connected t) (ws_tabs ws))"

definition connect_mux :: "connect_options \<Rightarrow> jsstr \<Rightarrow> jsstr" where
  "connect_mux opts uuid = (case co_muxName opts of Some m \<Rightarrow> m | None \<Rightarrow> js ''tethra-'' @ take 8 uuid)"

definition pending_tab :: "host \<Rightarrow> session_id \<Rightarrow> jsstr \<Rightarrow> tab" where
  "pending_tab h pendingId mux = (plain_tab pendingId (h_id h) (h_label h) TerminalTab False (h_color h))\<lparr>tab_muxName := Some mux\<rparr>"

text \<open>\<^verbatim>\<open>connect\<close> up to the call of \<^verbatim>\<open>openTerminal\<close>.\<close>

definition connect_start :: "host \<Rightarrow> connect_options \<Rightarrow> session_id \<Rightarrow> jsstr \<Rightarrow> workspace \<Rightarrow> workspace" where
  "connect_start h opts pendingId mux ws =
     (case existing_terminal h opts ws of
        Some t \<Rightarrow> emit [FocusTerminal (tab_id t)] (enterWorkspace (activateSession (tab_id t) ws))
      | None \<Rightarrow>
          let ws = ws\<lparr>ws_error := None, ws_connectingHostId := Some (h_id h)\<rparr>;
              ws = ws\<lparr>ws_tabs := ws_tabs ws @ [pending_tab h pendingId mux]\<rparr>
          in enterWorkspace (activateSession pendingId ws))"

record opened_terminal =
  op_sessionId :: session_id
  op_agentForward :: "jsstr option"
  op_agentForwardHint :: "jsstr option"

definition connected_tab :: "host \<Rightarrow> jsstr \<Rightarrow> opened_terminal \<Rightarrow> tab" where
  "connected_tab h mux opn =
     (plain_tab (op_sessionId opn) (h_id h) (h_label h) TerminalTab True (h_color h))
       \<lparr>tab_muxName := Some mux, tab_agentForward := op_agentForward opn, tab_agentForwardHint := op_agentForwardHint opn\<rparr>"

text \<open>The terminal is open; \<open>v\<close> is the render in which \<^verbatim>\<open>connect\<close> was called.\<close>

definition connect_opened ::
  "view \<Rightarrow> host \<Rightarrow> session_id \<Rightarrow> jsstr \<Rightarrow> opened_terminal \<Rightarrow> jsstr \<Rightarrow> workspace \<Rightarrow> workspace" where
  "connect_opened v h pendingId mux opn now ws =
     (let sid = op_sessionId opn;
          ws = attachOutput v sid (js ''Connection closed.'') None (wireTerminal sid ws);
          ws = ws\<lparr>ws_hosts := map_rows h_id (h_id h) (\<lambda>e. e\<lparr>h_lastConnectedAt := Some now\<rparr>) (ws_hosts ws),
                  ws_tabs := map_rows tab_id pendingId (\<lambda>_. connected_tab h mux opn) (ws_tabs ws)\<rparr>
      in (activateSession sid ws)\<lparr>ws_connectingHostId := None\<rparr>)"

definition connect_failed :: "session_id \<Rightarrow> jsstr \<Rightarrow> workspace \<Rightarrow> workspace" where
  "connect_failed pendingId reason ws =
     ws\<lparr>ws_tabs := drop_rows tab_id pendingId (ws_tabs ws), ws_error := Some reason, ws_connectingHostId := None\<rparr>"

text \<open>Six hundred milliseconds after reattaching to a named multiplexer session a fresh prompt is requested.\<close>

definition nudge_prompt :: "session_id \<Rightarrow> workspace \<Rightarrow> workspace" where
  "nudge_prompt sid ws = emit [SendInput sid [13]] ws"

definition LOCAL_COLOR :: jsstr where
  "LOCAL_COLOR = js ''#8B8B8B''"

text \<open>\<^verbatim>\<open>openLocal\<close>, \<^verbatim>\<open>openFiles\<close> and \<^verbatim>\<open>splitPane\<close> clear the error before they call the backend.\<close>

definition open_start :: "workspace \<Rightarrow> workspace" where
  "open_start ws = ws\<lparr>ws_error := None\<rparr>"

definition local_opened :: "view \<Rightarrow> session_id \<Rightarrow> workspace \<Rightarrow> workspace" where
  "local_opened v sid ws =
     (let ws = attachOutput v sid (js ''Local shell closed.'') None (wireTerminal sid ws);
          ws = ws\<lparr>ws_tabs := ws_tabs ws @ [plain_tab sid (js ''local'') (js ''Local'') LocalTab True (Some LOCAL_COLOR)]\<rparr>
      in enterWorkspace (activateSession sid ws))"

definition files_opened :: "host \<Rightarrow> session_id \<Rightarrow> jsstr \<Rightarrow> jsstr \<Rightarrow> workspace \<Rightarrow> workspace" where
  "files_opened h sid remotePath home ws =
     (let t = (plain_tab sid (h_id h) (h_label h @ js '' files'') SftpTab True (h_color h))
                \<lparr>tab_remotePath := Some remotePath, tab_localPath := Some home\<rparr>;
          ws = activateSession sid (ws\<lparr>ws_tabs := ws_tabs ws @ [t]\<rparr>)
      in enterWorkspace (ws\<lparr>ws_railNav := NavHosts\<rparr>))"

text \<open>The tab of a project, and its appearance when the scrollback is restored (\<open>hint\<close>: the probe asks for the tools hint).\<close>

definition project_tab :: "project \<Rightarrow> host option \<Rightarrow> opened_terminal \<Rightarrow> tab" where
  "project_tab p h opn =
     (case h of
        None \<Rightarrow> (plain_tab (op_sessionId opn) (js ''local'') (p_name p) LocalTab True (Some LOCAL_COLOR))\<lparr>tab_projectId := Some (p_id p)\<rparr>
      | Some h \<Rightarrow> (plain_tab (op_sessionId opn) (h_id h) (p_name p) TerminalTab True (h_color h))
                    \<lparr>tab_projectId := Some (p_id p), tab_agentForward := op_agentForward opn,
                     tab_agentForwardHint := op_agentForwardHint opn\<rparr>)"

definition project_shown :: "project \<Rightarrow> host option \<Rightarrow> opened_terminal \<Rightarrow> bool \<Rightarrow> workspace \<Rightarrow> workspace" where
  "project_shown p h opn hint ws =
     (let sid = op_sessionId opn;
          ws = enterWorkspace (activateSession sid (ws\<lparr>ws_tabs := ws_tabs ws @ [project_tab p h opn]\<rparr>))
      in if hint then ws\<lparr>ws_muxHint := Some sid\<rparr> else ws)"

text \<open>\<^verbatim>\<open>splitPane\<close>: the guard on the rendered active tab, then the new pane.\<close>

definition split_allowed :: "view \<Rightarrow> bool" where
  "split_allowed v = (case active_tab v of None \<Rightarrow> False | Some t \<Rightarrow> is_pty t)"

definition split_tab :: "view \<Rightarrow> tab \<Rightarrow> opened_terminal \<Rightarrow> tab" where
  "split_tab v t opn =
     (if tab_kind t = TerminalTab then
        (let h = find_row h_id (tab_host t) (v_hosts v) in
         (plain_tab (op_sessionId opn) (tab_host t) (case h of Some h \<Rightarrow> h_label h | None \<Rightarrow> tab_title t) TerminalTab True
            (or_else (Option.bind h h_color) (tab_color t)))
           \<lparr>tab_agentForward := op_agentForward opn, tab_agentForwardHint := op_agentForwardHint opn\<rparr>)
      else plain_tab (op_sessionId opn) (js ''local'') (js ''Local'') LocalTab True (Some LOCAL_COLOR))"

definition split_opened ::
  "(nat \<Rightarrow> jsstr) \<Rightarrow> view \<Rightarrow> orientation \<Rightarrow> opened_terminal \<Rightarrow> workspace \<Rightarrow> workspace" where
  "split_opened uuid v o1 opn ws =
     (case active_tab v of None \<Rightarrow> ws
      | Some t \<Rightarrow>
          if \<not> is_pty t then ws
          else
            let sid = op_sessionId opn;
                ws = attachOutput v sid (closed_message t) None (wireTerminal sid ws);
                (l, n) = splitLeaf uuid (ws_uuids ws) (case ws_layout ws of Some l \<Rightarrow> l | None \<Rightarrow> Leaf (tab_id t))
                           (tab_id t) sid o1
            in ws\<lparr>ws_tabs := ws_tabs ws @ [split_tab v t opn], ws_layout := Some l, ws_uuids := n, ws_activeId := Some sid\<rparr>)"

end
