(* ===== verification/TabStrip.thy ===== *)
theory TabStrip
  imports Workspace
begin

text \<open>
  What the tab strip promises (\<^verbatim>\<open>App.tsx\<close>): an abstract strip is the list of its tabs with the
  active one; opening appends and activates, closing activates the left neighbour. The
  operations of the workspace implement it when they run with the current render. With an
  older render they do not, which the last part shows.
\<close>

section \<open>The abstract strip\<close>

type_synonym strip = "session_id list \<times> session_id option"

definition strip_of :: "workspace \<Rightarrow> strip" where
  "strip_of ws = (map tab_id (ws_tabs ws), ws_activeId ws)"

definition strip_seen :: "view \<Rightarrow> strip" where
  "strip_seen v = (map tab_id (v_tabs v), v_activeId v)"

fun strip_open :: "session_id \<Rightarrow> strip \<Rightarrow> strip" where
  "strip_open x (ids, act) = (ids @ [x], Some x)"

fun strip_select :: "session_id \<Rightarrow> strip \<Rightarrow> strip" where
  "strip_select x (ids, act) = (ids, Some x)"

fun strip_rename :: "session_id \<Rightarrow> session_id \<Rightarrow> strip \<Rightarrow> strip" where
  "strip_rename x y (ids, act) = (map (\<lambda>i. if i = x then y else i) ids, Some y)"

definition after_close :: "'i \<Rightarrow> 'i list \<Rightarrow> 'i option" where
  "after_close x ids =
     (let left = takeWhile (\<lambda>i. i \<noteq> x) ids in
      if x \<in> set ids \<and> left \<noteq> [] then Some (last left)
      else case removeAll x ids of [] \<Rightarrow> None | i # _ \<Rightarrow> Some i)"

fun strip_close :: "session_id \<Rightarrow> strip \<Rightarrow> strip" where
  "strip_close x (ids, act) = (removeAll x ids, if act = Some x then after_close x ids else act)"

text \<open>
  An operation that runs with an older render closes in the strip that was \<open>seen\<close>: the tabs that were
  seen come back without the closed one, and the active tab is only replaced when it was seen active.
  Moving away takes the tab out of the current strip, but decides with the seen active tab.
\<close>

fun strip_close_seen :: "strip \<Rightarrow> session_id \<Rightarrow> strip \<Rightarrow> strip" where
  "strip_close_seen (seen, sact) x (ids, act) = (removeAll x seen, if sact = Some x then after_close x seen else act)"

fun strip_leave :: "strip \<Rightarrow> session_id \<Rightarrow> strip \<Rightarrow> strip" where
  "strip_leave (seen, sact) x (ids, act) = (removeAll x ids, if sact = Some x then after_close x ids else act)"

lemma strip_close_current: "strip_close_seen s x s = strip_close x s" "strip_leave s x s = strip_close x s"
  by (cases s; simp)+

section \<open>The contract\<close>

text \<open>
  The laws of a strip, for any state that has tabs and an active tab. Closing the active tab
  again and again empties the strip, one tab at a time.
\<close>

locale tab_strip =
  fixes ids :: "'s \<Rightarrow> 'i list" and active :: "'s \<Rightarrow> 'i option" and close_tab :: "'i \<Rightarrow> 's \<Rightarrow> 's"
  assumes ids_close: "ids (close_tab x s) = removeAll x (ids s)"
    and active_close: "active (close_tab x s) = (if active s = Some x then after_close x (ids s) else active s)"
begin

definition close_active :: "'s \<Rightarrow> 's" where
  "close_active s = (case active s of None \<Rightarrow> s | Some x \<Rightarrow> close_tab x s)"

definition focused :: "'s \<Rightarrow> bool" where
  "focused s \<longleftrightarrow> distinct (ids s) \<and> (ids s \<noteq> [] \<longrightarrow> (\<exists>x \<in> set (ids s). active s = Some x))"

lemma after_close_mem: "removeAll x xs \<noteq> [] \<Longrightarrow> \<exists>y \<in> set (removeAll x xs). after_close x xs = Some y"
proof -
  assume ne: "removeAll x xs \<noteq> []"
  then obtain i r where ir: "removeAll x xs = i # r" by (cases "removeAll x xs") auto
  show ?thesis
  proof (cases "x \<in> set xs \<and> takeWhile (\<lambda>i. i \<noteq> x) xs \<noteq> []")
    case True
    let ?l = "last (takeWhile (\<lambda>i. i \<noteq> x) xs)"
    have "?l \<in> set (takeWhile (\<lambda>i. i \<noteq> x) xs)" using True by simp
    then have "?l \<in> set xs" "?l \<noteq> x" by (auto dest: set_takeWhileD)
    with True show ?thesis by (auto simp: after_close_def Let_def)
  next
    case False
    then have "after_close x xs = Some i" unfolding after_close_def Let_def ir by (simp only: if_False list.case)
    with ir show ?thesis by auto
  qed
qed

lemma close_active_focused: "focused s \<Longrightarrow> focused (close_active s)"
proof (cases "active s")
  case (Some x)
  assume f: "focused s"
  show ?thesis
  proof (cases "removeAll x (ids s) = []")
    case False
    then obtain y where "y \<in> set (removeAll x (ids s))" "after_close x (ids s) = Some y" using after_close_mem by fast
    with f Some show ?thesis
      by (auto simp: focused_def close_active_def ids_close active_close distinct_removeAll)
  qed (simp add: Some close_active_def focused_def ids_close)
qed (simp add: close_active_def)

lemma close_active_length: "focused s \<Longrightarrow> ids s \<noteq> [] \<Longrightarrow> Suc (length (ids (close_active s))) = length (ids s)"
  by (auto simp: focused_def close_active_def ids_close distinct_remove1_removeAll [symmetric] length_remove1
      dest: length_pos_if_in_set)

lemma close_active_empties: "focused s \<Longrightarrow> ids ((close_active ^^ length (ids s)) s) = []"
proof (induction "length (ids s)" arbitrary: s)
  case (Suc n)
  have ne: "ids s \<noteq> []" using Suc.hyps(2) by auto
  have "length (ids (close_active s)) = n" using close_active_length [OF Suc.prems ne] Suc.hyps(2) by simp
  with Suc.hyps(1) [of "close_active s"] close_active_focused [OF Suc.prems] show ?case
    by (simp add: Suc.hyps(2) [symmetric] funpow_swap1)
qed simp

end

section \<open>The workspace as a strip\<close>

lemma emit_fields [simp]:
  "ws_tabs (emit es ws) = ws_tabs ws" "ws_activeId (emit es ws) = ws_activeId ws" "ws_layout (emit es ws) = ws_layout ws"
  "ws_zoomedId (emit es ws) = ws_zoomedId ws" "ws_appMode (emit es ws) = ws_appMode ws"
  "ws_outputHandlers (emit es ws) = ws_outputHandlers ws" "ws_uuids (emit es ws) = ws_uuids ws"
  "ws_ptyToRunning (emit es ws) = ws_ptyToRunning ws" "ws_effects (emit es ws) = ws_effects ws @ es"
  "ws_transcripts (emit es ws) = ws_transcripts ws" "ws_lastExitCodes (emit es ws) = ws_lastExitCodes ws"
  "ws_ptyAttention (emit es ws) = ws_ptyAttention ws" "ws_reconnectAttempts (emit es ws) = ws_reconnectAttempts ws"
  "ws_hosts (emit es ws) = ws_hosts ws" "ws_tunnels (emit es ws) = ws_tunnels ws"
  by (simp_all add: emit_def)

lemma forget_fields [simp]:
  "ws_tabs (forget_session s ws) = ws_tabs ws" "ws_activeId (forget_session s ws) = ws_activeId ws"
  "ws_layout (forget_session s ws) = ws_layout ws" "ws_zoomedId (forget_session s ws) = ws_zoomedId ws"
  "ws_appMode (forget_session s ws) = ws_appMode ws" "ws_effects (forget_session s ws) = ws_effects ws"
  "ws_uuids (forget_session s ws) = ws_uuids ws"
  by (simp_all add: forget_session_def)

lemma goLauncher_fields [simp]:
  "ws_tabs (goLauncher v ws) = ws_tabs ws" "ws_activeId (goLauncher v ws) = ws_activeId ws"
  "ws_layout (goLauncher v ws) = ws_layout ws" "ws_effects (goLauncher v ws) = ws_effects ws"
  "ws_zoomedId (goLauncher v ws) = None" "ws_appMode (goLauncher v ws) = LauncherMode" "ws_uuids (goLauncher v ws) = ws_uuids ws"
  by (simp_all add: goLauncher_def)

lemma enter_fields [simp]:
  "ws_tabs (enterWorkspace ws) = ws_tabs ws" "ws_activeId (enterWorkspace ws) = ws_activeId ws"
  "ws_layout (enterWorkspace ws) = ws_layout ws" "ws_effects (enterWorkspace ws) = ws_effects ws"
  "ws_zoomedId (enterWorkspace ws) = ws_zoomedId ws" "ws_uuids (enterWorkspace ws) = ws_uuids ws"
  by (simp_all add: enterWorkspace_def)

lemma activate_fields [simp]:
  "ws_tabs (activateSession s ws) = ws_tabs ws" "ws_activeId (activateSession s ws) = Some s"
  "ws_effects (activateSession s ws) = ws_effects ws" "ws_uuids (activateSession s ws) = ws_uuids ws"
  "ws_outputHandlers (activateSession s ws) = ws_outputHandlers ws"
  by (simp_all add: activateSession_def)

lemma attach_fields [simp]:
  "ws_tabs (attachOutput v s m r ws) = ws_tabs ws" "ws_activeId (attachOutput v s m r ws) = ws_activeId ws"
  "ws_layout (attachOutput v s m r ws) = ws_layout ws" "ws_uuids (attachOutput v s m r ws) = ws_uuids ws"
  "ws_zoomedId (attachOutput v s m r ws) = ws_zoomedId ws" "ws_hosts (attachOutput v s m r ws) = ws_hosts ws"
  by (simp_all add: attachOutput_def Let_def split: option.split)

lemma wire_fields [simp]:
  "ws_tabs (wireTerminal s ws) = ws_tabs ws" "ws_activeId (wireTerminal s ws) = ws_activeId ws"
  "ws_layout (wireTerminal s ws) = ws_layout ws" "ws_uuids (wireTerminal s ws) = ws_uuids ws"
  "ws_zoomedId (wireTerminal s ws) = ws_zoomedId ws" "ws_hosts (wireTerminal s ws) = ws_hosts ws"
  by (simp_all add: wireTerminal_def)

lemma render_fields [simp]:
  "v_tabs (render ws) = ws_tabs ws" "v_activeId (render ws) = ws_activeId ws" "v_zoomedId (render ws) = ws_zoomedId ws"
  "v_layout (render ws) = ws_layout ws" "v_hosts (render ws) = ws_hosts ws"
  by (simp_all add: render_def)

lemma drop_rows_ids: "map key (drop_rows key k rows) = removeAll k (map key rows)"
  by (induction rows) (auto simp: drop_rows_def)

lemma tab_at_0: "map_option tab_id (tab_at ts 0) = (case map tab_id ts of [] \<Rightarrow> None | i # _ \<Rightarrow> Some i)"
  by (cases ts) (simp_all add: tab_at_def)

lemma find_nth_takeWhile:
  "List.find (\<lambda>i. p (xs ! i)) [0..<length xs] =
     (if \<exists>x \<in> set xs. p x then Some (length (takeWhile (\<lambda>x. \<not> p x) xs)) else None)"
proof (cases "\<exists>x \<in> set xs. p x")
  case True
  let ?k = "length (takeWhile (\<lambda>x. \<not> p x) xs)"
  have k: "?k < length xs" using True by (metis length_takeWhile_le less_le takeWhile_eq_all_conv takeWhile_eq_take take_all_iff le_refl)
  have "p (xs ! ?k)" using nth_length_takeWhile [of "\<lambda>x. \<not> p x" xs] k by simp
  moreover have "\<not> p (xs ! j)" if "j < ?k" for j
    using that by (metis nth_mem set_takeWhileD takeWhile_nth)
  ultimately have "List.find (\<lambda>i. p (xs ! i)) [0..<length xs] = Some ?k"
    unfolding find_Some_iff using k by (intro exI [of _ ?k]) simp
  with True show ?thesis by simp
next
  case False
  then show ?thesis by (auto simp: find_None_iff)
qed

lemma findIndex_eq: "findIndex p xs = (if \<exists>x \<in> set xs. p x then int (length (takeWhile (\<lambda>x. \<not> p x) xs)) else - 1)"
  unfolding findIndex_def find_nth_takeWhile by simp

lemma strip_seen_render: "strip_seen (render ws) = strip_of ws"
  by (simp add: strip_seen_def strip_of_def)

lemma neighbour_after_close:
  "neighbour (findIndex (\<lambda>t. tab_id t = x) ts) (drop_rows tab_id x ts) = after_close x (map tab_id ts)"
proof (cases "x \<in> tab_id ` set ts \<and> takeWhile (\<lambda>t. tab_id t \<noteq> x) ts \<noteq> []")
  case True
  let ?l = "takeWhile (\<lambda>t. tab_id t \<noteq> x) ts"
  have i: "findIndex (\<lambda>t. tab_id t = x) ts = int (length ?l)"
    using True by (auto simp: findIndex_eq)
  have "drop_rows tab_id x ts = ?l @ drop_rows tab_id x (dropWhile (\<lambda>t. tab_id t \<noteq> x) ts)"
  proof -
    have "drop_rows tab_id x ts = drop_rows tab_id x (?l @ dropWhile (\<lambda>t. tab_id t \<noteq> x) ts)" by simp
    also have "\<dots> = drop_rows tab_id x ?l @ drop_rows tab_id x (dropWhile (\<lambda>t. tab_id t \<noteq> x) ts)" unfolding drop_rows_def by (rule filter_append)
    also have "drop_rows tab_id x ?l = ?l" unfolding drop_rows_def by (intro filter_True ballI) (auto dest: set_takeWhileD)
    finally show ?thesis .
  qed
  then obtain r where r: "drop_rows tab_id x ts = ?l @ r" by blast
  have n: "l \<noteq> [] \<Longrightarrow> neighbour (int (length l)) (l @ r) = Some (tab_id (last l))" for l
    by (cases l rule: rev_cases) (simp_all add: neighbour_def tab_at_def nth_append)
  have "neighbour (int (length ?l)) (drop_rows tab_id x ts) = Some (tab_id (last ?l))"
    unfolding r by (rule n) (use True in blast)
  moreover have "takeWhile (\<lambda>i. i \<noteq> x) (map tab_id ts) = map tab_id ?l" by (simp add: takeWhile_map comp_def)
  ultimately show ?thesis using True i by (simp add: after_close_def Let_def last_map)
next
  case False
  have "findIndex (\<lambda>t. tab_id t = x) ts \<le> 0"
    using False by (auto simp: findIndex_eq)
  then have "max 0 (findIndex (\<lambda>t. tab_id t = x) ts - 1) = 0" by simp
  moreover have "takeWhile (\<lambda>i. i \<noteq> x) (map tab_id ts) = map tab_id (takeWhile (\<lambda>t. tab_id t \<noteq> x) ts)"
    by (simp add: takeWhile_map comp_def)
  ultimately show ?thesis
    using False by (auto simp: neighbour_def tab_at_0 after_close_def drop_rows_ids)
qed

lemma closeTab_tabs [simp]: "ws_tabs (closeTab v sid k ws) = drop_rows tab_id sid (v_tabs v)"
  by (simp add: closeTab_def Let_def split: option.split)

lemma closeTab_active [simp]:
  "ws_activeId (closeTab v sid k ws) =
     (if v_activeId v = Some sid then after_close sid (map tab_id (v_tabs v)) else ws_activeId ws)"
  unfolding neighbour_after_close [symmetric] by (simp add: closeTab_def Let_def split: option.split)

lemma closeTab_layout [simp]: "ws_layout (closeTab v sid k ws) = remove_pane sid (ws_layout ws)"
  by (simp add: closeTab_def Let_def split: option.split)

interpretation strip: tab_strip "\<lambda>ws. map tab_id (ws_tabs ws)" ws_activeId "\<lambda>x ws. closeTab (render ws) x False ws"
  by unfold_locales (simp_all add: drop_rows_ids)

subsection \<open>What closing forgets and calls\<close>

lemma closeTab_mode: "ws_appMode (closeTab v sid k ws) = (if drop_rows tab_id sid (v_tabs v) = [] then LauncherMode else ws_appMode ws)"
  by (simp add: closeTab_def Let_def split: option.split)

lemma closeTab_effects:
  "ws_effects (closeTab v sid k ws) = ws_effects ws
     @ (case kills_mux (find_tab sid (v_tabs v)) k ws of Some (h, m) \<Rightarrow> [KillMux h m] | None \<Rightarrow> [])
     @ close_effects sid (find_tab sid (v_tabs v))"
proof -
  have "kills_mux t k (ws\<lparr>ws_tunnels := u\<rparr>) = kills_mux t k ws" for t u
    by (simp add: kills_mux_def split: option.split)
  then show ?thesis by (auto simp: closeTab_def Let_def split: option.split)
qed

lemma closeTab_forgets:
  "ws_outputHandlers (closeTab v sid k ws) = (ws_outputHandlers ws)(sid := None)"
  "ws_transcripts (closeTab v sid k ws) = (ws_transcripts ws)(sid := None)"
  "ws_lastExitCodes (closeTab v sid k ws) = (ws_lastExitCodes ws)(sid := None)"
  "ws_ptyToRunning (closeTab v sid k ws) = (ws_ptyToRunning ws)(sid := None)"
  "ws_ptyAttention (closeTab v sid k ws) = (ws_ptyAttention ws)(sid := None)"
  "ws_reconnectAttempts (closeTab v sid k ws) = (ws_reconnectAttempts ws)(sid := None)"
  "ws_tunnels (closeTab v sid k ws) = (ws_tunnels ws)(sid := None)"
  by (auto simp: closeTab_def Let_def forget_session_def goLauncher_def split: option.split)

lemma closeTab_zoom:
  "ws_zoomedId (closeTab v sid k ws) =
     (if drop_rows tab_id sid (v_tabs v) = [] \<or> v_zoomedId v = Some sid then None else ws_zoomedId ws)"
  by (auto simp: closeTab_def Let_def forget_session_def split: option.split)

lemma after_close_other: "after_close x xs \<noteq> Some x"
proof -
  have "last (takeWhile (\<lambda>i. i \<noteq> x) xs) \<noteq> x" if "takeWhile (\<lambda>i. i \<noteq> x) xs \<noteq> []"
    using last_in_set [OF that] by (auto dest: set_takeWhileD)
  moreover have "removeAll x xs = i # r \<Longrightarrow> i \<noteq> x" for i r
    by (metis Diff_iff list.set_intros(1) set_removeAll singletonI)
  ultimately show ?thesis by (auto simp: after_close_def Let_def split: list.split if_split)
qed

lemma remove_pane_sessions:
  "panes.opt_sessions (remove_pane sid l) = filter (\<lambda>s. s \<noteq> sid) (panes.opt_sessions l)"
  by (cases l) (auto simp: remove_pane_def panes.opt_sessions_def panes.remove_law)

section \<open>Invariant over all interleavings\<close>

text \<open>
  Callbacks may run with any earlier render: a system state is the workspace with the renders
  made so far. Identifiers of new sessions are fresh for all of them.
\<close>

definition view_ok :: "view \<Rightarrow> bool" where
  "view_ok v \<longleftrightarrow> distinct (map tab_id (v_tabs v))"

definition ws_ok :: "workspace \<Rightarrow> bool" where
  "ws_ok ws \<longleftrightarrow> distinct (map tab_id (ws_tabs ws)) \<and> (\<forall>l. ws_layout ws = Some l \<longrightarrow> layout_wf l)"

definition fresh_session :: "session_id \<Rightarrow> workspace \<Rightarrow> bool" where
  "fresh_session sid ws \<longleftrightarrow> sid \<notin> tab_id ` set (ws_tabs ws) \<and> sid \<notin> set (panes.opt_sessions (ws_layout ws))"

definition transfer_ok :: "transfer \<Rightarrow> bool" where
  "transfer_ok tr \<longleftrightarrow> (\<forall>l. tr_layout tr = Some l \<longrightarrow> layout_wf l)"

inductive ws_step :: "view \<Rightarrow> workspace \<Rightarrow> workspace \<Rightarrow> bool" for v where
  "ws_step v ws (selectTab v sid ws)"
| "ws_step v ws (next_tab v ws)"
| "ws_step v ws (prev_tab v ws)"
| "ws_step v ws (handleRailNav v nav ws)"
| "ws_step v ws (openSettings sec ws)"
| "ws_step v ws (toggleZoom v ws)"
| "ws_step v ws (closeTab v sid k ws)"
| "ws_step v ws (move_done v t ws)"
| "transfer_ok tr \<Longrightarrow> ws_step v ws (adoptTransfer v tr ws)"
| "ws_step v ws (lockNow v ws)"
| "ws_step v ws (lock_tabs ws)"
| "ws_step v ws (host_deleted v hid ws)"
| "ws_step v ws (project_deleted v pid ws)"
| "fresh_session pid ws \<Longrightarrow> ws_step v ws (connect_start h opts pid mux ws)"
| "op_sessionId opn \<notin> tab_id ` set (ws_tabs ws) \<Longrightarrow> ws_step v ws (connect_opened v h pid mux opn now ws)"
| "ws_step v ws (connect_failed pid reason ws)"
| "ws_step v ws (open_start ws)"
| "fresh_session sid ws \<Longrightarrow> ws_step v ws (local_opened v sid ws)"
| "fresh_session sid ws \<Longrightarrow> ws_step v ws (files_opened h sid rp home ws)"
| "fresh_session (op_sessionId opn) ws \<Longrightarrow> ws_step v ws (project_shown p h' opn hint ws)"
| "fresh_session (op_sessionId opn) ws \<Longrightarrow> (\<And>t. active_tab v = Some t \<Longrightarrow> tab_id t \<noteq> op_sessionId opn) \<Longrightarrow>
     (\<And>l. ws_layout ws = Some l \<Longrightarrow> uuid (ws_uuids ws) \<notin> set (splitIds l)) \<Longrightarrow> ws_step v ws (split_opened uuid v o1 opn ws)"
| "ws_layout ws = Some l \<Longrightarrow> ws_step v ws (ws\<lparr>ws_layout := Some (setSplitRatio l k r)\<rparr>)"

inductive ws_reachable :: "workspace \<Rightarrow> view set \<Rightarrow> bool" where
  ws_start: "ws_tabs ws = [] \<Longrightarrow> ws_layout ws = None \<Longrightarrow> ws_reachable ws {}"
| ws_next: "ws_reachable ws vs \<Longrightarrow> v \<in> insert (render ws) vs \<Longrightarrow> ws_step v ws ws' \<Longrightarrow> ws_reachable ws' (insert (render ws) vs)"

lemma layout_wf_Leaf [simp]: "layout_wf (Leaf s)"
  by (simp add: layout_wf_def)

lemma remove_pane_wf: "layout_wf t \<Longrightarrow> remove_pane sid (Some t) = Some l \<Longrightarrow> layout_wf l"
  by (simp add: remove_pane_def remove_wf)

lemma remove_many_wf: "(\<And>t. q = Some t \<Longrightarrow> layout_wf t) \<Longrightarrow> panes.remove_many q xs = Some l \<Longrightarrow> layout_wf l"
proof (induction q xs rule: panes.remove_many.induct)
  case (3 t x xs)
  from "3.IH" [OF remove_wf] "3.prems" show ?case by auto
qed auto

lemma ws_ok_same:
  "ws_ok ws \<Longrightarrow> ws_tabs ws' = ws_tabs ws \<Longrightarrow> ws_layout ws' = ws_layout ws \<Longrightarrow> ws_ok ws'"
  by (simp add: ws_ok_def)

lemma distinct_drop_rows: "distinct (map key rows) \<Longrightarrow> distinct (map key (drop_rows key k rows))"
  by (simp add: drop_rows_ids distinct_removeAll)

lemma activate_ok: "ws_ok ws \<Longrightarrow> ws_ok (activateSession sid ws)"
  by (auto simp: ws_ok_def activateSession_def split: if_splits)

lemma enter_ok: "ws_ok ws \<Longrightarrow> ws_ok (enterWorkspace ws)" and emit_ok: "ws_ok ws \<Longrightarrow> ws_ok (emit es ws)"
  and launcher_ok: "ws_ok ws \<Longrightarrow> ws_ok (goLauncher v ws)"
  by (simp_all add: ws_ok_def)

lemma select_ok: "ws_ok ws \<Longrightarrow> ws_ok (selectTab v sid ws)"
  by (auto simp: selectTab_def Let_def split: option.split intro!: emit_ok enter_ok activate_ok)

lemma cycle_ok: "ws_ok ws \<Longrightarrow> ws_ok (next_tab v ws)" "ws_ok ws \<Longrightarrow> ws_ok (prev_tab v ws)"
  by (auto simp: next_tab_def prev_tab_def Let_def split: option.split intro!: select_ok)

lemma nav_ok: "ws_ok ws \<Longrightarrow> ws_ok (handleRailNav v nav ws)"
  by (erule ws_ok_same; cases nav)
    (simp_all add: handleRailNav_def closeSurface_def openSurface_def goLauncher_def Let_def)

lemma settings_ok: "ws_ok ws \<Longrightarrow> ws_ok (openSettings sec ws)"
  by (erule ws_ok_same) (simp_all add: openSettings_def openSurface_def split: option.split)

lemma zoom_ok: "ws_ok ws \<Longrightarrow> ws_ok (toggleZoom v ws)"
  by (erule ws_ok_same) (simp_all add: toggleZoom_def split: option.split)

lemma close_ok: "view_ok v \<Longrightarrow> ws_ok ws \<Longrightarrow> ws_ok (closeTab v sid k ws)"
  by (cases "ws_layout ws") (auto simp: ws_ok_def view_ok_def distinct_drop_rows intro: remove_pane_wf simp: remove_pane_def [of _ None])

lemma move_ok: "ws_ok ws \<Longrightarrow> ws_ok (move_done v t ws)"
  by (cases "ws_layout ws")
    (auto simp: ws_ok_def move_done_def Let_def distinct_drop_rows intro: remove_pane_wf simp: remove_pane_def [of _ None])

lemma distinct_upsert: "distinct (map tab_id ts) \<Longrightarrow> distinct (map tab_id (upsert t ts))"
proof -
  assume d: "distinct (map tab_id ts)"
  have "map tab_id (map_rows tab_id (tab_id t) (\<lambda>_. t) ts) = map tab_id ts" by (simp add: map_rows_def)
  with d show ?thesis by (auto simp: upsert_def find_row_None)
qed

lemma fold_upsert: "distinct (map tab_id ts) \<Longrightarrow> distinct (map tab_id (fold upsert us ts))"
  by (induction us arbitrary: ts) (auto intro: distinct_upsert)

lemma fold_adopt_same: "ws_tabs (fold (adopt_tab v) ts ws) = ws_tabs ws \<and> ws_layout (fold (adopt_tab v) ts ws) = ws_layout ws
   \<and> ws_activeId (fold (adopt_tab v) ts ws) = ws_activeId ws \<and> ws_zoomedId (fold (adopt_tab v) ts ws) = ws_zoomedId ws"
  by (induction ts arbitrary: ws) (auto simp: adopt_tab_def)

lemma adopt_ok: "transfer_ok tr \<Longrightarrow> ws_ok ws \<Longrightarrow> ws_ok (adoptTransfer v tr ws)"
  by (simp add: adoptTransfer_def Let_def ws_ok_def fold_adopt_same fold_upsert transfer_ok_def)

lemma fold_same:
  "(\<And>t w. ws_tabs (f t w) = ws_tabs w \<and> ws_layout (f t w) = ws_layout w) \<Longrightarrow>
     ws_tabs (fold f ts ws) = ws_tabs ws \<and> ws_layout (fold f ts ws) = ws_layout ws"
  by (induction ts arbitrary: ws) auto

lemma lock_ok: "view_ok v \<Longrightarrow> ws_ok (lockNow v ws)"
  by (simp add: lockNow_def Let_def ws_ok_def view_ok_def distinct_map_filter)

lemma lock_tabs_ok: "ws_ok ws \<Longrightarrow> ws_ok (lock_tabs ws)"
  by (simp add: lock_tabs_def Let_def ws_ok_def distinct_map_filter)

lemma open_start_ok: "ws_ok ws \<Longrightarrow> ws_ok (open_start ws)"
  by (rule ws_ok_same) (simp_all add: open_start_def)

lemma related_ok: "view_ok v \<Longrightarrow> ws_ok ws \<Longrightarrow> ws_ok (drop_related v rel ws)"
  by (auto simp: drop_related_def Let_def ws_ok_def view_ok_def distinct_map_filter intro: remove_many_wf)

lemma deleted_ok:
  "view_ok v \<Longrightarrow> ws_ok ws \<Longrightarrow> ws_ok (host_deleted v hid ws)" "view_ok v \<Longrightarrow> ws_ok ws \<Longrightarrow> ws_ok (project_deleted v pid ws)"
  unfolding host_deleted_def project_deleted_def Let_def
  by (erule related_ok, erule ws_ok_same; simp add: fold_same dispose_tab_def)+

lemma distinct_append_fresh: "distinct (map tab_id ts) \<Longrightarrow> tab_id t \<notin> tab_id ` set ts \<Longrightarrow> distinct (map tab_id (ts @ [t]))"
  by simp

lemma plain_tab_id [simp]: "tab_id (plain_tab sid a b c d e) = sid"
  by (simp add: plain_tab_def)

lemma new_tab_ids [simp]:
  "tab_id (pending_tab h p m) = p" "tab_id (connected_tab h m opn) = op_sessionId opn" "tab_id (split_tab v t opn) = op_sessionId opn"
  by (simp_all add: pending_tab_def connected_tab_def split_tab_def Let_def)

lemma connect_start_ok: "ws_ok ws \<Longrightarrow> fresh_session pid ws \<Longrightarrow> ws_ok (connect_start h opts pid mux ws)"
proof -
  assume ws: "ws_ok ws" "fresh_session pid ws"
  then have "ws_ok (ws\<lparr>ws_error := None, ws_connectingHostId := Some (h_id h), ws_tabs := ws_tabs ws @ [pending_tab h pid mux]\<rparr>)"
    by (simp add: ws_ok_def fresh_session_def)
  with ws show ?thesis
    by (auto simp: connect_start_def Let_def split: option.split intro!: emit_ok enter_ok activate_ok)
qed

lemma map_rows_replace_ids:
  "map tab_id (map_rows tab_id x (\<lambda>_. t) ts) = map (\<lambda>i. if i = x then tab_id t else i) (map tab_id ts)"
  by (simp add: map_rows_def)

lemma connect_opened_ok:
  "ws_ok ws \<Longrightarrow> op_sessionId opn \<notin> tab_id ` set (ws_tabs ws) \<Longrightarrow> ws_ok (connect_opened v h pid mux opn now ws)"
proof -
  assume ws: "ws_ok ws" "op_sessionId opn \<notin> tab_id ` set (ws_tabs ws)"
  have "distinct xs \<Longrightarrow> y \<notin> set xs \<Longrightarrow> distinct (map (\<lambda>i. if i = x then y else i) xs)" for x y and xs :: "jsstr list"
    by (induction xs) auto
  with ws have "distinct (map tab_id (map_rows tab_id pid (\<lambda>_. connected_tab h mux opn) (ws_tabs ws)))"
    unfolding map_rows_replace_ids new_tab_ids by (simp add: ws_ok_def del: map_map)
  with ws have a: "ws_ok (activateSession (op_sessionId opn)
      (ws\<lparr>ws_tabs := map_rows tab_id pid (\<lambda>_. connected_tab h mux opn) (ws_tabs ws)\<rparr>))"
    by (intro activate_ok) (simp add: ws_ok_def)
  show ?thesis
    unfolding connect_opened_def Let_def by (rule ws_ok_same [OF a]) (simp_all add: activateSession_def)
qed

lemma connect_failed_ok: "ws_ok ws \<Longrightarrow> ws_ok (connect_failed pid reason ws)"
  by (simp add: ws_ok_def connect_failed_def distinct_drop_rows)

lemma appended_ok: "ws_ok ws \<Longrightarrow> fresh_session (tab_id t) ws \<Longrightarrow> ws_ok (ws\<lparr>ws_tabs := ws_tabs ws @ [t]\<rparr>)"
  by (simp add: ws_ok_def fresh_session_def)

lemma opened_ok:
  "ws_ok ws \<Longrightarrow> fresh_session sid ws \<Longrightarrow> ws_ok (local_opened v sid ws)"
  "ws_ok ws \<Longrightarrow> fresh_session sid ws \<Longrightarrow> ws_ok (files_opened h sid rp home ws)"
proof -
  assume ws: "ws_ok ws" "fresh_session sid ws"
  let ?w = "attachOutput v sid (js ''Local shell closed.'') None (wireTerminal sid ws)"
  have "ws_ok ?w" "fresh_session sid ?w" using ws by (simp_all add: ws_ok_def fresh_session_def)
  from appended_ok [OF this(1), of "plain_tab sid (js ''local'') (js ''Local'') LocalTab True (Some LOCAL_COLOR)"] this(2)
  show "ws_ok (local_opened v sid ws)"
    unfolding local_opened_def Let_def by (intro enter_ok activate_ok) simp
  let ?t = "(plain_tab sid (h_id h) (h_label h @ js '' files'') SftpTab True (h_color h))\<lparr>tab_remotePath := Some rp, tab_localPath := Some home\<rparr>"
  have "ws_ok (activateSession sid (ws\<lparr>ws_tabs := ws_tabs ws @ [?t]\<rparr>))"
    using ws by (intro activate_ok appended_ok) simp_all
  then show "ws_ok (files_opened h sid rp home ws)"
    unfolding files_opened_def Let_def by (intro enter_ok) (erule ws_ok_same; simp)
qed

lemma project_tab_id [simp]: "tab_id (project_tab p h opn) = op_sessionId opn"
  by (simp add: project_tab_def split: option.split)

lemma project_ok: "ws_ok ws \<Longrightarrow> fresh_session (op_sessionId opn) ws \<Longrightarrow> ws_ok (project_shown p h opn hint ws)"
proof -
  assume "ws_ok ws" "fresh_session (op_sessionId opn) ws"
  then have "ws_ok (enterWorkspace (activateSession (op_sessionId opn) (ws\<lparr>ws_tabs := ws_tabs ws @ [project_tab p h opn]\<rparr>)))"
    by (intro enter_ok activate_ok appended_ok) simp_all
  then show ?thesis unfolding project_shown_def Let_def by (auto elim!: ws_ok_same)
qed

lemma split_ok:
  assumes "ws_ok ws" "fresh_session (op_sessionId opn) ws" "\<And>t. active_tab v = Some t \<Longrightarrow> tab_id t \<noteq> op_sessionId opn"
    "\<And>l. ws_layout ws = Some l \<Longrightarrow> uuid (ws_uuids ws) \<notin> set (splitIds l)"
  shows "ws_ok (split_opened uuid v o1 opn ws)"
proof -
  have "layout_wf (fst (splitLeaf uuid (ws_uuids ws) (case ws_layout ws of Some l \<Rightarrow> l | None \<Rightarrow> Leaf (tab_id t)) (tab_id t) (op_sessionId opn) o1))"
    if "active_tab v = Some t" for t
    using assms(1,2,4) assms(3) [OF that]
    by (intro splitLeaf_wf) (auto simp: ws_ok_def fresh_session_def panes.opt_sessions_def split: option.splits)
  with assms(1,2) show ?thesis
    by (auto simp: split_opened_def Let_def ws_ok_def fresh_session_def case_prod_beta split: option.split)
qed

lemma ratio_ok_ws: "ws_ok ws \<Longrightarrow> ws_layout ws = Some l \<Longrightarrow> ws_ok (ws\<lparr>ws_layout := Some (setSplitRatio l k r)\<rparr>)"
  by (simp add: ws_ok_def setSplitRatio_wf)

lemma ws_step_ok: "ws_step v ws ws' \<Longrightarrow> view_ok v \<Longrightarrow> ws_ok ws \<Longrightarrow> ws_ok ws'"
  by (induction rule: ws_step.induct)
    (blast intro: select_ok cycle_ok nav_ok settings_ok zoom_ok close_ok move_ok adopt_ok lock_ok deleted_ok
      connect_start_ok connect_opened_ok connect_failed_ok opened_ok split_ok ratio_ok_ws lock_tabs_ok open_start_ok project_ok)+

lemma reachable_inv: "ws_reachable ws vs \<Longrightarrow> ws_ok ws \<and> (\<forall>v \<in> vs. view_ok v)"
proof (induction rule: ws_reachable.induct)
  case (ws_next ws vs v ws')
  have r: "view_ok (render ws)" using ws_next.IH by (simp add: ws_ok_def view_ok_def)
  with ws_next show ?case by (auto intro: ws_step_ok)
qed (simp add: ws_ok_def)

section \<open>Properties\<close>

text \<open>
  C23. Under every interleaving of the workspace operations, each run with the current or any
  earlier render, no two tabs share a session and the pane layout stays well formed, as long as
  new sessions and splits get fresh identifiers.\<close>

theorem reachable_workspace_ok:
  "ws_reachable ws vs \<Longrightarrow> distinct (map tab_id (ws_tabs ws)) \<and> (\<forall>l. ws_layout ws = Some l \<longrightarrow> layout_wf l)"
  using reachable_inv [of ws vs] by (simp add: ws_ok_def)


text \<open>
  C25. Closing a tab, with the current render: its session is in no tab and no pane any more, is
  neither active nor zoomed, and every map kept per session (output handlers, transcripts, exit
  codes, running links, attention, reconnection tries, tunnels) loses exactly its entry; the other
  tabs keep their order, the launcher appears exactly when no tab is left, and the calls made are
  those of the kind of the tab, with the tmux session killed only for a plain host terminal that is
  not kept, has no project and runs no agent.\<close>

theorem close_tab_exact:
  assumes "find_tab sid (ws_tabs ws) = Some t"
  shows "let ws' = closeTab (render ws) sid k ws in
     ws_tabs ws' = filter (\<lambda>u. tab_id u \<noteq> sid) (ws_tabs ws)
     \<and> panes.opt_sessions (ws_layout ws') = filter (\<lambda>s. s \<noteq> sid) (panes.opt_sessions (ws_layout ws))
     \<and> ws_activeId ws' \<noteq> Some sid \<and> ws_zoomedId ws' \<noteq> Some sid
     \<and> ws_outputHandlers ws' = (ws_outputHandlers ws)(sid := None) \<and> ws_transcripts ws' = (ws_transcripts ws)(sid := None)
     \<and> ws_lastExitCodes ws' = (ws_lastExitCodes ws)(sid := None) \<and> ws_ptyToRunning ws' = (ws_ptyToRunning ws)(sid := None)
     \<and> ws_ptyAttention ws' = (ws_ptyAttention ws)(sid := None) \<and> ws_tunnels ws' = (ws_tunnels ws)(sid := None)
     \<and> ws_reconnectAttempts ws' = (ws_reconnectAttempts ws)(sid := None)
     \<and> ws_appMode ws' = (if filter (\<lambda>u. tab_id u \<noteq> sid) (ws_tabs ws) = [] then LauncherMode else ws_appMode ws)
     \<and> ws_effects ws' = ws_effects ws
         @ (if \<not> k \<and> tab_kind t = TerminalTab \<and> nonempty (tab_muxName t) \<noteq> None \<and> nonempty (tab_projectId t) = None
               \<and> nonempty (ws_ptyToRunning ws sid) = None
            then [KillMux (tab_host t) (the (tab_muxName t))] else [])
         @ (if is_pty t then persist_and_dispose t @ [CloseTerminal sid] else [CloseSftp sid])"
proof -
  have t: "tab_id t = sid" using assms(1) by (auto dest: find_row_Some_key)
  have e: "ws_effects (closeTab (render ws) sid k ws) = ws_effects ws
         @ (if \<not> k \<and> tab_kind t = TerminalTab \<and> nonempty (tab_muxName t) \<noteq> None \<and> nonempty (tab_projectId t) = None
               \<and> nonempty (ws_ptyToRunning ws sid) = None
            then [KillMux (tab_host t) (the (tab_muxName t))] else [])
         @ (if is_pty t then persist_and_dispose t @ [CloseTerminal sid] else [CloseSftp sid])"
    by (simp add: closeTab_effects assms(1) kills_mux_def close_effects_def t nonempty_def split: option.split)
  have "after_close sid xs \<noteq> Some sid" for xs
    by (rule after_close_other)
  then show ?thesis
    unfolding Let_def e by (auto simp: closeTab_forgets closeTab_mode remove_pane_sessions drop_rows_def closeTab_zoom)
qed

text \<open>
  C26. Closing the active tab again and again ends: with distinct tabs of which one is active,
  after as many closes as there are tabs no tab is left and the launcher is shown.\<close>

theorem closing_all_tabs_ends:
  assumes "distinct (map tab_id (ws_tabs ws))" "ws_activeId ws = Some x" "x \<in> tab_id ` set (ws_tabs ws)"
  shows "let ws' = ((\<lambda>w. case ws_activeId w of None \<Rightarrow> w | Some a \<Rightarrow> closeTab (render w) a False w) ^^ length (ws_tabs ws)) ws
     in ws_tabs ws' = [] \<and> ws_appMode ws' = LauncherMode"
proof -
  have f: "strip.focused ws" using assms by (auto simp: strip.focused_def)
  have e: "(\<lambda>w. case ws_activeId w of None \<Rightarrow> w | Some a \<Rightarrow> closeTab (render w) a False w) = strip.close_active"
    by (rule ext) (simp add: strip.close_active_def)
  have ne: "ws_tabs ws \<noteq> []" using assms(3) by auto
  have m: "strip.focused w \<Longrightarrow> ws_tabs w \<noteq> [] \<Longrightarrow> ws_appMode ((strip.close_active ^^ length (ws_tabs w)) w) = LauncherMode" for w
  proof (induction "length (ws_tabs w)" arbitrary: w)
    case (Suc n)
    let ?c = "strip.close_active w"
    have l: "length (ws_tabs ?c) = n" using strip.close_active_length [OF Suc.prems(1)] Suc.prems(2) Suc.hyps(2) by simp
    show ?case
    proof (cases "ws_tabs ?c = []")
      case True
      obtain a where "ws_activeId w = Some a" using Suc.prems by (auto simp: strip.focused_def)
      with True l have "ws_appMode ?c = LauncherMode" "n = 0" by (auto simp: strip.close_active_def closeTab_mode)
      then show ?thesis by (simp add: Suc.hyps(2) [symmetric])
    next
      case False
      from Suc.hyps(1) [OF l [symmetric] strip.close_active_focused [OF Suc.prems(1)] False] l show ?thesis
        by (simp add: Suc.hyps(2) [symmetric] funpow_swap1)
    qed
  qed auto
  from strip.close_active_empties [OF f] m [OF f ne] show ?thesis unfolding Let_def e by simp
qed

text \<open>
  With an outdated render closing a tab loses others: a tab opened after the render \<open>v\<close> is gone
  after \<^verbatim>\<open>closeTab\<close> of another session with that render, although its output handler stays
  registered and neither its terminal is disposed nor its backend session closed; if \<open>v\<close> had no
  tabs, every tab is gone and the launcher is shown. Key bindings and the reconnect timer call
  \<^verbatim>\<open>closeTab\<close> with such a render.\<close>

theorem stale_close_loses_tabs:
  assumes "t \<in> set (ws_tabs ws)" "tab_id t \<notin> tab_id ` set (v_tabs v)" "tab_id t \<noteq> sid"
  shows "let ws' = closeTab v sid k ws in
     tab_id t \<notin> tab_id ` set (ws_tabs ws')
     \<and> ws_outputHandlers ws' (tab_id t) = ws_outputHandlers ws (tab_id t)
     \<and> (\<exists>es. ws_effects ws' = ws_effects ws @ es \<and> DisposeTerminal (tab_id t) \<notin> set es \<and> CloseTerminal (tab_id t) \<notin> set es)
     \<and> (v_tabs v = [] \<longrightarrow> ws_tabs ws' = [] \<and> ws_appMode ws' = LauncherMode)"
proof -
  have "DisposeTerminal (tab_id t) \<notin> set (close_effects sid (find_tab sid (v_tabs v)))
      \<and> CloseTerminal (tab_id t) \<notin> set (close_effects sid (find_tab sid (v_tabs v)))"
    using assms(3)
    by (auto simp: close_effects_def persist_and_dispose_def split: option.splits if_splits dest!: find_row_Some_key)
  moreover have "ws_outputHandlers (closeTab v sid k ws) (tab_id t) = ws_outputHandlers ws (tab_id t)"
    using assms(3) by (auto simp: closeTab_def Let_def forget_session_def goLauncher_def split: option.split)
  ultimately show ?thesis
    using assms(2) by (auto simp: Let_def closeTab_effects closeTab_mode drop_rows_def split: option.split)
qed

text \<open>
  A connection that fails leaves an empty workspace: the pending tab is removed, but it stays
  the active session and fills the layout, so that no session is shown, also when other tabs are
  open.\<close>

theorem failed_connect_shows_nothing:
  assumes "existing_terminal h opts ws = None" "fresh_session pid ws"
  shows "let ws' = connect_failed pid reason (connect_start h opts pid mux ws) in
     ws_tabs ws' = ws_tabs ws \<and> ws_activeId ws' = Some pid \<and> pid \<notin> tab_id ` set (ws_tabs ws')
     \<and> ws_appMode ws' = WorkspaceMode \<and> shown_sessions (render ws') narrow = []"
proof -
  let ?w = "connect_failed pid reason (connect_start h opts pid mux ws)"
  have p: "pid \<notin> tab_id ` set (ws_tabs ws)" "\<not> in_layout (ws_layout ws) pid"
    using assms(2) by (auto simp: fresh_session_def in_layout_def containsSession_def panes.opt_sessions_def split: option.split)
  have t: "ws_tabs ?w = ws_tabs ws" "ws_activeId ?w = Some pid" "ws_layout ?w = Some (Leaf pid)" "ws_appMode ?w = WorkspaceMode"
    using p assms(1) by (auto simp: connect_failed_def connect_start_def Let_def drop_rows_def activateSession_def
        enterWorkspace_def intro!: filter_True)
  have f: "find_tab pid (ws_tabs ws) = None" using p(1) by (simp add: find_row_None)
  have "shown_sessions (render ?w) narrow = []"
    using p(1) f by (auto simp: shown_sessions_def render_def t effectiveLayout_def is_split_def active_tab_def Let_def filter_empty_conv)
  with t p(1) show ?thesis by (simp add: Let_def)
qed

text \<open>
  A tab that is closed while it is connecting leaks its session: when the backend answers,
  the terminal is created and its output attached, but no tab has the session, it is active all
  the same, and nothing closes it.\<close>

theorem closed_while_connecting_leaks:
  assumes "existing_terminal h opts ws = None" "fresh_session pid ws" "op_sessionId opn \<noteq> pid"
    "op_sessionId opn \<notin> tab_id ` set (ws_tabs ws)"
  shows "let ws1 = connect_start h opts pid mux ws; ws2 = closeTab (render ws1) pid k ws1;
             ws3 = connect_opened v h pid mux opn now ws2 in
     op_sessionId opn \<notin> tab_id ` set (ws_tabs ws3) \<and> ws_activeId ws3 = Some (op_sessionId opn)
     \<and> ws_outputHandlers ws3 (op_sessionId opn) \<noteq> None
     \<and> (\<exists>es. ws_effects ws3 = ws_effects ws2 @ es \<and> CreateTerminal (op_sessionId opn) \<in> set es
          \<and> CloseTerminal (op_sessionId opn) \<notin> set es)"
proof -
  have n: "drop_rows tab_id pid (ws_tabs ws) = ws_tabs ws"
    using assms(2) unfolding drop_rows_def by (intro filter_True ballI) (auto simp: fresh_session_def)
  have t1: "ws_tabs (connect_start h opts pid mux ws) = ws_tabs ws @ [pending_tab h pid mux]"
    using assms(1) by (simp add: connect_start_def Let_def)
  have t2: "ws_tabs (closeTab (render (connect_start h opts pid mux ws)) pid k (connect_start h opts pid mux ws)) = ws_tabs ws"
    using n by (simp add: t1) (simp add: drop_rows_def)
  have "map_rows tab_id pid f (ws_tabs ws) = ws_tabs ws" for f
    using assms(2) by (auto simp: map_rows_def fresh_session_def intro!: map_idI)
  with t2 assms(4) show ?thesis
    by (auto simp: Let_def connect_opened_def attachOutput_def nonempty_def wireTerminal_def activateSession_def)
qed

text \<open>What receiving a moved tab does besides the strip, in whatever state.\<close>

lemma adopt_moved:
  "ws_effects (adoptTransfer v (move_message w t) q) = ws_effects q @ (if \<not> is_pty t then [] else CreateTerminal (tab_id t) #
     (case nonempty (tab_projectId t) of None \<Rightarrow> [] | Some p \<Rightarrow> [RestoreScrollback (tab_id t) p]))"
  "is_pty t \<Longrightarrow> ws_outputHandlers (adoptTransfer v (move_message w t) q) (tab_id t) =
     Some \<lparr>a_serial = ws_closures q, a_view = v, a_closedMessage = closed_message t,
           a_ready = (nonempty (tab_projectId t) = None), a_pending = []\<rparr>"
  by (simp_all add: adoptTransfer_def move_message_def Let_def adopt_tab_def attachOutput_def wireTerminal_def emit_def split: option.split)


text \<open>
  Locking keeps dead tabs: \<^verbatim>\<open>lockNow\<close> disposes the terminal and closes the backend session of
  every terminal tab, the local shells included, and yet keeps the local shells as tabs, still
  marked connected, the first of them active.\<close>

theorem lock_keeps_closed_local_tabs:
  assumes "t \<in> set (ws_tabs ws)" "tab_kind t = LocalTab"
  shows "let ws' = lockNow (render ws) ws in
     t \<in> set (ws_tabs ws') \<and> (\<exists>a \<in> set (ws_tabs ws). tab_kind a = LocalTab \<and> ws_activeId ws' = Some (tab_id a))
     \<and> DisposeTerminal (tab_id t) \<in> set (ws_effects ws') \<and> CloseTerminal (tab_id t) \<in> set (ws_effects ws')
     \<and> ws_outputHandlers ws' (tab_id t) = None"
proof -
  let ?f = "\<lambda>t ws. if is_pty t then dispose_tab t ws else emit [CloseSftp (tab_id t)] ws"
  have keep: "e \<in> set (ws_effects w) \<Longrightarrow> e \<in> set (ws_effects (fold ?f ts w))" for e ts w
    by (induction ts arbitrary: w) (auto simp: dispose_tab_def)
  have none: "ws_outputHandlers w i = None \<Longrightarrow> ws_outputHandlers (fold ?f ts w) i = None" for ts w i
    by (induction ts arbitrary: w) (auto simp: dispose_tab_def)
  obtain xs ys where ts: "ws_tabs ws = xs @ t # ys" using assms(1) by (auto dest: split_list)
  have p: "is_pty t" using assms(2) by (simp add: is_pty_def)
  let ?w = "fold ?f xs (ws\<lparr>ws_error := None\<rparr>)"
  have "DisposeTerminal (tab_id t) \<in> set (ws_effects (?f t ?w))" "CloseTerminal (tab_id t) \<in> set (ws_effects (?f t ?w))"
    "ws_outputHandlers (?f t ?w) (tab_id t) = None"
    using p by (simp_all add: dispose_tab_def persist_and_dispose_def)
  then have "DisposeTerminal (tab_id t) \<in> set (ws_effects (fold ?f (ws_tabs ws) (ws\<lparr>ws_error := None\<rparr>)))"
    "CloseTerminal (tab_id t) \<in> set (ws_effects (fold ?f (ws_tabs ws) (ws\<lparr>ws_error := None\<rparr>)))"
    "ws_outputHandlers (fold ?f (ws_tabs ws) (ws\<lparr>ws_error := None\<rparr>)) (tab_id t) = None"
    unfolding ts fold_append fold_simps(2) comp_apply by (intro keep none; simp)+
  moreover have "\<exists>a \<in> set (ws_tabs ws). tab_kind a = LocalTab
      \<and> map_option tab_id (tab_at (filter (\<lambda>t. tab_kind t = LocalTab) (ws_tabs ws)) 0) = Some (tab_id a)"
  proof (cases "filter (\<lambda>t. tab_kind t = LocalTab) (ws_tabs ws)")
    case Nil
    with assms show ?thesis by (auto simp: filter_empty_conv)
  next
    case (Cons a r)
    have "a \<in> set (filter (\<lambda>t. tab_kind t = LocalTab) (ws_tabs ws))" unfolding Cons by simp
    then have "a \<in> set (ws_tabs ws)" "tab_kind a = LocalTab" by simp_all
    with Cons show ?thesis by (intro bexI [of _ a]) (simp_all add: tab_at_def)
  qed
  ultimately show ?thesis using assms by (simp add: lockNow_def Let_def)
qed

section \<open>Witnesses\<close>

definition empty_workspace :: workspace where
  "empty_workspace = \<lparr>ws_hosts = [], ws_projects = [], ws_running = [], ws_sessionAttention = (\<lambda>_. None),
     ws_ptyAttention = (\<lambda>_. None), ws_ptyToRunning = (\<lambda>_. None), ws_tabs = [], ws_appMode = LauncherMode,
     ws_activeId = None, ws_layout = None, ws_zoomedId = None, ws_findSessionId = None, ws_tunnels = (\<lambda>_. None),
     ws_outputHandlers = (\<lambda>_. None), ws_transcripts = (\<lambda>_. None), ws_lastExitCodes = (\<lambda>_. None),
     ws_reconnectAttempts = (\<lambda>_. None), ws_connectingHostId = None, ws_error = None, ws_agentNotice = None,
     ws_settingsOpen = False, ws_settingsSection = [], ws_activeSurface = None, ws_railNav = NavHosts,
     ws_launcherSection = AllSection, ws_assistOpen = False, ws_paletteOpen = False, ws_muxHint = None,
     ws_uuids = 0, ws_closures = 0, ws_effects = []\<rparr>"

definition sample_host :: host where
  "sample_host = \<lparr>h_id = [104], h_label = js ''box'', h_hostname = js ''box.lan'', h_port = 22, h_username = js ''me'',
     h_color = None, h_lastConnectedAt = None\<rparr>"

definition one_local :: workspace where
  "one_local = local_opened (render empty_workspace) [1] empty_workspace"

definition fresh_connect :: connect_options where
  "fresh_connect = \<lparr>co_forceNew = False, co_muxName = None\<rparr>"

lemma one_local_tabs:
  "ws_tabs one_local = [plain_tab [1] (js ''local'') (js ''Local'') LocalTab True (Some LOCAL_COLOR)]"
  "ws_activeId one_local = Some [1]" "ws_layout one_local = Some (Leaf [1])"
  by (simp_all add: one_local_def local_opened_def empty_workspace_def Let_def attachOutput_def nonempty_def
      wireTerminal_def emit_def activateSession_def enterWorkspace_def is_split_def)

lemma one_local_fresh: "fresh_session [2] one_local" "existing_terminal sample_host fresh_connect one_local = None"
  by (simp_all add: fresh_session_def one_local_tabs panes.opt_sessions_def existing_terminal_def fresh_connect_def
      plain_tab_def)

lemma one_local_find: "find_tab [1] (ws_tabs one_local) = Some (plain_tab [1] (js ''local'') (js ''Local'') LocalTab True (Some LOCAL_COLOR))"
  by (simp add: one_local_tabs find_row_def)

theorem reachable_workspace_ok_witness: "distinct (map tab_id (ws_tabs one_local))"
proof -
  have r: "ws_reachable empty_workspace {}" by (rule ws_start) (simp_all add: empty_workspace_def)
  have s: "ws_step (render empty_workspace) empty_workspace one_local"
    unfolding one_local_def by (rule ws_step.intros) (simp add: fresh_session_def empty_workspace_def panes.opt_sessions_def)
  have "ws_reachable one_local (insert (render empty_workspace) {})" by (rule ws_next [OF r _ s]) simp
  from reachable_workspace_ok [OF this] show ?thesis by simp
qed


theorem close_tab_exact_witness:
  "ws_tabs (closeTab (render one_local) [1] False one_local) = [] \<and> ws_outputHandlers (closeTab (render one_local) [1] False one_local) [1] = None"
  using close_tab_exact [OF one_local_find, of False] by (simp add: Let_def one_local_tabs)

theorem closing_all_tabs_ends_witness:
  "ws_tabs (closeTab (render one_local) [1] False one_local) = []"
  using closing_all_tabs_ends [of one_local "[1]"] by (simp add: one_local_tabs Let_def)

theorem stale_close_loses_tabs_witness:
  "ws_tabs (closeTab (render empty_workspace) [7] False one_local) = []
   \<and> ws_outputHandlers (closeTab (render empty_workspace) [7] False one_local) [1] = ws_outputHandlers one_local [1]"
  using stale_close_loses_tabs [of "plain_tab [1] (js ''local'') (js ''Local'') LocalTab True (Some LOCAL_COLOR)" one_local
      "render empty_workspace" "[7]" False]
  by (simp add: one_local_tabs Let_def empty_workspace_def)

theorem failed_connect_shows_nothing_witness:
  "shown_sessions (render (connect_failed [2] (js ''timeout'') (connect_start sample_host fresh_connect [2] (js ''m'') one_local))) False = []"
  using failed_connect_shows_nothing [OF one_local_fresh(2,1)] by (simp add: Let_def)

theorem closed_while_connecting_leaks_witness:
  "let ws1 = connect_start sample_host fresh_connect [2] (js ''m'') one_local;
       ws2 = closeTab (render ws1) [2] False ws1;
       ws3 = connect_opened (render one_local) sample_host [2] (js ''m'')
               \<lparr>op_sessionId = [3], op_agentForward = None, op_agentForwardHint = None\<rparr> (js ''now'') ws2
   in ws_activeId ws3 = Some [3] \<and> [3] \<notin> tab_id ` set (ws_tabs ws3)"
  using closed_while_connecting_leaks [OF one_local_fresh(2,1), of "\<lparr>op_sessionId = [3], op_agentForward = None, op_agentForwardHint = None\<rparr>"]
  by (simp add: Let_def one_local_tabs)


theorem lock_keeps_closed_local_tabs_witness:
  "CloseTerminal [1] \<in> set (ws_effects (lockNow (render one_local) one_local))
   \<and> ws_tabs (lockNow (render one_local) one_local) \<noteq> []"
  using lock_keeps_closed_local_tabs [of "plain_tab [1] (js ''local'') (js ''Local'') LocalTab True (Some LOCAL_COLOR)" one_local]
  by (auto simp: one_local_tabs Let_def plain_tab_def)

end
