(* ===== verification/SessionEvents.thy ===== *)
theory SessionEvents
  imports TabStrip
begin

text \<open>
  Events of a session (\<^verbatim>\<open>attachOutput\<close> and its helpers in \<^verbatim>\<open>App.tsx\<close>): terminal output, block marks,
  attention signals and the end of the connection, with the buffering until the scrollback of a
  project is restored and the automatic reconnection of named tmux sessions.
\<close>

section \<open>Base64\<close>

text \<open>\<^verbatim>\<open>atob\<close>: \<open>None\<close> when it throws. White space is ignored, padding is optional, spare bits are dropped.\<close>

definition b64_value :: "nat \<Rightarrow> nat option" where
  "b64_value c =
     (if 65 \<le> c \<and> c \<le> 90 then Some (c - 65)
      else if 97 \<le> c \<and> c \<le> 122 then Some (c - 71)
      else if 48 \<le> c \<and> c \<le> 57 then Some (c + 4)
      else if c = 43 then Some 62
      else if c = 47 then Some 63
      else None)"

fun b64_bytes :: "nat list \<Rightarrow> nat list" where
  "b64_bytes (a # b # c # d # r) = (a * 4 + b div 16) # (b mod 16 * 16 + c div 4) # (c mod 4 * 64 + d) # b64_bytes r"
| "b64_bytes [a, b, c] = [a * 4 + b div 16, b mod 16 * 16 + c div 4]"
| "b64_bytes [a, b] = [a * 4 + b div 16]"
| "b64_bytes [a] = []"
| "b64_bytes [] = []"

definition drop_padding :: "jsstr \<Rightarrow> jsstr" where
  "drop_padding s =
     (if length s mod 4 = 0 then
        (case rev s of
           c # d # r \<Rightarrow> if c = 61 \<and> d = 61 then rev r else if c = 61 then rev (d # r) else s
         | _ \<Rightarrow> s)
      else s)"

definition atob :: "jsstr \<Rightarrow> nat list option" where
  "atob s =
     (let t = drop_padding (filter (\<lambda>c. c \<notin> {9, 10, 12, 13, 32}) s) in
      if length t mod 4 = 1 \<or> (\<exists>c \<in> set t. b64_value c = None) then None
      else Some (b64_bytes (map (the \<circ> b64_value) t)))"

definition decodeBase64 :: "jsstr \<Rightarrow> nat list option" where
  "decodeBase64 data = atob data"

section \<open>Handlers\<close>

text \<open>
  What the handlers read from other parts: the platform's UTF-8 decoder, the preferences, and
  whether an agent command runs in a session (\<^verbatim>\<open>sessionRunsAgentCommand\<close>).
\<close>

record app_env =
  ev_decode :: "nat list \<Rightarrow> jsstr"
  ev_prefs :: storage
  ev_runsAgent :: "session_id \<Rightarrow> bool"

definition TRANSCRIPT_CAP :: nat where
  "TRANSCRIPT_CAP = 16384"

definition appendTranscript :: "app_env \<Rightarrow> session_id \<Rightarrow> nat list \<Rightarrow> workspace \<Rightarrow> workspace" where
  "appendTranscript E sid bytes ws =
     (let prev = (case ws_transcripts ws sid of Some p \<Rightarrow> p | None \<Rightarrow> [])
      in ws\<lparr>ws_transcripts := (ws_transcripts ws)(sid \<mapsto> slice_last TRANSCRIPT_CAP (prev @ ev_decode E bytes))\<rparr>)"

definition same_attention :: "session_attention option \<Rightarrow> session_attention \<Rightarrow> bool" where
  "same_attention cur m = (case cur of Some c \<Rightarrow> at_state c = at_state m \<and> at_message c = at_message m | None \<Rightarrow> False)"

text \<open>\<^verbatim>\<open>setPtyAttention\<close> and, for a session of a running agent, \<^verbatim>\<open>setSessionAttention\<close> with its notification.\<close>

definition applyPtyAttention :: "app_env \<Rightarrow> session_id \<Rightarrow> session_attention \<Rightarrow> jsstr \<Rightarrow> workspace \<Rightarrow> workspace" where
  "applyPtyAttention E sid n source ws =
     (let merged = mergeAttention (ws_ptyAttention ws sid) n source;
          ws = (if same_attention (ws_ptyAttention ws sid) merged then ws
                else ws\<lparr>ws_ptyAttention := (ws_ptyAttention ws)(sid \<mapsto> merged)\<rparr>)
      in case nonempty (ws_ptyToRunning ws sid) of None \<Rightarrow> ws
         | Some rid \<Rightarrow>
             let cur = ws_sessionAttention ws rid; merged = mergeAttention cur n source in
             if same_attention cur merged then ws
             else
               let title = (case find_row r_id rid (ws_running ws) of Some s \<Rightarrow> r_projectName s | None \<Rightarrow> js ''Agent'');
                   note = (if map_option at_state cur \<noteq> Some (at_state merged) \<and> at_state merged \<noteq> Running
                           then maybeNotifyAttention (ev_prefs E) (at_state merged) title (at_message merged) rid else None);
                   ws = (case note of Some x \<Rightarrow> emit [Notify x] ws | None \<Rightarrow> ws)
               in ws\<lparr>ws_sessionAttention := (ws_sessionAttention ws)(rid \<mapsto> merged)\<rparr>)"

definition esc_text :: "string \<Rightarrow> jsstr \<Rightarrow> jsstr" where
  "esc_text sgr t = [27] @ js sgr @ t @ [27] @ js ''[0m''"

definition DROPPED_TEXT :: jsstr where
  "DROPPED_TEXT = esc_text ''[33m'' (js ''Some output was dropped because rendering fell behind.'')"

definition onDataEvent :: "app_env \<Rightarrow> session_id \<Rightarrow> jsstr \<Rightarrow> bool \<Rightarrow> workspace \<Rightarrow> workspace" where
  "onDataEvent E sid data dropped ws =
     (case decodeBase64 data of None \<Rightarrow> ws
      | Some bytes \<Rightarrow>
          let ws = appendTranscript E sid bytes (emit [WriteTerminal sid bytes] ws)
          in if dropped then emit [TerminalMessage sid DROPPED_TEXT] ws else ws)"

definition onBlockEvent :: "app_env \<Rightarrow> session_id \<Rightarrow> jsstr \<Rightarrow> int option \<Rightarrow> workspace \<Rightarrow> workspace" where
  "onBlockEvent E sid phase exitCode ws =
     (let ws = emit [QueueBlockPhase sid phase exitCode, FlushBlockPhases sid] ws;
          ws = (case exitCode of Some c \<Rightarrow> ws\<lparr>ws_lastExitCodes := (ws_lastExitCodes ws)(sid \<mapsto> c)\<rparr> | None \<Rightarrow> ws)
      in case (if phase = js ''commandEnd'' then exitCode else None) of
           Some c \<Rightarrow> applyPtyAttention E sid (attention (if c = 0 then Done else Failed) None None) (js ''exit'') ws
         | None \<Rightarrow>
             if phase = js ''commandStart'' \<or> phase = js ''outputStart''
             then applyPtyAttention E sid (attention Running None None) (js ''activity'') ws else ws)"

definition onAttentionEvent :: "app_env \<Rightarrow> session_id \<Rightarrow> attention_state \<Rightarrow> jsstr option \<Rightarrow> jsstr \<Rightarrow> workspace \<Rightarrow> workspace" where
  "onAttentionEvent E sid st message source ws =
     (if source = js ''silence'' then ws
      else if source = js ''bel'' \<and> ws_ptyToRunning ws sid = None \<and> \<not> ev_runsAgent E sid then ws
      else applyPtyAttention E sid (attention st message None) source ws)"

text \<open>
  The connection is gone. A terminal tab with a named multiplexer session is scheduled for
  reconnection; the counter of tries is kept per session.
\<close>

definition reconnect_delay :: "nat \<Rightarrow> int" where
  "reconnect_delay tries = 1500 * (int tries + 1)"

definition reconnects :: "tab option \<Rightarrow> bool" where
  "reconnects t = (case t of None \<Rightarrow> False
     | Some t \<Rightarrow> tab_kind t = TerminalTab \<and> nonempty (tab_muxName t) \<noteq> None \<and> tab_host t \<noteq> js ''local'')"

definition tries_of :: "session_id \<Rightarrow> workspace \<Rightarrow> nat" where
  "tries_of sid ws = (case ws_reconnectAttempts ws sid of Some n \<Rightarrow> n | None \<Rightarrow> 0)"

definition onClosedEvent :: "attachment \<Rightarrow> session_id \<Rightarrow> workspace \<Rightarrow> workspace" where
  "onClosedEvent att sid ws =
     (let droppedTab = find_tab sid (ws_tabs ws);
          ws = ws\<lparr>ws_tabs := map_rows tab_id sid (\<lambda>t. t\<lparr>tab_connected := False\<rparr>) (ws_tabs ws)\<rparr>;
          ws = emit [TerminalMessage sid (esc_text ''[90m'' (a_closedMessage att))] ws;
          tries = tries_of sid ws
      in if reconnects droppedTab \<and> tries < 3
         then emit [TerminalMessage sid (esc_text ''[90m'' (js ''reconnecting in ''
                       @ show_nat (nat ((reconnect_delay tries + 500) div 1000)) @ js ''s'' @ [8230])),
                    ReconnectTimer sid (reconnect_delay tries)]
                (ws\<lparr>ws_reconnectAttempts := (ws_reconnectAttempts ws)(sid \<mapsto> tries + 1)\<rparr>)
         else ws)"

text \<open>
  \<^verbatim>\<open>handle\<close>. The only exception is that of \<^verbatim>\<open>atob\<close> on malformed data, before anything was changed:
  \<open>event_throws\<close> says when, \<open>handle_event\<close> is the state afterwards in both cases.
\<close>

definition event_throws :: "terminal_event \<Rightarrow> bool" where
  "event_throws ev = (case ev of DataEvent data _ \<Rightarrow> decodeBase64 data = None | _ \<Rightarrow> False)"

definition handle_event :: "app_env \<Rightarrow> attachment \<Rightarrow> session_id \<Rightarrow> terminal_event \<Rightarrow> workspace \<Rightarrow> workspace" where
  "handle_event E att sid ev ws =
     (case ev of
        DataEvent data dropped \<Rightarrow> onDataEvent E sid data dropped ws
      | BlockEvent phase exitCode \<Rightarrow> onBlockEvent E sid phase exitCode ws
      | AttentionEvent st message source \<Rightarrow> onAttentionEvent E sid st message source ws
      | ClosedEvent \<Rightarrow> onClosedEvent att sid ws)"

text \<open>
  An event from the backend; before the scrollback is restored it is only held back. An exception
  here ends the callback of this event only.
\<close>

definition deliver_event :: "app_env \<Rightarrow> session_id \<Rightarrow> terminal_event \<Rightarrow> workspace \<Rightarrow> workspace" where
  "deliver_event E sid ev ws =
     (case ws_outputHandlers ws sid of None \<Rightarrow> ws
      | Some att \<Rightarrow>
          if a_ready att then handle_event E att sid ev ws
          else ws\<lparr>ws_outputHandlers := (ws_outputHandlers ws)(sid \<mapsto> att\<lparr>a_pending := a_pending att @ [ev]\<rparr>)\<rparr>)"

text \<open>
  The rest of \<^verbatim>\<open>attachOutput\<close>, once \<^verbatim>\<open>restoreProjectScrollback\<close> is through: \<open>att\<close> is the closure, which
  lives on even if the handler was removed or replaced meanwhile. The result says whether the loop
  over the held events was ended by an exception, which rejects the promise of \<^verbatim>\<open>attachOutput\<close>.
\<close>

fun replay :: "app_env \<Rightarrow> attachment \<Rightarrow> session_id \<Rightarrow> terminal_event list \<Rightarrow> workspace \<Rightarrow> bool \<times> workspace" where
  "replay E att sid [] ws = (False, ws)"
| "replay E att sid (ev # evs) ws =
     (if event_throws ev then (True, handle_event E att sid ev ws) else replay E att sid evs (handle_event E att sid ev ws))"

definition attach_ready :: "app_env \<Rightarrow> session_id \<Rightarrow> attachment \<Rightarrow> workspace \<Rightarrow> bool \<times> workspace" where
  "attach_ready E sid att ws =
     (let ws = (if map_option a_serial (ws_outputHandlers ws sid) = Some (a_serial att)
                then ws\<lparr>ws_outputHandlers := (ws_outputHandlers ws)(sid \<mapsto> att\<lparr>a_ready := True, a_pending := []\<rparr>)\<rparr>
                else ws)
      in replay E att sid (a_pending att) ws)"

text \<open>The reconnection timer: the dead tab is closed with the render of the closure, then \<^verbatim>\<open>connect\<close> runs.\<close>

definition reconnect_due :: "attachment \<Rightarrow> session_id \<Rightarrow> jsstr \<Rightarrow> jsstr \<Rightarrow> session_id \<Rightarrow> workspace \<Rightarrow> workspace" where
  "reconnect_due att sid hostId mux pendingId ws =
     (case find_tab sid (ws_tabs ws) of None \<Rightarrow> ws
      | Some still \<Rightarrow>
          if tab_connected still then ws
          else case find_row h_id hostId (ws_hosts ws) of None \<Rightarrow> ws
            | Some h \<Rightarrow> connect_start h \<lparr>co_forceNew = True, co_muxName = Some mux\<rparr> pendingId mux
                          (closeTab (a_view att) sid True ws))"

section \<open>Pasting and sizes\<close>

text \<open>\<^verbatim>\<open>pasteIntoTerminal\<close>: at most one paste in 80 ms; the time of the last one is threaded.\<close>

definition pasteIntoTerminal :: "session_id \<Rightarrow> jsstr \<Rightarrow> int \<Rightarrow> int \<Rightarrow> workspace \<Rightarrow> int \<times> workspace" where
  "pasteIntoTerminal sid text_in now lastPaste ws =
     (if now - lastPaste < 80 then (lastPaste, ws) else (now, emit [InjectText sid text_in False False] ws))"

definition insertAssistCommand :: "view \<Rightarrow> jsstr \<Rightarrow> workspace \<Rightarrow> workspace" where
  "insertAssistCommand v cmd ws =
     (case active_tab v of None \<Rightarrow> ws
      | Some t \<Rightarrow> if is_pty t then emit [InjectText (tab_id t) cmd False True] ws else ws)"

text \<open>The last size of a terminal, as stored: \<open>None\<close> when nothing usable could be read.\<close>

definition readLastPtySize :: "(int \<times> int) option \<Rightarrow> int \<times> int" where
  "readLastPtySize stored =
     (case stored of Some (cols, rows) \<Rightarrow> if cols > 20 \<and> rows > 5 then (min cols 500, min rows 200) else (120, 32)
      | None \<Rightarrow> (120, 32))"

text \<open>\<^verbatim>\<open>onCwd\<close> and \<^verbatim>\<open>onGitBranch\<close> of \<^verbatim>\<open>wireTerminal\<close>.\<close>

definition onCwd :: "session_id \<Rightarrow> jsstr \<Rightarrow> workspace \<Rightarrow> workspace" where
  "onCwd sid cwd ws = ws\<lparr>ws_tabs := map_rows tab_id sid (\<lambda>t. t\<lparr>tab_cwd := Some cwd\<rparr>) (ws_tabs ws)\<rparr>"

definition onGitBranch :: "session_id \<Rightarrow> jsstr \<Rightarrow> workspace \<Rightarrow> workspace" where
  "onGitBranch sid br ws = ws\<lparr>ws_tabs := map_rows tab_id sid (\<lambda>t. t\<lparr>tab_gitBranch := Some br\<rparr>) (ws_tabs ws)\<rparr>"

section \<open>Base64: reading back the encoding\<close>

text \<open>The standard encoding with padding, which the backend applies to terminal output.\<close>

definition b64_char :: "nat \<Rightarrow> nat" where
  "b64_char v = (if v < 26 then v + 65 else if v < 52 then v + 71 else if v < 62 then v - 4 else if v = 62 then 43 else 47)"

fun b64_values :: "nat list \<Rightarrow> nat list" where
  "b64_values (x # y # z # r) = (x div 4) # (x mod 4 * 16 + y div 16) # (y mod 16 * 4 + z div 64) # (z mod 64) # b64_values r"
| "b64_values [x, y] = [x div 4, x mod 4 * 16 + y div 16, y mod 16 * 4]"
| "b64_values [x] = [x div 4, x mod 4 * 16]"
| "b64_values [] = []"

fun b64_pad :: "nat list \<Rightarrow> nat" where
  "b64_pad (x # y # z # r) = b64_pad r"
| "b64_pad [x, y] = 1"
| "b64_pad [x] = 2"
| "b64_pad [] = 0"

definition b64_encode :: "nat list \<Rightarrow> jsstr" where
  "b64_encode bs = map b64_char (b64_values bs) @ replicate (b64_pad bs) 61"

lemma b64_value_char [simp]: "v < 64 \<Longrightarrow> b64_value (b64_char v) = Some v"
  by (auto simp: b64_value_def b64_char_def)

lemma b64_char_plain: "b64_char v \<noteq> 61 \<and> b64_char v \<notin> {9, 10, 12, 13, 32}" if "v < 64"
  using that by (auto simp: b64_char_def)

lemma b64_values_bound: "\<forall>b \<in> set bs. b < 256 \<Longrightarrow> v \<in> set (b64_values bs) \<Longrightarrow> v < 64"
  by (induction bs rule: b64_values.induct) (auto simp: less_mult_imp_div_less; presburger)+

lemma b64_bytes_values: "\<forall>b \<in> set bs. b < 256 \<Longrightarrow> b64_bytes (b64_values bs) = bs"
proof (induction bs rule: b64_values.induct)
  case (1 x y z r)
  then have "x div 4 * 4 + (x mod 4 * 16 + y div 16) div 16 = x" "(x mod 4 * 16 + y div 16) mod 16 * 16 + (y mod 16 * 4 + z div 64) div 4 = y"
    "(y mod 16 * 4 + z div 64) mod 4 * 64 + z mod 64 = z" by (auto; presburger)+
  with 1 show ?case by simp
next
  case (2 x y)
  then have "x div 4 * 4 + (x mod 4 * 16 + y div 16) div 16 = x" "(x mod 4 * 16 + y div 16) mod 16 * 16 + y mod 16 * 4 div 4 = y"
    by (auto; presburger)+
  then show ?case by simp
next
  case (3 x)
  then have "x div 4 * 4 + x mod 4 * 16 div 16 = x" by presburger
  then show ?case by simp
qed simp

lemma b64_shape: "(length (b64_values bs) + b64_pad bs) mod 4 = 0 \<and> b64_pad bs \<le> 2 \<and> length (b64_values bs) mod 4 \<noteq> 1"
  by (induction bs rule: b64_values.induct) auto

lemma drop_padding_encode:
  assumes "\<forall>c \<in> set s. c \<noteq> 61" "(length s + p) mod 4 = 0" "p \<le> 2"
  shows "drop_padding (s @ replicate p 61) = s"
proof -
  consider "p = 0" | "p = 1" | "p = 2" using assms(3) by linarith
  then show ?thesis
  proof cases
    case 1
    with assms(1) show ?thesis by (cases s rule: rev_cases) (auto simp: drop_padding_def split: list.split)
  next
    case 2
    with assms show ?thesis by (cases s rule: rev_cases) (auto simp: drop_padding_def)
  next
    case 3
    with assms show ?thesis by (simp add: drop_padding_def numeral_2_eq_2)
  qed
qed

section \<open>Held back events\<close>

text \<open>Handling an event neither reads nor changes the table of handlers.\<close>

lemma handlers_swap:
  "emit es (ws\<lparr>ws_outputHandlers := h\<rparr>) = (emit es ws)\<lparr>ws_outputHandlers := h\<rparr>"
  "ws\<lparr>ws_outputHandlers := h, ws_ptyAttention := a\<rparr> = ws\<lparr>ws_ptyAttention := a, ws_outputHandlers := h\<rparr>"
  "ws\<lparr>ws_outputHandlers := h, ws_sessionAttention := b\<rparr> = ws\<lparr>ws_sessionAttention := b, ws_outputHandlers := h\<rparr>"
  "ws\<lparr>ws_outputHandlers := h, ws_lastExitCodes := c\<rparr> = ws\<lparr>ws_lastExitCodes := c, ws_outputHandlers := h\<rparr>"
  "ws\<lparr>ws_outputHandlers := h, ws_transcripts := d\<rparr> = ws\<lparr>ws_transcripts := d, ws_outputHandlers := h\<rparr>"
  "ws\<lparr>ws_outputHandlers := h, ws_tabs := e\<rparr> = ws\<lparr>ws_tabs := e, ws_outputHandlers := h\<rparr>"
  "ws\<lparr>ws_outputHandlers := h, ws_reconnectAttempts := f\<rparr> = ws\<lparr>ws_reconnectAttempts := f, ws_outputHandlers := h\<rparr>"
  by (simp_all add: emit_def)

lemma attention_handlers:
  "applyPtyAttention E sid n src (ws\<lparr>ws_outputHandlers := h\<rparr>) = (applyPtyAttention E sid n src ws)\<lparr>ws_outputHandlers := h\<rparr>"
  by (simp add: applyPtyAttention_def Let_def handlers_swap split: option.split)

lemma handle_event_handlers:
  "handle_event E att sid ev (ws\<lparr>ws_outputHandlers := h\<rparr>) = (handle_event E att sid ev ws)\<lparr>ws_outputHandlers := h\<rparr>"
proof (cases ev)
  case (DataEvent data dropped)
  then show ?thesis
    by (simp add: handle_event_def onDataEvent_def appendTranscript_def Let_def handlers_swap split: option.split)
next
  case (BlockEvent phase ec)
  have "onBlockEvent E sid phase ec (ws\<lparr>ws_outputHandlers := h\<rparr>) = (onBlockEvent E sid phase ec ws)\<lparr>ws_outputHandlers := h\<rparr>"
    unfolding onBlockEvent_def Let_def handlers_swap
    by (cases ec) (simp_all only: option.case handlers_swap attention_handlers if_cancel split: if_split, simp_all)
  with BlockEvent show ?thesis by (simp add: handle_event_def)
next
  case (AttentionEvent st m src)
  then show ?thesis by (simp add: handle_event_def onAttentionEvent_def attention_handlers)
next
  case ClosedEvent
  then show ?thesis by (simp add: handle_event_def onClosedEvent_def tries_of_def Let_def handlers_swap)
qed

lemma fold_handle_handlers:
  "fold (handle_event E att sid) es (ws\<lparr>ws_outputHandlers := h\<rparr>) = (fold (handle_event E att sid) es ws)\<lparr>ws_outputHandlers := h\<rparr>"
  by (induction es arbitrary: ws) (simp_all add: handle_event_handlers)

lemma handlers_kept: "ws_outputHandlers (handle_event E att sid ev ws) = ws_outputHandlers ws"
proof -
  have "handle_event E att sid ev ws = (handle_event E att sid ev ws)\<lparr>ws_outputHandlers := ws_outputHandlers ws\<rparr>"
    using handle_event_handlers [where ws = ws and h = "ws_outputHandlers ws"] by simp
  from arg_cong [OF this, of ws_outputHandlers] show ?thesis by simp
qed

text \<open>Events delivered while the handler is not ready only pile up; afterwards each is handled at once.\<close>

lemma deliver_held:
  assumes "ws_outputHandlers ws sid = Some att" "\<not> a_ready att"
  shows "fold (deliver_event E sid) es ws =
     ws\<lparr>ws_outputHandlers := (ws_outputHandlers ws)(sid \<mapsto> att\<lparr>a_pending := a_pending att @ es\<rparr>)\<rparr>"
  using assms
proof (induction es arbitrary: ws att)
  case Nil
  then have "(ws_outputHandlers ws)(sid \<mapsto> att) = ws_outputHandlers ws" by (simp add: fun_upd_idem)
  then show ?case by simp
next
  case (Cons ev es)
  have d: "deliver_event E sid ev ws = ws\<lparr>ws_outputHandlers := (ws_outputHandlers ws)(sid \<mapsto> att\<lparr>a_pending := a_pending att @ [ev]\<rparr>)\<rparr>"
    using Cons.prems by (simp add: deliver_event_def)
  show ?case unfolding fold_simps(2) d by (subst Cons.IH [where att = "att\<lparr>a_pending := a_pending att @ [ev]\<rparr>"]) (use Cons.prems in simp_all)
qed

lemma deliver_ready:
  "ws_outputHandlers ws sid = Some att \<Longrightarrow> a_ready att \<Longrightarrow>
     fold (deliver_event E sid) es ws = fold (handle_event E att sid) es ws"
  by (induction es arbitrary: ws) (simp_all add: deliver_event_def handlers_kept)

lemma handle_closure:
  "a_closedMessage a = a_closedMessage b \<Longrightarrow> handle_event E a sid ev ws = handle_event E b sid ev ws"
  by (simp add: handle_event_def onClosedEvent_def split: terminal_event.split)

lemma find_replaced:
  "x \<notin> tab_id ` set ts \<Longrightarrow> tab_id c = x \<Longrightarrow> tab_id p = pid \<Longrightarrow>
     find_tab x (map_rows tab_id pid (\<lambda>_. c) (drop_rows tab_id s ts @ [p])) = Some c"
  by (induction ts) (auto simp: find_row_def map_rows_def drop_rows_def)

section \<open>Transcripts\<close>

text \<open>The payloads of the output events, what was written to the terminal of a session, its transcript.\<close>

definition payloads :: "terminal_event list \<Rightarrow> jsstr list" where
  "payloads evs = List.map_filter (\<lambda>e. case e of DataEvent d _ \<Rightarrow> Some d | _ \<Rightarrow> None) evs"

definition writes_to :: "session_id \<Rightarrow> workspace \<Rightarrow> nat list list" where
  "writes_to sid ws = List.map_filter (\<lambda>e. case e of WriteTerminal s bs \<Rightarrow> if s = sid then Some bs else None | _ \<Rightarrow> None) (ws_effects ws)"

definition transcript_of :: "session_id \<Rightarrow> workspace \<Rightarrow> jsstr" where
  "transcript_of sid ws = (case ws_transcripts ws sid of Some x \<Rightarrow> x | None \<Rightarrow> [])"

lemma attention_frame [simp]:
  "ws_transcripts (applyPtyAttention E sid n src ws) = ws_transcripts ws"
  "ws_tabs (applyPtyAttention E sid n src ws) = ws_tabs ws"
  "ws_reconnectAttempts (applyPtyAttention E sid n src ws) = ws_reconnectAttempts ws"
  by (simp_all add: applyPtyAttention_def Let_def split: option.split)

lemma payloads_simps [simp]:
  "payloads [] = []" "payloads (DataEvent d b # evs) = d # payloads evs" "payloads (BlockEvent ph ec # evs) = payloads evs"
  "payloads (AttentionEvent st m src # evs) = payloads evs" "payloads (ClosedEvent # evs) = payloads evs"
  by (simp_all add: payloads_def map_filter_def)

lemma writes_to_emit [simp]:
  "writes_to sid (emit es ws) = writes_to sid ws @ List.map_filter (\<lambda>e. case e of WriteTerminal s bs \<Rightarrow> if s = sid then Some bs else None | _ \<Rightarrow> None) es"
  by (simp add: writes_to_def emit_def map_filter_def)

lemma writes_to_fields [simp]:
  "writes_to sid (ws\<lparr>ws_ptyAttention := a\<rparr>) = writes_to sid ws" "writes_to sid (ws\<lparr>ws_sessionAttention := b\<rparr>) = writes_to sid ws"
  "writes_to sid (ws\<lparr>ws_lastExitCodes := c\<rparr>) = writes_to sid ws" "writes_to sid (ws\<lparr>ws_tabs := d\<rparr>) = writes_to sid ws"
  "writes_to sid (ws\<lparr>ws_reconnectAttempts := e\<rparr>) = writes_to sid ws" "writes_to sid (ws\<lparr>ws_transcripts := f\<rparr>) = writes_to sid ws"
  by (simp_all add: writes_to_def)

lemma writes_attention [simp]: "writes_to s (applyPtyAttention E sid n src ws) = writes_to s ws"
  by (simp add: applyPtyAttention_def Let_def map_filter_def split: option.split)

lemma quiet_event:
  assumes "payloads [ev] = []"
  shows "writes_to s (handle_event E att sid ev ws) = writes_to s ws"
    and "ws_transcripts (handle_event E att sid ev ws) = ws_transcripts ws"
  using assms
  by (cases ev; simp add: handle_event_def map_filter_def onBlockEvent_def onAttentionEvent_def onClosedEvent_def Let_def
      split: option.split)+

lemma data_event:
  assumes "decodeBase64 d = Some bs"
  shows "writes_to s (handle_event E att sid (DataEvent d dr) ws) = writes_to s ws @ (if s = sid then [bs] else [])"
    and "transcript_of s (handle_event E att sid (DataEvent d dr) ws)
      = (if s = sid then slice_last TRANSCRIPT_CAP (transcript_of sid ws @ ev_decode E bs) else transcript_of s ws)"
  using assms
  by (simp_all add: handle_event_def onDataEvent_def appendTranscript_def transcript_of_def Let_def map_filter_def)

lemma stream_delivered:
  assumes "payloads evs = map enc chunks" "\<And>bs. bs \<in> set chunks \<Longrightarrow> decodeBase64 (enc bs) = Some bs"
    "length (transcript_of sid ws) \<le> TRANSCRIPT_CAP"
  shows "writes_to s (fold (handle_event E att sid) evs ws) = writes_to s ws @ (if s = sid then chunks else [])
    \<and> transcript_of s (fold (handle_event E att sid) evs ws)
      = (if s = sid then slice_last TRANSCRIPT_CAP (transcript_of sid ws @ concat (map (ev_decode E) chunks)) else transcript_of s ws)"
  using assms
proof (induction evs arbitrary: chunks ws)
  case Nil
  then have "chunks = []" by simp
  with Nil.prems(3) show ?case by simp
next
  case (Cons ev evs)
  show ?case
  proof (cases "payloads [ev] = []")
    case True
    then have "payloads (ev # evs) = payloads evs" by (cases ev) simp_all
    with Cons.prems(1) have ps: "payloads evs = map enc chunks" by simp
    have q: "writes_to s (handle_event E att sid ev ws) = writes_to s ws" "transcript_of u (handle_event E att sid ev ws) = transcript_of u ws" for s u
      using quiet_event(1) [OF True] quiet_event(2) [OF True] by (simp_all add: transcript_of_def)
    show ?thesis using Cons.IH [OF ps Cons.prems(2), of "handle_event E att sid ev ws"] Cons.prems(3) by (simp add: q)
  next
    case False
    then obtain d dr where ev: "ev = DataEvent d dr" by (cases ev) simp_all
    then obtain c cs where cs: "chunks = c # cs" "d = enc c" "payloads evs = map enc cs"
      using Cons.prems(1) by (cases chunks) simp_all
    have d: "decodeBase64 d = Some c" using Cons.prems(2) cs by simp
    note e = data_event [OF d, of _ E att sid dr ws, folded ev]
    have l: "length (transcript_of sid (handle_event E att sid ev ws)) \<le> TRANSCRIPT_CAP" by (simp add: e)
    have "slice_last TRANSCRIPT_CAP (slice_last TRANSCRIPT_CAP (transcript_of sid ws @ ev_decode E c) @ concat (map (ev_decode E) cs))
        = slice_last TRANSCRIPT_CAP (transcript_of sid ws @ concat (map (ev_decode E) chunks))"
      by (simp add: slice_last_append cs)
    with Cons.IH [OF cs(3) _ l] Cons.prems(2) cs(1) show ?thesis by (simp add: e)
  qed
qed

section \<open>Properties\<close>

lemma decode_encode:
  assumes "\<forall>b \<in> set bs. b < 256"
  shows "decodeBase64 (b64_encode bs) = Some bs"
proof -
  let ?s = "map b64_char (b64_values bs)"
  have v: "\<forall>v \<in> set (b64_values bs). v < 64" using b64_values_bound [OF assms] by blast
  have c: "\<forall>c \<in> set ?s. c \<noteq> 61 \<and> c \<notin> {9, 10, 12, 13, 32}" using v b64_char_plain by auto
  have f: "filter (\<lambda>c. c \<notin> {9, 10, 12, 13, 32}) (b64_encode bs) = b64_encode bs"
    unfolding b64_encode_def using c by (intro filter_True) auto
  have d: "drop_padding (b64_encode bs) = ?s"
    unfolding b64_encode_def using c b64_shape [of bs] by (intro drop_padding_encode) auto
  have "map (the \<circ> b64_value) ?s = b64_values bs" using v by (auto intro!: map_idI)
  moreover have "\<not> (\<exists>c \<in> set ?s. b64_value c = None)" using v by auto
  ultimately show ?thesis
    using b64_shape [of bs] b64_bytes_values [OF assms] unfolding decodeBase64_def atob_def Let_def f d by simp
qed

text \<open>
  Terminal output survives the transport: \<^verbatim>\<open>decodeBase64\<close> of the padded standard encoding of any
  bytes gives back exactly those bytes.\<close>

theorem base64_round_trip:
  assumes "\<forall>b \<in> set bs. b < 256"
  shows "decodeBase64 (b64_encode bs) = Some bs"
  using assms by (rule decode_encode)

theorem base64_round_trip_witness: "decodeBase64 (js ''aGk='') = Some [104, 105]"
proof -
  have "b64_encode [104, 105] = js ''aGk=''" by (simp add: b64_encode_def b64_char_def js_def)
  with base64_round_trip [of "[104, 105]"] show ?thesis by simp
qed

text \<open>
  C31. The output of a session arrives complete and in order: when the output events carry the
  base64 text of chunks of bytes, then, whatever other events lie between them, exactly those
  chunks are written to the terminal of the session and to no other, and its transcript is the
  last 16384 characters of what it was followed by the decoded chunks.\<close>

theorem output_stream_is_delivered:
  assumes "payloads evs = map b64_encode chunks" "\<forall>bs \<in> set chunks. \<forall>b \<in> set bs. b < 256"
    "length (transcript_of sid ws) \<le> TRANSCRIPT_CAP"
  shows "writes_to s (fold (handle_event E att sid) evs ws) = writes_to s ws @ (if s = sid then chunks else [])
    \<and> transcript_of s (fold (handle_event E att sid) evs ws)
      = (if s = sid then slice_last 16384 (transcript_of sid ws @ concat (map (ev_decode E) chunks)) else transcript_of s ws)"
proof -
  have d: "decodeBase64 (b64_encode bs) = Some bs" if "bs \<in> set chunks" for bs using that assms(2) by (intro decode_encode) blast
  show ?thesis using stream_delivered [OF assms(1) d assms(3)] by (simp add: TRANSCRIPT_CAP_def)
qed

lemma replay_exact:
  "replay E att sid es ws =
     (list_ex event_throws es, fold (handle_event E att sid) (takeWhile (\<lambda>ev. \<not> event_throws ev) es) ws)"
proof (induction es arbitrary: ws)
  case (Cons ev es)
  have "handle_event E att sid ev ws = ws" if "event_throws ev"
    using that by (simp add: event_throws_def handle_event_def onDataEvent_def split: terminal_event.splits)
  with Cons show ?case by simp
qed simp

text \<open>
  C30. What becomes of the events of a session that arrive while its scrollback is restored: exactly
  those before the first one with malformed data are handled, in the order of arrival, then the
  handler is ready, holds nothing back and handles the later events directly. Without malformed data
  nothing is lost or reordered: all events together have the effect of handling them in order of
  arrival. With it the rest of the held events is lost and the attachment is reported as failed.
  A handler that was registered for the session meanwhile is left as it is.\<close>

theorem events_replayed_in_order:
  assumes "ws_outputHandlers ws sid = Some att" "\<not> a_ready att" "a_pending att = []"
  shows "let held = fold (deliver_event E sid) es ws;
             (rejected, ready) = attach_ready E sid (the (ws_outputHandlers held sid)) held;
             att' = att\<lparr>a_ready := True, a_pending := []\<rparr>;
             good = takeWhile (\<lambda>ev. \<not> event_throws ev) es in
     rejected = list_ex event_throws es
     \<and> (\<not> rejected \<longrightarrow> good = es)
     \<and> fold (deliver_event E sid) es' ready
       = (fold (handle_event E att sid) (good @ es') ws)\<lparr>ws_outputHandlers := (ws_outputHandlers ws)(sid \<mapsto> att')\<rparr>
     \<and> (a_serial newer \<noteq> a_serial att \<longrightarrow>
         ws_outputHandlers (snd (attach_ready E sid (the (ws_outputHandlers held sid))
           (held\<lparr>ws_outputHandlers := (ws_outputHandlers held)(sid \<mapsto> newer)\<rparr>))) sid = Some newer)"
proof -
  let ?good = "takeWhile (\<lambda>ev. \<not> event_throws ev) es"
  let ?h = "(ws_outputHandlers ws)(sid \<mapsto> att\<lparr>a_pending := es\<rparr>)"
  let ?h' = "(ws_outputHandlers ws)(sid \<mapsto> att\<lparr>a_ready := True, a_pending := []\<rparr>)"
  have held: "fold (deliver_event E sid) es ws = ws\<lparr>ws_outputHandlers := ?h\<rparr>"
    using deliver_held [OF assms(1,2), of E es] assms(3) by simp
  have cl: "handle_event E (att\<lparr>a_ready := x, a_pending := y\<rparr>) sid = handle_event E att sid"
    "handle_event E (att\<lparr>a_pending := y\<rparr>) sid = handle_event E att sid" for x y
    by (intro ext handle_closure; simp)+
  have ready: "attach_ready E sid (att\<lparr>a_pending := es\<rparr>) (ws\<lparr>ws_outputHandlers := ?h\<rparr>)
      = (list_ex event_throws es, (fold (handle_event E att sid) ?good ws)\<lparr>ws_outputHandlers := ?h'\<rparr>)"
    by (simp add: attach_ready_def Let_def replay_exact cl fold_handle_handlers)
  have "fold (deliver_event E sid) es' ((fold (handle_event E att sid) ?good ws)\<lparr>ws_outputHandlers := ?h'\<rparr>)
      = fold (handle_event E (att\<lparr>a_ready := True, a_pending := []\<rparr>) sid) es' ((fold (handle_event E att sid) ?good ws)\<lparr>ws_outputHandlers := ?h'\<rparr>)"
    by (rule deliver_ready) simp_all
  moreover have "ws_outputHandlers (fold (handle_event E a sid) evs w) = ws_outputHandlers w" for a evs w
    by (induction evs arbitrary: w) (simp_all add: handlers_kept)
  moreover have "?good = es" if "\<not> list_ex event_throws es" using that by (simp add: list_ex_iff)
  ultimately show ?thesis
    unfolding Let_def held
    by (simp add: ready cl fold_handle_handlers attach_ready_def replay_exact)
qed

text \<open>
  Reconnection neither counts its tries nor retries: a session that was itself opened by a
  reconnection has no tries on record, so that its loss schedules the next reconnection after the
  first delay again, however often that happened before; and if the reconnection fails, nothing
  is scheduled any more.\<close>

theorem reconnect_counts_from_zero:
  assumes "find_tab sid (ws_tabs ws) = Some t" "\<not> tab_connected t" "find_row h_id hid (ws_hosts ws) = Some h"
    "ws_reconnectAttempts ws (op_sessionId opn) = None" "op_sessionId opn \<noteq> sid"
    "op_sessionId opn \<notin> tab_id ` set (v_tabs (a_view att))" "mux \<noteq> []" "h_id h \<noteq> js ''local''"
  shows "let due = reconnect_due att sid hid mux pid ws; again = connect_opened (a_view att) h pid mux opn now due in
     ReconnectTimer (op_sessionId opn) 1500 \<in> set (ws_effects (onClosedEvent att' (op_sessionId opn) again))
     \<and> (\<exists>es. ws_effects (connect_failed pid reason due) = ws_effects ws @ es \<and> (\<forall>s d. ReconnectTimer s d \<notin> set es))"
proof -
  let ?due = "reconnect_due att sid hid mux pid ws"
  let ?again = "connect_opened (a_view att) h pid mux opn now ?due"
  have due: "?due = connect_start h \<lparr>co_forceNew = True, co_muxName = Some mux\<rparr> pid mux (closeTab (a_view att) sid True ws)"
    using assms(1-3) by (simp add: reconnect_due_def)
  have at: "ws_reconnectAttempts (closeTab v sid True ws) (op_sessionId opn) = None" for v
    using assms(4,5) by (auto simp: closeTab_def Let_def forget_session_def goLauncher_def split: option.split)
  have cs: "ws_reconnectAttempts (connect_start h \<lparr>co_forceNew = True, co_muxName = Some mux\<rparr> pid mux w) = ws_reconnectAttempts w"
    "ws_tabs (connect_start h \<lparr>co_forceNew = True, co_muxName = Some mux\<rparr> pid mux w) = ws_tabs w @ [pending_tab h pid mux]" for w
    by (simp_all add: connect_start_def existing_terminal_def Let_def activateSession_def enterWorkspace_def)
  have n: "tries_of (op_sessionId opn) ?again = 0"
    using at cs unfolding due
    by (simp add: tries_of_def connect_opened_def Let_def attachOutput_def nonempty_def wireTerminal_def emit_def activateSession_def)
  have tabs: "ws_tabs ?again = map_rows tab_id pid (\<lambda>_. connected_tab h mux opn)
      (drop_rows tab_id sid (v_tabs (a_view att)) @ [pending_tab h pid mux])"
    unfolding due connect_opened_def Let_def by (simp add: cs(2))
  have "find_tab (op_sessionId opn) (ws_tabs ?again) = Some (connected_tab h mux opn)"
    unfolding tabs by (rule find_replaced) (use assms(6) in auto)
  moreover have "reconnects (Some (connected_tab h mux opn))"
    using assms(7,8) by (simp add: reconnects_def connected_tab_def plain_tab_def nonempty_def)
  ultimately have "ReconnectTimer (op_sessionId opn) 1500 \<in> set (ws_effects (onClosedEvent att' (op_sessionId opn) ?again))"
    using n by (simp add: onClosedEvent_def Let_def reconnect_delay_def tries_of_def)
  moreover have "ws_effects (connect_failed pid reason ?due) = ws_effects ws @ close_effects sid (find_tab sid (v_tabs (a_view att)))"
    unfolding due by (simp add: connect_failed_def connect_start_def existing_terminal_def Let_def closeTab_effects kills_mux_def split: option.split)
  moreover have "\<forall>s d. ReconnectTimer s d \<notin> set (close_effects sid (find_tab sid (v_tabs (a_view att))))"
    by (auto simp: close_effects_def persist_and_dispose_def split: option.split)
  ultimately show ?thesis by (auto simp: Let_def)
qed

section \<open>Witnesses\<close>

definition sample_env :: app_env where
  "sample_env = \<lparr>ev_decode = id, ev_prefs = \<lparr>items = (\<lambda>_. None), readable = True, writable = True\<rparr>, ev_runsAgent = (\<lambda>_. False)\<rparr>"

definition held_workspace :: workspace where
  "held_workspace = attachOutput (render empty_workspace) [1] (js ''Connection closed.'') (Some [5]) empty_workspace"

theorem events_replayed_in_order_witness:
  "let held = deliver_event sample_env [1] (DataEvent (js ''aGk='') False) held_workspace
   in WriteTerminal [1] [104, 105] \<in> set (ws_effects (snd (attach_ready sample_env [1] (the (ws_outputHandlers held [1])) held)))"
proof -
  let ?a = "\<lparr>a_serial = 0, a_view = render empty_workspace, a_closedMessage = js ''Connection closed.'', a_ready = False, a_pending = []\<rparr>"
  have h: "ws_outputHandlers held_workspace [1] = Some ?a"
    by (simp add: held_workspace_def attachOutput_def nonempty_def Let_def empty_workspace_def)
  have d: "decodeBase64 (js ''aGk='') = Some [104, 105]"
    by (simp add: decodeBase64_def atob_def drop_padding_def b64_value_def js_def)
  have "WriteTerminal [1] [104, 105] \<in> set (ws_effects (handle_event sample_env ?a [1] (DataEvent (js ''aGk='') False) held_workspace))"
    by (simp add: handle_event_def onDataEvent_def d appendTranscript_def Let_def)
  with events_replayed_in_order [OF h, of sample_env "[DataEvent (js ''aGk='') False]" "[]"] show ?thesis
    by (simp add: Let_def case_prod_beta event_throws_def d)
qed

theorem output_stream_is_delivered_witness:
  "writes_to [1] (fold (handle_event sample_env \<lparr>a_serial = 0, a_view = render empty_workspace, a_closedMessage = [], a_ready = True, a_pending = []\<rparr> [1])
      [DataEvent (js ''aGk='') False, ClosedEvent] empty_workspace) = [[104, 105]]"
proof -
  have e: "b64_encode [104, 105] = js ''aGk=''" by (simp add: b64_encode_def b64_char_def js_def)
  have h: "payloads [DataEvent (js ''aGk='') False, ClosedEvent] = map b64_encode [[104, 105]]"
    "\<forall>bs \<in> set [[104, 105]]. \<forall>b \<in> set bs. b < (256 :: nat)" "length (transcript_of [1] empty_workspace) \<le> TRANSCRIPT_CAP"
    by (simp_all add: e transcript_of_def empty_workspace_def)
  have "writes_to [1] empty_workspace = []" by (simp add: writes_to_def empty_workspace_def map_filter_def)
  then show ?thesis using conjunct1 [OF output_stream_is_delivered [OF h, of "[1]"]] by simp
qed

definition lost_tab :: tab where
  "lost_tab = (plain_tab [2] [104] (js ''box'') TerminalTab False None)\<lparr>tab_muxName := Some (js ''m'')\<rparr>"

definition lost_workspace :: workspace where
  "lost_workspace = empty_workspace\<lparr>ws_tabs := [lost_tab], ws_hosts := [sample_host], ws_reconnectAttempts := [[2] \<mapsto> 1]\<rparr>"

theorem reconnect_counts_from_zero_witness:
  "let att = \<lparr>a_serial = 0, a_view = render empty_workspace, a_closedMessage = [], a_ready = True, a_pending = []\<rparr>;
       opn = \<lparr>op_sessionId = [3], op_agentForward = None, op_agentForwardHint = None\<rparr>
   in ReconnectTimer [3] 1500 \<in> set (ws_effects (onClosedEvent att [3]
        (connect_opened (a_view att) sample_host [9] (js ''m'') opn (js ''now'') (reconnect_due att [2] [104] (js ''m'') [9] lost_workspace))))"
proof -
  let ?att = "\<lparr>a_serial = 0, a_view = render empty_workspace, a_closedMessage = [], a_ready = True, a_pending = []\<rparr>"
  let ?opn = "\<lparr>op_sessionId = [3], op_agentForward = None, op_agentForwardHint = None\<rparr>"
  have "find_tab [2] (ws_tabs lost_workspace) = Some lost_tab" "\<not> tab_connected lost_tab"
    "find_row h_id [104] (ws_hosts lost_workspace) = Some sample_host" "ws_reconnectAttempts lost_workspace (op_sessionId ?opn) = None"
    "op_sessionId ?opn \<noteq> [2]" "op_sessionId ?opn \<notin> tab_id ` set (v_tabs (a_view ?att))" "js ''m'' \<noteq> []" "h_id sample_host \<noteq> js ''local''"
    by (simp_all add: lost_workspace_def lost_tab_def find_row_def plain_tab_def sample_host_def empty_workspace_def js_def)
  from reconnect_counts_from_zero [OF this] show ?thesis by (simp add: Let_def)
qed

end
