(* ===== verification/Projects.thy ===== *)
theory Projects
  imports SessionEvents
begin

text \<open>
  Projects and running agent sessions in the workspace (\<^verbatim>\<open>App.tsx\<close>): opening a project in steps
  between awaits, the list of running sessions with its polling and killing, the rail and title
  bar entries computed from the state, the badge, the tabs saved across restarts, and the quick
  connect parser (\<^verbatim>\<open>components/Launcher.tsx\<close>).
\<close>

section \<open>Opening a project\<close>

text \<open>Replacement of the row with the same key, or a new row at the end.\<close>

definition upsert_row :: "('a \<Rightarrow> 'k) \<Rightarrow> 'a \<Rightarrow> 'a list \<Rightarrow> 'a list" where
  "upsert_row key x rows =
     (if find_row key (key x) rows = None then rows @ [x] else update_first (\<lambda>r. key r = key x) (\<lambda>_. x) rows)"

definition upsert_front :: "('a \<Rightarrow> 'k) \<Rightarrow> 'a \<Rightarrow> 'a list \<Rightarrow> 'a list" where
  "upsert_front key x rows =
     (if find_row key (key x) rows = None then x # rows else update_first (\<lambda>r. key r = key x) (\<lambda>_. x) rows)"

definition deprecated_text :: "jsstr \<Rightarrow> jsstr \<Rightarrow> jsstr" where
  "deprecated_text from to = from @ js '' is deprecated '' @ [8212] @ js '' launching '' @ to @ js ''. ''"

text \<open>After \<^verbatim>\<open>listAgents\<close>: the notice of a migrated agent, and an open tab of the project is focused.\<close>

definition project_agents :: "project \<Rightarrow> agent_spec list \<Rightarrow> workspace \<Rightarrow> workspace" where
  "project_agents p agents ws =
     (let ws = ws\<lparr>ws_error := None\<rparr>;
          ws = (case resolveAgentForLaunch agents (p_defaultAgent p) of
                  (Some a, Some from) \<Rightarrow>
                    if from = [] then ws\<lparr>ws_agentNotice := None\<rparr>
                    else emit [UpdateProject (p_id p) (agent_id a)]
                           (ws\<lparr>ws_agentNotice := Some (deprecated_text from (agent_name a) @ js ''Updated this project'' @ [8217] @ js ''s default agent.'')\<rparr>)
                | _ \<Rightarrow> ws\<lparr>ws_agentNotice := None\<rparr>)
      in case List.find (\<lambda>t. tab_projectId t = Some (p_id p)) (ws_tabs ws) of
           None \<Rightarrow> ws
         | Some t \<Rightarrow>
             let ws = enterWorkspace (activateSession (tab_id t) ws)
             in if tab_kind t \<noteq> SftpTab then emit [FocusTerminal (tab_id t)] ws else ws)"

definition project_open_tab :: "project \<Rightarrow> workspace \<Rightarrow> tab option" where
  "project_open_tab p ws = List.find (\<lambda>t. tab_projectId t = Some (p_id p)) (ws_tabs ws)"

text \<open>The host of a remote project in the render; a missing host is an error.\<close>

definition project_host :: "view \<Rightarrow> project \<Rightarrow> jsstr + host option" where
  "project_host v p =
     (case p_location p of LocalPath _ \<Rightarrow> Inr None
      | RemotePath hid _ \<Rightarrow>
          (case find_row h_id hid (v_hosts v) of
             Some h \<Rightarrow> Inr (Some h)
           | None \<Rightarrow> Inl (js ''Error: Project host is missing from the vault.'')))"

definition location_path :: "project_location \<Rightarrow> jsstr" where
  "location_path l = (case l of LocalPath p \<Rightarrow> p | RemotePath _ p \<Rightarrow> p)"

definition is_remote :: "project \<Rightarrow> bool" where
  "is_remote p = (case p_location p of RemotePath _ _ \<Rightarrow> True | LocalPath _ \<Rightarrow> False)"

text \<open>The session is open: it is wired, and its events wait for the scrollback of the project.\<close>

definition project_session :: "view \<Rightarrow> project \<Rightarrow> session_id \<Rightarrow> workspace \<Rightarrow> workspace" where
  "project_session v p sid ws = attachOutput v sid (js ''Connection closed.'') (Some (p_id p)) (wireTerminal sid ws)"

text \<open>
  The scrollback is restored: the held events are replayed and the tab appears. When the replay
  throws, \<^verbatim>\<open>openProject\<close> reports the error and no tab appears.
\<close>

definition project_restored ::
  "app_env \<Rightarrow> attachment \<Rightarrow> project \<Rightarrow> host option \<Rightarrow> opened_terminal \<Rightarrow> bool \<Rightarrow> jsstr \<Rightarrow> workspace \<Rightarrow> workspace" where
  "project_restored E att p h opn hint reason ws =
     (case attach_ready E (op_sessionId opn) att ws of
        (True, ws) \<Rightarrow> failed reason ws
      | (False, ws) \<Rightarrow> project_shown p h opn hint ws)"

record byok_handle =
  by_envPath :: jsstr
  by_keyLabel :: "jsstr option"
  by_varNames :: "jsstr list"

definition launch_opts :: "project \<Rightarrow> agent_spec option \<Rightarrow> jsstr option \<Rightarrow> bool \<Rightarrow> byok_handle option \<Rightarrow> launch_options" where
  "launch_opts p agent platform mux byok =
     \<lparr>o_projectId = p_id p, o_path = location_path (p_location p), o_agent = agent, o_remote = is_remote p,
      o_platform = platform, o_muxAvailable = Some mux, o_cwdAlreadySet = \<not> is_remote p,
      o_byokEnvPath = map_option by_envPath byok\<rparr>"

text \<open>The launch script is typed, the agent marked as launched, the injected key announced.\<close>

definition project_launched ::
  "project \<Rightarrow> agent_spec option \<Rightarrow> jsstr option \<Rightarrow> jsstr option \<Rightarrow> bool \<Rightarrow> byok_handle option \<Rightarrow> session_id \<Rightarrow> workspace \<Rightarrow> workspace" where
  "project_launched p agent migratedFrom platform mux byok sid ws =
     (let script = projectLaunchScript (launch_opts p agent platform mux byok);
          ws = (if script = [] then ws else emit [SendInput sid script] ws);
          ws = (if agent = None then ws else emit [MarkAgentLaunched sid] ws)
      in case byok of None \<Rightarrow> ws
         | Some b \<Rightarrow>
             (case nonempty (by_keyLabel b) of None \<Rightarrow> ws
              | Some k \<Rightarrow>
                  ws\<lparr>ws_agentNotice := Some
                      ((case nonempty migratedFrom of
                          Some from \<Rightarrow> deprecated_text from (case agent of Some a \<Rightarrow> agent_name a | None \<Rightarrow> js ''agent'')
                        | None \<Rightarrow> [])
                       @ js ''Injecting '' @ k @ js '' ('' @ join (js '', '') (by_varNames b) @ js '').'')\<rparr>))"

definition project_touched :: "project \<Rightarrow> workspace \<Rightarrow> workspace" where
  "project_touched touched ws = ws\<lparr>ws_projects := upsert_row p_id touched (ws_projects ws)\<rparr>"

text \<open>A persistent agent on a host is marked as running (\<open>marked\<close> is the answer of the backend).\<close>

definition project_marked :: "session_id \<Rightarrow> running_session \<Rightarrow> workspace \<Rightarrow> workspace" where
  "project_marked sid marked ws =
     ws\<lparr>ws_ptyToRunning := (ws_ptyToRunning ws)(sid \<mapsto> r_id marked),
        ws_sessionAttention := (ws_sessionAttention ws)(r_id marked \<mapsto>
          (case ws_sessionAttention ws (r_id marked) of Some a \<Rightarrow> a | None \<Rightarrow> attention Running None None)),
        ws_running := upsert_front r_id marked (ws_running ws)\<rparr>"

section \<open>Running sessions\<close>

text \<open>\<^verbatim>\<open>killRunningSession\<close>: what happens at once, then the calls in order.\<close>

definition kill_state :: "running_session \<Rightarrow> workspace \<Rightarrow> workspace" where
  "kill_state s ws =
     ws\<lparr>ws_running := drop_rows r_id (r_id s) (ws_running ws),
        ws_sessionAttention := (ws_sessionAttention ws)(r_id s := None),
        ws_ptyToRunning := (\<lambda>i. if ws_ptyToRunning ws i = Some (r_id s) then None else ws_ptyToRunning ws i)\<rparr>"

definition killRunningSession :: "view \<Rightarrow> running_session \<Rightarrow> workspace \<Rightarrow> workspace" where
  "killRunningSession v s ws =
     (let openTab = List.find (\<lambda>t. tab_projectId t = Some (r_projectId s)) (ws_tabs ws);
          ws = kill_state s ws;
          ws = (case openTab of Some t \<Rightarrow> closeTab v (tab_id t) False ws | None \<Rightarrow> ws)
      in emit [EndRunning (r_id s), KillMux (r_hostId s) (r_muxSession s)] ws)"

record session_watch =
  sw_muxSession :: jsstr
  sw_alert :: jsstr
  sw_supported :: bool
  sw_message :: "jsstr option"

text \<open>One answer of the poll of a host: sessions that are attached here are left alone.\<close>

definition attached :: "jsstr \<Rightarrow> session_id list \<Rightarrow> workspace \<Rightarrow> bool" where
  "attached rid ptys ws \<longleftrightarrow> list_ex (\<lambda>i. ws_ptyToRunning ws i = Some rid) ptys"

definition poll_watch :: "app_env \<Rightarrow> session_id list \<Rightarrow> jsstr \<Rightarrow> session_watch \<Rightarrow> workspace \<Rightarrow> workspace" where
  "poll_watch E ptys hid w ws =
     (case List.find (\<lambda>s. r_muxSession s = sw_muxSession w \<and> r_hostId s = hid) (ws_running ws) of
        None \<Rightarrow> ws
      | Some s \<Rightarrow>
          if attached (r_id s) ptys ws then ws
          else
            let prev = ws_sessionAttention ws (r_id s) in
            if \<not> sw_supported w then
              ws\<lparr>ws_sessionAttention := (ws_sessionAttention ws)(r_id s \<mapsto>
                   mergeAttention prev (attention (case prev of Some p \<Rightarrow> at_state p | None \<Rightarrow> Running) (sw_message w) (Some True)) (js ''tmux''))\<rparr>
            else if sw_alert w = js ''waiting'' then
              let note = (if map_option at_state prev \<noteq> Some Waiting
                          then maybeNotifyAttention (ev_prefs E) Waiting (r_projectName s) (Some (js ''Detached session needs attention'')) (r_id s)
                          else None);
                  ws = (case note of Some x \<Rightarrow> emit [Notify x] ws | None \<Rightarrow> ws)
              in ws\<lparr>ws_sessionAttention := (ws_sessionAttention ws)(r_id s \<mapsto>
                      mergeAttention prev (attention Waiting None (Some False)) (js ''tmux''))\<rparr>
            else ws)"

definition poll_host :: "app_env \<Rightarrow> session_id list \<Rightarrow> jsstr \<Rightarrow> session_watch list \<Rightarrow> workspace \<Rightarrow> workspace" where
  "poll_host E ptys hid watches ws = fold (poll_watch E ptys hid) watches ws"

definition dockBadge :: "bool \<Rightarrow> workspace \<Rightarrow> nat" where
  "dockBadge unlocked ws =
     (if \<not> unlocked \<or> ws_running ws = [] then 0
      else length (filter (\<lambda>s. case ws_sessionAttention ws (r_id s) of
              Some a \<Rightarrow> at_state a = Waiting \<or> at_state a = Failed | None \<Rightarrow> False) (ws_running ws)))"

section \<open>Entries of the rail and the title bar\<close>

record rail_item =
  ri_key :: jsstr
  ri_files :: "bool option"
  ri_label :: jsstr
  ri_hostId :: jsstr
  ri_openSession :: "session_id option"
  ri_runningId :: "jsstr option"
  ri_attention :: "attention_state option"

definition tab_host_of :: "workspace \<Rightarrow> tab \<Rightarrow> host option" where
  "tab_host_of ws t = (if tab_host t \<noteq> js ''local'' then find_row h_id (tab_host t) (ws_hosts ws) else None)"

definition tab_project_of :: "workspace \<Rightarrow> tab \<Rightarrow> project option" where
  "tab_project_of ws t = Option.bind (nonempty (tab_projectId t)) (\<lambda>p. find_row p_id p (ws_projects ws))"

definition host_label :: "workspace \<Rightarrow> tab \<Rightarrow> jsstr" where
  "host_label ws t = (case tab_host_of ws t of Some h \<Rightarrow> h_label h | None \<Rightarrow> tab_title t)"

definition open_item :: "workspace \<Rightarrow> tab \<Rightarrow> rail_item" where
  "open_item ws t =
     (let rid = ws_ptyToRunning ws (tab_id t) in
      \<lparr>ri_key = js ''open:'' @ tab_id t,
       ri_files = Some (tab_kind t = SftpTab),
       ri_label = (if tab_kind t = SftpTab then host_label ws t @ [32, 183, 32] @ js ''files''
                   else case (tab_project_of ws t, tab_host_of ws t) of
                     (Some p, Some h) \<Rightarrow> p_name p @ [32, 183, 32] @ h_label h
                   | (Some p, None) \<Rightarrow> p_name p
                   | (None, Some h) \<Rightarrow> h_label h
                   | (None, None) \<Rightarrow> tab_title t),
       ri_hostId = tab_host t, ri_openSession = Some (tab_id t), ri_runningId = rid,
       ri_attention = or_else (Option.bind (nonempty rid) (\<lambda>r. map_option at_state (ws_sessionAttention ws r)))
                        (map_option at_state (ws_ptyAttention ws (tab_id t)))\<rparr>)"

definition detached_item :: "workspace \<Rightarrow> running_session \<Rightarrow> rail_item" where
  "detached_item ws s =
     \<lparr>ri_key = js ''detached:'' @ r_id s, ri_files = None, ri_label = r_projectName s, ri_hostId = r_hostId s,
      ri_openSession = None, ri_runningId = Some (r_id s), ri_attention = map_option at_state (ws_sessionAttention ws (r_id s))\<rparr>"

definition is_detached :: "workspace \<Rightarrow> running_session \<Rightarrow> bool" where
  "is_detached ws s \<longleftrightarrow>
     \<not> list_ex (\<lambda>t. nonempty (ws_ptyToRunning ws (tab_id t)) = Some (r_id s)) (ws_tabs ws)
     \<and> \<not> (r_projectId s \<noteq> [] \<and> list_ex (\<lambda>t. tab_projectId t = Some (r_projectId s)) (ws_tabs ws))"

definition railRunningItems :: "workspace \<Rightarrow> rail_item list" where
  "railRunningItems ws = map (open_item ws) (ws_tabs ws) @ map (detached_item ws) (filter (is_detached ws) (ws_running ws))"

record title_tab =
  tt_sessionId :: session_id
  tt_title :: jsstr
  tt_kind :: tab_kind
  tt_connected :: bool
  tt_color :: "jsstr option"
  tt_projectName :: "jsstr option"
  tt_waiting :: bool

definition titlebarTab :: "workspace \<Rightarrow> tab \<Rightarrow> title_tab" where
  "titlebarTab ws t =
     \<lparr>tt_sessionId = tab_id t,
      tt_title = (case tab_kind t of LocalTab \<Rightarrow> js ''Local'' | SftpTab \<Rightarrow> host_label ws t @ js '' files'' | TerminalTab \<Rightarrow> host_label ws t),
      tt_kind = tab_kind t, tt_connected = tab_connected t, tt_color = tab_color t,
      tt_projectName = map_option p_name (tab_project_of ws t),
      tt_waiting = (map_option at_state (ws_ptyAttention ws (tab_id t)) = Some Waiting
        \<or> (case ws_ptyToRunning ws (tab_id t) of None \<Rightarrow> False
           | Some r \<Rightarrow> map_option at_state (ws_sessionAttention ws r) = Some Waiting))\<rparr>"

section \<open>Tabs across restarts\<close>

record saved_tab =
  sv_hostId :: jsstr
  sv_muxName :: "jsstr option"
  sv_projectId :: "jsstr option"

definition saved_tabs :: "workspace \<Rightarrow> saved_tab list" where
  "saved_tabs ws = map (\<lambda>t. \<lparr>sv_hostId = tab_host t, sv_muxName = tab_muxName t, sv_projectId = tab_projectId t\<rparr>)
                     (filter is_pty (ws_tabs ws))"

datatype restore_action = ReopenProject project | ReopenLocal | Reconnect host connect_options

definition restore_entry :: "view \<Rightarrow> saved_tab \<Rightarrow> restore_action option" where
  "restore_entry v e =
     (case nonempty (sv_projectId e) of
        Some p \<Rightarrow> map_option ReopenProject (find_row p_id p (v_projects v))
      | None \<Rightarrow>
          if sv_hostId e = js ''local'' then Some ReopenLocal
          else map_option (\<lambda>h. Reconnect h \<lparr>co_forceNew = True, co_muxName = sv_muxName e\<rparr>) (find_row h_id (sv_hostId e) (v_hosts v)))"

definition restore_plan :: "view \<Rightarrow> saved_tab list \<Rightarrow> restore_action list" where
  "restore_plan v saved = List.map_filter (restore_entry v) saved"

section \<open>Quick connect\<close>

record host_draft =
  hd_label :: jsstr
  hd_hostname :: jsstr
  hd_port :: nat
  hd_username :: jsstr

text \<open>\<^verbatim>\<open>lastIndexOf\<close> for one character\<close>

definition lastIndexOf :: "nat \<Rightarrow> jsstr \<Rightarrow> nat option" where
  "lastIndexOf c s = (if c \<in> set s then Some (length s - 1 - length (takeWhile (\<lambda>d. d \<noteq> c) (rev s))) else None)"

definition split_port :: "jsstr \<Rightarrow> (jsstr \<times> nat) option" where
  "split_port hostPart =
     (case lastIndexOf 58 hostPart of
        Some colon \<Rightarrow>
          if 0 < colon \<and> drop (Suc colon) hostPart \<noteq> [] \<and> list_all is_digit (drop (Suc colon) hostPart) then
            (let parsed = read_nat (drop (Suc colon) hostPart) in
             if parsed < 1 \<or> parsed > 65535 then None else Some (take colon hostPart, parsed))
          else Some (hostPart, 22)
      | None \<Rightarrow> Some (hostPart, 22))"

definition parseQuickConnect :: "jsstr \<Rightarrow> host_draft option" where
  "parseQuickConnect input =
     (let trimmed = trim input in
      case lastIndexOf 64 trimmed of None \<Rightarrow> None
      | Some k \<Rightarrow>
          if k = 0 \<or> k = length trimmed - 1 then None
          else
            let username = trim (take k trimmed); hostPart = trim (drop (Suc k) trimmed) in
            if username = [] \<or> hostPart = [] then None
            else case split_port hostPart of None \<Rightarrow> None
              | Some (h, port) \<Rightarrow>
                  if h = [] then None else Some \<lparr>hd_label = h, hd_hostname = h, hd_port = port, hd_username = username\<rparr>)"

text \<open>\<^verbatim>\<open>handleQuickConnect\<close>: an error, a known host, or a draft for the host form.\<close>

datatype quick_result = QuickError | QuickHost host | QuickDraft host_draft

definition handleQuickConnect :: "view \<Rightarrow> jsstr \<Rightarrow> quick_result" where
  "handleQuickConnect v target =
     (case parseQuickConnect target of None \<Rightarrow> QuickError
      | Some d \<Rightarrow>
          (case List.find (\<lambda>h. h_username h = hd_username d \<and> h_hostname h = hd_hostname d \<and> h_port h = int (hd_port d)) (v_hosts v) of
             Some h \<Rightarrow> QuickHost h
           | None \<Rightarrow> QuickDraft d))"

section \<open>Facts\<close>

lemma lastIndexOf_last: "c \<notin> set t \<Longrightarrow> lastIndexOf c (s @ c # t) = Some (length s)"
proof -
  assume c: "c \<notin> set t"
  have "takeWhile (\<lambda>d. d \<noteq> c) (rev (s @ c # t)) = rev t"
    unfolding rev_append rev.simps append_assoc using c by (subst takeWhile_append2) auto
  then show ?thesis by (simp add: lastIndexOf_def)
qed

lemma trim_keeps:
  assumes "s \<noteq> []" "\<not> is_ws (hd s)" "\<not> is_ws (last s)"
  shows "trim s = s"
proof -
  have "trimStart s = s" using assms(1,2) by (cases s) (simp_all add: trimStart_def)
  moreover have "trimEnd s = s" using assms(1,3) by (cases s rule: rev_cases) (simp_all add: trimEnd_def)
  ultimately show ?thesis by (simp add: trim_def)
qed

lemma digit_not_ws: "is_digit c \<Longrightarrow> \<not> is_ws c"
  by (auto simp: is_digit_def is_ws_def)

lemma show_nat_last_digit: "is_digit (last (show_nat n))"
  using show_nat_digits [of "last (show_nat n)" n] by (simp add: is_digit_def)

lemma attached_upd [simp]:
  "attached r ptys (ws\<lparr>ws_sessionAttention := a\<rparr>) = attached r ptys ws" "attached r ptys (emit es ws) = attached r ptys ws"
  by (simp_all add: attached_def emit_def)

lemma emit_running [simp]: "ws_running (emit es ws) = ws_running ws" "ws_sessionAttention (emit es ws) = ws_sessionAttention ws"
  by (simp_all add: emit_def)

lemma poll_watch_frame:
  "ws_running (poll_watch E ptys hid w ws) = ws_running ws \<and> attached r ptys (poll_watch E ptys hid w ws) = attached r ptys ws"
  by (simp add: poll_watch_def Let_def split: option.split)

lemma poll_watch_attached:
  "attached rid ptys ws \<Longrightarrow> ws_sessionAttention (poll_watch E ptys hid w ws) rid = ws_sessionAttention ws rid"
  by (auto simp: poll_watch_def Let_def split: option.split)

text \<open>A session starts to wait only when the poll reports it.\<close>

lemma poll_watch_waiting:
  assumes "map_option at_state (ws_sessionAttention (poll_watch E ptys hid w ws) rid) = Some Waiting"
    "map_option at_state (ws_sessionAttention ws rid) \<noteq> Some Waiting"
  shows "sw_alert w = js ''waiting'' \<and> (\<exists>s \<in> set (ws_running ws). r_id s = rid \<and> r_muxSession s = sw_muxSession w \<and> r_hostId s = hid)"
proof -
  have tmux: "at_state (mergeAttention p n (js ''tmux'')) = at_state n" for p n by (simp add: merge_accepts)
  show ?thesis
  proof (cases "List.find (\<lambda>s. r_muxSession s = sw_muxSession w \<and> r_hostId s = hid) (ws_running ws)")
    case None
    with assms show ?thesis by (simp add: poll_watch_def)
  next
    case (Some s)
    then have "s \<in> set (ws_running ws)" "r_muxSession s = sw_muxSession w" "r_hostId s = hid"
      by (auto simp: find_Some_iff)
    with Some assms show ?thesis
      by (auto simp: poll_watch_def Let_def tmux split: if_splits option.splits)
  qed
qed

lemma open_key_neq: "js ''open:'' @ a \<noteq> js ''detached:'' @ b"
  by (simp add: js_def)

section \<open>Properties\<close>

text \<open>
  C40. Quick connect reads back what a user types for a host: for a user name and a host without
  surrounding blanks, the host without \<^verbatim>\<open>@\<close> and \<^verbatim>\<open>:\<close>, and a port from 1 to 65535, the text
  \<^verbatim>\<open>user@host:port\<close> parses to exactly these (the user name may itself contain \<^verbatim>\<open>@\<close>), and a port
  out of that range is rejected.\<close>

theorem quick_connect_round_trip:
  assumes "u \<noteq> []" "\<not> is_ws (hd u)" "\<not> is_ws (last u)" "h \<noteq> []" "\<not> is_ws (hd h)" "\<not> is_ws (last h)"
    "64 \<notin> set h" "58 \<notin> set h"
  shows "parseQuickConnect (u @ 64 # h @ 58 # show_nat p) =
     (if 1 \<le> p \<and> p \<le> 65535 then Some \<lparr>hd_label = h, hd_hostname = h, hd_port = p, hd_username = u\<rparr> else None)"
proof -
  let ?host = "h @ 58 # show_nat p"
  let ?s = "u @ 64 # ?host"
  have d: "c \<in> set (show_nat p) \<Longrightarrow> c \<noteq> 64 \<and> c \<noteq> 58" for c using show_nat_digits [of c p] by auto
  have nw: "\<not> is_ws (last (show_nat p))" by (rule digit_not_ws [OF show_nat_last_digit])
  have ts: "trim ?s = ?s" using assms nw by (intro trim_keeps) (auto simp: hd_append)
  have th: "trim ?host = ?host" using assms nw by (intro trim_keeps) (auto simp: hd_append)
  have tu: "trim u = u" using assms by (intro trim_keeps) auto
  have "64 \<notin> set ?host" using assms(7) d by fastforce
  then have l: "lastIndexOf 64 ?s = Some (length u)" by (rule lastIndexOf_last)
  have c: "lastIndexOf 58 ?host = Some (length h)" using d by (intro lastIndexOf_last) blast
  have "list_all is_digit (show_nat p)" by (rule digits_show)
  with c assms(4) have "split_port ?host = (if 1 \<le> p \<and> p \<le> 65535 then Some (h, p) else None)"
    by (auto simp: split_port_def Let_def read_show_nat)
  then show ?thesis
    using l ts th tu assms(1,4) by (simp add: parseQuickConnect_def Let_def)
qed

theorem quick_connect_round_trip_witness:
  "parseQuickConnect (js ''root@box:2222'') = Some \<lparr>hd_label = js ''box'', hd_hostname = js ''box'', hd_port = 2222, hd_username = js ''root''\<rparr>"
proof -
  have "js ''root@box:2222'' = js ''root'' @ 64 # js ''box'' @ 58 # show_nat 2222"
    by (simp add: js_def show_nat.simps)
  moreover have "js ''root'' \<noteq> []" "\<not> is_ws (hd (js ''root''))" "\<not> is_ws (last (js ''root''))" "js ''box'' \<noteq> []"
    "\<not> is_ws (hd (js ''box''))" "\<not> is_ws (last (js ''box''))" "64 \<notin> set (js ''box'')" "58 \<notin> set (js ''box'')"
    by (simp_all add: js_eval)
  note quick_connect_round_trip [OF this, of 2222]
  ultimately show ?thesis by simp
qed

text \<open>
  A killed running session is gone: it has no row, no attention state and no attached
  terminal, the other rows stay in order, and the vault marker is ended before the multiplexer
  session is killed, so that a restart cannot bring it back.\<close>

theorem killed_session_is_gone:
  "let ws' = killRunningSession v s ws in
     ws_running ws' = filter (\<lambda>r. r_id r \<noteq> r_id s) (ws_running ws)
     \<and> ws_sessionAttention ws' (r_id s) = None \<and> (\<forall>i. ws_ptyToRunning ws' i \<noteq> Some (r_id s))
     \<and> (\<exists>es. ws_effects ws' = ws_effects ws @ es @ [EndRunning (r_id s), KillMux (r_hostId s) (r_muxSession s)])"
proof -
  have c: "ws_running (closeTab v i k w) = ws_running w" "ws_sessionAttention (closeTab v i k w) = ws_sessionAttention w"
    "ws_ptyToRunning (closeTab v i k w) = (ws_ptyToRunning w)(i := None)" for i k w
    by (simp_all add: closeTab_def Let_def forget_session_def goLauncher_def emit_def split: option.split)
  have k: "ws_running (kill_state s ws) = filter (\<lambda>r. r_id r \<noteq> r_id s) (ws_running ws)"
    "ws_sessionAttention (kill_state s ws) (r_id s) = None" "ws_ptyToRunning (kill_state s ws) i \<noteq> Some (r_id s)"
    "ws_effects (kill_state s ws) = ws_effects ws" for i
    by (simp_all add: kill_state_def drop_rows_def)
  show ?thesis
  proof (cases "List.find (\<lambda>t. tab_projectId t = Some (r_projectId s)) (ws_tabs ws)")
    case None
    then show ?thesis using k by (simp add: killRunningSession_def Let_def)
  next
    case (Some t)
    then show ?thesis using k by (simp add: killRunningSession_def Let_def c closeTab_effects)
  qed
qed

text \<open>
  The poll of detached sessions never touches an attached one, and a session starts to wait
  only if the poll of its host reported an alert for its multiplexer session.\<close>

theorem poll_respects_attached:
  "(attached rid ptys ws \<longrightarrow> ws_sessionAttention (poll_host E ptys hid watches ws) rid = ws_sessionAttention ws rid)
   \<and> (map_option at_state (ws_sessionAttention (poll_host E ptys hid watches ws) rid) = Some Waiting
      \<and> map_option at_state (ws_sessionAttention ws rid) \<noteq> Some Waiting \<longrightarrow>
        (\<exists>w \<in> set watches. sw_alert w = js ''waiting''
           \<and> (\<exists>s \<in> set (ws_running ws). r_id s = rid \<and> r_muxSession s = sw_muxSession w \<and> r_hostId s = hid)))"
proof (induction watches arbitrary: ws)
  case (Cons w watches)
  let ?w = "poll_watch E ptys hid w ws"
  have f: "ws_running ?w = ws_running ws" "attached rid ptys ?w = attached rid ptys ws" using poll_watch_frame by blast+
  have p: "poll_host E ptys hid (w # watches) ws = poll_host E ptys hid watches ?w" by (simp add: poll_host_def)
  show ?case
  proof (intro conjI impI)
    assume a: "attached rid ptys ws"
    with Cons.IH [of ?w] f(2) poll_watch_attached [OF a, of E hid w]
    show "ws_sessionAttention (poll_host E ptys hid (w # watches) ws) rid = ws_sessionAttention ws rid" unfolding p by simp
  next
    assume b: "map_option at_state (ws_sessionAttention (poll_host E ptys hid (w # watches) ws) rid) = Some Waiting
      \<and> map_option at_state (ws_sessionAttention ws rid) \<noteq> Some Waiting"
    show "\<exists>w' \<in> set (w # watches). sw_alert w' = js ''waiting''
           \<and> (\<exists>s \<in> set (ws_running ws). r_id s = rid \<and> r_muxSession s = sw_muxSession w' \<and> r_hostId s = hid)"
    proof (cases "map_option at_state (ws_sessionAttention ?w rid) = Some Waiting")
      case True
      from poll_watch_waiting [OF True] b show ?thesis by auto
    next
      case False
      with Cons.IH [of ?w] b f(1) show ?thesis unfolding p by auto
    qed
  qed
qed (auto simp: poll_host_def)

theorem poll_respects_attached_witness:
  "ws_sessionAttention (poll_host sample_env [[1]] [104]
      [\<lparr>sw_muxSession = [7], sw_alert = js ''waiting'', sw_supported = True, sw_message = None\<rparr>]
      (empty_workspace\<lparr>ws_ptyToRunning := [[1] \<mapsto> [5]]\<rparr>)) [5] = None"
proof -
  have "attached [5] [[1]] (empty_workspace\<lparr>ws_ptyToRunning := [[1] \<mapsto> [5]]\<rparr>)" by (simp add: attached_def)
  with poll_respects_attached [of "[5]" "[[1]]" "empty_workspace\<lparr>ws_ptyToRunning := [[1] \<mapsto> [5]]\<rparr>"] show ?thesis
    by (simp add: empty_workspace_def)
qed

text \<open>
  The rail shows every session once: with distinct tabs and distinct running sessions all
  entries have different keys, and a running session has an entry of its own exactly when no
  open tab is attached to it or belongs to its project.\<close>

theorem rail_lists_each_once:
  assumes "distinct (map tab_id (ws_tabs ws))" "distinct (map r_id (ws_running ws))"
  shows "distinct (map ri_key (railRunningItems ws))
     \<and> (\<forall>s \<in> set (ws_running ws). detached_item ws s \<in> set (railRunningItems ws) \<longleftrightarrow> is_detached ws s)"
proof
  have o: "map ri_key (map (open_item ws) ts) = map (\<lambda>i. js ''open:'' @ i) (map tab_id ts)" for ts
    by (simp add: open_item_def Let_def)
  have d: "map ri_key (map (detached_item ws) rs) = map (\<lambda>i. js ''detached:'' @ i) (map r_id rs)" for rs
    by (simp add: detached_item_def)
  have i: "inj (\<lambda>i. js k @ i)" for k by (simp add: inj_def)
  have "distinct (map r_id (filter (is_detached ws) (ws_running ws)))" using assms(2) by (rule distinct_map_filter)
  with assms(1) i show "distinct (map ri_key (railRunningItems ws))"
    unfolding railRunningItems_def map_append o d
    by (auto simp: distinct_map open_key_neq intro: inj_on_subset simp del: map_map)
  show "\<forall>s \<in> set (ws_running ws). detached_item ws s \<in> set (railRunningItems ws) \<longleftrightarrow> is_detached ws s"
  proof
    fix s assume s: "s \<in> set (ws_running ws)"
    have o: "detached_item ws s \<notin> set (map (open_item ws) (ws_tabs ws))"
      by (auto simp: detached_item_def open_item_def Let_def)
    have r: "r = s" if "r \<in> set (ws_running ws)" "detached_item ws s = detached_item ws r" for r
    proof -
      have "r_id s = r_id r" using that(2) by (simp add: detached_item_def)
      with assms(2) s that(1) show ?thesis by (auto simp: distinct_map dest: inj_onD)
    qed
    have "detached_item ws s \<in> set (railRunningItems ws) \<longleftrightarrow>
        detached_item ws s \<in> detached_item ws ` {r \<in> set (ws_running ws). is_detached ws r}"
      using o by (simp add: railRunningItems_def)
    also have "\<dots> \<longleftrightarrow> is_detached ws s" using s r by blast
    finally show "detached_item ws s \<in> set (railRunningItems ws) \<longleftrightarrow> is_detached ws s" .
  qed
qed

theorem rail_lists_each_once_witness: "distinct (map ri_key (railRunningItems one_local))"
proof -
  have "ws_running one_local = []"
    by (simp add: one_local_def local_opened_def empty_workspace_def Let_def attachOutput_def nonempty_def
        wireTerminal_def emit_def activateSession_def enterWorkspace_def)
  then show ?thesis using rail_lists_each_once [of one_local] by (simp add: one_local_tabs)
qed

text \<open>
  A restart reopens what was open: if the vault still has the hosts and projects, the tabs
  saved and restored give, in order and one per terminal tab, the project of a project tab, a
  local shell, or a forced connection to the same host and the same multiplexer session.\<close>

theorem restart_reopens_tabs:
  assumes "\<forall>t \<in> set (ws_tabs ws). is_pty t \<longrightarrow> tab_projectId t \<noteq> Some []
      \<and> (\<forall>p. tab_projectId t = Some p \<longrightarrow> find_row p_id p (v_projects v) \<noteq> None)
      \<and> (tab_projectId t = None \<and> tab_host t \<noteq> js ''local'' \<longrightarrow> find_row h_id (tab_host t) (v_hosts v) \<noteq> None)"
  shows "restore_plan v (saved_tabs ws) =
     map (\<lambda>t. case tab_projectId t of
                Some p \<Rightarrow> ReopenProject (the (find_row p_id p (v_projects v)))
              | None \<Rightarrow> if tab_host t = js ''local'' then ReopenLocal
                        else Reconnect (the (find_row h_id (tab_host t) (v_hosts v))) \<lparr>co_forceNew = True, co_muxName = tab_muxName t\<rparr>)
       (filter is_pty (ws_tabs ws))"
proof -
  let ?sv = "\<lambda>t. \<lparr>sv_hostId = tab_host t, sv_muxName = tab_muxName t, sv_projectId = tab_projectId t\<rparr>"
  let ?act = "\<lambda>t. case tab_projectId t of
                Some p \<Rightarrow> ReopenProject (the (find_row p_id p (v_projects v)))
              | None \<Rightarrow> if tab_host t = js ''local'' then ReopenLocal
                        else Reconnect (the (find_row h_id (tab_host t) (v_hosts v))) \<lparr>co_forceNew = True, co_muxName = tab_muxName t\<rparr>"
  have e: "restore_entry v (?sv t) = Some (?act t)" if "t \<in> set (filter is_pty (ws_tabs ws))" for t
    using assms that by (auto simp: restore_entry_def nonempty_def split: option.splits)
  have g: "(\<And>t. t \<in> set ts \<Longrightarrow> restore_entry v (?sv t) = Some (?act t)) \<Longrightarrow> List.map_filter (restore_entry v) (map ?sv ts) = map ?act ts" for ts
    by (induction ts) (simp_all add: map_filter_simps)
  show ?thesis unfolding restore_plan_def saved_tabs_def by (rule g) (rule e)
qed

theorem restart_reopens_tabs_witness: "restore_plan (render one_local) (saved_tabs one_local) = [ReopenLocal]"
proof -
  have "\<forall>t \<in> set (ws_tabs one_local). is_pty t \<longrightarrow> tab_projectId t \<noteq> Some []
      \<and> (\<forall>p. tab_projectId t = Some p \<longrightarrow> find_row p_id p (v_projects (render one_local)) \<noteq> None)
      \<and> (tab_projectId t = None \<and> tab_host t \<noteq> js ''local'' \<longrightarrow> find_row h_id (tab_host t) (v_hosts (render one_local)) \<noteq> None)"
    by (simp add: one_local_tabs plain_tab_def)
  from restart_reopens_tabs [OF this] show ?thesis by (simp add: one_local_tabs is_pty_def plain_tab_def)
qed

end
