(* ===== verification/JsSort.thy ===== *)
theory JsSort
  imports "HOL-Library.Multiset" Prelude
begin

text \<open>
  \<^verbatim>\<open>Array.prototype.sort\<close> with a comparison function: a stable sort, whose result is determined when the
  comparison is consistent. The interface \<open>comparison\<close> states what consistent means; comparisons
  are built from numeric keys and chained with \<^verbatim>\<open>||\<close>. Also \<^verbatim>\<open>Set\<close>, whose elements are kept in
  the order of their insertion.
\<close>

fun insert_by :: "('a \<Rightarrow> 'a \<Rightarrow> int) \<Rightarrow> 'a \<Rightarrow> 'a list \<Rightarrow> 'a list" where
  "insert_by cmp x [] = [x]"
| "insert_by cmp x (y # ys) = (if cmp x y \<le> 0 then x # y # ys else y # insert_by cmp x ys)"

definition js_sort :: "('a \<Rightarrow> 'a \<Rightarrow> int) \<Rightarrow> 'a list \<Rightarrow> 'a list" where
  "js_sort cmp xs = foldr (insert_by cmp) xs []"

text \<open>\<^verbatim>\<open>a || b\<close> on numbers.\<close>

definition or_cmp :: "int \<Rightarrow> int \<Rightarrow> int" where
  "or_cmp a b = (if a \<noteq> 0 then a else b)"

lemma mset_insert_by: "mset (insert_by cmp x xs) = add_mset x (mset xs)"
  by (induction xs) auto

lemma mset_js_sort: "mset (js_sort cmp xs) = mset xs"
  by (induction xs) (simp_all add: js_sort_def mset_insert_by)

lemma set_insert_by: "set (insert_by cmp x xs) = insert x (set xs)"
  by (metis mset_insert_by set_mset_add_mset_insert set_mset_mset)

lemma js_sort_simps: "js_sort cmp [] = []" "js_sort cmp (x # xs) = insert_by cmp x (js_sort cmp xs)"
  by (simp_all add: js_sort_def)

lemma set_js_sort [simp]: "set (js_sort cmp xs) = set xs" and length_js_sort [simp]: "length (js_sort cmp xs) = length xs"
  by (metis mset_js_sort set_mset_mset) (metis mset_js_sort size_mset)

locale comparison =
  fixes cmp :: "'a \<Rightarrow> 'a \<Rightarrow> int"
  assumes cmp_swap: "0 < cmp x y \<longleftrightarrow> cmp y x < 0"
    and cmp_trans: "cmp x y \<le> 0 \<Longrightarrow> cmp y z \<le> 0 \<Longrightarrow> cmp x z \<le> 0"
begin

lemma cmp_refl: "cmp x x = 0"
  using cmp_swap [of x x] by linarith

lemma cmp_total: "cmp x y \<le> 0 \<or> cmp y x \<le> 0"
  using cmp_swap [of x y] by linarith

lemma cmp_less_trans: "cmp x y \<le> 0 \<Longrightarrow> cmp y z < 0 \<Longrightarrow> cmp x z < 0"
  using cmp_trans [of z x y] cmp_swap [of z x] cmp_swap [of z y] cmp_swap [of x z] by linarith

lemma cmp_trans_less: "cmp x y < 0 \<Longrightarrow> cmp y z \<le> 0 \<Longrightarrow> cmp x z < 0"
  using cmp_trans [of y z x] cmp_swap [of z x] cmp_swap [of y x] by linarith

lemma sorted_insert_by: "sorted_wrt (\<lambda>x y. cmp x y \<le> 0) xs \<Longrightarrow> sorted_wrt (\<lambda>x y. cmp x y \<le> 0) (insert_by cmp x xs)"
proof (induction xs)
  case (Cons y ys)
  then show ?case using cmp_total [of x y] cmp_trans [of x y] by (auto simp: set_insert_by)
qed simp

lemma sorted_js_sort: "sorted_wrt (\<lambda>x y. cmp x y \<le> 0) (js_sort cmp xs)"
  by (induction xs) (simp_all add: js_sort_simps sorted_insert_by)

lemma insert_by_equiv:
  "filter (\<lambda>y. cmp y k = 0) (insert_by cmp x xs) = filter (\<lambda>y. cmp y k = 0) (x # xs)"
proof (induction xs)
  case (Cons y ys)
  have "\<not> (cmp x k = 0 \<and> cmp y k = 0)" if "0 < cmp x y"
  proof
    assume "cmp x k = 0 \<and> cmp y k = 0"
    then have "cmp x k \<le> 0" "cmp k y \<le> 0" using cmp_swap [of k y] by linarith+
    then show False using cmp_trans [of x k y] that by linarith
  qed
  with Cons show ?case by (auto split: if_splits)
qed simp

text \<open>Elements that compare equal keep their order.\<close>

lemma js_sort_stable: "filter (\<lambda>y. cmp y k = 0) (js_sort cmp xs) = filter (\<lambda>y. cmp y k = 0) xs"
  by (induction xs) (simp_all add: js_sort_simps insert_by_equiv)

text \<open>The three facts determine the result, whatever the algorithm.\<close>

lemma sorted_head_le: "sorted_wrt (\<lambda>x y. cmp x y \<le> 0) (y # ys) \<Longrightarrow> x \<in> set (y # ys) \<Longrightarrow> cmp y x \<le> 0"
  using cmp_refl by auto

lemma sort_unique:
  assumes "mset ys = mset zs" "sorted_wrt (\<lambda>x y. cmp x y \<le> 0) ys" "sorted_wrt (\<lambda>x y. cmp x y \<le> 0) zs"
    "\<And>k. filter (\<lambda>y. cmp y k = 0) ys = filter (\<lambda>y. cmp y k = 0) zs"
  shows "ys = zs"
  using assms
proof (induction ys arbitrary: zs)
  case (Cons y ys)
  then obtain z zs' where zs: "zs = z # zs'" by (cases zs) auto
  have mem: "z \<in> set (y # ys)" "y \<in> set zs" using Cons.prems(1) zs by (metis list.set_intros(1) mset_eq_setD)+
  have "cmp y z \<le> 0" "cmp z y \<le> 0"
    using sorted_head_le [OF Cons.prems(2) mem(1)] sorted_head_le [of z zs' y] Cons.prems(3) mem(2) zs by auto
  then have "cmp z y = 0" using cmp_swap [of y z] by linarith
  then have "y = z" using Cons.prems(4) [of y] zs cmp_refl [of y] by simp
  moreover have "ys = zs'"
  proof (rule Cons.IH)
    show "mset ys = mset zs'" "sorted_wrt (\<lambda>x y. cmp x y \<le> 0) ys" "sorted_wrt (\<lambda>x y. cmp x y \<le> 0) zs'"
      using Cons.prems(1-3) zs \<open>y = z\<close> by simp_all
    show "filter (\<lambda>y. cmp y k = 0) ys = filter (\<lambda>y. cmp y k = 0) zs'" for k
      using Cons.prems(4) [of k] zs \<open>y = z\<close> by (simp split: if_splits)
  qed
  ultimately show ?case using zs by simp
qed simp

end

lemma comparison_key: "comparison (\<lambda>x y. f x - f y)" for f :: "'a \<Rightarrow> int"
  by unfold_locales auto

lemma comparison_on: "comparison c \<Longrightarrow> comparison (\<lambda>x y. c (f x) (f y))"
  unfolding comparison_def by blast

lemma comparison_flip: "comparison c \<Longrightarrow> comparison (\<lambda>x y. c y x)"
  unfolding comparison_def by meson

lemma comparison_or:
  assumes c: "comparison c" and d: "comparison d"
  shows "comparison (\<lambda>x y. or_cmp (c x y) (d x y))"
proof
  show "0 < or_cmp (c x y) (d x y) \<longleftrightarrow> or_cmp (c y x) (d y x) < 0" for x y
    using comparison.cmp_swap [OF c, of x y] comparison.cmp_swap [OF c, of y x] comparison.cmp_swap [OF d, of x y]
    by (auto simp: or_cmp_def)
  show "or_cmp (c x z) (d x z) \<le> 0" if "or_cmp (c x y) (d x y) \<le> 0" "or_cmp (c y z) (d y z) \<le> 0" for x y z
  proof -
    have le: "c x y \<le> 0" "c y z \<le> 0" using that by (auto simp: or_cmp_def split: if_splits)
    show ?thesis
    proof (cases "c x y < 0 \<or> c y z < 0")
      case True
      then have "c x z < 0"
        using comparison.cmp_less_trans [OF c le(1)] comparison.cmp_trans_less [OF c _ le(2)] by blast
      then show ?thesis by (simp add: or_cmp_def)
    next
      case False
      with le have "c x y = 0" "c y z = 0" by auto
      moreover from this le have "c x z \<le> 0" by (blast intro: comparison.cmp_trans [OF c])
      ultimately show ?thesis using that comparison.cmp_trans [OF d, of x y z] by (auto simp: or_cmp_def)
    qed
  qed
qed

text \<open>Comparison of strings by their code units, the order of \<^verbatim>\<open>sort()\<close> without an argument.\<close>

fun unit_compare :: "nat list \<Rightarrow> nat list \<Rightarrow> int" where
  "unit_compare [] [] = 0"
| "unit_compare [] (y # ys) = -1"
| "unit_compare (x # xs) [] = 1"
| "unit_compare (x # xs) (y # ys) = (if x < y then -1 else if y < x then 1 else unit_compare xs ys)"

lemma unit_compare_less_trans:
  "unit_compare x y < 0 \<Longrightarrow> unit_compare y z \<le> 0 \<Longrightarrow> unit_compare x z < 0"
proof (induction x y arbitrary: z rule: unit_compare.induct)
  case (2 y ys)
  then show ?case by (cases z) simp_all
next
  case (4 x xs y ys)
  show ?case
  proof (cases z)
    case Nil
    then show ?thesis using "4.prems"(2) by simp
  next
    case (Cons w ws)
    consider "x < y" | "x = y" using "4.prems"(1) by (auto split: if_splits)
    then show ?thesis
    proof cases
      case 1
      then show ?thesis using "4.prems"(2) Cons by (simp split: if_splits)
    next
      case 2
      then show ?thesis using 4 Cons by (simp split: if_splits)
    qed
  qed
qed simp_all

lemma unit_compare_swap: "0 < unit_compare x y \<longleftrightarrow> unit_compare y x < 0"
  by (induction x y rule: unit_compare.induct) (simp_all split: if_splits)

lemma unit_compare_eq: "unit_compare x y = 0 \<longleftrightarrow> x = y"
  by (induction x y rule: unit_compare.induct) auto

interpretation code_units: comparison unit_compare
proof
  show "0 < unit_compare x y \<longleftrightarrow> unit_compare y x < 0" for x y
    by (rule unit_compare_swap)
  show "unit_compare x z \<le> 0" if "unit_compare x y \<le> 0" "unit_compare y z \<le> 0" for x y z
  proof (cases "unit_compare x y = 0")
    case True
    then show ?thesis using that(2) by (simp add: unit_compare_eq)
  next
    case False
    then show ?thesis using unit_compare_less_trans [of x y z] that by simp
  qed
qed

section \<open>Sets in insertion order\<close>

definition set_add :: "'a \<Rightarrow> 'a list \<Rightarrow> 'a list" where
  "set_add x xs = (if x \<in> set xs then xs else xs @ [x])"

definition set_delete :: "'a \<Rightarrow> 'a list \<Rightarrow> 'a list" where
  "set_delete x xs = filter (\<lambda>y. y \<noteq> x) xs"

text \<open>\<^verbatim>\<open>new Set(xs)\<close>, spread back into an array\<close>

definition set_of :: "'a list \<Rightarrow> 'a list" where
  "set_of xs = foldl (\<lambda>s x. set_add x s) [] xs"

definition set_toggle :: "'a \<Rightarrow> 'a list \<Rightarrow> 'a list" where
  "set_toggle x xs = (if x \<in> set xs then set_delete x xs else set_add x xs)"

lemma set_set_add [simp]: "set (set_add x xs) = insert x (set xs)"
  by (auto simp: set_add_def)

lemma set_set_delete [simp]: "set (set_delete x xs) = set xs - {x}"
  by (auto simp: set_delete_def)

lemma distinct_set_add [simp]: "distinct (set_add x xs) \<longleftrightarrow> distinct xs"
  by (auto simp: set_add_def)

lemma distinct_set_toggle: "distinct xs \<Longrightarrow> distinct (set_toggle x xs)"
  by (simp add: set_toggle_def set_delete_def)

lemma set_set_toggle: "set (set_toggle x xs) = (if x \<in> set xs then set xs - {x} else insert x (set xs))"
  by (auto simp: set_toggle_def)

lemma set_fold_add: "set (foldl (\<lambda>s x. set_add x s) s xs) = set s \<union> set xs"
  by (induction xs arbitrary: s) auto

lemma distinct_fold_add: "distinct s \<Longrightarrow> distinct (foldl (\<lambda>s x. set_add x s) s xs)"
  by (induction xs arbitrary: s) auto

lemma set_set_of [simp]: "set (set_of xs) = set xs" and distinct_set_of [simp]: "distinct (set_of xs)"
  by (simp_all add: set_of_def set_fold_add distinct_fold_add)

lemma fold_add_distinct: "distinct (s @ xs) \<Longrightarrow> foldl (\<lambda>s x. set_add x s) s xs = s @ xs"
  by (induction xs arbitrary: s) (auto simp: set_add_def)

lemma set_of_distinct: "distinct xs \<Longrightarrow> set_of xs = xs"
  using fold_add_distinct [of "[]" xs] by (simp add: set_of_def)

end
