(* ===== verification/Commands.thy ===== *)
theory Commands
  imports Projects JsSort
begin

text \<open>
  The commands of the application (src/apps/ui/src/App.tsx): the menu, the keyboard shortcuts of
  the window, what happens when the vault is locked or unlocked, starting an agent on a host, and
  the choice of the screen.

  A handler changes the state at once and may start an asynchronous operation; what it starts is
  recorded as a request, in order. Handlers read the values of the render \<open>v\<close> they were created
  in; refs and updates written as functions read the current state, as in theory \<open>Workspace\<close>.
\<close>

section \<open>State\<close>

datatype paste_target = FieldTarget | TerminalTarget session_id

datatype request =
    OpenTerminal jsstr session_id jsstr  \<comment> \<open>host, pending tab, multiplexer session\<close>
  | OpenLocalShell
  | OpenSplit orientation
  | OpenProject project
  | OpenWindow
  | CallVaultLock
  | CheckUpdates
  | WriteClipboard jsstr
  | ReadClipboard paste_target
  | OpenExternal jsstr
  | StoreItem jsstr jsstr
  | SetIdleLock jsnum
  | RespondHostKey jsstr bool
  | FocusMainWindow

record shell =
  sh_ws :: workspace
  sh_railHidden :: bool
  sh_importOpen :: bool
  sh_openingLocal :: bool
  sh_prompt :: "jsstr option"
  sh_editor :: "host option option"  \<comment> \<open>\<open>Some None\<close> for a new host\<close>
  sh_pendingDelete :: "host option"
  sh_requests :: "request list"

definition on_ws :: "(workspace \<Rightarrow> workspace) \<Rightarrow> shell \<Rightarrow> shell" where
  "on_ws f s = s\<lparr>sh_ws := f (sh_ws s)\<rparr>"

definition ask :: "request list \<Rightarrow> shell \<Rightarrow> shell" where
  "ask rs s = s\<lparr>sh_requests := sh_requests s @ rs\<rparr>"

text \<open>
  What a handler reads besides the state: fresh identifiers, whether an editable field has the
  focus and what is selected there, the last command of a session's blocks, the platform.
\<close>

record cmd_env =
  ce_pendingId :: session_id
  ce_uuid :: jsstr
  ce_editable :: bool
  ce_domSelection :: jsstr
  ce_lastCommand :: "session_id \<Rightarrow> jsstr option"
  ce_isMac :: bool

section \<open>Operations that are started\<close>

definition start_connect :: "cmd_env \<Rightarrow> host \<Rightarrow> connect_options \<Rightarrow> shell \<Rightarrow> shell" where
  "start_connect E h opts s =
     (let mux = connect_mux opts (ce_uuid E);
          new = (existing_terminal h opts (sh_ws s) = None);
          s = on_ws (connect_start h opts (ce_pendingId E) mux) s
      in if new then ask [OpenTerminal (h_id h) (ce_pendingId E) mux] s else s)"

definition start_local :: "shell \<Rightarrow> shell" where
  "start_local s = ask [OpenLocalShell] ((on_ws open_start s)\<lparr>sh_openingLocal := True\<rparr>)"

definition start_split :: "view \<Rightarrow> orientation \<Rightarrow> shell \<Rightarrow> shell" where
  "start_split v d s = (if split_allowed v then ask [OpenSplit d] (on_ws open_start s) else s)"

definition start_lock :: "view \<Rightarrow> shell \<Rightarrow> shell" where
  "start_lock v s = ask [CallVaultLock] (on_ws (lockNow v) s)"

definition toggleRail :: "shell \<Rightarrow> shell" where
  "toggleRail s = ask [StoreItem (js ''tethra.railHidden'') (if sh_railHidden s then js ''0'' else js ''1'')]
     (s\<lparr>sh_railHidden := \<not> sh_railHidden s\<rparr>)"

definition answerPrompt :: "bool \<Rightarrow> shell \<Rightarrow> shell" where
  "answerPrompt accepted s =
     (case sh_prompt s of None \<Rightarrow> s | Some i \<Rightarrow> ask [RespondHostKey i accepted] (s\<lparr>sh_prompt := None\<rparr>))"

text \<open>The most recently opened project of a host; \<open>date\<close> is \<^verbatim>\<open>Date.parse\<close> on the dates of the backend.\<close>

definition opened_time :: "(jsstr \<Rightarrow> int) \<Rightarrow> project \<Rightarrow> int" where
  "opened_time date p = (case nonempty (p_lastOpened p) of Some d \<Rightarrow> date d | None \<Rightarrow> 0)"

definition on_host :: "jsstr \<Rightarrow> project \<Rightarrow> bool" where
  "on_host hid p = (case p_location p of RemotePath h _ \<Rightarrow> h = hid | LocalPath _ \<Rightarrow> False)"

definition openAgentOnHost :: "(jsstr \<Rightarrow> int) \<Rightarrow> view \<Rightarrow> host \<Rightarrow> shell \<Rightarrow> shell" where
  "openAgentOnHost date v h s =
     (case js_sort (\<lambda>a b. opened_time date b - opened_time date a) (filter (on_host (h_id h)) (v_projects v)) of
        p # _ \<Rightarrow> ask [OpenProject p] s
      | [] \<Rightarrow> on_ws (failed (js ''No project on '' @ h_label h @ js '' yet '' @ [8212] @ js '' create one to launch an agent.'')) s)"

definition reattachSession :: "view \<Rightarrow> running_session \<Rightarrow> shell \<Rightarrow> shell" where
  "reattachSession v r s =
     (case find_row p_id (r_projectId r) (v_projects v) of
        Some p \<Rightarrow> ask [OpenProject p] s
      | None \<Rightarrow> on_ws (failed (js ''Project for that running session is missing from the vault.'')) s)"

text \<open>A click on a desktop notification.\<close>

definition notification_clicked :: "view \<Rightarrow> jsstr \<Rightarrow> shell \<Rightarrow> shell" where
  "notification_clicked v rid s =
     (case find_row r_id rid (ws_running (sh_ws s)) of None \<Rightarrow> s
      | Some r \<Rightarrow> reattachSession v r (ask [FocusMainWindow] s))"

text \<open>What the assistant is told about the active session.\<close>

record assist_context =
  ac_cwd :: "jsstr option"
  ac_hostLabel :: jsstr
  ac_isLocal :: bool
  ac_transcriptTail :: jsstr
  ac_lastExitCode :: "int option"

definition assistContextForActive :: "view \<Rightarrow> workspace \<Rightarrow> assist_context option" where
  "assistContextForActive v ws =
     (case active_tab v of None \<Rightarrow> None
      | Some t \<Rightarrow>
          if \<not> is_pty t then None
          else Some \<lparr>ac_cwd = tab_cwd t,
                     ac_hostLabel = (if tab_kind t = LocalTab then js ''Local''
                                     else case find_row h_id (tab_host t) (v_hosts v) of Some h \<Rightarrow> h_label h | None \<Rightarrow> tab_title t),
                     ac_isLocal = (tab_kind t = LocalTab),
                     ac_transcriptTail = (case ws_transcripts ws (tab_id t) of Some x \<Rightarrow> x | None \<Rightarrow> []),
                     ac_lastExitCode = ws_lastExitCodes ws (tab_id t)\<rparr>)"

definition openHostIds :: "view \<Rightarrow> jsstr set" where
  "openHostIds v = set (filter (\<lambda>h. h \<noteq> [] \<and> h \<noteq> js ''local'') (map tab_host (v_tabs v)))"

section \<open>Menu\<close>

text \<open>The active tab as the refs have it.\<close>

definition ref_active :: "workspace \<Rightarrow> tab option" where
  "ref_active ws = Option.bind (ws_activeId ws) (\<lambda>a. find_tab a (ws_tabs ws))"

definition ref_terminal :: "workspace \<Rightarrow> tab option" where
  "ref_terminal ws = (case ref_active ws of Some t \<Rightarrow> if is_pty t then Some t else None | None \<Rightarrow> None)"

definition with_terminal :: "(tab \<Rightarrow> workspace \<Rightarrow> workspace) \<Rightarrow> shell \<Rightarrow> shell" where
  "with_terminal f s = (case ref_terminal (sh_ws s) of Some t \<Rightarrow> on_ws (f t) s | None \<Rightarrow> s)"

definition menu_new_terminal :: "cmd_env \<Rightarrow> view \<Rightarrow> shell \<Rightarrow> shell" where
  "menu_new_terminal E v s =
     (let plain = \<lparr>co_forceNew = False, co_muxName = None\<rparr>;
          first = (case v_hosts v of h # _ \<Rightarrow> start_connect E h plain s | [] \<Rightarrow> s)
      in case ref_active (sh_ws s) of
           Some t \<Rightarrow>
             if tab_kind t \<noteq> SftpTab \<and> tab_host t \<noteq> js ''local''
             then (case find_row h_id (tab_host t) (v_hosts v) of Some h \<Rightarrow> start_connect E h plain s | None \<Rightarrow> s)
             else first
         | None \<Rightarrow> first)"

definition menu_copy :: "cmd_env \<Rightarrow> shell \<Rightarrow> shell" where
  "menu_copy E s =
     (if ce_editable E \<and> ce_domSelection E \<noteq> [] then ask [WriteClipboard (ce_domSelection E)] s
      else with_terminal (\<lambda>t. emit [CopySelection (tab_id t)]) s)"

definition menu_paste :: "cmd_env \<Rightarrow> shell \<Rightarrow> shell" where
  "menu_paste E s =
     (if ce_editable E then ask [ReadClipboard FieldTarget] s
      else case ref_terminal (sh_ws s) of Some t \<Rightarrow> ask [ReadClipboard (TerminalTarget (tab_id t))] s | None \<Rightarrow> s)"

definition close_active_tab :: "view \<Rightarrow> shell \<Rightarrow> shell" where
  "close_active_tab v s =
     (case nonempty (ws_activeId (sh_ws s)) of Some a \<Rightarrow> on_ws (closeTab v a False) s | None \<Rightarrow> s)"

definition docs_url :: jsstr where
  "docs_url = js ''https://github.com/AnthonyFiset/Tethra/blob/main/HANDOFF.md''"

definition handleMenuCommand :: "cmd_env \<Rightarrow> view \<Rightarrow> jsstr \<Rightarrow> shell \<Rightarrow> shell" where
  "handleMenuCommand E v cmd s =
     (if cmd = js ''app.settings'' then on_ws (openSettings (js ''general'')) s
      else if cmd = js ''app.lock'' then start_lock v s
      else if cmd = js ''app.check_updates'' then ask [CheckUpdates] s
      else if cmd = js ''file.new_terminal'' then menu_new_terminal E v s
      else if cmd = js ''file.new_local'' then start_local s
      else if cmd = js ''file.new_window'' then ask [OpenWindow] s
      else if cmd = js ''file.open_project'' then on_ws (\<lambda>ws. (goLauncher v ws)\<lparr>ws_paletteOpen := True\<rparr>) s
      else if cmd = js ''file.import_ssh'' then s\<lparr>sh_importOpen := True\<rparr>
      else if cmd = js ''file.close_tab'' then close_active_tab v s
      else if cmd = js ''edit.copy'' then menu_copy E s
      else if cmd = js ''edit.paste'' then menu_paste E s
      else if cmd = js ''view.toggle_sidebar'' then toggleRail s
      else if cmd = js ''view.launcher'' then on_ws (goLauncher v) s
      else if cmd = js ''view.split_right'' then start_split v Horizontal s
      else if cmd = js ''view.split_down'' then start_split v Vertical s
      else if cmd = js ''view.zoom_pane'' then on_ws (toggleZoom v) s
      else if cmd = js ''terminal.clear'' then with_terminal (\<lambda>t. emit [ClearTerm (tab_id t)]) s
      else if cmd = js ''terminal.find'' then with_terminal (\<lambda>t ws. ws\<lparr>ws_findSessionId := Some (tab_id t)\<rparr>) s
      else if cmd = js ''terminal.reset'' then with_terminal (\<lambda>t. emit [ResetTerm (tab_id t)]) s
      else if cmd = js ''terminal.assist'' then with_terminal (\<lambda>t ws. ws\<lparr>ws_assistOpen := True\<rparr>) s
      else if cmd = js ''terminal.rerun_last'' then
        with_terminal (\<lambda>t. case nonempty (ce_lastCommand E (tab_id t)) of
            Some c \<Rightarrow> emit [InjectText (tab_id t) c False True] | None \<Rightarrow> id) s
      else if cmd = js ''go.palette'' \<or> cmd = js ''help.shortcuts'' then on_ws (\<lambda>ws. ws\<lparr>ws_paletteOpen := True\<rparr>) s
      else if cmd = js ''go.next_tab'' then on_ws (next_tab v) s
      else if cmd = js ''go.prev_tab'' then on_ws (prev_tab v) s
      else if cmd = js ''help.docs'' then ask [OpenExternal docs_url] s
      else if cmd = js ''help.issue'' then ask [OpenExternal (js ''https://github.com/AnthonyFiset/Tethra/issues'')] s
      else if cmd = js ''help.release_notes'' then ask [OpenExternal (js ''https://github.com/AnthonyFiset/Tethra/releases'')] s
      else s)"

text \<open>What follows when a clipboard operation or the check for updates returns.\<close>

definition clipboard_written :: "bool \<Rightarrow> shell \<Rightarrow> shell" where
  "clipboard_written ok s = (if ok then s else on_ws (failed (js ''Couldn'' @ [39] @ js ''t copy to the clipboard.'')) s)"

definition selection_copied :: "bool \<Rightarrow> shell \<Rightarrow> shell" where
  "selection_copied ok s =
     (if ok then s else on_ws (failed (js ''Nothing to copy '' @ [8212] @ js '' select text in the terminal first.'')) s)"

definition menu_pasted :: "session_id \<Rightarrow> jsstr \<Rightarrow> int \<Rightarrow> int \<Rightarrow> shell \<Rightarrow> int \<times> shell" where
  "menu_pasted sid clip now lastPaste s =
     (if clip = [] then (lastPaste, on_ws (failed (js ''Clipboard is empty.'')) s)
      else let (l, ws) = pasteIntoTerminal sid clip now lastPaste (sh_ws s) in (l, s\<lparr>sh_ws := ws\<rparr>))"

definition updates_checked :: "bool \<Rightarrow> jsstr option \<Rightarrow> shell \<Rightarrow> shell" where
  "updates_checked available version s =
     on_ws (failed (if available
       then js ''Update available: '' @ (case version of Some n \<Rightarrow> n | None \<Rightarrow> js ''new version'')
              @ js ''. Use the update banner to install.''
       else js ''You'' @ [39] @ js ''re on the latest version.'')) s"

section \<open>Keyboard shortcuts of the window\<close>

record key_chord =
  kc_key :: jsstr
  kc_metaKey :: bool
  kc_ctrlKey :: bool
  kc_shiftKey :: bool

text \<open>
  \<^verbatim>\<open>key.toLowerCase() === c\<close> for a letter (besides the capital letter, the Kelvin sign has the lower
  case \<^verbatim>\<open>k\<close>), and \<^verbatim>\<open>Number.parseInt(key, 10)\<close>.
\<close>

definition letter_key :: "jsstr \<Rightarrow> nat \<Rightarrow> bool" where
  "letter_key key c \<longleftrightarrow> key = [c] \<or> key = [c - 32] \<or> c = 107 \<and> key = [8490]"

definition parseInt10 :: "jsstr \<Rightarrow> int option" where
  "parseInt10 s =
     (let t = trimStart s;
          sign = (if t \<noteq> [] \<and> hd t = 45 then - 1 else 1 :: int);
          ds = takeWhile is_digit (if t \<noteq> [] \<and> (hd t = 45 \<or> hd t = 43) then tl t else t)
      in if ds = [] then None else Some (sign * int (read_nat ds)))"

definition nth_session :: "jsstr \<Rightarrow> workspace \<Rightarrow> tab option" where
  "nth_session key ws =
     (case parseInt10 key of None \<Rightarrow> None
      | Some d \<Rightarrow> if 1 \<le> d \<and> d \<le> 9 then tab_at (filter is_pty (ws_tabs ws)) (d - 1) else None)"

definition toggle_mode :: "workspace \<Rightarrow> workspace" where
  "toggle_mode ws =
     ws\<lparr>ws_appMode := (if ws_appMode ws = WorkspaceMode then LauncherMode
                        else if ws_tabs ws \<noteq> [] then WorkspaceMode else LauncherMode),
        ws_assistOpen := False, ws_zoomedId := None\<rparr>"

text \<open>The session a terminal shortcut acts on: the active terminal, unless an input field has the focus.\<close>

definition shortcut_terminal :: "cmd_env \<Rightarrow> workspace \<Rightarrow> tab option" where
  "shortcut_terminal E ws = (if ce_editable E then None else ref_terminal ws)"

definition want_find :: "cmd_env \<Rightarrow> key_chord \<Rightarrow> bool" where
  "want_find E k \<longleftrightarrow> (if ce_isMac E then kc_metaKey k \<and> \<not> kc_ctrlKey k \<and> \<not> kc_shiftKey k else kc_ctrlKey k \<and> kc_shiftKey k)"

text \<open>
  The handler: \<open>v\<close> and \<open>assistOpen\<close> belong to the render in which the effect last ran. The tests on
  the key exclude each other, so that the chain returns where the source goes on to tests that fail.
\<close>

definition letter_shortcut :: "cmd_env \<Rightarrow> view \<Rightarrow> bool \<Rightarrow> key_chord \<Rightarrow> shell \<Rightarrow> shell" where
  "letter_shortcut E v unlocked k s =
     (let key = kc_key k; ws = sh_ws s in
      if letter_key key 102 \<and> unlocked then
        (case shortcut_terminal E ws of
           Some t \<Rightarrow> if want_find E k then on_ws (\<lambda>ws. ws\<lparr>ws_findSessionId := Some (tab_id t)\<rparr>) s else s
         | None \<Rightarrow> s)
      else if letter_key key 99 \<and> \<not> kc_shiftKey k \<and> unlocked then
        (case shortcut_terminal E ws of Some t \<Rightarrow> on_ws (emit [CopySelection (tab_id t)]) s | None \<Rightarrow> s)
      else if letter_key key 118 \<and> \<not> kc_shiftKey k \<and> unlocked then
        (case shortcut_terminal E ws of Some t \<Rightarrow> ask [ReadClipboard (TerminalTarget (tab_id t))] s | None \<Rightarrow> s)
      else if letter_key key 107 \<and> unlocked then
        (if kc_shiftKey k then with_terminal (\<lambda>t. emit [ClearTerm (tab_id t)]) s
         else on_ws (\<lambda>ws. ws\<lparr>ws_paletteOpen := True\<rparr>) s)
      else if key = js '','' \<and> unlocked then on_ws (openSettings (js ''general'')) s
      else if letter_key key 119 \<and> unlocked then close_active_tab v s
      else if letter_key key 105 \<and> unlocked then with_terminal (\<lambda>t ws. ws\<lparr>ws_assistOpen := True\<rparr>) s
      else if key = [92] then start_split v (if kc_shiftKey k then Vertical else Horizontal) s
      else if key = js ''Enter'' \<and> kc_shiftKey k then on_ws (toggleZoom v) s
      else s)"

definition onKeyDown :: "cmd_env \<Rightarrow> view \<Rightarrow> bool \<Rightarrow> bool \<Rightarrow> key_chord \<Rightarrow> shell \<Rightarrow> shell" where
  "onKeyDown E v unlocked assistOpen k s =
     (let key = kc_key k in
      if key = js ''Escape'' \<and> assistOpen then on_ws (\<lambda>ws. ws\<lparr>ws_assistOpen := False\<rparr>) s
      else if key = js ''Escape'' \<and> nonempty (ws_zoomedId (sh_ws s)) \<noteq> None then on_ws (\<lambda>ws. ws\<lparr>ws_zoomedId := None\<rparr>) s
      else if \<not> (kc_metaKey k \<or> kc_ctrlKey k) then s
      else if key = js ''Escape'' then on_ws toggle_mode s
      else if letter_key key 98 then toggleRail s
      else case nth_session key (sh_ws s) of
             Some t \<Rightarrow> on_ws (selectTab v (tab_id t)) s
           | None \<Rightarrow> letter_shortcut E v unlocked k s)"

section \<open>Locking and unlocking\<close>

text \<open>The effect that runs when the vault is locked or unlocked.\<close>

definition vault_changed :: "storage \<Rightarrow> bool \<Rightarrow> shell \<Rightarrow> shell" where
  "vault_changed prefs unlocked s =
     (if \<not> unlocked then
        (on_ws lock_tabs s)\<lparr>sh_prompt := None, sh_editor := None, sh_importOpen := False, sh_pendingDelete := None\<rparr>
      else
        let s = ask [SetIdleLock (getIdleLockSecs prefs)] s in
        if getLandingPref prefs = Prefs.Workspace then on_ws (\<lambda>ws. ws\<lparr>ws_appMode := WorkspaceMode\<rparr>) s else s)"

text \<open>The screen of the application; once it was opened the workspace stays mounted below the gate.\<close>

datatype app_screen = BootErrorScreen jsstr | LoadingScreen | GateScreen | WorkspaceScreen bool  \<comment> \<open>gate on top\<close>

definition screen :: "jsstr option \<Rightarrow> bool option \<Rightarrow> bool \<Rightarrow> app_screen" where
  "screen bootError unlocked opened =
     (case nonempty bootError of Some e \<Rightarrow> BootErrorScreen e
      | None \<Rightarrow>
          (case unlocked of None \<Rightarrow> LoadingScreen
           | Some u \<Rightarrow> if \<not> u \<and> \<not> opened then GateScreen else WorkspaceScreen (\<not> u)))"

section \<open>The agent of a host\<close>

interpretation by_opened: comparison "\<lambda>a b. opened_time date b - opened_time date a" for date
  by (rule comparison_flip [OF comparison_key])

text \<open>The agent of a host is started in its most recently opened project.\<close>

lemma agent_project_latest:
  assumes "openAgentOnHost date v h s = ask [OpenProject p] s" "q \<in> set (v_projects v)" "on_host (h_id h) q"
  shows "p \<in> set (v_projects v) \<and> on_host (h_id h) p \<and> opened_time date q \<le> opened_time date p"
proof -
  define ps where "ps = js_sort (\<lambda>a b. opened_time date b - opened_time date a) (filter (on_host (h_id h)) (v_projects v))"
  have mem: "set ps = {q \<in> set (v_projects v). on_host (h_id h) q}" by (auto simp: ps_def)
  with assms(2,3) obtain p' ps' where ps: "ps = p' # ps'" by (cases ps) auto
  have "p' = p"
    using arg_cong [OF assms(1), of sh_requests] unfolding openAgentOnHost_def ps_def [symmetric] by (simp add: ps ask_def)
  moreover have "sorted_wrt (\<lambda>a b. opened_time date b - opened_time date a \<le> 0) ps"
    unfolding ps_def by (rule by_opened.sorted_js_sort)
  ultimately show ?thesis using mem assms(2,3) ps by auto
qed

section \<open>Cycling through the tabs\<close>

lemma findIndex_nth:
  assumes "i < length xs" "p (xs ! i)" "\<And>j. j < i \<Longrightarrow> \<not> p (xs ! j)"
  shows "findIndex p xs = int i"
proof -
  have "List.find (\<lambda>i. p (xs ! i)) [0..<length xs] = Some i"
    using assms by (auto simp: find_Some_iff intro!: exI [of _ i])
  then show ?thesis by (simp add: findIndex_def)
qed

lemma findIndex_range: "- 1 \<le> findIndex p xs \<and> findIndex p xs < int (length xs)"
  by (auto simp: findIndex_def find_Some_iff split: option.split)

lemma active_index_nth:
  assumes "distinct (map tab_id (ws_tabs ws))" "i < length (ws_tabs ws)" "ws_activeId ws = Some (tab_id (ws_tabs ws ! i))"
  shows "active_index ws = int i"
  unfolding active_index_def
proof (rule findIndex_nth)
  show "\<not> Some (tab_id (ws_tabs ws ! j)) = ws_activeId ws" if "j < i" for j
    using assms that nth_eq_iff_index_eq [OF assms(1), of j i] by auto
qed (use assms in simp_all)

lemma selectTab_tabs [simp]: "ws_tabs (selectTab v sid ws) = ws_tabs ws" "ws_activeId (selectTab v sid ws) = Some sid"
  by (simp_all add: selectTab_def Let_def enterWorkspace_def activateSession_def emit_def split: option.split)

lemma js_rem_mod: "0 \<le> a \<Longrightarrow> js_rem a b = a mod b"
  by (simp add: js_rem_def)

lemma next_tab_active:
  assumes "ws_tabs ws \<noteq> []"
  shows "ws_tabs (next_tab v ws) = ws_tabs ws"
    and "ws_activeId (next_tab v ws)
      = Some (tab_id (ws_tabs ws ! nat ((active_index ws + 1) mod int (length (ws_tabs ws)))))"
proof -
  have "0 \<le> active_index ws + 1" 
    using findIndex_range [of "\<lambda>t. Some (tab_id t) = ws_activeId ws" "ws_tabs ws"] by (simp add: active_index_def)
  then have "js_rem (active_index ws + 1) (int (length (ws_tabs ws))) = (active_index ws + 1) mod int (length (ws_tabs ws))"
    by (rule js_rem_mod)
  then show "ws_tabs (next_tab v ws) = ws_tabs ws"
    "ws_activeId (next_tab v ws) = Some (tab_id (ws_tabs ws ! nat ((active_index ws + 1) mod int (length (ws_tabs ws)))))"
    using assms by (simp_all add: next_tab_def Let_def tab_at_def)
qed

lemma prev_tab_active:
  assumes "ws_tabs ws \<noteq> []" "0 \<le> active_index ws"
  shows "ws_tabs (prev_tab v ws) = ws_tabs ws"
    and "ws_activeId (prev_tab v ws)
      = Some (tab_id (ws_tabs ws ! nat ((active_index ws - 1) mod int (length (ws_tabs ws)))))"
proof -
  have "0 < int (length (ws_tabs ws))" using assms by simp
  then have "0 \<le> active_index ws - 1 + int (length (ws_tabs ws))" using assms(2) by linarith
  then have "js_rem (active_index ws - 1 + int (length (ws_tabs ws))) (int (length (ws_tabs ws)))
      = (active_index ws - 1) mod int (length (ws_tabs ws))"
    by (simp add: js_rem_mod)
  then show "ws_tabs (prev_tab v ws) = ws_tabs ws"
    "ws_activeId (prev_tab v ws) = Some (tab_id (ws_tabs ws ! nat ((active_index ws - 1) mod int (length (ws_tabs ws)))))"
    using assms by (simp_all add: prev_tab_def Let_def tab_at_def)
qed

lemma active_index_step:
  assumes "distinct (map tab_id (ws_tabs ws))" "ws_tabs ws \<noteq> []" "ws_tabs ws' = ws_tabs ws"
    "ws_activeId ws' = Some (tab_id (ws_tabs ws ! nat (k mod int (length (ws_tabs ws)))))"
  shows "active_index ws' = k mod int (length (ws_tabs ws))"
proof -
  have n: "0 < int (length (ws_tabs ws))" using assms(2) by simp
  then have "nat (k mod int (length (ws_tabs ws))) < length (ws_tabs ws)"
    using pos_mod_bound [OF n, of k] pos_mod_sign [OF n, of k] by linarith
  then have "active_index ws' = int (nat (k mod int (length (ws_tabs ws))))"
    using assms by (intro active_index_nth) simp_all
  then show ?thesis using pos_mod_sign [OF n, of k] by simp
qed

lemma next_tab_power:
  assumes "distinct (map tab_id (ws_tabs ws))" "ws_tabs ws \<noteq> []"
  shows "ws_tabs ((next_tab v ^^ Suc k) ws) = ws_tabs ws
    \<and> ws_activeId ((next_tab v ^^ Suc k) ws)
      = Some (tab_id (ws_tabs ws ! nat ((active_index ws + int (Suc k)) mod int (length (ws_tabs ws)))))"
proof (induction k)
  case 0
  then show ?case using next_tab_active [OF assms(2)] by simp
next
  case (Suc k)
  let ?w = "(next_tab v ^^ Suc k) ws" and ?n = "int (length (ws_tabs ws))"
  have i: "active_index ?w = (active_index ws + int (Suc k)) mod ?n"
    using Suc by (intro active_index_step [OF assms]) simp_all
  have "((active_index ws + int (Suc k)) mod ?n + 1) mod ?n = (active_index ws + int (Suc (Suc k))) mod ?n"
    by (simp add: mod_simps add.assoc)
  then show ?case using next_tab_active [of ?w v] Suc assms(2) unfolding i by simp
qed

section \<open>Commands keep the workspace well formed\<close>

definition shell_ok :: "shell \<Rightarrow> bool" where
  "shell_ok s \<longleftrightarrow> ws_ok (sh_ws s)"

lemma shell_ok_request: "shell_ok s \<Longrightarrow> shell_ok (ask rs s)"
  by (simp add: shell_ok_def ask_def)

lemma shell_ok_on_ws: "shell_ok s \<Longrightarrow> (ws_ok (sh_ws s) \<Longrightarrow> ws_ok (f (sh_ws s))) \<Longrightarrow> shell_ok (on_ws f s)"
  by (simp add: shell_ok_def on_ws_def)

lemma ws_ok_fields:
  "ws_ok ws \<Longrightarrow> ws_ok (ws\<lparr>ws_error := e\<rparr>)" "ws_ok ws \<Longrightarrow> ws_ok (ws\<lparr>ws_paletteOpen := b\<rparr>)"
  "ws_ok ws \<Longrightarrow> ws_ok (ws\<lparr>ws_assistOpen := b\<rparr>)" "ws_ok ws \<Longrightarrow> ws_ok (ws\<lparr>ws_findSessionId := f\<rparr>)"
  "ws_ok ws \<Longrightarrow> ws_ok (ws\<lparr>ws_zoomedId := z\<rparr>)" "ws_ok ws \<Longrightarrow> ws_ok (ws\<lparr>ws_appMode := m\<rparr>)"
  "ws_ok ws \<Longrightarrow> ws_ok (toggle_mode ws)" "ws_ok ws \<Longrightarrow> ws_ok (failed r ws)"
  by (simp_all add: ws_ok_def toggle_mode_def failed_def)

lemma shell_ok_terminal: "shell_ok s \<Longrightarrow> (\<And>t ws. ws_ok ws \<Longrightarrow> ws_ok (f t ws)) \<Longrightarrow> shell_ok (with_terminal f s)"
  by (auto simp: with_terminal_def intro: shell_ok_on_ws split: option.split)

lemma shell_ok_connect:
  "shell_ok s \<Longrightarrow> fresh_session (ce_pendingId E) (sh_ws s) \<Longrightarrow> shell_ok (start_connect E h opts s)"
  by (auto simp: start_connect_def Let_def intro!: shell_ok_request shell_ok_on_ws connect_start_ok)

lemma shell_ok_starts:
  "shell_ok s \<Longrightarrow> shell_ok (start_split v d s)" "shell_ok s \<Longrightarrow> shell_ok (toggleRail s)" "shell_ok s \<Longrightarrow> shell_ok (start_local s)"
  "view_ok v \<Longrightarrow> shell_ok s \<Longrightarrow> shell_ok (start_lock v s)"
  by (auto simp: shell_ok_def start_split_def toggleRail_def start_local_def start_lock_def ask_def on_ws_def ws_ok_fields intro: lock_ok open_start_ok)

lemma shell_ok_close: "view_ok v \<Longrightarrow> shell_ok s \<Longrightarrow> shell_ok (close_active_tab v s)"
  by (auto simp: close_active_tab_def intro!: shell_ok_on_ws close_ok split: option.split)

lemma shell_ok_new_terminal:
  "shell_ok s \<Longrightarrow> fresh_session (ce_pendingId E) (sh_ws s) \<Longrightarrow> shell_ok (menu_new_terminal E v s)"
  by (auto simp: menu_new_terminal_def Let_def intro!: shell_ok_connect split: option.split list.split)

lemma shell_ok_clipboard: "shell_ok s \<Longrightarrow> shell_ok (menu_copy E s)" "shell_ok s \<Longrightarrow> shell_ok (menu_paste E s)"
  by (auto simp: menu_copy_def menu_paste_def intro!: shell_ok_request shell_ok_terminal emit_ok split: option.split)

lemma shell_ok_import: "shell_ok s \<Longrightarrow> shell_ok (s\<lparr>sh_importOpen := b\<rparr>)"
  by (simp add: shell_ok_def)

lemma rerun_ok: "ws_ok ws \<Longrightarrow> ws_ok ((case c of Some x \<Rightarrow> emit [InjectText i x False True] | None \<Rightarrow> id) ws)"
  by (simp add: emit_ok split: option.split)

lemmas shell_ok_rules = shell_ok_request shell_ok_on_ws shell_ok_terminal shell_ok_starts shell_ok_close shell_ok_new_terminal
  shell_ok_clipboard shell_ok_import ws_ok_fields rerun_ok emit_ok settings_ok launcher_ok zoom_ok cycle_ok select_ok

lemma menu_ok:
  assumes "shell_ok s" "view_ok v" "fresh_session (ce_pendingId E) (sh_ws s)"
  shows "shell_ok (handleMenuCommand E v cmd s)"
  unfolding handleMenuCommand_def using assms by (simp add: shell_ok_rules)

lemma letter_ok:
  assumes "shell_ok s" "view_ok v"
  shows "shell_ok (letter_shortcut E v unlocked k s)"
  unfolding letter_shortcut_def Let_def using assms
  by (cases "shortcut_terminal E (sh_ws s)") (simp_all add: shell_ok_rules)

lemma keys_ok:
  assumes "shell_ok s" "view_ok v"
  shows "shell_ok (onKeyDown E v unlocked a k s)"
  unfolding onKeyDown_def Let_def using assms
  by (cases "nth_session (kc_key k) (sh_ws s)") (simp_all add: shell_ok_rules letter_ok)


lemma vault_ok: "shell_ok s \<Longrightarrow> shell_ok (vault_changed prefs unlocked s)"
  using lock_tabs_ok [of "sh_ws s"] by (auto simp: vault_changed_def Let_def shell_ok_def ask_def on_ws_def ws_ok_fields)

section \<open>Properties\<close>

text \<open>
  The menu cycles through the tabs: with distinct session identifiers, \<open>Suc k\<close> times "next tab"
  leaves the tabs as they are and activates the tab \<open>Suc k\<close> places further, counted around the
  strip, so that as many steps as there are tabs come back to the active one; "previous tab"
  undoes "next tab".\<close>

theorem tab_cycle:
  assumes "distinct (map tab_id (ws_tabs ws))" "i < length (ws_tabs ws)" "ws_activeId ws = Some (tab_id (ws_tabs ws ! i))"
  shows "ws_tabs ((next_tab v ^^ Suc k) ws) = ws_tabs ws
    \<and> ws_activeId ((next_tab v ^^ Suc k) ws) = Some (tab_id (ws_tabs ws ! ((i + Suc k) mod length (ws_tabs ws))))
    \<and> ws_activeId ((next_tab v ^^ length (ws_tabs ws)) ws) = ws_activeId ws
    \<and> ws_activeId (prev_tab v (next_tab v ws)) = ws_activeId ws"
proof -
  let ?n = "length (ws_tabs ws)"
  have ne: "ws_tabs ws \<noteq> []" using assms(2) by auto
  have ix: "active_index ws = int i" by (rule active_index_nth [OF assms])
  have pow: "ws_tabs ((next_tab v ^^ Suc k) ws) = ws_tabs ws"
    "ws_activeId ((next_tab v ^^ Suc k) ws) = Some (tab_id (ws_tabs ws ! ((i + Suc k) mod ?n)))" for k
    using next_tab_power [OF assms(1) ne, of k v] unfolding ix by (simp_all flip: of_nat_add of_nat_Suc zmod_int)
  obtain m where m: "?n = Suc m" using ne by (cases ?n) auto
  have ii: "Suc (i + m) mod Suc m = i" using assms(2) m mod_add_self2 [of i "Suc m"] by simp
  have full: "ws_activeId ((next_tab v ^^ ?n) ws) = ws_activeId ws"
    using pow(2) [of m] assms(3) ii by (simp add: m)
  let ?w = "next_tab v ws"
  have w: "ws_tabs ?w = ws_tabs ws" "ws_activeId ?w = Some (tab_id (ws_tabs ws ! nat ((int i + 1) mod int ?n)))"
    using next_tab_active [OF ne, of v] by (simp_all add: ix)
  have iw: "active_index ?w = (int i + 1) mod int ?n" by (rule active_index_step [OF assms(1) ne w])
  have "0 \<le> active_index ?w" using ne by (simp add: iw)
  then have "ws_activeId (prev_tab v ?w) = Some (tab_id (ws_tabs ws ! nat (((int i + 1) mod int ?n - 1) mod int ?n)))"
    using prev_tab_active(2) [of ?w v] ne w(1) iw by simp
  also have "((int i + 1) mod int ?n - 1) mod int ?n = int i" using assms(2) by (simp add: mod_simps)
  finally show ?thesis using pow [of k] full assms(3) by simp
qed

definition sample_ws :: workspace where
  "sample_ws = \<lparr>ws_hosts = [], ws_projects = [], ws_running = [], ws_sessionAttention = Map.empty, ws_ptyAttention = Map.empty,
     ws_ptyToRunning = Map.empty, ws_tabs = [plain_tab (js ''a'') (js ''h'') (js ''A'') TerminalTab True None,
       plain_tab (js ''b'') (js ''local'') (js ''Local'') LocalTab True None],
     ws_appMode = WorkspaceMode, ws_activeId = Some (js ''a''), ws_layout = Some (Leaf (js ''a'')), ws_zoomedId = None,
     ws_findSessionId = None, ws_tunnels = Map.empty, ws_outputHandlers = Map.empty, ws_transcripts = Map.empty,
     ws_lastExitCodes = Map.empty, ws_reconnectAttempts = Map.empty, ws_connectingHostId = None, ws_error = None,
     ws_agentNotice = None, ws_settingsOpen = False, ws_settingsSection = js ''general'', ws_activeSurface = None,
     ws_railNav = NavHosts, ws_launcherSection = AllSection, ws_assistOpen = False, ws_paletteOpen = False,
     ws_muxHint = None, ws_uuids = 0, ws_closures = 0, ws_effects = []\<rparr>"

theorem tab_cycle_witness:
  "ws_activeId ((next_tab (render sample_ws) ^^ Suc 0) sample_ws) = Some (js ''b'')"
proof -
  have h: "distinct (map tab_id (ws_tabs sample_ws))" "0 < length (ws_tabs sample_ws)"
    "ws_activeId sample_ws = Some (tab_id (ws_tabs sample_ws ! 0))"
    by (simp_all add: sample_ws_def plain_tab_def js_eval)
  have "tab_id (ws_tabs sample_ws ! ((0 + Suc 0) mod length (ws_tabs sample_ws))) = js ''b''"
    by (simp add: sample_ws_def plain_tab_def)
  then show ?thesis using tab_cycle [OF h, of 0 "render sample_ws"] by simp
qed

text \<open>What the shortcuts of a locked window leave alone.\<close>

definition inert :: "shell \<Rightarrow> shell \<Rightarrow> bool" where
  "inert s s' \<longleftrightarrow> (\<exists>es rs. ws_tabs (sh_ws s') = ws_tabs (sh_ws s)
    \<and> ws_paletteOpen (sh_ws s') = ws_paletteOpen (sh_ws s) \<and> ws_settingsOpen (sh_ws s') = ws_settingsOpen (sh_ws s)
    \<and> ws_findSessionId (sh_ws s') = ws_findSessionId (sh_ws s) \<and> ws_assistOpen (sh_ws s') \<le> ws_assistOpen (sh_ws s)
    \<and> ws_effects (sh_ws s') = ws_effects (sh_ws s) @ es \<and> set es \<subseteq> range FocusTerminal
    \<and> sh_requests s' = sh_requests s @ rs
    \<and> set rs \<subseteq> range (StoreItem (js ''tethra.railHidden'')))"

lemma inert_refl: "inert s s"
  by (simp add: inert_def)

lemma inert_mode: "inert s (on_ws toggle_mode s)" "inert s (on_ws (\<lambda>ws. ws\<lparr>ws_assistOpen := False\<rparr>) s)"
  "inert s (on_ws (\<lambda>ws. ws\<lparr>ws_zoomedId := None\<rparr>) s)"
  by (simp_all add: inert_def on_ws_def toggle_mode_def)

lemma inert_zoom: "inert s (on_ws (toggleZoom v) s)"
  by (simp add: inert_def on_ws_def toggleZoom_def split: option.split)

lemma selectTab_effects:
  "ws_effects (selectTab v sid ws) = ws_effects ws @
     (case find_tab sid (v_tabs v) of Some t \<Rightarrow> if tab_kind t \<noteq> SftpTab then [FocusTerminal sid] else [] | None \<Rightarrow> [])"
  by (simp add: selectTab_def Let_def enterWorkspace_def activateSession_def emit_def split: option.split)

lemma selectTab_frame:
  "ws_paletteOpen (selectTab v sid ws) = ws_paletteOpen ws" "ws_settingsOpen (selectTab v sid ws) = ws_settingsOpen ws"
  "ws_findSessionId (selectTab v sid ws) = ws_findSessionId ws" "ws_assistOpen (selectTab v sid ws) = ws_assistOpen ws"
  by (simp_all add: selectTab_def Let_def enterWorkspace_def activateSession_def emit_def split: option.split)

lemma inert_select: "inert s (on_ws (selectTab v sid) s)"
  unfolding inert_def on_ws_def
  by (auto simp: selectTab_effects selectTab_frame split: option.split)

lemma inert_rail: "inert s (toggleRail s)"
  by (simp add: inert_def toggleRail_def ask_def)

lemmas inert_rules = inert_refl inert_mode inert_zoom inert_select inert_rail

text \<open>The chord that splits the active pane; it is looked at after the rail and the digits.\<close>

definition split_chord :: "key_chord \<Rightarrow> bool" where
  "split_chord k \<longleftrightarrow> kc_key k = [92] \<and> (kc_metaKey k \<or> kc_ctrlKey k)"

lemma locked_keys_inert: "\<not> (split_chord k \<and> split_allowed v) \<Longrightarrow> inert s (onKeyDown E v False a k s)"
  unfolding onKeyDown_def letter_shortcut_def Let_def start_split_def split_chord_def
  by (cases "nth_session (kc_key k) (sh_ws s)") (auto simp: inert_rules)

lemma locked_split:
  "split_chord k \<Longrightarrow> onKeyDown E v u a k s = start_split v (if kc_shiftKey k then Vertical else Horizontal) s"
  by (simp add: split_chord_def onKeyDown_def letter_shortcut_def letter_key_def nth_session_def parseInt10_def trimStart_def
      is_ws_def is_digit_def read_nat_def js_def Let_def)

text \<open>
  C28. Shortcuts of a locked window: whatever the chord but Ctrl/Cmd+backslash, while the vault is
  locked the handler closes and changes no tab, opens neither the palette, nor the settings, nor the
  search bar, nor the assistant, calls nothing on a terminal but giving it the focus, and asks for
  nothing but the toggle of the rail to be stored. Ctrl/Cmd+backslash is not guarded: when the
  rendered active tab is a terminal, exactly a split, and with it a new session, is asked for.\<close>

theorem locked_shortcuts_are_inert:
  "if split_chord k \<and> split_allowed v
   then onKeyDown E v False a k s = ask [OpenSplit (if kc_shiftKey k then Vertical else Horizontal)] (on_ws open_start s)
   else \<exists>es rs. ws_tabs (sh_ws (onKeyDown E v False a k s)) = ws_tabs (sh_ws s)
    \<and> ws_paletteOpen (sh_ws (onKeyDown E v False a k s)) = ws_paletteOpen (sh_ws s)
    \<and> ws_settingsOpen (sh_ws (onKeyDown E v False a k s)) = ws_settingsOpen (sh_ws s)
    \<and> ws_findSessionId (sh_ws (onKeyDown E v False a k s)) = ws_findSessionId (sh_ws s)
    \<and> ws_assistOpen (sh_ws (onKeyDown E v False a k s)) \<le> ws_assistOpen (sh_ws s)
    \<and> ws_effects (sh_ws (onKeyDown E v False a k s)) = ws_effects (sh_ws s) @ es \<and> set es \<subseteq> range FocusTerminal
    \<and> sh_requests (onKeyDown E v False a k s) = sh_requests s @ rs
    \<and> set rs \<subseteq> range (StoreItem (js ''tethra.railHidden''))"
proof (cases "split_chord k \<and> split_allowed v")
  case True
  then show ?thesis by (simp add: locked_split start_split_def)
next
  case False
  show ?thesis unfolding if_not_P [OF False] by (rule locked_keys_inert [OF False, unfolded inert_def])
qed

text \<open>
  "New terminal" opens nothing on a connected host: when the active tab is a connected
  terminal, the menu command only focuses a connected terminal of its host; no tab is added and
  no terminal is requested.\<close>

theorem new_terminal_reuses_connection:
  assumes "ref_active (sh_ws s) = Some t" "tab_kind t = TerminalTab" "tab_connected t" "tab_host t \<noteq> js ''local''"
    "find_row h_id (tab_host t) (v_hosts v) = Some h"
  shows "sh_requests (handleMenuCommand E v (js ''file.new_terminal'') s) = sh_requests s
    \<and> ws_tabs (sh_ws (handleMenuCommand E v (js ''file.new_terminal'') s)) = ws_tabs (sh_ws s)"
proof -
  let ?o = "\<lparr>co_forceNew = False, co_muxName = None\<rparr>"
  have h: "h_id h = tab_host t" using assms(5) find_row_Some_key by fastforce
  have "t \<in> set (ws_tabs (sh_ws s))"
    using assms(1) find_row_Some_key [of tab_id] by (auto simp: ref_active_def bind_eq_Some_conv)
  then have "existing_terminal h ?o (sh_ws s) \<noteq> None"
    using assms(2,3) h by (auto simp: existing_terminal_def find_None_iff)
  then obtain u where u: "existing_terminal h ?o (sh_ws s) = Some u" by blast
  have "handleMenuCommand E v (js ''file.new_terminal'') s = start_connect E h ?o s"
    using assms by (simp add: handleMenuCommand_def menu_new_terminal_def js_eval)
  then show ?thesis
    by (simp add: start_connect_def u on_ws_def connect_start_def emit_def enterWorkspace_def activateSession_def)
qed

definition web_host :: host where
  "web_host = \<lparr>h_id = js ''h'', h_label = js ''web'', h_hostname = js ''web.example'', h_port = 22, h_username = js ''root'',
     h_color = None, h_lastConnectedAt = None\<rparr>"

definition sample_shell :: shell where
  "sample_shell = \<lparr>sh_ws = sample_ws\<lparr>ws_hosts := [web_host]\<rparr>, sh_railHidden = False, sh_importOpen = False, sh_openingLocal = False,
     sh_prompt = None, sh_editor = None, sh_pendingDelete = None, sh_requests = []\<rparr>"

definition menu_env :: cmd_env where
  "menu_env = \<lparr>ce_pendingId = js ''pending-1'', ce_uuid = js ''0123456789'', ce_editable = False, ce_domSelection = [],
     ce_lastCommand = Map.empty, ce_isMac = False\<rparr>"

theorem new_terminal_reuses_connection_witness:
  "sh_requests (handleMenuCommand menu_env (render (sh_ws sample_shell)) (js ''file.new_terminal'') sample_shell) = []"
proof -
  let ?t = "plain_tab (js ''a'') (js ''h'') (js ''A'') TerminalTab True None"
  have h: "ref_active (sh_ws sample_shell) = Some ?t" "tab_kind ?t = TerminalTab" "tab_connected ?t" "tab_host ?t \<noteq> js ''local''"
    "find_row h_id (tab_host ?t) (v_hosts (render (sh_ws sample_shell))) = Some web_host"
    by (simp_all add: ref_active_def sample_shell_def sample_ws_def web_host_def plain_tab_def find_row_def render_def js_eval)
  show ?thesis using new_terminal_reuses_connection [OF h, of menu_env] by (simp add: sample_shell_def)
qed

text \<open>
  C29. Every menu command, every shortcut and every change of the vault keeps the workspace well
  formed: session identifiers stay distinct and the layout stays a well-formed tree, also when
  the handler belongs to an older render.\<close>

theorem commands_keep_workspace_ok:
  assumes "ws_ok (sh_ws s)" "view_ok v" "fresh_session (ce_pendingId E) (sh_ws s)"
  shows "ws_ok (sh_ws (handleMenuCommand E v cmd s)) \<and> ws_ok (sh_ws (onKeyDown E v unlocked a k s))
    \<and> ws_ok (sh_ws (vault_changed prefs unlocked s))"
  using menu_ok [of s v E cmd] keys_ok [of s v E unlocked a k] vault_ok [of s prefs unlocked] assms
  by (simp add: shell_ok_def)

theorem commands_keep_workspace_ok_witness:
  "ws_ok (sh_ws (handleMenuCommand menu_env (render sample_ws) (js ''file.close_tab'') sample_shell))"
proof -
  have h: "ws_ok (sh_ws sample_shell)" "view_ok (render sample_ws)" "fresh_session (ce_pendingId menu_env) (sh_ws sample_shell)"
    by (simp_all add: ws_ok_def view_ok_def fresh_session_def sample_shell_def sample_ws_def menu_env_def render_def plain_tab_def js_eval
        panes.opt_sessions_def)
  show ?thesis using commands_keep_workspace_ok [OF h] by blast
qed

end
