(* ===== verification/PromptPanel.thy ===== *)
theory PromptPanel
  imports Blocks
begin

text \<open>
  The input box below a session (src/apps/ui/src/components/PromptPanel.tsx): the bytes of a key,
  the local echo with its reconciliation against the input line of the shell, the fallback that
  uncovers the prompt of the shell, and the slash commands that never reach it.

  Values that the component keeps both as React state and as a ref are two fields, because the
  code does not always write both. The session the panel belongs to is the world of theory
  \<open>Blocks\<close>; calls of the backend and timers are recorded in order.
\<close>

section \<open>Keys\<close>

text \<open>The members of a \<^verbatim>\<open>KeyboardEvent\<close> that the code reads.\<close>

record key_event =
  ke_key :: jsstr
  ke_isComposing :: bool
  ke_metaKey :: bool
  ke_ctrlKey :: bool
  ke_altKey :: bool

text \<open>
  \<^verbatim>\<open>TextEncoder.encode\<close>: surrogate pairs are one code point of four bytes, an unpaired surrogate
  is encoded as the replacement character.
\<close>

fun utf8_encode :: "jsstr \<Rightarrow> nat list" where
  "utf8_encode [] = []"
| "utf8_encode (c # s) =
     (if c < 128 then c # utf8_encode s
      else if c < 2048 then [192 + c div 64, 128 + c mod 64] @ utf8_encode s
      else if c < 55296 \<or> 57344 \<le> c then
        [224 + c div 4096, 128 + c div 64 mod 64, 128 + c mod 64] @ utf8_encode s
      else (case s of
              d # s' \<Rightarrow>
                if c < 56320 \<and> 56320 \<le> d \<and> d < 57344 then
                  (let p = 65536 + (c - 55296) * 1024 + (d - 56320) in
                   [240 + p div 262144, 128 + p div 4096 mod 64, 128 + p div 64 mod 64, 128 + p mod 64]
                     @ utf8_encode s')
                else [239, 191, 189] @ utf8_encode s
            | [] \<Rightarrow> [239, 191, 189]))"

text \<open>
  The first code unit of \<^verbatim>\<open>toLowerCase()\<close> for a string of one code unit, as far as the test for a
  letter \<^verbatim>\<open>a\<close> to \<^verbatim>\<open>z\<close> can see it: besides the capital letters, the Kelvin sign and the dotted
  capital I are the code units with such a lower case.
\<close>

definition lower_unit :: "nat \<Rightarrow> nat" where
  "lower_unit c = (if 65 \<le> c \<and> c \<le> 90 then c + 32 else if c = 8490 then 107 else if c = 304 then 105 else c)"

definition named_key :: "jsstr \<Rightarrow> nat list option" where
  "named_key k = map_of
     [(js ''Enter'', [13]), (js ''Backspace'', [127]), (js ''Tab'', [9]), (js ''Escape'', [27]),
      (js ''ArrowUp'', [27, 91, 65]), (js ''ArrowDown'', [27, 91, 66]), (js ''ArrowRight'', [27, 91, 67]),
      (js ''ArrowLeft'', [27, 91, 68]), (js ''Home'', [27, 91, 72]), (js ''End'', [27, 91, 70]),
      (js ''Delete'', [27, 91, 51, 126]), (js ''PageUp'', [27, 91, 53, 126]), (js ''PageDown'', [27, 91, 54, 126])] k"

definition encodeKeyToPty :: "key_event \<Rightarrow> nat list option" where
  "encodeKeyToPty ev =
     (if ke_isComposing ev then None
      else if ke_metaKey ev then None
      else if ke_ctrlKey ev \<and> \<not> ke_altKey ev then
        (if length (ke_key ev) = 1 \<and> 97 \<le> lower_unit (hd (ke_key ev)) \<and> lower_unit (hd (ke_key ev)) \<le> 122
         then Some [lower_unit (hd (ke_key ev)) - 96]
         else if ke_key ev = js ''Enter'' then Some [10]
         else None)
      else case named_key (ke_key ev) of
             Some bs \<Rightarrow> Some bs
           | None \<Rightarrow> if length (ke_key ev) = 1 then Some (utf8_encode (ke_key ev)) else None)"

definition is_edit :: "key_event \<Rightarrow> bool" where
  "is_edit ev \<longleftrightarrow> length (ke_key ev) = 1 \<or> ke_key ev = js ''Backspace'' \<or> ke_key ev = js ''Tab'' \<or> ke_key ev = js ''Delete''"

section \<open>State\<close>

text \<open>Calls and timers: bytes for the shell, the delayed clear of the viewport, the delayed end of a hint.\<close>

datatype panel_effect = SendBytes "nat list" | ClearViewportLater | ClearHintLater | OverlaySync | RefreshSoon

record 'x panel =
  pp_blocks :: nat
  pp_mirror :: jsstr
  pp_mirrorRef :: jsstr
  pp_pending :: jsstr
  pp_pendingRef :: jsstr
  pp_pendingBase :: jsstr
  pp_pendingMismatches :: nat
  pp_interactive :: bool
  pp_runningCmd :: bool
  pp_uncover :: bool
  pp_uncoverRef :: bool
  pp_localCmd :: "jsstr option"
  pp_localCmdRef :: "jsstr option"
  pp_cmdHint :: "jsstr option"
  pp_mirrorMisses :: nat
  pp_forwarded :: nat
  pp_lastForwardWasEdit :: bool
  pp_world :: "'x session_world"
  pp_out :: "panel_effect list"

definition out :: "panel_effect list \<Rightarrow> 'x panel \<Rightarrow> 'x panel" where
  "out es p = p\<lparr>pp_out := pp_out p @ es\<rparr>"

definition on_world :: "('x session_world \<Rightarrow> 'x session_world) \<Rightarrow> 'x panel \<Rightarrow> 'x panel" where
  "on_world f p = p\<lparr>pp_world := f (pp_world p)\<rparr>"

text \<open>The bytes the shell has been sent.\<close>

definition sent_bytes :: "'x panel \<Rightarrow> nat list" where
  "sent_bytes p = concat (List.map_filter (\<lambda>e. case e of SendBytes bs \<Rightarrow> Some bs | _ \<Rightarrow> None) (pp_out p))"

text \<open>What the text area shows.\<close>

definition box_value :: "'x panel \<Rightarrow> jsstr" where
  "box_value p =
     (case pp_localCmd p of Some c \<Rightarrow> c | None \<Rightarrow> if pp_uncover p then [] else pp_mirror p @ pp_pending p)"

section \<open>Life of the panel\<close>

text \<open>The effect that runs when the panel gets its session, and the callback of a block change.\<close>

definition block_change :: "'x panel \<Rightarrow> 'x panel" where
  "block_change p = p\<lparr>pp_blocks := blockCount (pp_world p), pp_runningCmd := sessionHasRunningCommand (pp_world p)\<rparr>"

definition bind_session :: "'x session_world \<Rightarrow> 'x panel \<Rightarrow> 'x panel" where
  "bind_session w p =
     (let p = p\<lparr>pp_world := w, pp_blocks := blockCount w, pp_mirror := [], pp_mirrorRef := [], pp_pendingRef := [],
                pp_pending := [], pp_pendingBase := [], pp_uncover := False, pp_uncoverRef := False,
                pp_localCmdRef := None, pp_localCmd := None, pp_cmdHint := None, pp_mirrorMisses := 0,
                pp_lastForwardWasEdit := False\<rparr>;
          p = on_world (setUncoverLivePrompt False) p
      in p\<lparr>pp_runningCmd := sessionHasRunningCommand (pp_world p)\<rparr>)"

definition sync_interactive :: "'x xterm_api \<Rightarrow> 'x panel \<Rightarrow> 'x panel" where
  "sync_interactive T p = p\<lparr>pp_interactive := (w_live (pp_world p) \<and> x_alternate T (w_x (pp_world p)))\<rparr>"

definition busyWithApp :: "'x panel \<Rightarrow> bool" where
  "busyWithApp p \<longleftrightarrow> pp_interactive p \<or> pp_runningCmd p"

section \<open>Local echo\<close>

text \<open>The prediction meets the line of the shell; the flag says whether the line is taken over.\<close>

definition reconcile :: "jsstr \<Rightarrow> 'x panel \<Rightarrow> bool \<times> jsstr \<times> 'x panel" where
  "reconcile line p =
     (let chars = pp_pendingRef p; base = pp_pendingBase p; tail = drop (length base) line in
      if chars = [] then (True, chars, p\<lparr>pp_pendingBase := line, pp_pendingMismatches := 0\<rparr>)
      else if startsWith line base \<and> startsWith chars tail then
        (True, drop (length tail) chars, p\<lparr>pp_pendingBase := line, pp_pendingMismatches := 0\<rparr>)
      else if pp_pendingMismatches p < 1 then
        (False, chars, p\<lparr>pp_pendingMismatches := pp_pendingMismatches p + 1\<rparr>)
      else (True, [], p\<lparr>pp_pendingBase := line, pp_pendingMismatches := 0\<rparr>))"

text \<open>The count of refreshes that found no echo, and the fallback after three of them.\<close>

definition count_misses :: "jsstr \<Rightarrow> 'x panel \<Rightarrow> 'x panel" where
  "count_misses line p =
     (if pp_forwarded p = 0 then p
      else let misses = (if \<not> pp_lastForwardWasEdit p then 0
                         else if line = [] \<and> 2 \<le> pp_forwarded p then pp_mirrorMisses p + 1
                         else if line \<noteq> [] then 0
                         else pp_mirrorMisses p);
               p = p\<lparr>pp_mirrorMisses := misses, pp_forwarded := 0\<rparr>
           in if 3 \<le> misses then
                out [OverlaySync]
                  ((on_world (setUncoverLivePrompt True) (p\<lparr>pp_uncoverRef := True, pp_uncover := True\<rparr>))\<lparr>pp_mirror := []\<rparr>)
              else p)"

definition refresh_with :: "jsstr option \<Rightarrow> 'x panel \<Rightarrow> 'x panel" where
  "refresh_with shellLine p =
     (if pp_uncoverRef p then p\<lparr>pp_mirror := []\<rparr>
      else case shellLine of
             None \<Rightarrow> p\<lparr>pp_mirrorRef := [], pp_mirror := [], pp_pendingRef := [], pp_pending := [], pp_pendingBase := []\<rparr>
           | Some line \<Rightarrow>
               (let (accept, nextPending, p) = reconcile line p in
                if \<not> accept then p
                else count_misses line
                       (p\<lparr>pp_pendingRef := nextPending, pp_pending := nextPending,
                          pp_mirrorRef := line, pp_mirror := line\<rparr>)))"

definition refreshMirror :: "'x xterm_api \<Rightarrow> 'x panel \<Rightarrow> 'x panel" where
  "refreshMirror T p = refresh_with (readActiveShellInputLine T (pp_world p)) p"

definition predictKey :: "int \<Rightarrow> key_event \<Rightarrow> 'x panel \<Rightarrow> 'x panel" where
  "predictKey now ev p =
     (if pp_uncoverRef p \<or> ke_metaKey ev \<or> ke_ctrlKey ev \<or> ke_altKey ev then p
      else if length (ke_key ev) = 1 then
        (let chars = pp_pendingRef p @ ke_key ev in
         p\<lparr>pp_pendingBase := (if pp_pendingRef p = [] then pp_mirrorRef p else pp_pendingBase p),
           pp_pendingRef := chars, pp_pending := chars\<rparr>)
      else if ke_key ev = js ''Backspace'' then
        (let chars = butlast (pp_pendingRef p) in p\<lparr>pp_pendingRef := chars, pp_pending := chars\<rparr>)
      else
        (let p = (if ke_key ev = js ''Enter''
                  then on_world (noteSubmittedCommand now (pp_mirrorRef p @ pp_pendingRef p)) p else p)
         in p\<lparr>pp_pendingRef := [], pp_pending := [], pp_pendingBase := pp_mirrorRef p\<rparr>))"

text \<open>The part of \<^verbatim>\<open>forwardBytes\<close> up to the send; the refresh runs in a later frame.\<close>

definition forwardBytes :: "nat list \<Rightarrow> bool \<Rightarrow> 'x panel \<Rightarrow> 'x panel" where
  "forwardBytes data edit p =
     out [SendBytes data, RefreshSoon] (p\<lparr>pp_forwarded := pp_forwarded p + 1, pp_lastForwardWasEdit := edit\<rparr>)"

section \<open>Slash commands\<close>

definition exitLocalCommand :: "'x panel \<Rightarrow> 'x panel" where
  "exitLocalCommand p = p\<lparr>pp_localCmdRef := None, pp_localCmd := None\<rparr>"

definition runLocalCommand :: "int \<Rightarrow> jsstr \<Rightarrow> 'x panel \<Rightarrow> 'x panel" where
  "runLocalCommand now cmd p =
     (if cmd = js ''/clear'' then
        out [SendBytes (utf8_encode (js ''clear'' @ [10])), ClearViewportLater]
          (on_world (noteSubmittedCommand now (js ''clear'')) p)
      else out [ClearHintLater] (p\<lparr>pp_cmdHint := Some (js ''Unknown command: '' @ cmd)\<rparr>))"

definition set_local :: "jsstr \<Rightarrow> 'x panel \<Rightarrow> 'x panel" where
  "set_local c p = p\<lparr>pp_localCmdRef := Some c, pp_localCmd := Some c\<rparr>"

definition handleLocalCommandKey :: "int \<Rightarrow> key_event \<Rightarrow> 'x panel \<Rightarrow> bool \<times> 'x panel" where
  "handleLocalCommandKey now ev p =
     (case pp_localCmdRef p of
        None \<Rightarrow>
          if ke_key ev = js ''/'' \<and> \<not> ke_metaKey ev \<and> \<not> ke_ctrlKey ev \<and> \<not> ke_altKey ev
             \<and> pp_mirrorRef p = [] \<and> pp_pendingRef p = []
          then (True, set_local (js ''/'') p)
          else (False, p)
      | Some current \<Rightarrow>
          if ke_metaKey ev \<or> ke_ctrlKey ev then (False, p)
          else if ke_key ev = js ''Escape'' then (True, exitLocalCommand p)
          else if ke_key ev = js ''Backspace'' then
            (True, if butlast current = [] then exitLocalCommand p else set_local (butlast current) p)
          else if ke_key ev = js ''Enter'' then (True, runLocalCommand now (trim current) (exitLocalCommand p))
          else if length (ke_key ev) = 1 \<and> \<not> ke_altKey ev then (True, set_local (current @ ke_key ev) p)
          else (True, p))"

section \<open>Key handlers\<close>

text \<open>
  The handler of the text area and the one of the window (typing outside any input field); the
  latter only ignores events that were handled already or belong to an input field.
\<close>

definition key_to_shell :: "int \<Rightarrow> key_event \<Rightarrow> 'x panel \<Rightarrow> 'x panel" where
  "key_to_shell now ev p =
     (case handleLocalCommandKey now ev p of
        (True, p) \<Rightarrow> p
      | (False, p) \<Rightarrow>
          (case encodeKeyToPty ev of None \<Rightarrow> p
           | Some bytes \<Rightarrow> forwardBytes bytes (is_edit ev) (predictKey now ev p)))"

definition area_keydown :: "int \<Rightarrow> key_event \<Rightarrow> 'x panel \<Rightarrow> 'x panel" where
  "area_keydown now ev p = (if busyWithApp p then p else key_to_shell now ev p)"

definition window_keydown :: "bool \<Rightarrow> bool \<Rightarrow> bool \<Rightarrow> int \<Rightarrow> key_event \<Rightarrow> 'x panel \<Rightarrow> 'x panel" where
  "window_keydown is_active defaultPrevented editable now ev p =
     (if \<not> is_active \<or> busyWithApp p \<or> defaultPrevented \<or> editable then p else key_to_shell now ev p)"

section \<open>Typing at the prompt\<close>

definition plain_key :: "jsstr \<Rightarrow> key_event" where
  "plain_key k = \<lparr>ke_key = k, ke_isComposing = False, ke_metaKey = False, ke_ctrlKey = False, ke_altKey = False\<rparr>"

text \<open>
  The user types a code unit, or the panel refreshes when the shell has echoed a number of the
  code units typed so far. \<open>typing\<close> runs such a sequence from a prompt that shows \<open>line\<close>, with the
  text typed so far.
\<close>

datatype typing_event = Type nat | Echo nat

fun typing :: "int \<Rightarrow> jsstr \<Rightarrow> jsstr \<Rightarrow> typing_event list \<Rightarrow> 'x panel \<Rightarrow> 'x panel" where
  "typing now line typed [] p = p"
| "typing now line typed (Type c # evs) p = typing now line (typed @ [c]) evs (area_keydown now (plain_key [c]) p)"
| "typing now line typed (Echo k # evs) p = typing now line typed evs (refresh_with (Some (line @ take k typed)) p)"

fun typed_text :: "typing_event list \<Rightarrow> jsstr" where
  "typed_text [] = []"
| "typed_text (Type c # evs) = c # typed_text evs"
| "typed_text (Echo k # evs) = typed_text evs"

text \<open>The echo never takes a code unit back and never runs ahead of the keyboard.\<close>

fun echoes_ok :: "nat \<Rightarrow> nat \<Rightarrow> typing_event list \<Rightarrow> bool" where
  "echoes_ok k n [] \<longleftrightarrow> True"
| "echoes_ok k n (Type c # evs) \<longleftrightarrow> echoes_ok k (Suc n) evs"
| "echoes_ok k n (Echo k' # evs) \<longleftrightarrow> k \<le> k' \<and> k' \<le> n \<and> echoes_ok k' n evs"

text \<open>
  The count behind the fallback over such a sequence: \<open>shown\<close> tells whether the prompt showed some text,
  \<open>edit\<close>, \<open>m\<close> and \<open>f\<close> are whether the last key was an edit, the misses so far and the keys since the last
  refresh. A refresh after at least two keys that still finds an empty line is a miss; any echo
  resets the count. At the third miss the prompt is uncovered.
\<close>

fun stays_covered :: "bool \<Rightarrow> bool \<Rightarrow> nat \<Rightarrow> nat \<Rightarrow> typing_event list \<Rightarrow> bool" where
  "stays_covered shown edit m f [] \<longleftrightarrow> True"
| "stays_covered shown edit m f (Type c # evs) \<longleftrightarrow> stays_covered shown True m (Suc f) evs"
| "stays_covered shown edit m f (Echo k # evs) \<longleftrightarrow>
     (if f = 0 then stays_covered shown edit m 0 evs
      else let m' = (if \<not> edit \<or> shown \<or> 0 < k then 0 else if 2 \<le> f then Suc m else m)
           in m' < 3 \<and> stays_covered shown edit m' 0 evs)"

abbreviation keeps_cover :: "jsstr \<Rightarrow> typing_event list \<Rightarrow> 'x panel \<Rightarrow> bool" where
  "keeps_cover line evs p \<equiv> stays_covered (line \<noteq> []) (pp_lastForwardWasEdit p) (pp_mirrorMisses p) (pp_forwarded p) evs"

lemma shown_stays_covered: "stays_covered True edit m f evs"
  by (induction "True" edit m f evs rule: stays_covered.induct) (simp_all add: Let_def)

definition at_prompt :: "jsstr \<Rightarrow> 'x panel \<Rightarrow> bool" where
  "at_prompt line p \<longleftrightarrow> \<not> busyWithApp p \<and> \<not> pp_uncover p \<and> \<not> pp_uncoverRef p \<and> pp_localCmd p = None \<and> pp_localCmdRef p = None
     \<and> pp_mirror p = line \<and> pp_mirrorRef p = line \<and> pp_pending p = [] \<and> pp_pendingRef p = []"

text \<open>The state while typing: \<open>k\<close> code units of \<open>typed\<close> are echoed, the others predicted.\<close>

definition echoing :: "jsstr \<Rightarrow> jsstr \<Rightarrow> nat \<Rightarrow> 'x panel \<Rightarrow> bool" where
  "echoing line typed k p \<longleftrightarrow> \<not> busyWithApp p \<and> \<not> pp_uncover p \<and> \<not> pp_uncoverRef p \<and> pp_localCmd p = None \<and> pp_localCmdRef p = None
     \<and> k \<le> length typed \<and> pp_mirror p = line @ take k typed \<and> pp_mirrorRef p = line @ take k typed
     \<and> pp_pending p = drop k typed \<and> pp_pendingRef p = drop k typed
     \<and> (drop k typed \<noteq> [] \<longrightarrow> pp_pendingBase p = line @ take k typed)"

lemma at_prompt_echoing: "at_prompt line p \<Longrightarrow> echoing line [] 0 p"
  by (simp add: at_prompt_def echoing_def)

lemma echoing_box: "echoing line typed k p \<Longrightarrow> box_value p = line @ typed"
  by (simp add: echoing_def box_value_def)

lemma encode_plain [simp]: "encodeKeyToPty (plain_key [c]) = Some (utf8_encode [c])"
  by (simp add: encodeKeyToPty_def plain_key_def named_key_def js_eval)

lemma echoing_type:
  assumes "echoing line typed k p" "line @ typed \<noteq> [] \<or> c \<noteq> 47"
  shows "echoing line (typed @ [c]) k (area_keydown now (plain_key [c]) p)"
    and "sent_bytes (area_keydown now (plain_key [c]) p) = sent_bytes p @ utf8_encode [c]"
    and "pp_world (area_keydown now (plain_key [c]) p) = pp_world p"
    and "keeps_cover line evs (area_keydown now (plain_key [c]) p) = keeps_cover line (Type c # evs) p"
proof -
  have local: "handleLocalCommandKey now (plain_key [c]) p = (False, p)"
    using assms by (auto simp: handleLocalCommandKey_def echoing_def plain_key_def js_eval)
  have eq: "area_keydown now (plain_key [c]) p
      = forwardBytes (utf8_encode [c]) (is_edit (plain_key [c])) (predictKey now (plain_key [c]) p)"
    using assms by (simp add: area_keydown_def key_to_shell_def local echoing_def)
  show "echoing line (typed @ [c]) k (area_keydown now (plain_key [c]) p)"
    using assms(1) unfolding eq
    by (auto simp: echoing_def forwardBytes_def predictKey_def out_def busyWithApp_def plain_key_def Let_def)
  show "sent_bytes (area_keydown now (plain_key [c]) p) = sent_bytes p @ utf8_encode [c]"
    unfolding eq by (simp add: sent_bytes_def forwardBytes_def out_def predictKey_def plain_key_def Let_def map_filter_def del: utf8_encode.simps)
  show "pp_world (area_keydown now (plain_key [c]) p) = pp_world p"
    unfolding eq by (simp add: forwardBytes_def out_def predictKey_def plain_key_def Let_def del: utf8_encode.simps)
  show "keeps_cover line evs (area_keydown now (plain_key [c]) p) = keeps_cover line (Type c # evs) p"
    unfolding eq by (simp add: forwardBytes_def out_def predictKey_def plain_key_def is_edit_def Let_def del: utf8_encode.simps)
qed

lemma reconcile_echo:
  assumes "echoing line typed k p" "k \<le> k'" "k' \<le> length typed"
  shows "\<exists>m. reconcile (line @ take k' typed) p
             = (True, drop k' typed, p\<lparr>pp_pendingBase := line @ take k' typed, pp_pendingMismatches := m\<rparr>)"
proof (cases "drop k typed = []")
  case True
  with assms show ?thesis by (auto simp: reconcile_def echoing_def Let_def)
next
  case False
  have tail: "take k' typed = take k typed @ take (k' - k) (drop k typed)"
    using assms(2) by (metis le_add_diff_inverse take_add)
  have len: "length (take k typed) = k" using assms by (simp add: echoing_def)
  have "startsWith (drop k typed) (take (k' - k) (drop k typed))"
    by (metis append_take_drop_id startsWith_append)
  moreover have "startsWith (line @ take k' typed) (line @ take k typed)"
    unfolding tail by (simp flip: append_assoc)
  moreover have "drop (k' - k) (drop k typed) = drop k' typed" using assms(2) by simp
  ultimately show ?thesis
    using assms False len by (auto simp: reconcile_def echoing_def Let_def tail min_def)
qed

lemma count_misses_cases:
  assumes "\<not> pp_uncoverRef p"
  shows "let m' = (if \<not> pp_lastForwardWasEdit p \<or> line \<noteq> [] then 0 else if 2 \<le> pp_forwarded p then Suc (pp_mirrorMisses p)
                   else pp_mirrorMisses p) in
     count_misses line p = (if pp_forwarded p = 0 then p
        else if 3 \<le> m' then count_misses line p else p\<lparr>pp_mirrorMisses := m', pp_forwarded := 0\<rparr>)
     \<and> (pp_uncoverRef (count_misses line p) \<longleftrightarrow> pp_forwarded p \<noteq> 0 \<and> 3 \<le> m')"
    and "sent_bytes (count_misses line p) = sent_bytes p"
  using assms unfolding count_misses_def
  by (cases p; auto simp: Let_def out_def on_world_def sent_bytes_def map_filter_def)+

lemma echoing_echo:
  assumes "echoing line typed k p" "k \<le> k'" "k' \<le> length typed"
  defines "p' \<equiv> refresh_with (Some (line @ take k' typed)) p"
  shows "keeps_cover line (Echo k' # evs) p \<Longrightarrow> echoing line typed k' p' \<and> pp_world p' = pp_world p \<and> keeps_cover line evs p'"
    and "\<not> pp_uncoverRef p' \<Longrightarrow> echoing line typed k' p' \<and> keeps_cover line evs p' = keeps_cover line (Echo k' # evs) p"
    and "pp_uncoverRef p' \<Longrightarrow> \<not> keeps_cover line (Echo k' # evs) p"
    and "sent_bytes p' = sent_bytes p"
proof -
  let ?l = "line @ take k' typed"
  obtain m where m: "reconcile ?l p = (True, drop k' typed, p\<lparr>pp_pendingBase := ?l, pp_pendingMismatches := m\<rparr>)"
    using reconcile_echo [OF assms(1-3)] by blast
  define q where "q = p\<lparr>pp_pendingBase := ?l, pp_pendingMismatches := m, pp_pendingRef := drop k' typed,
      pp_pending := drop k' typed, pp_mirrorRef := ?l, pp_mirror := ?l\<rparr>"
  have eq: "p' = count_misses ?l q"
    using assms(1) by (simp add: p'_def refresh_with_def m q_def echoing_def Let_def)
  have q: "echoing line typed k' (q\<lparr>pp_mirrorMisses := a, pp_forwarded := b\<rparr>)" "echoing line typed k' q" for a b
    using assms(1-3) unfolding q_def by (simp_all add: echoing_def busyWithApp_def)
  have l: "?l = [] \<longleftrightarrow> line = [] \<and> k' = 0" using assms(3) by auto
  have c: "pp_lastForwardWasEdit q = pp_lastForwardWasEdit p" "pp_mirrorMisses q = pp_mirrorMisses p"
    "pp_forwarded q = pp_forwarded p" "pp_world q = pp_world p" "\<not> pp_uncoverRef q"
    using q(2) by (simp_all add: q_def echoing_def)
  note cases = count_misses_cases(1) [OF c(5), of ?l, unfolded Let_def c l]
  show "keeps_cover line (Echo k' # evs) p \<Longrightarrow> echoing line typed k' p' \<and> pp_world p' = pp_world p \<and> keeps_cover line evs p'"
    "\<not> pp_uncoverRef p' \<Longrightarrow> echoing line typed k' p' \<and> keeps_cover line evs p' = keeps_cover line (Echo k' # evs) p"
    "pp_uncoverRef p' \<Longrightarrow> \<not> keeps_cover line (Echo k' # evs) p"
    using cases q c unfolding eq [symmetric] by (auto simp: Let_def split: if_splits)
  show "sent_bytes p' = sent_bytes p"
    unfolding eq count_misses_cases(2) [OF c(5)] by (simp add: q_def sent_bytes_def)
qed

text \<open>Once the prompt of the shell is uncovered, it stays so.\<close>

lemma uncovered_stays:
  "pp_uncoverRef p \<Longrightarrow> pp_uncoverRef (refresh_with l p)"
  "pp_uncoverRef p \<Longrightarrow> pp_uncoverRef (area_keydown now ev p)"
  by (auto simp: refresh_with_def area_keydown_def key_to_shell_def handleLocalCommandKey_def set_local_def exitLocalCommand_def
      runLocalCommand_def out_def on_world_def forwardBytes_def predictKey_def split: option.splits)

lemma uncovered_typing: "pp_uncoverRef p \<Longrightarrow> pp_uncoverRef (typing now line typed evs p)"
  by (induction now line typed evs p rule: typing.induct) (auto simp: uncovered_stays)

lemma typing_echoing:
  assumes "echoing line typed k p" "echoes_ok k (length typed) evs"
    "line @ typed \<noteq> [] \<or> (typed_text evs \<noteq> [] \<longrightarrow> hd (typed_text evs) \<noteq> 47)"
  shows "if keeps_cover line evs p
     then (\<exists>k'. echoing line (typed @ typed_text evs) k' (typing now line typed evs p))
          \<and> pp_world (typing now line typed evs p) = pp_world p
          \<and> sent_bytes (typing now line typed evs p) = sent_bytes p @ concat (map (\<lambda>c. utf8_encode [c]) (typed_text evs))
     else pp_uncoverRef (typing now line typed evs p)"
  using assms
proof (induction evs arbitrary: typed k p)
  case Nil
  then show ?case by auto
next
  case (Cons e evs)
  show ?case
  proof (cases e)
    case (Type c)
    let ?p = "area_keydown now (plain_key [c]) p"
    have c: "line @ typed \<noteq> [] \<or> c \<noteq> 47" using Cons.prems(3) Type by auto
    note step = echoing_type [OF Cons.prems(1) c, of now]
    have "echoes_ok k (length (typed @ [c])) evs"
      "line @ (typed @ [c]) \<noteq> [] \<or> (typed_text evs \<noteq> [] \<longrightarrow> hd (typed_text evs) \<noteq> 47)"
      using Cons.prems(2) Type by simp_all
    from Cons.IH [OF step(1) this] show ?thesis
      unfolding Type step(4) [symmetric] by (auto simp: step(2,3) simp del: utf8_encode.simps split: if_splits)
  next
    case (Echo k')
    let ?p = "refresh_with (Some (line @ take k' typed)) p"
    have k: "k \<le> k'" "k' \<le> length typed" using Cons.prems(2) Echo by simp_all
    note step = echoing_echo [OF Cons.prems(1) k]
    show ?thesis
    proof (cases "pp_uncoverRef ?p")
      case True
      then show ?thesis using step(3) by (simp only: Echo if_False typing.simps uncovered_typing)
    next
      case False
      from step(2) [OF False] have e: "echoing line typed k' ?p" and c: "keeps_cover line evs ?p = keeps_cover line (Echo k' # evs) p"
        by blast+
      have w: "keeps_cover line (Echo k' # evs) p \<Longrightarrow> pp_world ?p = pp_world p" using step(1) by blast
      have "echoes_ok k' (length typed) evs"
        "line @ typed \<noteq> [] \<or> (typed_text evs \<noteq> [] \<longrightarrow> hd (typed_text evs) \<noteq> 47)"
        using Cons.prems(2,3) Echo by simp_all
      from Cons.IH [OF e this] show ?thesis
        unfolding Echo typing.simps typed_text.simps c step(4) using w by (auto simp del: utf8_encode.simps stays_covered.simps split: if_splits)
    qed
  qed
qed

text \<open>Enter submits the line that the box shows.\<close>

lemma echoing_enter:
  assumes "echoing line typed k p"
  shows "pp_world (area_keydown now (plain_key (js ''Enter'')) p) = noteSubmittedCommand now (line @ typed) (pp_world p)"
    and "sent_bytes (area_keydown now (plain_key (js ''Enter'')) p) = sent_bytes p @ [13]"
  using assms
  by (simp_all add: echoing_def area_keydown_def key_to_shell_def handleLocalCommandKey_def plain_key_def encodeKeyToPty_def
      named_key_def predictKey_def forwardBytes_def out_def on_world_def sent_bytes_def map_filter_def js_eval)

section \<open>Composing a slash command\<close>

definition composing :: "jsstr \<Rightarrow> 'x panel \<Rightarrow> bool" where
  "composing c p \<longleftrightarrow> \<not> busyWithApp p \<and> pp_localCmdRef p = Some c \<and> pp_localCmd p = Some c"

lemma sent_bytes_local [simp]:
  "sent_bytes (set_local c p) = sent_bytes p" "sent_bytes (exitLocalCommand p) = sent_bytes p"
  "sent_bytes (on_world f p) = sent_bytes p" "sent_bytes (p\<lparr>pp_cmdHint := h\<rparr>) = sent_bytes p"
  by (simp_all add: sent_bytes_def set_local_def exitLocalCommand_def on_world_def)

lemma sent_bytes_out: "sent_bytes (out es p) = sent_bytes p @ concat (List.map_filter (\<lambda>e. case e of SendBytes bs \<Rightarrow> Some bs | _ \<Rightarrow> None) es)"
  by (simp add: sent_bytes_def out_def map_filter_def)

text \<open>A key without meta or control key is kept from the shell; only Enter on \<^verbatim>\<open>/clear\<close> sends anything.\<close>

lemma composing_key:
  assumes "composing c p" "\<not> ke_metaKey ev" "\<not> ke_ctrlKey ev"
  shows "sent_bytes (area_keydown now ev p)
     = sent_bytes p @ (if ke_key ev = js ''Enter'' \<and> trim c = js ''/clear'' then js ''clear'' @ [10] else [])"
proof -
  have "utf8_encode (js ''clear'' @ [10]) = js ''clear'' @ [10]" by (simp add: js_eval)
  then have run: "sent_bytes (runLocalCommand now cmd q) = sent_bytes q @ (if cmd = js ''/clear'' then js ''clear'' @ [10] else [])" for cmd q
    by (simp add: runLocalCommand_def sent_bytes_out map_filter_def)
  have keys: "js ''Enter'' \<noteq> js ''Escape''" "js ''Enter'' \<noteq> js ''Backspace''" by (simp_all add: js_eval)
  show ?thesis
    using assms keys by (auto simp: area_keydown_def key_to_shell_def handleLocalCommandKey_def composing_def run)
qed

lemma composing_type:
  assumes "composing c p"
  shows "composing (c @ [k]) (area_keydown now (plain_key [k]) p)"
  using assms
  by (simp add: area_keydown_def key_to_shell_def handleLocalCommandKey_def composing_def plain_key_def set_local_def js_eval
      busyWithApp_def)

lemma composing_types:
  assumes "composing c p"
  shows "composing (c @ s) (fold (\<lambda>k. area_keydown now (plain_key [k])) s p)
    \<and> sent_bytes (fold (\<lambda>k. area_keydown now (plain_key [k])) s p) = sent_bytes p"
  using assms
proof (induction s arbitrary: c p)
  case (Cons k s)
  have "sent_bytes (area_keydown now (plain_key [k]) p) = sent_bytes p"
    using composing_key [OF Cons.prems, of "plain_key [k]" now] by (simp add: plain_key_def js_eval)
  with Cons.IH [OF composing_type [OF Cons.prems, of k now]] show ?case by simp
qed simp

lemma composing_start:
  assumes "at_prompt [] p"
  shows "composing (js ''/'') (area_keydown now (plain_key (js ''/'')) p)"
    and "sent_bytes (area_keydown now (plain_key (js ''/'')) p) = sent_bytes p"
  using assms
  by (simp_all add: at_prompt_def area_keydown_def key_to_shell_def handleLocalCommandKey_def composing_def plain_key_def
      set_local_def busyWithApp_def sent_bytes_def)

section \<open>Properties\<close>

text \<open>
  C7. What the box shows while the user types. From a prompt that shows \<open>line\<close>, over every
  interleaving of key presses with refreshes at which the shell has echoed some of them (more and
  more, never more than was typed): as long as no third refresh has missed the echo, the box shows
  \<open>line\<close> followed by everything typed, and the shell has been sent exactly the encoding of it; at the
  third miss, and never otherwise, the shell's own prompt is uncovered. A prompt that shows some text
  cannot miss. (A slash as the first character of an empty line starts a slash command and is
  excluded.)\<close>

theorem local_echo_exact:
  assumes "at_prompt line p" "echoes_ok 0 0 evs"
    "line \<noteq> [] \<or> (typed_text evs \<noteq> [] \<longrightarrow> hd (typed_text evs) \<noteq> 47)"
  shows "(if keeps_cover line evs p
      then \<not> pp_uncoverRef (typing now line [] evs p)
        \<and> box_value (typing now line [] evs p) = line @ typed_text evs
        \<and> sent_bytes (typing now line [] evs p) = sent_bytes p @ concat (map (\<lambda>c. utf8_encode [c]) (typed_text evs))
      else pp_uncoverRef (typing now line [] evs p))
    \<and> (line \<noteq> [] \<longrightarrow> keeps_cover line evs p)"
proof -
  have e: "echoing line [] 0 p" by (rule at_prompt_echoing [OF assms(1)])
  have "\<not> pp_uncoverRef q \<and> box_value q = line @ t" if "echoing line t k q" for t k and q :: "'a panel"
    using that by (simp add: echoing_def box_value_def)
  with typing_echoing [OF e, of evs now] assms(2,3) show ?thesis by (auto simp: shown_stays_covered)
qed

definition sample_panel :: "nat panel" where
  "sample_panel = \<lparr>pp_blocks = 0, pp_mirror = [], pp_mirrorRef = [], pp_pending = [], pp_pendingRef = [], pp_pendingBase = [],
     pp_pendingMismatches = 0, pp_interactive = False, pp_runningCmd = False, pp_uncover = False, pp_uncoverRef = False,
     pp_localCmd = None, pp_localCmdRef = None, pp_cmdHint = None, pp_mirrorMisses = 0, pp_forwarded = 0,
     pp_lastForwardWasEdit = False, pp_world = sample_world, pp_out = []\<rparr>"

theorem local_echo_exact_witness:
  "box_value (typing 5 [] [] [Type 108, Echo 0, Type 115, Type 45, Echo 1, Echo 3] sample_panel) = js ''ls-''
   \<and> sent_bytes (typing 5 [] [] [Type 108, Echo 0, Type 115, Type 45, Echo 1, Echo 3] sample_panel) = js ''ls-''"
proof -
  let ?evs = "[Type 108, Echo 0, Type 115, Type 45, Echo 1, Echo 3]"
  have h: "at_prompt [] sample_panel" "echoes_ok 0 0 ?evs"
    "([] :: jsstr) \<noteq> [] \<or> (typed_text ?evs \<noteq> [] \<longrightarrow> hd (typed_text ?evs) \<noteq> 47)"
    by (simp_all add: at_prompt_def sample_panel_def busyWithApp_def)
  have t: "keeps_cover [] ?evs sample_panel" "[] @ typed_text ?evs = js ''ls-''" "sent_bytes sample_panel = []"
    "concat (map (\<lambda>c. utf8_encode [c]) (typed_text ?evs)) = js ''ls-''"
    by (simp_all add: js_eval sample_panel_def sent_bytes_def map_filter_def)
  show ?thesis using local_echo_exact [OF h, of 5] t by (simp only: if_True append_Nil)
qed

text \<open>
  C8. Slash commands stay in the application: after a slash at an empty prompt, every further
  plain character only extends the command in the box and nothing reaches the shell; Enter then
  sends \<^verbatim>\<open>clear\<close> with a newline when the command, trimmed, is \<^verbatim>\<open>/clear\<close>, and nothing otherwise.\<close>

theorem slash_commands_stay_local:
  assumes "at_prompt [] p"
  shows "let q = fold (\<lambda>k. area_keydown now (plain_key [k])) s (area_keydown now (plain_key (js ''/'')) p);
             r = area_keydown now (plain_key (js ''Enter'')) q
         in box_value q = js ''/'' @ s \<and> sent_bytes q = sent_bytes p
            \<and> sent_bytes r = sent_bytes p @ (if trim (js ''/'' @ s) = js ''/clear'' then js ''clear'' @ [10] else [])"
proof -
  let ?q = "fold (\<lambda>k. area_keydown now (plain_key [k])) s (area_keydown now (plain_key (js ''/'')) p)"
  have q: "composing (js ''/'' @ s) ?q" "sent_bytes ?q = sent_bytes p"
    using composing_types [OF composing_start(1) [OF assms]] composing_start(2) [OF assms] by metis+
  have "sent_bytes (area_keydown now (plain_key (js ''Enter'')) ?q)
      = sent_bytes p @ (if trim (js ''/'' @ s) = js ''/clear'' then js ''clear'' @ [10] else [])"
    using composing_key [OF q(1), of "plain_key (js ''Enter'')" now] unfolding q(2) by (simp add: plain_key_def)
  with q show ?thesis unfolding Let_def by (simp add: box_value_def composing_def)
qed

theorem slash_commands_stay_local_witness:
  "sent_bytes (area_keydown 5 (plain_key (js ''Enter''))
      (fold (\<lambda>k. area_keydown 5 (plain_key [k])) (js ''clear'') (area_keydown 5 (plain_key (js ''/'')) sample_panel)))
    = js ''clear'' @ [10]"
proof -
  have p: "at_prompt [] sample_panel" by (simp add: at_prompt_def sample_panel_def busyWithApp_def)
  have "sent_bytes sample_panel = []" by (simp add: sent_bytes_def sample_panel_def map_filter_def)
  moreover have "trim (js ''/'' @ js ''clear'') = js ''/clear''" by (simp add: js_eval)
  ultimately show ?thesis using slash_commands_stay_local [OF p, of 5 "js ''clear''"] unfolding Let_def by simp
qed

text \<open>Two Tab keys that the shell answers with nothing before the next refresh.\<close>

definition silent_tabs :: "int \<Rightarrow> 'x panel \<Rightarrow> 'x panel" where
  "silent_tabs now p =
     refresh_with (Some []) (area_keydown now (plain_key (js ''Tab'')) (area_keydown now (plain_key (js ''Tab'')) p))"

definition blind :: "'x panel \<Rightarrow> bool" where
  "blind p \<longleftrightarrow> \<not> busyWithApp p \<and> pp_uncoverRef p \<and> pp_localCmdRef p = None \<and> pp_localCmd p = None
     \<and> pp_mirrorRef p = [] \<and> pp_pendingRef p = []"

lemma tab_key:
  assumes "at_prompt [] p"
  shows "at_prompt [] (area_keydown now (plain_key (js ''Tab'')) p)"
    and "pp_forwarded (area_keydown now (plain_key (js ''Tab'')) p) = pp_forwarded p + 1"
    and "pp_mirrorMisses (area_keydown now (plain_key (js ''Tab'')) p) = pp_mirrorMisses p"
    and "pp_lastForwardWasEdit (area_keydown now (plain_key (js ''Tab'')) p)"
  using assms
  by (simp_all add: at_prompt_def area_keydown_def key_to_shell_def handleLocalCommandKey_def plain_key_def busyWithApp_def
      encodeKeyToPty_def named_key_def predictKey_def forwardBytes_def out_def is_edit_def js_eval)

lemma silent_tabs_misses:
  assumes "at_prompt [] p" "pp_mirrorMisses p < 3"
  shows "pp_mirrorMisses (silent_tabs now p) = pp_mirrorMisses p + 1"
    and "pp_mirrorMisses p < 2 \<Longrightarrow> at_prompt [] (silent_tabs now p)"
    and "pp_mirrorMisses p = 2 \<Longrightarrow> blind (silent_tabs now p)"
proof -
  define q where "q = area_keydown now (plain_key (js ''Tab'')) (area_keydown now (plain_key (js ''Tab'')) p)"
  note one = tab_key [OF assms(1), of now] and two = tab_key [OF tab_key(1) [OF assms(1), of now], of now]
  have q: "at_prompt [] q" "2 \<le> pp_forwarded q" "pp_mirrorMisses q = pp_mirrorMisses p" "pp_lastForwardWasEdit q"
    using one two unfolding q_def by simp_all
  have s: "silent_tabs now p = refresh_with (Some []) q" by (simp add: silent_tabs_def q_def)
  show "pp_mirrorMisses (silent_tabs now p) = pp_mirrorMisses p + 1"
    "pp_mirrorMisses p < 2 \<Longrightarrow> at_prompt [] (silent_tabs now p)"
    "pp_mirrorMisses p = 2 \<Longrightarrow> blind (silent_tabs now p)"
    using q assms(2) unfolding s
    by (auto simp: refresh_with_def reconcile_def count_misses_def at_prompt_def blind_def busyWithApp_def out_def on_world_def Let_def)
qed

lemma blind_types:
  assumes "blind p" "47 \<notin> set s"
  shows "blind (fold (\<lambda>k. area_keydown now (plain_key [k])) s p)
    \<and> sent_bytes (fold (\<lambda>k. area_keydown now (plain_key [k])) s p) = sent_bytes p @ concat (map (\<lambda>c. utf8_encode [c]) s)"
  using assms
proof (induction s arbitrary: p)
  case (Cons k s)
  have eq: "area_keydown now (plain_key [k]) p = forwardBytes (utf8_encode [k]) (is_edit (plain_key [k])) p"
    using Cons.prems encode_plain [of k]
    by (simp add: blind_def area_keydown_def key_to_shell_def handleLocalCommandKey_def predictKey_def js_eval plain_key_def
        del: utf8_encode.simps)
  have "blind (area_keydown now (plain_key [k]) p)"
    using Cons.prems(1) unfolding eq by (simp add: blind_def forwardBytes_def out_def busyWithApp_def del: utf8_encode.simps)
  moreover have "sent_bytes (area_keydown now (plain_key [k]) p) = sent_bytes p @ utf8_encode [k]"
    unfolding eq by (simp add: forwardBytes_def sent_bytes_def out_def map_filter_def del: utf8_encode.simps)
  ultimately show ?case using Cons.IH [of "area_keydown now (plain_key [k]) p"] Cons.prems(2) by (simp del: utf8_encode.simps)
qed simp

lemma blind_slash:
  assumes "blind p"
  shows "composing (js ''/'') (area_keydown now (plain_key [47]) p)"
    and "sent_bytes (area_keydown now (plain_key [47]) p) = sent_bytes p"
  using assms
  by (simp_all add: blind_def area_keydown_def key_to_shell_def handleLocalCommandKey_def composing_def plain_key_def set_local_def
      busyWithApp_def sent_bytes_def js_eval)

text \<open>
  The fallback breaks paths: three refreshes that each find an empty line after two Tab keys
  uncover the prompt with an empty mirror; from then on the first slash of any command line is
  taken for the start of a slash command, and neither it nor what is typed after it reaches the
  shell.\<close>

theorem uncovered_prompt_swallows_paths:
  assumes "at_prompt [] p" "pp_mirrorMisses p = 0" "47 \<notin> set s"
  shows "let u = silent_tabs now (silent_tabs now (silent_tabs now p));
             v = fold (\<lambda>k. area_keydown now (plain_key [k])) (s @ [47] @ t) u
         in pp_uncoverRef u \<and> box_value v = js ''/'' @ t
            \<and> sent_bytes v = sent_bytes u @ concat (map (\<lambda>c. utf8_encode [c]) s)"
proof -
  define p1 p2 u where "p1 = silent_tabs now p" and "p2 = silent_tabs now p1" and "u = silent_tabs now p2"
  have 1: "at_prompt [] p1" "pp_mirrorMisses p1 = 1" using silent_tabs_misses [OF assms(1), of now] assms(2) by (simp_all add: p1_def)
  have 2: "at_prompt [] p2" "pp_mirrorMisses p2 = 2" using silent_tabs_misses [OF 1(1), of now] 1(2) by (simp_all add: p2_def)
  have u: "blind u" using silent_tabs_misses(3) [OF 2(1), of now] 2(2) by (simp add: u_def)
  define w where "w = fold (\<lambda>k. area_keydown now (plain_key [k])) s u"
  have w: "blind w" "sent_bytes w = sent_bytes u @ concat (map (\<lambda>c. utf8_encode [c]) s)"
    using blind_types [OF u assms(3), of now] by (simp_all add: w_def del: utf8_encode.simps)
  note rest = composing_types [OF blind_slash(1) [OF w(1)], of t now]
  show ?thesis
    using rest blind_slash(2) [OF w(1), of now] u w(2)
    by (simp add: Let_def p1_def [symmetric] p2_def [symmetric] u_def [symmetric] w_def [symmetric] composing_def box_value_def blind_def
        del: utf8_encode.simps)
qed

theorem uncovered_prompt_swallows_paths_witness:
  "sent_bytes (fold (\<lambda>k. area_keydown 5 (plain_key [k])) (js ''ls '' @ [47] @ js ''tmp'')
      (silent_tabs 5 (silent_tabs 5 (silent_tabs 5 sample_panel))))
    = sent_bytes (silent_tabs 5 (silent_tabs 5 (silent_tabs 5 sample_panel))) @ js ''ls ''"
proof -
  have h: "at_prompt [] sample_panel" "pp_mirrorMisses sample_panel = 0" "47 \<notin> set (js ''ls '')"
    by (simp_all add: at_prompt_def sample_panel_def busyWithApp_def js_eval)
  have "concat (map (\<lambda>c. utf8_encode [c]) (js ''ls '')) = js ''ls ''" by (simp add: js_eval)
  then show ?thesis using uncovered_prompt_swallows_paths [OF h, of 5 "js ''tmp''"] unfolding Let_def by metis
qed

end
