(* ===== verification/Appearance.thy ===== *)
theory Appearance
  imports Prefs "HOL-Library.Word"
begin

unbundle bit_operations_syntax

text \<open>
  How the program looks: the platform style of the window (src/apps/ui/src/lib/chrome.ts), the hue of
  a tag (lib/tagColors.ts), the accent colour and its lighter variant (lib/accent.ts), translucent
  window materials (lib/materials.ts), the terminal theme read back from the style sheet
  (terminal/theme.ts), and the short texts of a command block (terminal/blockChrome.ts).

  The style of the document is a map from custom properties to values; \<^verbatim>\<open>setProperty\<close> updates it.
\<close>

type_synonym style = "jsstr \<Rightarrow> jsstr option"

definition setProperty :: "jsstr \<Rightarrow> jsstr \<Rightarrow> style \<Rightarrow> style" where
  "setProperty name value st = st(name \<mapsto> value)"

section \<open>Platform style\<close>

datatype chrome_style = MacChrome | WinChrome | LinuxChrome

text \<open>The strings the browser reports about the platform; \<open>lower\<close> is \<^verbatim>\<open>toLowerCase\<close>.\<close>

definition detectChromeStyle :: "(jsstr \<Rightarrow> jsstr) \<Rightarrow> jsstr option \<Rightarrow> jsstr \<Rightarrow> jsstr \<Rightarrow> chrome_style" where
  "detectChromeStyle lower uaPlatform navPlatform userAgent =
     (let reported = (case uaPlatform of Some p \<Rightarrow> if p \<noteq> [] then p else if navPlatform \<noteq> [] then navPlatform else userAgent
                      | None \<Rightarrow> if navPlatform \<noteq> [] then navPlatform else userAgent);
          platform = lower reported
      in if includes_str platform (js ''mac'') \<or> includes_str platform (js ''iphone'') \<or> includes_str platform (js ''ipad'')
         then MacChrome
         else if includes_str platform (js ''win'') then WinChrome
         else LinuxChrome)"

fun chrome_text :: "chrome_style \<Rightarrow> jsstr" where
  "chrome_text MacChrome = js ''mac''"
| "chrome_text WinChrome = js ''win''"
| "chrome_text LinuxChrome = js ''linux''"

text \<open>The attributes \<^verbatim>\<open>data-chrome\<close> and \<^verbatim>\<open>data-platform\<close> of the document.\<close>

definition applyChromeDataset :: "chrome_style \<Rightarrow> jsstr \<times> jsstr" where
  "applyChromeDataset c = (chrome_text c, if c = MacChrome then js ''macos'' else chrome_text c)"

definition modKeyLabel :: "chrome_style \<Rightarrow> jsstr" where
  "modKeyLabel c = (if c = MacChrome then [8984] else js ''Ctrl'')"

definition shiftModLabel :: "chrome_style \<Rightarrow> jsstr" where
  "shiftModLabel c = (if c = MacChrome then [8679, 8984] else js ''Ctrl+Shift'')"

section \<open>The hue of a tag\<close>

text \<open>The loop of \<^verbatim>\<open>tagHue\<close>; \<^verbatim>\<open>x >>> 0\<close> reduces a number to 32 bits.\<close>

fun tag_hash :: "nat \<Rightarrow> jsstr \<Rightarrow> nat" where
  "tag_hash hash [] = hash"
| "tag_hash hash (c # s) = tag_hash ((hash * 31 + c) mod 2 ^ 32) s"

definition tagHue :: "jsstr \<Rightarrow> nat" where
  "tagHue tag = tag_hash 0 tag mod 360"

definition tagGroupColors :: "jsstr \<Rightarrow> jsstr \<times> jsstr" where
  "tagGroupColors tag = (js ''#1b1b1b'', js ''hsl('' @ show_nat (tagHue tag) @ js '' 55% 62%)'')"

definition hostTileAvatarStyle :: "jsstr option \<Rightarrow> jsstr \<times> jsstr" where
  "hostTileAvatarStyle color = (js ''#1b1b1b'', case color of Some c \<Rightarrow> c | None \<Rightarrow> js ''#3d8ef0'')"

section \<open>Hexadecimal colours\<close>

definition hex_value :: "nat \<Rightarrow> nat" where
  "hex_value c = (if is_digit c then c - 48 else if 97 \<le> c then c - 87 else c - 55)"

definition hex_number :: "jsstr \<Rightarrow> nat" where
  "hex_number ds = foldl (\<lambda>n d. 16 * n + hex_value d) 0 ds"

text \<open>\<^verbatim>\<open>Number.parseInt(s, 16)\<close>; \<open>None\<close> is \<^verbatim>\<open>NaN\<close>.\<close>

definition parse_hex :: "jsstr \<Rightarrow> int option" where
  "parse_hex s =
     (let t = trimStart s;
          neg = startsWith t (js ''-'');
          u = (if neg \<or> startsWith t (js ''+'') then drop 1 t else t);
          w = (if startsWith u (js ''0x'') \<or> startsWith u (js ''0X'') then drop 2 u else u);
          ds = takeWhile is_hex w
      in if ds = [] then None else Some (if neg then - int (hex_number ds) else int (hex_number ds)))"

definition hex_digit :: "nat \<Rightarrow> nat" where
  "hex_digit n = (if n < 10 then 48 + n else 87 + n)"

text \<open>\<^verbatim>\<open>n.toString(16)\<close> and \<^verbatim>\<open>padStart\<close>\<close>

fun show_hex :: "nat \<Rightarrow> jsstr" where
  "show_hex n = (if n < 16 then [hex_digit n] else show_hex (n div 16) @ [hex_digit (n mod 16)])"

declare show_hex.simps [simp del]

definition padStart :: "nat \<Rightarrow> nat \<Rightarrow> jsstr \<Rightarrow> jsstr" where
  "padStart k c s = replicate (k - length s) c @ s"

text \<open>
  The bit operations are those of 32-bit integers; the number read from six digits needs 24 bits
  and a sign.\<close>

definition lightenHex :: "jsstr \<Rightarrow> int \<Rightarrow> jsstr" where
  "lightenHex hex amount =
     (let raw = replace_first (chr 35) [] hex in
      if length raw \<noteq> 6 then hex
      else case parse_hex raw of
        None \<Rightarrow> hex
      | Some n \<Rightarrow>
          let r = min 255 ((drop_bit 16 n AND 255) + amount);
              g = min 255 ((drop_bit 8 n AND 255) + amount);
              b = min 255 ((n AND 255) + amount)
          in js ''#'' @ padStart 6 48 (show_hex (nat (push_bit 16 r OR push_bit 8 g OR b))))"

definition applyAccentVars :: "jsstr \<Rightarrow> style \<Rightarrow> style" where
  "applyAccentVars hex st =
     setProperty (js ''--color-accent-hover'') (lightenHex hex 28) (setProperty (js ''--color-accent'') hex st)"

text \<open>\<^verbatim>\<open>/^#[0-9A-Fa-f]{6}$/\<close>\<close>

definition ACCENT :: re where
  [js_eval]: "ACCENT = seqs [Bol, chr 35, CC is_hex, CC is_hex, CC is_hex, CC is_hex, CC is_hex, CC is_hex, Eol]"

text \<open>The answer of the platform: an error, no accent, or a colour.\<close>

definition applyPlatformAccent :: "chrome_style \<Rightarrow> unit + jsstr option \<Rightarrow> style \<Rightarrow> style" where
  "applyPlatformAccent c answer st =
     (if c \<noteq> WinChrome then st
      else case answer of
        Inl _ \<Rightarrow> st
      | Inr None \<Rightarrow> st
      | Inr (Some accent) \<Rightarrow> if accent \<noteq> [] \<and> re_test ACCENT accent then applyAccentVars accent st else st)"

section \<open>Window materials\<close>

fun num_times :: "rat \<Rightarrow> jsnum \<Rightarrow> jsnum" where
  "num_times c (Num a) = Num (a * c)"
| "num_times c x = x"

fun num_plus :: "rat \<Rightarrow> jsnum \<Rightarrow> jsnum" where
  "num_plus c (Num a) = Num (a + c)"
| "num_plus c x = x"

record solid_colors =
  so_base :: jsstr
  so_surface :: jsstr
  so_elevated :: jsstr
  so_hover :: jsstr
  so_active :: jsstr

definition SOLID :: solid_colors where
  "SOLID = \<lparr>so_base = js ''#0d0d0d'', so_surface = js ''#141414'', so_elevated = js ''#1b1b1b'',
            so_hover = js ''#222222'', so_active = js ''#2a2a2a''\<rparr>"

text \<open>A value of a style property before it is printed.\<close>

datatype css_color = Plain jsstr | Rgba int int int jsnum

definition rgba :: "jsstr \<Rightarrow> jsnum \<Rightarrow> css_color" where
  "rgba hex alpha =
     (let n = (case parse_hex (replace_first (chr 35) [] hex) of Some n \<Rightarrow> n | None \<Rightarrow> 0)
      in Rgba (drop_bit 16 n AND 255) (drop_bit 8 n AND 255) (n AND 255) alpha)"

text \<open>The template of \<^verbatim>\<open>rgba\<close>; \<open>num\<close> prints a number, as \<^verbatim>\<open>String\<close> does.\<close>

fun css_text :: "(jsnum \<Rightarrow> jsstr) \<Rightarrow> css_color \<Rightarrow> jsstr" where
  "css_text num (Plain s) = s"
| "css_text num (Rgba r g b a) =
     js ''rgba('' @ num (Num (of_int r)) @ js '', '' @ num (Num (of_int g)) @ js '', '' @ num (Num (of_int b)) @ js '', '' @ num a @ js '')''"

text \<open>
  \<^verbatim>\<open>applyMaterialCss\<close>: the properties it sets, in order, and the background of the body. The alpha
  it computes for the terminal is not used.
\<close>

definition material_properties :: "material_pref \<Rightarrow> jsnum \<Rightarrow> (jsstr \<times> css_color) list" where
  "material_properties kind chromeOpacity =
     (let chromeA = num_times (1 / 100) chromeOpacity in
      (js ''--terminal-bg'', Plain (so_base SOLID)) #
      (if kind = Opaque then
         [(js ''--color-base'', Plain (so_base SOLID)), (js ''--color-surface'', Plain (so_surface SOLID)),
          (js ''--color-elevated'', Plain (so_elevated SOLID)), (js ''--color-hover'', Plain (so_hover SOLID)),
          (js ''--color-active'', Plain (so_active SOLID))]
       else
         [(js ''--color-base'', rgba (so_base SOLID) (num_times (88 / 100) chromeA)),
          (js ''--color-surface'', rgba (so_surface SOLID) chromeA),
          (js ''--color-elevated'', rgba (so_elevated SOLID) (math_min (Num 1) (num_plus (4 / 100) chromeA))),
          (js ''--color-hover'', rgba (so_hover SOLID) (math_min (Num 1) (num_plus (6 / 100) chromeA))),
          (js ''--color-active'', rgba (so_active SOLID) (math_min (Num 1) (num_plus (8 / 100) chromeA)))]))"

definition body_background :: "material_pref \<Rightarrow> jsstr" where
  "body_background kind = (if kind = Opaque then so_base SOLID else js ''transparent'')"

definition applyMaterialCss :: "(jsnum \<Rightarrow> jsstr) \<Rightarrow> material_pref \<Rightarrow> jsnum \<Rightarrow> style \<Rightarrow> style" where
  "applyMaterialCss num kind chromeOpacity st =
     foldl (\<lambda>st (name, value). setProperty name (css_text num value) st) st (material_properties kind chromeOpacity)"

section \<open>The terminal theme\<close>

text \<open>
  \<open>computed\<close> is the value \<^verbatim>\<open>getComputedStyle\<close> gives for a property: the one set on the document, or
  that of the style sheet \<open>sheet\<close>.
\<close>

definition computed :: "(jsstr \<Rightarrow> jsstr) \<Rightarrow> style \<Rightarrow> jsstr \<Rightarrow> jsstr" where
  "computed sheet st name = (case st name of Some v \<Rightarrow> v | None \<Rightarrow> sheet name)"

definition cssVar :: "(jsstr \<Rightarrow> jsstr) \<Rightarrow> jsstr \<Rightarrow> jsstr \<Rightarrow> jsstr" where
  "cssVar get name fallback = (let value = trim (get name) in if value \<noteq> [] then value else fallback)"

record theme =
  th_background :: jsstr
  th_foreground :: jsstr
  th_cursor :: jsstr
  th_cursorAccent :: jsstr
  th_selectionBackground :: jsstr
  th_selectionInactiveBackground :: jsstr
  th_scrollbarSliderBackground :: jsstr
  th_scrollbarSliderHoverBackground :: jsstr
  th_scrollbarSliderActiveBackground :: jsstr
  th_black :: jsstr
  th_red :: jsstr
  th_green :: jsstr
  th_yellow :: jsstr
  th_blue :: jsstr
  th_magenta :: jsstr
  th_cyan :: jsstr
  th_white :: jsstr
  th_brightBlack :: jsstr
  th_brightRed :: jsstr
  th_brightGreen :: jsstr
  th_brightYellow :: jsstr
  th_brightBlue :: jsstr
  th_brightMagenta :: jsstr
  th_brightCyan :: jsstr
  th_brightWhite :: jsstr

definition themeFromAppTokens :: "(jsstr \<Rightarrow> jsstr) \<Rightarrow> theme" where
  "themeFromAppTokens get =
     (let base = cssVar get (js ''--color-base'') (js ''#0d0d0d'');
          elevated = cssVar get (js ''--color-elevated'') (js ''#1b1b1b'');
          fg = cssVar get (js ''--color-fg'') (js ''#e8e8e8'');
          muted = cssVar get (js ''--color-fg-muted'') (js ''#a1a1a1'');
          accent = cssVar get (js ''--color-accent'') (js ''#4c8df6'');
          danger = cssVar get (js ''--color-danger'') (js ''#e5544b'');
          success = cssVar get (js ''--color-success'') (js ''#3fb950'');
          warning = cssVar get (js ''--color-warning'') (js ''#d29922'')
      in \<lparr>th_background = cssVar get (js ''--terminal-bg'') base, th_foreground = fg, th_cursor = accent,
          th_cursorAccent = base, th_selectionBackground = js ''#2c4a75'', th_selectionInactiveBackground = js ''#1e2f4a'',
          th_scrollbarSliderBackground = cssVar get (js ''--color-line-strong'') (js ''#3f4046''),
          th_scrollbarSliderHoverBackground = js ''#4a4a4a'', th_scrollbarSliderActiveBackground = js ''#5a5a5a'',
          th_black = elevated, th_red = danger, th_green = success, th_yellow = warning, th_blue = accent,
          th_magenta = js ''#c678dd'', th_cyan = js ''#56b6c2'', th_white = muted,
          th_brightBlack = cssVar get (js ''--color-fg-subtle'') (js ''#6b6b6b''), th_brightRed = js ''#ff7b72'',
          th_brightGreen = js ''#56d364'', th_brightYellow = js ''#e3b341'',
          th_brightBlue = cssVar get (js ''--color-accent-hover'') (js ''#6ba0f8''), th_brightMagenta = js ''#d2a8ff'',
          th_brightCyan = js ''#76e3ea'', th_brightWhite = fg\<rparr>)"

section \<open>Texts of a command block\<close>

text \<open>\<^verbatim>\<open>ms\<close> is a difference of two times in milliseconds.\<close>

definition rounded_seconds :: "int \<Rightarrow> nat" where
  "rounded_seconds ms = nat (max 0 ((ms + 500) div 1000))"

definition formatDuration :: "int \<Rightarrow> jsstr" where
  "formatDuration ms =
     (let seconds = rounded_seconds ms in
      if seconds < 60 then show_nat seconds @ js ''s''
      else
        let minutes = seconds div 60; rem = seconds mod 60 in
        if minutes < 60 then
          (if 0 < rem then show_nat minutes @ js ''m '' @ show_nat rem @ js ''s'' else show_nat minutes @ js ''m'')
        else
          let hours = minutes div 60; mrem = minutes mod 60 in
          if 0 < mrem then show_nat hours @ js ''h '' @ show_nat mrem @ js ''m'' else show_nat hours @ js ''h'')"

text \<open>\<^verbatim>\<open>/^\/Users\/[^/]+/\<close> and \<^verbatim>\<open>/^\/home\/[^/]+/\<close>\<close>

definition MAC_HOME :: re where
  [js_eval]: "MAC_HOME = seqs [Bol, lit ''/Users/'', rplus (CC (\<lambda>c. c \<noteq> 47))]"

definition LINUX_HOME :: re where
  [js_eval]: "LINUX_HOME = seqs [Bol, lit ''/home/'', rplus (CC (\<lambda>c. c \<noteq> 47))]"

definition shortenPath :: "jsstr option \<Rightarrow> jsstr" where
  "shortenPath cwd =
     (case cwd of None \<Rightarrow> []
      | Some c \<Rightarrow> if c = [] then [] else replace_first LINUX_HOME (js ''~'') (replace_first MAC_HOME (js ''~'') c))"

section \<open>Facts about the hash\<close>

lemma tag_hash_append: "tag_hash h (s @ t) = tag_hash (tag_hash h s) t"
  by (induction s arbitrary: h) auto

lemma tag_hash_bound: "h < 2 ^ 32 \<Longrightarrow> tag_hash h s < 2 ^ 32"
  by (induction s arbitrary: h) auto

lemma word_of_nat_mod: "(word_of_nat (n mod 2 ^ 32) :: 32 word) = word_of_nat n"
  by (simp add: word_unat_eq_iff unat_of_nat)

lemma tag_hash_word: "word_of_nat (tag_hash h s) = foldl (\<lambda>x c. x * 31 + word_of_nat c) (word_of_nat h :: 32 word) s"
proof (induction s arbitrary: h)
  case (Cons c s)
  show ?case using Cons [of "(h * 31 + c) mod 2 ^ 32"] by (simp only: tag_hash.simps foldl.simps word_of_nat_mod of_nat_add of_nat_mult of_nat_numeral)
qed simp

section \<open>Facts about hexadecimal colours\<close>

lemma hex_value_bound: "is_hex c \<Longrightarrow> hex_value c < 16"
  by (auto simp: is_hex_def is_digit_def hex_value_def)

text \<open>The digits of a number, a fixed count of them.\<close>

fun hex_digits :: "nat \<Rightarrow> nat \<Rightarrow> jsstr" where
  "hex_digits 0 n = []"
| "hex_digits (Suc k) n = hex_digits k (n div 16) @ [hex_digit (n mod 16)]"

lemma length_hex_digits [simp]: "length (hex_digits k n) = k"
  by (induction k arbitrary: n) auto

lemma hex_digits_zero: "hex_digits k 0 = replicate k 48"
  by (induction k) (simp_all add: hex_digit_def replicate_append_same)

lemma pad_show_hex: "n < 16 ^ Suc k \<Longrightarrow> padStart (Suc k) 48 (show_hex n) = hex_digits (Suc k) n"
proof (induction k arbitrary: n)
  case 0
  then show ?case by (subst show_hex.simps) (simp add: padStart_def)
next
  case (Suc k)
  show ?case
  proof (cases "n < 16")
    case True
    then show ?thesis
      by (subst show_hex.simps) (simp add: padStart_def hex_digits_zero replicate_append_same hex_digit_def [of 0])
  next
    case False
    have "n div 16 < 16 ^ Suc k" using Suc.prems by (simp add: less_mult_imp_div_less)
    from Suc.IH [OF this] have "padStart (Suc k) 48 (show_hex (n div 16)) = hex_digits (Suc k) (n div 16)" .
    moreover have "padStart (Suc (Suc k)) 48 (show_hex n) = padStart (Suc k) 48 (show_hex (n div 16)) @ [hex_digit (n mod 16)]"
      using False by (subst show_hex.simps) (simp add: padStart_def)
    ultimately show ?thesis by simp
  qed
qed

text \<open>A colour from its three channels.\<close>

definition hex_color :: "nat \<Rightarrow> nat \<Rightarrow> nat \<Rightarrow> jsstr" where
  "hex_color r g b = 35 # hex_digits 2 r @ hex_digits 2 g @ hex_digits 2 b"

lemma hex_digits_add: "hex_digits (j + k) n = hex_digits j (n div 16 ^ k) @ hex_digits k (n mod 16 ^ k)"
proof (induction k arbitrary: n)
  case (Suc k)
  have "n mod 16 ^ Suc k div 16 = n div 16 mod 16 ^ k" "n mod 16 ^ Suc k mod 16 = n mod 16"
    by (simp_all add: mod_mult2_eq)
  then show ?case using Suc [of "n div 16"] by (simp add: div_mult2_eq)
qed simp

lemma split_number:
  assumes "b < 256"
  shows "(x * 256 + b) div 256 = x" "(x * 256 + b) mod 256 = (b::nat)"
  using assms by simp_all

lemma hex_digits_six:
  assumes "r < 256" "g < 256" "b < 256"
  shows "hex_digits 6 ((r * 256 + g) * 256 + b) = hex_digits 2 r @ hex_digits 2 g @ hex_digits 2 b"
  using hex_digits_add [of 4 2 "(r * 256 + g) * 256 + b"] hex_digits_add [of 2 2 "r * 256 + g"]
    split_number [OF assms(3), of "r * 256 + g"] split_number [OF assms(2), of r]
  by simp

lemma or_low_bits:
  assumes "0 \<le> b" "b < 2 ^ k"
  shows "push_bit k x OR b = x * 2 ^ k + (b::int)"
proof -
  have "take_bit k b = b" using assms by (simp add: take_bit_int_eq_self)
  then have "push_bit k x AND b = push_bit k x AND take_bit k b" by simp
  also have "\<dots> = 0" by (auto simp: bit_eq_iff bit_simps)
  finally show ?thesis by (metis disjunctive_add_eq_or push_bit_eq_mult)
qed

lemma or_channels:
  assumes "0 \<le> g" "g < 256" "0 \<le> b" "b < 256"
  shows "push_bit 16 r OR push_bit 8 g OR b = (r * 256 + g) * 256 + (b::int)"
proof -
  have "push_bit 8 g OR b = g * 256 + b" using or_low_bits [of b 8 g] assms by simp
  then show ?thesis using or_low_bits [of "g * 256 + b" 16 r] assms by (simp add: algebra_simps)
qed

text \<open>The channel of a colour at a shift of the number its digits make.\<close>

definition byte_at :: "nat \<Rightarrow> jsstr \<Rightarrow> nat" where
  "byte_at i ds = 16 * hex_value (ds ! i) + hex_value (ds ! Suc i)"

lemma six_digits:
  assumes "length ds = 6"
  obtains a b c d e f where "ds = [a, b, c, d, e, f]"
proof -
  have "6 = Suc (Suc (Suc (Suc (Suc (Suc 0)))))" by simp
  with assms have "length ds = Suc (Suc (Suc (Suc (Suc (Suc 0)))))" by simp
  then show ?thesis using that by (auto simp only: length_Suc_conv length_0_conv)
qed

lemma hex_not_ws:
  assumes "is_hex c"
  shows "\<not> is_ws c"
proof -
  have "48 \<le> c" "c \<le> 102" using assms by (auto simp: is_hex_def is_digit_def)
  then show ?thesis by (simp add: is_ws_def)
qed

lemma parse_six:
  assumes "length ds = 6" "list_all is_hex ds"
  shows "parse_hex ds = Some (int (hex_number ds))"
proof -
  obtain a b c d e f where ds: "ds = [a, b, c, d, e, f]" using six_digits [OF assms(1)] .
  have hex: "is_hex a" "is_hex b" using assms(2) by (simp_all add: ds)
  have "\<not> is_ws a" using hex_not_ws [OF hex(1)] .
  moreover have "a \<noteq> 45" "a \<noteq> 43" "b \<noteq> 120" "b \<noteq> 88"
    using hex by (auto simp: is_hex_def is_digit_def)
  ultimately show ?thesis using assms(2)
    by (simp add: parse_hex_def ds trimStart_def startsWith_def js_def Let_def)
qed

lemma hex_number_six:
  assumes "length ds = 6"
  shows "hex_number ds = (byte_at 0 ds * 256 + byte_at 2 ds) * 256 + byte_at 4 ds"
proof -
  obtain a b c d e f where ds: "ds = [a, b, c, d, e, f]" using six_digits [OF assms] .
  show ?thesis by (simp add: ds hex_number_def byte_at_def)
qed

lemma byte_at_bound: "list_all is_hex ds \<Longrightarrow> Suc i < length ds \<Longrightarrow> byte_at i ds < 256"
  using hex_value_bound [of "ds ! i"] hex_value_bound [of "ds ! Suc i"] by (simp add: byte_at_def list_all_length)

lemma channels_of_number:
  assumes "r < 256" "g < 256" "b < (256::nat)"
  shows "drop_bit 16 (int ((r * 256 + g) * 256 + b)) AND 255 = int r"
    "drop_bit 8 (int ((r * 256 + g) * 256 + b)) AND 255 = int g"
    "int ((r * 256 + g) * 256 + b) AND 255 = int b"
proof -
  have m: "int x AND 255 = int (x mod 256)" for x
    using take_bit_eq_mask [of 8 "int x"] by (simp add: take_bit_eq_mod mask_eq_exp_minus_1 zmod_int)
  have d: "drop_bit 8 (int x) = int (x div 256)" for x by (simp add: drop_bit_eq_div zdiv_int)
  have dd: "drop_bit 16 (int x) = drop_bit 8 (drop_bit 8 (int x))" for x by simp
  show "drop_bit 16 (int ((r * 256 + g) * 256 + b)) AND 255 = int r"
    unfolding dd d m split_number(1) [OF assms(3)] split_number(1) [OF assms(2)] using assms(1) by simp
  show "drop_bit 8 (int ((r * 256 + g) * 256 + b)) AND 255 = int g"
    unfolding d m split_number(1) [OF assms(3)] split_number(2) [OF assms(2)] ..
  show "int ((r * 256 + g) * 256 + b) AND 255 = int b"
    unfolding m split_number(2) [OF assms(3)] ..
qed

lemma lighten_digits:
  assumes "length ds = 6" "list_all is_hex ds"
  shows "lightenHex (35 # ds) (int a)
         = hex_color (min 255 (byte_at 0 ds + a)) (min 255 (byte_at 2 ds + a)) (min 255 (byte_at 4 ds + a))"
proof -
  define r g b where ch: "r = byte_at 0 ds" "g = byte_at 2 ds" "b = byte_at 4 ds"
  have bounds: "r < 256" "g < 256" "b < 256" using assms unfolding ch by (auto intro!: byte_at_bound)
  have raw: "replace_first (chr 35) [] (35 # ds) = ds" by (simp add: replace_first_def chr_def)
  define r' g' b' where ch': "r' = min 255 (r + a)" "g' = min 255 (g + a)" "b' = min 255 (b + a)"
  have lift: "min 255 (int x + int a) = int (min 255 (x + a))" for x by auto
  have small: "r' < 256" "g' < 256" "b' < 256" by (auto simp: ch')
  have or: "nat (push_bit 16 (int r') OR push_bit 8 (int g') OR int b') = (r' * 256 + g') * 256 + b'"
  proof -
    have "push_bit 16 (int r') OR push_bit 8 (int g') OR int b' = int ((r' * 256 + g') * 256 + b')"
      using or_channels [of "int g'" "int b'" "int r'"] small by simp
    then show ?thesis by (simp only: nat_int)
  qed
  have "(r' * 256 + g') * 256 + b' < 16 ^ Suc 5" using small by simp
  from pad_show_hex [OF this] hex_digits_six [OF small]
  have digits: "padStart 6 48 (show_hex ((r' * 256 + g') * 256 + b')) = hex_digits 2 r' @ hex_digits 2 g' @ hex_digits 2 b'"
    by simp
  have n: "parse_hex ds = Some (int ((r * 256 + g) * 256 + b))"
    using parse_six [OF assms] hex_number_six [OF assms(1)] ch by simp
  have "lightenHex (35 # ds) (int a) = js ''#'' @ padStart 6 48 (show_hex (nat (push_bit 16 (int r') OR push_bit 8 (int g') OR int b')))"
    using assms(1) by (simp only: lightenHex_def raw n Let_def option.case channels_of_number [OF bounds] lift ch' if_False simp_thms)
  then show ?thesis unfolding or digits by (simp add: hex_color_def ch ch' js_def)
qed

lemma in_rm_CC: "t \<in> set (rm (CC p) (i, r, c)) \<longleftrightarrow> (\<exists>x xs. r = x # xs \<and> p x \<and> t = (Suc i, xs, c))"
  by (cases r) auto

lemma ACCENT_iff: "re_test ACCENT s \<longleftrightarrow> (\<exists>ds. s = 35 # ds \<and> length ds = 6 \<and> list_all is_hex ds)"
proof
  have anchored: "exec_from ACCENT (Suc i) t = None" for i t
    by (induction t arbitrary: i) (simp_all add: ACCENT_def seqs_def)
  assume "re_test ACCENT s"
  then have "rm ACCENT (0, s, []) \<noteq> []"
    using anchored by (cases s) (auto simp: re_test_def split: list.splits)
  then show "\<exists>ds. s = 35 # ds \<and> length ds = 6 \<and> list_all is_hex ds"
    by (auto simp: ACCENT_def seqs_def chr_def in_rm_CC split: if_splits)
next
  assume "\<exists>ds. s = 35 # ds \<and> length ds = 6 \<and> list_all is_hex ds"
  then obtain ds where s: "s = 35 # ds" "length ds = 6" "list_all is_hex ds" by blast
  obtain a b c d e f where "ds = [a, b, c, d, e, f]" using six_digits [OF s(2)] .
  with s show "re_test ACCENT s" by (simp add: re_test_def ACCENT_def seqs_def chr_def)
qed

section \<open>Facts about materials\<close>

lemma setProperty_fold_other:
  "name \<notin> fst ` set ps \<Longrightarrow> foldl (\<lambda>st (n, v). setProperty n (f v) st) st ps name = st name"
  by (induction ps arbitrary: st) (auto simp: setProperty_def)

lemma material_terminal_bg:
  "applyMaterialCss num kind op st (js ''--terminal-bg'') = Some (js ''#0d0d0d'')"
proof -
  have "\<exists>rest. material_properties kind op = (js ''--terminal-bg'', Plain (js ''#0d0d0d'')) # rest
      \<and> js ''--terminal-bg'' \<notin> fst ` set rest"
    by (simp add: material_properties_def SOLID_def js_def Let_def)
  then obtain rest where "material_properties kind op = (js ''--terminal-bg'', Plain (js ''#0d0d0d'')) # rest"
    "js ''--terminal-bg'' \<notin> fst ` set rest" by blast
  then show ?thesis
    by (simp add: applyMaterialCss_def setProperty_fold_other) (simp add: setProperty_def)
qed

lemma getChromeOpacity_range: "in_range 85 100 (getChromeOpacity s)"
proof (cases "to_number (readString K_chromeOpacity s)")
  case (Num a)
  then show ?thesis using clamp_in_range [of 85 100 "math_round (Num a)"] by (simp add: getChromeOpacity_def isFinite_def Let_def)
qed (simp_all add: getChromeOpacity_def isFinite_def in_range_def DEFAULTS_def)

definition visible_color :: "css_color \<Rightarrow> bool" where
  "visible_color v = (case v of Plain _ \<Rightarrow> True
     | Rgba r g b a \<Rightarrow> 0 \<le> r \<and> r \<le> 255 \<and> 0 \<le> g \<and> g \<le> 255 \<and> 0 \<le> b \<and> b \<le> 255 \<and> in_range (74 / 100) 1 a)"

lemma and_byte: "0 \<le> x AND 255 \<and> x AND 255 \<le> (255::int)"
  by simp

lemma visible_rgba: "in_range (74 / 100) 1 a \<Longrightarrow> visible_color (rgba hex a)"
  by (simp add: visible_color_def rgba_def Let_def and_byte)

lemma material_visible: "in_range 85 100 op \<Longrightarrow> list_all (\<lambda>(n, v). visible_color v) (material_properties kind op)"
proof -
  assume "in_range 85 100 op"
  then obtain x where x: "op = Num x" "85 \<le> x" "x \<le> 100" by (cases op) (auto simp: in_range_def)
  have plain: "visible_color (Plain t)" for t by (simp add: visible_color_def)
  have alphas: "in_range (74 / 100) 1 (num_times (88 / 100) (num_times (1 / 100) op))" "in_range (74 / 100) 1 (num_times (1 / 100) op)"
    "in_range (74 / 100) 1 (math_min (Num 1) (num_plus (4 / 100) (num_times (1 / 100) op)))"
    "in_range (74 / 100) 1 (math_min (Num 1) (num_plus (6 / 100) (num_times (1 / 100) op)))"
    "in_range (74 / 100) 1 (math_min (Num 1) (num_plus (8 / 100) (num_times (1 / 100) op)))"
    using x(2,3) by (simp_all add: x(1) in_range_def math_min_def)
  show ?thesis
    by (simp only: material_properties_def Let_def plain visible_rgba [OF alphas(1)] visible_rgba [OF alphas(2)] prod.case
        visible_rgba [OF alphas(3)] visible_rgba [OF alphas(4)] visible_rgba [OF alphas(5)] list.pred_inject if_split simp_thms)
qed

lemma theme_background:
  assumes "get (js ''--terminal-bg'') = js ''#0d0d0d''"
  shows "th_background (themeFromAppTokens get) = js ''#0d0d0d''"
proof -
  have "trim (js ''#0d0d0d'') = js ''#0d0d0d''"
    by (simp add: js_def trim_def trimStart_def trimEnd_def is_ws_def)
  then have "cssVar get (js ''--terminal-bg'') other = js ''#0d0d0d''" for other
    using assms by (simp add: cssVar_def) (simp add: js_def)
  then show ?thesis by (simp add: themeFromAppTokens_def Let_def)
qed

section \<open>Properties\<close>

text \<open>
  The hue of a tag is an angle below 360, the numbers of the loop stay below \<open>2\<close> to the power 53,
  where doubles are exact, and the hash is the polynomial in 31 of the code units in 32-bit
  arithmetic.
\<close>

theorem tag_hue_bounds:
  assumes "\<forall>c \<in> set tag. c < 65536"
  shows "tagHue tag < 360
    \<and> (\<forall>s c t. tag = s @ c # t \<longrightarrow> tag_hash 0 s * 31 + c < 2 ^ 53)
    \<and> word_of_nat (tag_hash 0 tag) = foldl (\<lambda>h c. h * 31 + word_of_nat c) (0 :: 32 word) tag"
proof (intro conjI allI impI)
  show "tagHue tag < 360" by (simp add: tagHue_def)
  show "tag_hash 0 s * 31 + c < 2 ^ 53" if "tag = s @ c # t" for s c t
    using assms that tag_hash_bound [of 0 s] by simp
  show "word_of_nat (tag_hash 0 tag) = foldl (\<lambda>h c. h * 31 + word_of_nat c) (0 :: 32 word) tag"
    using tag_hash_word [of 0 tag] by simp
qed

theorem tag_hue_bounds_witness: "tagHue (js ''production'') < 360"
  using tag_hue_bounds [of "js ''production''"] by (simp add: js_def)

text \<open>
  On Windows a system accent of six hexadecimal digits becomes the accent colour, and the hover
  colour is the colour whose channels are those of the accent raised by 28, at most 255; an answer
  of any other form, an error or another platform changes nothing.
\<close>

theorem platform_accent_channels:
  "applyPlatformAccent c answer st =
     (case answer of
        Inr (Some (h # ds)) \<Rightarrow>
          if c = WinChrome \<and> h = 35 \<and> length ds = 6 \<and> list_all is_hex ds then
            st(js ''--color-accent'' \<mapsto> h # ds,
               js ''--color-accent-hover'' \<mapsto>
                 hex_color (min 255 (byte_at 0 ds + 28)) (min 255 (byte_at 2 ds + 28)) (min 255 (byte_at 4 ds + 28)))
          else st
      | _ \<Rightarrow> st)"
  using lighten_digits [where a = 28]
  by (auto simp: applyPlatformAccent_def ACCENT_iff applyAccentVars_def setProperty_def split: sum.splits option.splits list.splits)

text \<open>
  C36. Whatever material the user chose, the terminal is drawn on the solid base colour, and every
  translucent colour of the window has channels in a byte and an alpha between 0.74 and 1: the
  stored opacity is read as a percentage between 85 and 100.
\<close>

theorem terminal_stays_opaque:
  "th_background (themeFromAppTokens (computed sheet (applyMaterialCss num (getMaterialPref s) (getChromeOpacity s) st))) = js ''#0d0d0d''
   \<and> list_all (\<lambda>(name, value). visible_color value) (material_properties (getMaterialPref s) (getChromeOpacity s))"
  using material_visible [OF getChromeOpacity_range] by (simp add: theme_background computed_def material_terminal_bg)

end
