(* ===== verification/Home.thy ===== *)
theory Home
  imports JsSort Projects Appearance
begin

text \<open>
  The home screen (src/apps/ui/src/components/Launcher.tsx): the grid of hosts with its tag filter,
  its search box and its two arrangements, the groups (one per tag), the list of projects, the tiles
  and their keyboard, and the dialog that creates a group, with the handler of App.tsx that writes
  the tags through the backend.

  What the code takes from the platform is a parameter: \<^verbatim>\<open>localeCompare\<close>, \<^verbatim>\<open>toLowerCase\<close>,
  \<^verbatim>\<open>toUpperCase\<close> and \<^verbatim>\<open>Date.parse\<close> (\<open>None\<close> is \<^verbatim>\<open>NaN\<close>).
\<close>

record host_summary = host +
  hs_tags :: "jsstr list"
  hs_authKind :: jsstr

record home_env =
  he_localeCompare :: "jsstr \<Rightarrow> jsstr \<Rightarrow> int"
  he_toLowerCase :: "jsstr \<Rightarrow> jsstr"
  he_toUpperCase :: "jsstr \<Rightarrow> jsstr"
  he_parse :: "jsstr \<Rightarrow> int option"

datatype sort_mode = RecentMode | NameMode

section \<open>Tags, groups and running agents\<close>

definition allTags :: "home_env \<Rightarrow> host_summary list \<Rightarrow> jsstr list" where
  "allTags E hosts = js_sort (he_localeCompare E) (set_of (concat (map hs_tags hosts)))"

definition groups :: "home_env \<Rightarrow> host_summary list \<Rightarrow> (jsstr \<times> nat \<times> jsstr \<times> jsstr) list" where
  "groups E hosts =
     map (\<lambda>tag. (tag, length (filter (\<lambda>h. tag \<in> set (hs_tags h)) hosts), tagGroupColors tag)) (allTags E hosts)"

definition runningByHost :: "running_session list \<Rightarrow> jsstr \<Rightarrow> nat option" where
  "runningByHost sessions =
     foldl (\<lambda>m s. m(r_hostId s \<mapsto> (case m (r_hostId s) of Some n \<Rightarrow> n | None \<Rightarrow> 0) + 1)) Map.empty sessions"

section \<open>The grid of hosts\<close>

definition matches_quick :: "home_env \<Rightarrow> jsstr \<Rightarrow> host_summary \<Rightarrow> bool" where
  "matches_quick E quick h =
     (let q = he_toLowerCase E (trim quick) in
      if q \<noteq> [] \<and> \<not> includes_str q (js ''@'') then
        includes_str (he_toLowerCase E (h_label h)) q \<or> includes_str (he_toLowerCase E (h_hostname h)) q
        \<or> includes_str (he_toLowerCase E (h_username h)) q
        \<or> list_ex (\<lambda>t. includes_str (he_toLowerCase E t) q) (hs_tags h)
      else True)"

definition host_rank :: "jsstr set \<Rightarrow> (jsstr \<Rightarrow> nat option) \<Rightarrow> jsstr \<Rightarrow> int" where
  "host_rank openIds running i = (if i \<in> openIds then 0 else if running i \<noteq> None then 1 else 2)"

definition connectedAt :: "home_env \<Rightarrow> host_summary \<Rightarrow> int" where
  "connectedAt E h =
     (case nonempty (h_lastConnectedAt h) of None \<Rightarrow> 0
      | Some d \<Rightarrow> (case he_parse E d of Some ms \<Rightarrow> ms | None \<Rightarrow> 0))"

definition compare_hosts :: "home_env \<Rightarrow> sort_mode \<Rightarrow> jsstr set \<Rightarrow> (jsstr \<Rightarrow> nat option) \<Rightarrow> host_summary \<Rightarrow> host_summary \<Rightarrow> int" where
  "compare_hosts E mode openIds running a b =
     (if mode = NameMode then he_localeCompare E (h_label a) (h_label b)
      else or_cmp (host_rank openIds running (h_id a) - host_rank openIds running (h_id b))
             (or_cmp (connectedAt E b - connectedAt E a) (he_localeCompare E (h_label a) (h_label b))))"

definition filteredHosts ::
  "home_env \<Rightarrow> sort_mode \<Rightarrow> jsstr list \<Rightarrow> jsstr \<Rightarrow> jsstr set \<Rightarrow> (jsstr \<Rightarrow> nat option) \<Rightarrow> host_summary list \<Rightarrow> host_summary list" where
  "filteredHosts E mode activeTags quick openIds running hosts =
     (let tagged = (if activeTags \<noteq> [] then filter (\<lambda>h. list_all (\<lambda>t. t \<in> set (hs_tags h)) activeTags) hosts else hosts)
      in js_sort (compare_hosts E mode openIds running) (filter (matches_quick E quick) tagged))"

section \<open>Projects\<close>

text \<open>The time a project was opened; \<^verbatim>\<open>Date.parse\<close> is not guarded here.\<close>

definition project_time :: "home_env \<Rightarrow> project \<Rightarrow> int option" where
  "project_time E p = (case nonempty (p_lastOpened p) of Some d \<Rightarrow> he_parse E d | None \<Rightarrow> Some 0)"

definition compare_projects :: "home_env \<Rightarrow> project \<Rightarrow> project \<Rightarrow> int" where
  "compare_projects E a b =
     (case (project_time E a, project_time E b) of
        (Some aT, Some bT) \<Rightarrow> or_cmp (bT - aT) (he_localeCompare E (p_name a) (p_name b))
      | _ \<Rightarrow> he_localeCompare E (p_name a) (p_name b))"

definition sortedProjects :: "home_env \<Rightarrow> project list \<Rightarrow> project list" where
  "sortedProjects E projects = js_sort (compare_projects E) projects"

definition projectSubtitle :: "project \<Rightarrow> host_summary list \<Rightarrow> jsstr" where
  "projectSubtitle p hosts =
     (case p_location p of
        LocalPath path \<Rightarrow> path
      | RemotePath hid path \<Rightarrow>
          (case find_row h_id hid hosts of Some h \<Rightarrow> h_label h | None \<Rightarrow> js ''host'') @ js '' '' @ [183] @ js '' '' @ path)"

section \<open>State of the screen\<close>

datatype home_request = ConnectHost host_summary bool | QuickConnect jsstr | ShowFiles host_summary
  | EditHost host_summary | DeleteHost host_summary | OpenProjectTile project | CreateGroup jsstr "jsstr list"

record home =
  hm_quick :: jsstr
  hm_activeTags :: "jsstr list"
  hm_groupDialogOpen :: bool
  hm_sortMode :: sort_mode
  hm_sortMenuOpen :: bool
  hm_requests :: "home_request list"

definition home_init :: home where
  "home_init = \<lparr>hm_quick = [], hm_activeTags = [], hm_groupDialogOpen = False, hm_sortMode = RecentMode,
                hm_sortMenuOpen = False, hm_requests = []\<rparr>"

definition call_home :: "home_request \<Rightarrow> home \<Rightarrow> home" where
  "call_home r st = st\<lparr>hm_requests := hm_requests st @ [r]\<rparr>"

definition grid :: "home_env \<Rightarrow> jsstr set \<Rightarrow> running_session list \<Rightarrow> host_summary list \<Rightarrow> home \<Rightarrow> host_summary list" where
  "grid E openIds sessions hosts st =
     filteredHosts E (hm_sortMode st) (hm_activeTags st) (hm_quick st) openIds (runningByHost sessions) hosts"

definition submitQuick :: "home_env \<Rightarrow> jsstr set \<Rightarrow> running_session list \<Rightarrow> host_summary list \<Rightarrow> home \<Rightarrow> home" where
  "submitQuick E openIds sessions hosts st =
     (let target = trim (hm_quick st) in
      if target = [] then st
      else if \<not> includes_str target (js ''@'') \<and> length (grid E openIds sessions hosts st) = 1 then
        (call_home (ConnectHost (hd (grid E openIds sessions hosts st)) False) st)\<lparr>hm_quick := []\<rparr>
      else (call_home (QuickConnect target) st)\<lparr>hm_quick := []\<rparr>)"

definition toggleTag :: "jsstr \<Rightarrow> home \<Rightarrow> home" where
  "toggleTag tag st =
     st\<lparr>hm_activeTags := (if tag \<in> set (hm_activeTags st) then filter (\<lambda>t. t \<noteq> tag) (hm_activeTags st)
                         else hm_activeTags st @ [tag])\<rparr>"

definition showAll :: "home \<Rightarrow> home" where
  "showAll st = st\<lparr>hm_activeTags := []\<rparr>"

definition arrange_by :: "sort_mode \<Rightarrow> home \<Rightarrow> home" where
  "arrange_by mode st = st\<lparr>hm_sortMode := mode, hm_sortMenuOpen := False\<rparr>"

text \<open>The listeners of an open menu: a press outside of it and Escape close it.\<close>

definition sort_menu_down :: "bool \<Rightarrow> home \<Rightarrow> home" where
  "sort_menu_down inside st = (if hm_sortMenuOpen st \<and> \<not> inside then st\<lparr>hm_sortMenuOpen := False\<rparr> else st)"

definition sort_menu_key :: "jsstr \<Rightarrow> home \<Rightarrow> home" where
  "sort_menu_key key st = (if hm_sortMenuOpen st \<and> key = js ''Escape'' then st\<lparr>hm_sortMenuOpen := False\<rparr> else st)"

section \<open>Tiles\<close>

definition authChip :: "home_env \<Rightarrow> host_summary \<Rightarrow> jsstr option" where
  "authChip E h =
     (if hs_authKind h = js ''sshKey'' then Some (js ''key'')
      else if list_ex (\<lambda>t. he_toLowerCase E t = js ''rdp'') (hs_tags h) then Some (js ''rdp'')
      else None)"

definition tile_letter :: "home_env \<Rightarrow> host_summary \<Rightarrow> jsstr" where
  "tile_letter E h = (let c = he_toUpperCase E (take 1 (trim (h_label h))) in if c \<noteq> [] then c else js ''?'')"

definition tile_address :: "host_summary \<Rightarrow> jsstr" where
  "tile_address h = h_username h @ js ''@'' @ h_hostname h
     @ (if h_port h \<noteq> 22 then js '':'' @ (if h_port h < 0 then js ''-'' else []) @ show_nat (nat \<bar>h_port h\<bar>) else [])"

definition tile_badge :: "home_env \<Rightarrow> (jsstr \<Rightarrow> nat option) \<Rightarrow> host_summary \<Rightarrow> jsstr option" where
  "tile_badge E running h =
     (if 0 < (case running (h_id h) of Some n \<Rightarrow> n | None \<Rightarrow> 0) then Some (js ''agent up'') else authChip E h)"

text \<open>
  A tile is a \<^verbatim>\<open>div\<close> with the role of a button; the buttons Files, Edit and Delete are inside of it.
  An event is dispatched at its target and bubbles to the tile. A button handles a click and stops
  it; it has no handler for keys, so a key pressed on it reaches the handler of the tile, and
  \<^verbatim>\<open>preventDefault\<close> there suppresses the click by which the browser activates a focused button.
\<close>

datatype tile_part = TileBody | FilesButton | EditButton | DeleteButton

record tile_flags =
  tf_connecting :: bool
  tf_openingFiles :: bool
  tf_mod :: bool  \<comment> \<open>Meta or Ctrl is held\<close>

definition tile_click :: "host_summary \<Rightarrow> tile_flags \<Rightarrow> tile_part \<Rightarrow> home_request list" where
  "tile_click h fl part =
     (case part of
        TileBody \<Rightarrow> if tf_connecting fl then [] else [ConnectHost h (tf_mod fl)]
      | FilesButton \<Rightarrow> if tf_openingFiles fl then [] else [ShowFiles h]
      | EditButton \<Rightarrow> [EditHost h]
      | DeleteButton \<Rightarrow> [DeleteHost h])"

definition tile_keydown :: "host_summary \<Rightarrow> tile_flags \<Rightarrow> jsstr \<Rightarrow> home_request list \<times> bool" where
  "tile_keydown h fl key =
     (if key = js ''Enter'' \<or> key = js '' '' then (if tf_connecting fl then [] else [ConnectHost h (tf_mod fl)], True)
      else ([], False))"

definition tile_key :: "host_summary \<Rightarrow> tile_flags \<Rightarrow> tile_part \<Rightarrow> jsstr \<Rightarrow> home_request list" where
  "tile_key h fl part key =
     (let (rs, prevented) = tile_keydown h fl key in
      rs @ (if \<not> prevented \<and> part \<noteq> TileBody \<and> (key = js ''Enter'' \<or> key = js '' '') then tile_click h fl part else []))"

section \<open>Ages\<close>

text \<open>\<^verbatim>\<open>Math.round(a / b)\<close> for integers\<close>

definition round_div :: "int \<Rightarrow> int \<Rightarrow> int" where
  "round_div a b = (2 * a + b) div (2 * b)"

definition formatAge :: "home_env \<Rightarrow> int \<Rightarrow> jsstr \<Rightarrow> jsstr" where
  "formatAge E now stamp =
     (case he_parse E stamp of None \<Rightarrow> [8212]
      | Some t \<Rightarrow>
          let seconds = max 0 (round_div (now - t) 1000) in
          if seconds < 60 then show_nat (nat seconds) @ js ''s''
          else
            let minutes = round_div seconds 60 in
            if minutes < 60 then show_nat (nat minutes) @ js ''m''
            else
              let hours = round_div minutes 60 in
              if hours < 48 then show_nat (nat hours) @ js ''h''
              else show_nat (nat (round_div hours 24)) @ js ''d'')"

section \<open>Creating a group\<close>

record group_dialog =
  gd_name :: jsstr
  gd_selected :: "jsstr list"

definition group_dialog_opened :: "group_dialog \<Rightarrow> group_dialog" where
  "group_dialog_opened d = d\<lparr>gd_name := [], gd_selected := []\<rparr>"

definition toggleHost :: "jsstr \<Rightarrow> group_dialog \<Rightarrow> group_dialog" where
  "toggleHost i d = d\<lparr>gd_selected := set_toggle i (gd_selected d)\<rparr>"

definition duplicate_group :: "jsstr list \<Rightarrow> group_dialog \<Rightarrow> bool" where
  "duplicate_group existing d \<longleftrightarrow> trim (gd_name d) \<in> set existing"

definition canCreate :: "jsstr list \<Rightarrow> group_dialog \<Rightarrow> bool" where
  "canCreate existing d \<longleftrightarrow> trim (gd_name d) \<noteq> [] \<and> \<not> duplicate_group existing d \<and> gd_selected d \<noteq> []"

text \<open>The button is disabled while the group cannot be created.\<close>

definition press_create :: "jsstr list \<Rightarrow> group_dialog \<Rightarrow> home \<Rightarrow> home" where
  "press_create existing d st =
     (if canCreate existing d then (call_home (CreateGroup (trim (gd_name d)) (gd_selected d)) st)\<lparr>hm_groupDialogOpen := False\<rparr>
      else st)"

text \<open>
  \<^verbatim>\<open>onCreateGroup\<close> in App.tsx: one call of \<^verbatim>\<open>setHostTags\<close> after the other for the hosts that do not
  have the tag, in the list of hosts of the render; the first failure ends the loop.
\<close>

fun tag_hosts :: "(jsstr \<Rightarrow> jsstr list \<Rightarrow> 'b \<Rightarrow> (jsstr + 'h) \<times> 'b) \<Rightarrow> 'a host_summary_scheme list \<Rightarrow> jsstr \<Rightarrow> jsstr list \<Rightarrow> 'b \<Rightarrow> jsstr option \<times> 'b" where
  "tag_hosts setHostTags hosts name [] b = (None, b)"
| "tag_hosts setHostTags hosts name (i # ids) b =
     (case find_row h_id i hosts of
        None \<Rightarrow> tag_hosts setHostTags hosts name ids b
      | Some h \<Rightarrow>
          if name \<in> set (hs_tags h) then tag_hosts setHostTags hosts name ids b
          else case setHostTags i (hs_tags h @ [name]) b of
            (Inl e, b') \<Rightarrow> (Some e, b')
          | (Inr _, b') \<Rightarrow> tag_hosts setHostTags hosts name ids b')"

text \<open>The hosts shown and the error afterwards: the list is read again only when every call succeeded.\<close>

definition createGroup ::
  "(jsstr \<Rightarrow> jsstr list \<Rightarrow> 'b \<Rightarrow> (jsstr + 'h) \<times> 'b) \<Rightarrow> ('b \<Rightarrow> jsstr + 'a host_summary_scheme list)
   \<Rightarrow> 'a host_summary_scheme list \<Rightarrow> jsstr \<Rightarrow> jsstr list \<Rightarrow> 'b \<Rightarrow> ('a host_summary_scheme list \<times> jsstr option) \<times> 'b" where
  "createGroup setHostTags listHosts hosts name ids b =
     (case tag_hosts setHostTags hosts name ids b of
        (Some e, b') \<Rightarrow> ((hosts, Some e), b')
      | (None, b') \<Rightarrow>
          (case listHosts b' of
             Inl e \<Rightarrow> ((hosts, Some e), b')
           | Inr hs \<Rightarrow> ((hs, None), b')))"

section \<open>Interface: a store of host tags\<close>

text \<open>
  What the program relies on of \<^verbatim>\<open>setHostTags\<close>: a call that succeeds with a tidy list (trimmed, no
  empty tag, no tag twice) stores that list for the host and leaves the other hosts alone; a call
  that fails changes nothing. \<open>tags_of\<close> is what a list of the hosts would show.
\<close>

definition tidy :: "jsstr list \<Rightarrow> bool" where
  "tidy ts \<longleftrightarrow> distinct ts \<and> list_all (\<lambda>t. t \<noteq> [] \<and> trim t = t) ts"

locale host_store =
  fixes setHostTags :: "jsstr \<Rightarrow> jsstr list \<Rightarrow> 'b \<Rightarrow> (jsstr + 'h) \<times> 'b"
    and tags_of :: "'b \<Rightarrow> jsstr \<Rightarrow> jsstr list option"
  assumes stored: "setHostTags i ts b = (Inr h, b') \<Longrightarrow> tidy ts \<Longrightarrow> tags_of b' = (tags_of b)(i \<mapsto> ts)"
    and refused: "setHostTags i ts b = (Inl e, b') \<Longrightarrow> tags_of b' = tags_of b"
begin

text \<open>The hosts of the render agree with the store, apart from those already handled.\<close>

definition in_step :: "'a host_summary_scheme list \<Rightarrow> jsstr list \<Rightarrow> 'b \<Rightarrow> bool" where
  "in_step hosts ids b \<longleftrightarrow> (\<forall>i \<in> set ids. \<forall>h. find_row h_id i hosts = Some h \<longrightarrow> tags_of b i = Some (hs_tags h) \<and> tidy (hs_tags h))"

definition with_tag :: "'a host_summary_scheme list \<Rightarrow> jsstr \<Rightarrow> jsstr list \<Rightarrow> 'b \<Rightarrow> jsstr \<Rightarrow> jsstr list option" where
  "with_tag hosts name ids b i =
     (if i \<in> set ids then
        (case find_row h_id i hosts of None \<Rightarrow> tags_of b i
         | Some h \<Rightarrow> Some (if name \<in> set (hs_tags h) then hs_tags h else hs_tags h @ [name]))
      else tags_of b i)"

lemma tidy_snoc: "tidy ts \<Longrightarrow> name \<notin> set ts \<Longrightarrow> name \<noteq> [] \<Longrightarrow> trim name = name \<Longrightarrow> tidy (ts @ [name])"
  by (simp add: tidy_def)

lemma with_tag_Cons:
  assumes "i \<notin> set ids" "tags_of b1 = (tags_of b)(i := with_tag hosts name [i] b i)"
  shows "with_tag hosts name ids b1 = with_tag hosts name (i # ids) b"
proof
  fix j
  show "with_tag hosts name ids b1 j = with_tag hosts name (i # ids) b j"
    using assms by (cases "find_row h_id j hosts") (auto simp: with_tag_def)
qed

lemma tag_hosts_ok:
  assumes "name \<noteq> []" "trim name = name"
  shows "distinct ids \<Longrightarrow> in_step hosts ids b \<Longrightarrow> tag_hosts setHostTags hosts name ids b = (None, b')
    \<Longrightarrow> tags_of b' = with_tag hosts name ids b"
proof (induction ids arbitrary: b)
  case Nil
  then show ?case by (auto simp: with_tag_def)
next
  case (Cons i ids)
  have later: "in_step hosts ids b" using Cons.prems(2) by (simp add: in_step_def)
  show ?case
  proof (cases "find_row h_id i hosts")
    case None
    then show ?thesis using Cons.IH [OF _ later] Cons.prems by (auto simp: with_tag_def)
  next
    case (Some h)
    have h: "tags_of b i = Some (hs_tags h)" "tidy (hs_tags h)" using Cons.prems(2) Some by (auto simp: in_step_def)
    show ?thesis
    proof (cases "name \<in> set (hs_tags h)")
      case True
      then show ?thesis using Cons.IH [OF _ later] Cons.prems Some h by (auto simp: with_tag_def)
    next
      case False
      obtain r b1 where call: "setHostTags i (hs_tags h @ [name]) b = (Inr r, b1)"
        using Cons.prems(3) Some False by (auto split: prod.splits sum.splits)
      have b1: "tags_of b1 = (tags_of b)(i \<mapsto> hs_tags h @ [name])"
        using stored [OF call] tidy_snoc [OF h(2) False assms] by blast
      moreover from this have "in_step hosts ids b1" using later Cons.prems(1) by (auto simp: in_step_def)
      ultimately have "tags_of b' = with_tag hosts name ids b1"
        using Cons.IH [of b1] Cons.prems Some False call by simp
      moreover have "tags_of b1 = (tags_of b)(i := with_tag hosts name [i] b i)" using b1 Some False by (simp add: with_tag_def)
      ultimately show ?thesis using with_tag_Cons [of i ids b1 b hosts name] Cons.prems(1) by simp
    qed
  qed
qed

text \<open>A failure in the middle leaves the hosts before it tagged and the others as they were.\<close>

lemma tag_hosts_failed:
  assumes "name \<noteq> []" "trim name = name"
  shows "distinct ids \<Longrightarrow> in_step hosts ids b \<Longrightarrow> tag_hosts setHostTags hosts name ids b = (Some e, b')
    \<Longrightarrow> \<exists>done i left. ids = done @ i # left \<and> tags_of b' = with_tag hosts name done b"
proof (induction ids arbitrary: b)
  case (Cons i ids)
  have later: "in_step hosts ids b" using Cons.prems(2) by (simp add: in_step_def)
  have extend: "\<exists>done j left. i # ids = done @ j # left \<and> tags_of b' = with_tag hosts name done b"
    if "\<exists>done j left. ids = done @ j # left \<and> tags_of b' = with_tag hosts name done b1"
      "tags_of b1 = (tags_of b)(i := with_tag hosts name [i] b i)" for b1
  proof -
    from that(1) obtain dn j left where d: "ids = dn @ j # left" "tags_of b' = with_tag hosts name dn b1" by blast
    then have "tags_of b' = with_tag hosts name (i # dn) b"
      using with_tag_Cons [OF _ that(2)] Cons.prems(1) by simp
    then show ?thesis using d(1) by (metis append_Cons)
  qed
  show ?case
  proof (cases "find_row h_id i hosts")
    case None
    then have "tags_of b = (tags_of b)(i := with_tag hosts name [i] b i)" by (simp add: with_tag_def)
    with None show ?thesis using Cons.prems by (intro extend [of b] Cons.IH [OF _ later]) simp_all
  next
    case (Some h)
    have h: "tags_of b i = Some (hs_tags h)" "tidy (hs_tags h)" using Cons.prems(2) Some by (auto simp: in_step_def)
    show ?thesis
    proof (cases "name \<in> set (hs_tags h)")
      case True
      with Some h have "tags_of b = (tags_of b)(i := with_tag hosts name [i] b i)" by (simp add: with_tag_def fun_upd_idem)
      with Some True show ?thesis using Cons.prems by (intro extend [of b] Cons.IH [OF _ later]) simp_all
    next
      case False
      show ?thesis
      proof (cases "fst (setHostTags i (hs_tags h @ [name]) b)")
        case (Inl e')
        then have "setHostTags i (hs_tags h @ [name]) b = (Inl e, b')"
          using Cons.prems(3) Some False by (auto split: prod.splits sum.splits)
        then have "tags_of b' = with_tag hosts name [] b" using refused by (auto simp: with_tag_def)
        then show ?thesis by (metis append_Nil)
      next
        case (Inr r)
        then obtain b1 where call: "setHostTags i (hs_tags h @ [name]) b = (Inr r, b1)"
          by (metis prod.collapse)
        have b1: "tags_of b1 = (tags_of b)(i \<mapsto> hs_tags h @ [name])"
          using stored [OF call] tidy_snoc [OF h(2) False assms] by blast
        then have "in_step hosts ids b1" using later Cons.prems(1) by (auto simp: in_step_def)
        with b1 Some False call show ?thesis
          using Cons.prems by (intro extend [of b1] Cons.IH [of b1]) (simp_all add: with_tag_def)
      qed
    qed
  qed
qed simp

end

section \<open>Facts about the grid\<close>

lemma comparison_hosts: "comparison (he_localeCompare E) \<Longrightarrow> comparison (compare_hosts E mode openIds running)"
proof (cases mode)
  case NameMode
  assume "comparison (he_localeCompare E)"
  then show ?thesis using comparison_on [of "he_localeCompare E" h_label] NameMode by (simp add: compare_hosts_def [abs_def])
next
  case RecentMode
  assume lc: "comparison (he_localeCompare E)"
  have "comparison (\<lambda>a b. or_cmp (host_rank openIds running (h_id a) - host_rank openIds running (h_id b))
          (or_cmp (connectedAt E b - connectedAt E a) (he_localeCompare E (h_label a) (h_label b))))"
    by (intro comparison_or comparison_key comparison_flip [OF comparison_key] comparison_on [OF lc])
  then show ?thesis by (simp add: compare_hosts_def [abs_def] RecentMode)
qed

lemma filtered_mset:
  "mset (filteredHosts E mode tags quick openIds running hosts)
   = mset (filter (\<lambda>h. set tags \<subseteq> set (hs_tags h) \<and> matches_quick E quick h) hosts)"
proof -
  have "filter (matches_quick E quick) (if tags \<noteq> [] then filter (\<lambda>h. list_all (\<lambda>t. t \<in> set (hs_tags h)) tags) hosts else hosts)
      = filter (\<lambda>h. set tags \<subseteq> set (hs_tags h) \<and> matches_quick E quick h) hosts"
    by (cases "tags = []") (auto simp: list_all_iff subset_eq conj_commute)
  then show ?thesis unfolding filteredHosts_def Let_def mset_js_sort by simp
qed

definition before_in_grid :: "home_env \<Rightarrow> jsstr set \<Rightarrow> (jsstr \<Rightarrow> nat option) \<Rightarrow> host_summary \<Rightarrow> host_summary \<Rightarrow> bool" where
  "before_in_grid E openIds running a b \<longleftrightarrow>
     host_rank openIds running (h_id a) < host_rank openIds running (h_id b)
     \<or> host_rank openIds running (h_id a) = host_rank openIds running (h_id b)
       \<and> (connectedAt E b < connectedAt E a
          \<or> connectedAt E a = connectedAt E b \<and> he_localeCompare E (h_label a) (h_label b) \<le> 0)"

lemma compare_hosts_le:
  "compare_hosts E RecentMode openIds running a b \<le> 0 \<longleftrightarrow> before_in_grid E openIds running a b"
  by (auto simp: compare_hosts_def or_cmp_def before_in_grid_def)

lemma running_count:
  "(case foldl (\<lambda>m s. m(r_hostId s \<mapsto> (case m (r_hostId s) of Some n \<Rightarrow> n | None \<Rightarrow> 0) + 1)) m sessions i of Some n \<Rightarrow> n | None \<Rightarrow> (0::nat))
   = (case m i of Some n \<Rightarrow> n | None \<Rightarrow> 0) + length (filter (\<lambda>s. r_hostId s = i) sessions)"
  by (induction sessions arbitrary: m) (auto split: option.splits)

lemma runningByHost_count:
  "(case runningByHost sessions i of Some n \<Rightarrow> n | None \<Rightarrow> 0) = length (filter (\<lambda>s. r_hostId s = i) sessions)"
  using running_count [of Map.empty] by (simp add: runningByHost_def)

lemma allTags_tags: "set (allTags E hosts) = (\<Union>h \<in> set hosts. set (hs_tags h))" and allTags_distinct: "distinct (allTags E hosts)"
proof -
  show "set (allTags E hosts) = (\<Union>h \<in> set hosts. set (hs_tags h))" by (simp add: allTags_def)
  show "distinct (allTags E hosts)"
    unfolding allTags_def by (metis distinct_set_of mset_eq_imp_distinct_iff mset_js_sort)
qed

lemma filtered_order:
  assumes "comparison (he_localeCompare E)"
  shows "sorted_wrt (\<lambda>a b. compare_hosts E mode openIds running a b \<le> 0) (filteredHosts E mode tags quick openIds running hosts)"
  unfolding filteredHosts_def Let_def by (rule comparison.sorted_js_sort [OF comparison_hosts [OF assms]])

lemma mset_singleton: "mset xs = mset [x] \<Longrightarrow> xs = [x]"
  by simp

lemma grid_single:
  assumes "grid E openIds sessions hosts st = [h]"
  shows "filter (\<lambda>h. set (hm_activeTags st) \<subseteq> set (hs_tags h) \<and> matches_quick E (hm_quick st) h) hosts = [h]"
proof -
  have "mset (filter (\<lambda>h. set (hm_activeTags st) \<subseteq> set (hs_tags h) \<and> matches_quick E (hm_quick st) h) hosts) = mset [h]"
    using assms filtered_mset unfolding grid_def by metis
  then show ?thesis by (rule mset_singleton)
qed

text \<open>Enter connects to the one host that the text and the tags single out.\<close>

lemma enter_connects_only_match:
  assumes "hm_requests (submitQuick E openIds sessions hosts st) = hm_requests st @ [ConnectHost h forced]"
  shows "filter (\<lambda>h. set (hm_activeTags st) \<subseteq> set (hs_tags h) \<and> matches_quick E (hm_quick st) h) hosts = [h] \<and> \<not> forced"
proof -
  define g where "g = grid E openIds sessions hosts st"
  have "length g = 1 \<and> h = hd g \<and> \<not> forced"
    using assms unfolding submitQuick_def Let_def g_def [symmetric] by (simp add: call_home_def split: if_splits)
  then have "g = [h]" "\<not> forced" by (cases g; simp)+
  then show ?thesis using grid_single unfolding g_def by blast
qed

text \<open>A tag toggled twice is as before, and toggling keeps the active tags distinct.\<close>

lemma toggleTag_twice: "tag \<notin> set (hm_activeTags st) \<Longrightarrow> toggleTag tag (toggleTag tag st) = st"
proof -
  assume "tag \<notin> set (hm_activeTags st)"
  then have "filter (\<lambda>t. t \<noteq> tag) (hm_activeTags st) = hm_activeTags st" by (auto intro: filter_True)
  then show ?thesis by (simp add: toggleTag_def)
qed

text \<open>
  A key pressed on a button inside a tile opens the host: the handler of the tile takes Enter and the
  space bar first, and the button is never activated.
\<close>

lemma tile_takes_the_keys:
  "key = js ''Enter'' \<or> key = js '' '' \<Longrightarrow> tile_key h fl part key = (if tf_connecting fl then [] else [ConnectHost h (tf_mod fl)])"
  by (auto simp: tile_key_def tile_keydown_def)

text \<open>Projects with readable dates are listed the most recent first; one unreadable date loses the order.\<close>

lemma projects_sorted:
  assumes "comparison (he_localeCompare E)" "\<And>p. project_time E p \<noteq> None"
  shows "sorted_wrt (\<lambda>a b. the (project_time E b) \<le> the (project_time E a)) (sortedProjects E projects)"
proof -
  have eq: "compare_projects E = (\<lambda>a b. or_cmp (the (project_time E b) - the (project_time E a)) (he_localeCompare E (p_name a) (p_name b)))"
  proof (intro ext)
    fix a b
    obtain s t where "project_time E a = Some s" "project_time E b = Some t" using assms(2) by blast
    then show "compare_projects E a b = or_cmp (the (project_time E b) - the (project_time E a)) (he_localeCompare E (p_name a) (p_name b))"
      by (simp add: compare_projects_def)
  qed
  have "comparison (compare_projects E)"
    unfolding eq by (intro comparison_or comparison_flip [OF comparison_key] comparison_on [OF assms(1)])
  from comparison.sorted_js_sort [OF this, of projects] show ?thesis
    unfolding sortedProjects_def by (rule sorted_wrt_mono_rel [rotated]) (auto simp: eq or_cmp_def split: if_splits)
qed

definition dated :: "string \<Rightarrow> string \<Rightarrow> project" where
  "dated name date = \<lparr>p_id = js name, p_name = js name, p_location = LocalPath (js ''/''), p_defaultAgent = None,
                      p_assistKeyId = None, p_lastOpened = Some (js date)\<rparr>"

definition digit_env :: home_env where
  "digit_env = \<lparr>he_localeCompare = unit_compare, he_toLowerCase = (\<lambda>s. s), he_toUpperCase = (\<lambda>s. s),
                he_parse = (\<lambda>s. if s \<noteq> [] \<and> list_all is_digit s then Some (int (read_nat s)) else None)\<rparr>"

lemmas digit_eval = dated_def digit_env_def js_eval is_digit_def read_nat_def

lemma unreadable_date_loses_order:
  "map p_name (sortedProjects digit_env [dated ''a'' ''1'', dated ''b'' ''?'', dated ''c'' ''2'']) = [js ''a'', js ''b'', js ''c'']"
  by (simp add: sortedProjects_def js_sort_simps compare_projects_def project_time_def nonempty_def or_cmp_def digit_eval)

section \<open>Properties\<close>

text \<open>
  C32. The grid of hosts shows each host of the vault that has every active tag and matches the text
  in the search box, as often as it is listed, and no other; arranged by name it is in the order of
  the locale, arranged by recency hosts with an open tab come first, then hosts with a running
  agent, then the rest, each of the three by the time of the last connection, the latest first, and
  by name where the times agree.
\<close>

theorem home_grid:
  assumes "comparison (he_localeCompare E)"
  shows "mset (grid E openIds sessions hosts st)
           = mset (filter (\<lambda>h. set (hm_activeTags st) \<subseteq> set (hs_tags h) \<and> matches_quick E (hm_quick st) h) hosts)
    \<and> (hm_sortMode st = NameMode \<longrightarrow>
         sorted_wrt (\<lambda>a b. he_localeCompare E (h_label a) (h_label b) \<le> 0) (grid E openIds sessions hosts st))
    \<and> (hm_sortMode st = RecentMode \<longrightarrow>
         sorted_wrt (before_in_grid E openIds (runningByHost sessions)) (grid E openIds sessions hosts st))"
proof (intro conjI impI)
  show "mset (grid E openIds sessions hosts st)
      = mset (filter (\<lambda>h. set (hm_activeTags st) \<subseteq> set (hs_tags h) \<and> matches_quick E (hm_quick st) h) hosts)"
    unfolding grid_def by (rule filtered_mset)
  show "sorted_wrt (\<lambda>a b. he_localeCompare E (h_label a) (h_label b) \<le> 0) (grid E openIds sessions hosts st)" if "hm_sortMode st = NameMode"
    using filtered_order [OF assms, of NameMode] that by (simp add: grid_def compare_hosts_def)
  show "sorted_wrt (before_in_grid E openIds (runningByHost sessions)) (grid E openIds sessions hosts st)" if "hm_sortMode st = RecentMode"
    using filtered_order [OF assms, of RecentMode] that by (simp add: grid_def compare_hosts_le)
qed

definition named_host :: "string \<Rightarrow> string list \<Rightarrow> host_summary" where
  "named_host name tags = \<lparr>h_id = js name, h_label = js name, h_hostname = js name, h_port = 22, h_username = js ''root'', h_color = None,
     h_lastConnectedAt = None, hs_tags = map js tags, hs_authKind = js ''none''\<rparr>"

theorem home_grid_witness:
  "mset (grid digit_env {} [] [named_host ''b'' [''prod''], named_host ''a'' [''prod''], named_host ''c'' []]
      (toggleTag (js ''prod'') home_init)) = mset [named_host ''a'' [''prod''], named_host ''b'' [''prod'']]"
proof -
  have "comparison (he_localeCompare digit_env)" by (simp add: digit_env_def code_units.comparison_axioms)
  from home_grid [OF this, of "{}" "[]" "[named_host ''b'' [''prod''], named_host ''a'' [''prod''], named_host ''c'' []]" "toggleTag (js ''prod'') home_init"]
  show ?thesis by (simp add: toggleTag_def home_init_def named_host_def matches_quick_def digit_env_def js_def)
qed

end
