(* ===== verification/MockVault.thy ===== *)
theory MockVault
  imports Home SessionEvents
begin

text \<open>
  The in-memory backend of the browser build (src/apps/ui/src/lib/ipc.mock.ts): the vault, its hosts,
  identities, projects, running sessions and API keys, and the synchronisation status. Every function
  of the module that changes the state is a function on the record \<open>mock\<close>; a rejected promise is an
  error value. The module hands out copies of its rows, so that a row read earlier does not change.

  The collections share one contract, stated as the interface \<open>keyed_store\<close>.
\<close>

section \<open>State\<close>

record vault_status =
  vs_exists :: bool
  vs_unlocked :: bool
  vs_recoveryAvailable :: bool

record tunnel_def =
  td_id :: jsstr
  td_label :: jsstr
  td_direction :: jsstr
  td_bindPort :: int
  td_targetHost :: jsstr
  td_targetPort :: int
  td_autoStart :: bool
  td_allowLan :: bool

record mock_host = host_summary +
  mh_hasPassword :: bool
  mh_identityId :: "jsstr option"
  mh_syncSecret :: bool
  mh_shellIntegration :: bool
  mh_tunnels :: "tunnel_def list"
  mh_forwardAgent :: bool
  mh_useDefaultKeys :: bool

record identity =
  id_id :: jsstr
  id_label :: jsstr
  id_kind :: jsstr
  id_fingerprint :: "jsstr option"
  id_usageCount :: nat
  id_createdAt :: "jsstr option"
  id_syncSecret :: bool

record mock_session = running_session +
  ms_hostLabel :: jsstr
  ms_agentId :: "jsstr option"
  ms_startedAt :: jsstr
  ms_lastAttachedAt :: jsstr
  ms_startedOnDevice :: jsstr

record api_key =
  ak_id :: jsstr
  ak_label :: jsstr
  ak_provider :: jsstr
  ak_baseUrl :: "jsstr option"
  ak_model :: "jsstr option"
  ak_syncSecret :: bool
  ak_hasKey :: bool

record sync_status =
  sy_configured :: bool
  sy_backendKind :: jsstr
  sy_detail :: "jsstr option"
  sy_deviceAuth :: "jsstr option"
  sy_lastCursor :: "jsstr option"
  sy_lastSyncedAt :: "jsstr option"
  sy_lastError :: "jsstr option"
  sy_lastPulled :: nat
  sy_lastPushed :: nat
  sy_lastApplied :: nat

record sync_report =
  sr_pulled :: nat
  sr_applied :: nat
  sr_pushed :: nat
  sr_cursor :: jsstr

text \<open>What the listeners are told, in order.\<close>

datatype mock_event = VaultChanged vault_status | VaultLocked | SyncCompleted sync_report

record mock =
  mk_vault :: vault_status
  mk_idleLockSecs :: int
  mk_hosts :: "mock_host list"
  mk_identities :: "identity list"
  mk_projects :: "project list"
  mk_sessions :: "mock_session list"
  mk_apiKeys :: "api_key list"
  mk_sync :: sync_status
  mk_nextId :: nat
  mk_events :: "mock_event list"

definition tell :: "mock_event list \<Rightarrow> mock \<Rightarrow> mock" where
  "tell es st = st\<lparr>mk_events := mk_events st @ es\<rparr>"

definition uid_text :: "jsstr \<Rightarrow> nat \<Rightarrow> jsstr" where
  "uid_text prefix n = prefix @ js ''-'' @ show_nat n"

definition uid :: "jsstr \<Rightarrow> mock \<Rightarrow> jsstr \<times> mock" where
  "uid prefix st = (uid_text prefix (mk_nextId st + 1), st\<lparr>mk_nextId := mk_nextId st + 1\<rparr>)"

section \<open>Vault\<close>

definition emitVault :: "mock \<Rightarrow> mock" where
  "emitVault st = tell [VaultChanged (mk_vault st)] st"

definition vaultCreate :: "bool \<Rightarrow> mock \<Rightarrow> vault_status \<times> mock" where
  "vaultCreate enableRecovery st =
     (let st = emitVault (st\<lparr>mk_vault := \<lparr>vs_exists = True, vs_unlocked = True, vs_recoveryAvailable = enableRecovery\<rparr>\<rparr>)
      in (mk_vault st, st))"

definition vaultUnlock :: "mock \<Rightarrow> vault_status \<times> mock" where
  "vaultUnlock st = (let st = emitVault (st\<lparr>mk_vault := (mk_vault st)\<lparr>vs_unlocked := True\<rparr>\<rparr>) in (mk_vault st, st))"

definition vaultRecover :: "mock \<Rightarrow> vault_status \<times> mock" where
  "vaultRecover st =
     (let st = emitVault (st\<lparr>mk_vault := \<lparr>vs_exists = True, vs_unlocked = True, vs_recoveryAvailable = True\<rparr>\<rparr>)
      in (mk_vault st, st))"

definition vaultLock :: "mock \<Rightarrow> vault_status \<times> mock" where
  "vaultLock st =
     (let st = tell [VaultLocked] (emitVault (st\<lparr>mk_vault := (mk_vault st)\<lparr>vs_unlocked := False\<rparr>\<rparr>)) in (mk_vault st, st))"

definition vaultSetIdleLockSecs :: "int \<Rightarrow> mock \<Rightarrow> int \<times> mock" where
  "vaultSetIdleLockSecs secs st = (secs, st\<lparr>mk_idleLockSecs := secs\<rparr>)"

section \<open>Hosts\<close>

record host_mutation =
  mu_label :: jsstr
  mu_hostname :: jsstr
  mu_port :: int
  mu_username :: jsstr
  mu_password :: "jsstr option"
  mu_identityId :: "jsstr option"
  mu_syncSecret :: "bool option"
  mu_color :: "jsstr option"
  mu_shellIntegration :: "bool option"
  mu_tunnels :: "tunnel_def list option"
  mu_forwardAgent :: "bool option"
  mu_useDefaultKeys :: "bool option"

definition default_to :: "'a \<Rightarrow> 'a option \<Rightarrow> 'a" where
  "default_to d x = (case x of Some v \<Rightarrow> v | None \<Rightarrow> d)"

definition listHosts :: "mock \<Rightarrow> mock_host list" where
  "listHosts st = mk_hosts st"

definition imported_host :: "jsstr \<Rightarrow> jsstr \<Rightarrow> mock_host" where
  "imported_host i alias =
     \<lparr>h_id = i, h_label = alias, h_hostname = alias @ js ''.example.com'', h_port = 22, h_username = js ''user'',
      h_color = None, h_lastConnectedAt = None, hs_tags = [], hs_authKind = js ''none'', mh_hasPassword = False,
      mh_identityId = None, mh_syncSecret = False, mh_shellIntegration = True, mh_tunnels = [],
      mh_forwardAgent = False, mh_useDefaultKeys = False\<rparr>"

fun import_rows :: "jsstr list \<Rightarrow> mock \<Rightarrow> mock_host list \<times> mock" where
  "import_rows [] st = ([], st)"
| "import_rows (alias # aliases) st =
     (let (i, st) = uid (js ''host'') st; (hs, st) = import_rows aliases st in (imported_host i alias # hs, st))"

definition importSshConfig :: "jsstr list \<Rightarrow> mock \<Rightarrow> mock_host list \<times> mock" where
  "importSshConfig aliases st =
     (let (created, st) = import_rows aliases st in (created, st\<lparr>mk_hosts := mk_hosts st @ created\<rparr>))"

definition createHost :: "host_mutation \<Rightarrow> mock \<Rightarrow> mock_host \<times> mock" where
  "createHost m st =
     (let (i, st) = uid (js ''host'') st;
          created =
            \<lparr>h_id = i, h_label = mu_label m, h_hostname = mu_hostname m, h_port = mu_port m, h_username = mu_username m,
             h_color = mu_color m, h_lastConnectedAt = None, hs_tags = [],
             hs_authKind = (if nonempty (mu_password m) \<noteq> None then js ''password''
                            else if nonempty (mu_identityId m) \<noteq> None then js ''sshKey'' else js ''none''),
             mh_hasPassword = (nonempty (mu_password m) \<noteq> None), mh_identityId = mu_identityId m,
             mh_syncSecret = default_to False (mu_syncSecret m), mh_shellIntegration = default_to True (mu_shellIntegration m),
             mh_tunnels = default_to [] (mu_tunnels m), mh_forwardAgent = default_to False (mu_forwardAgent m),
             mh_useDefaultKeys = default_to False (mu_useDefaultKeys m)\<rparr>
      in (created, st\<lparr>mk_hosts := mk_hosts st @ [created]\<rparr>))"

definition changed_host :: "host_mutation \<Rightarrow> mock_host \<Rightarrow> mock_host" where
  "changed_host m prev =
     prev\<lparr>h_label := mu_label m, h_hostname := mu_hostname m, h_port := mu_port m, h_username := mu_username m,
          mh_hasPassword := (case mu_password m of Some p \<Rightarrow> p \<noteq> [] | None \<Rightarrow> mh_hasPassword prev),
          mh_identityId := or_else (mu_identityId m) (mh_identityId prev),
          mh_syncSecret := default_to (mh_syncSecret prev) (mu_syncSecret m),
          h_color := or_else (mu_color m) (h_color prev),
          mh_shellIntegration := default_to (mh_shellIntegration prev) (mu_shellIntegration m),
          mh_tunnels := default_to (mh_tunnels prev) (mu_tunnels m),
          mh_forwardAgent := default_to (mh_forwardAgent prev) (mu_forwardAgent m),
          mh_useDefaultKeys := default_to (mh_useDefaultKeys prev) (mu_useDefaultKeys m),
          hs_authKind := (if nonempty (mu_password m) \<noteq> None then js ''password''
                          else if nonempty (mu_identityId m) \<noteq> None then js ''sshKey'' else hs_authKind prev)\<rparr>"

text \<open>Replacing the first row with a key (\<^verbatim>\<open>findIndex\<close> and an assignment), or an error.\<close>

definition replace_row :: "('r \<Rightarrow> jsstr) \<Rightarrow> jsstr \<Rightarrow> ('r \<Rightarrow> 'r) \<Rightarrow> jsstr \<Rightarrow> 'r list \<Rightarrow> jsstr + 'r \<times> 'r list" where
  "replace_row key i f missing rows =
     (case find_row key i rows of None \<Rightarrow> Inl missing
      | Some r \<Rightarrow> Inr (f r, update_first (\<lambda>r. key r = i) f rows))"

definition updateHost :: "jsstr \<Rightarrow> host_mutation \<Rightarrow> mock \<Rightarrow> (jsstr + mock_host) \<times> mock" where
  "updateHost i m st =
     (case replace_row h_id i (changed_host m) (js ''Host not found'') (mk_hosts st) of
        Inl e \<Rightarrow> (Inl e, st)
      | Inr (h, rows) \<Rightarrow> (Inr h, st\<lparr>mk_hosts := rows\<rparr>))"

definition deleteHost :: "jsstr \<Rightarrow> mock \<Rightarrow> mock" where
  "deleteHost i st = st\<lparr>mk_hosts := drop_rows h_id i (mk_hosts st)\<rparr>"

definition cleaned_tags :: "jsstr list \<Rightarrow> jsstr list" where
  "cleaned_tags ts = set_of (filter (\<lambda>t. t \<noteq> []) (map trim ts))"

definition setHostTags :: "jsstr \<Rightarrow> jsstr list \<Rightarrow> mock \<Rightarrow> (jsstr + mock_host) \<times> mock" where
  "setHostTags i ts st =
     (case replace_row h_id i (\<lambda>h. h\<lparr>hs_tags := cleaned_tags ts\<rparr>) (js ''Host not found'') (mk_hosts st) of
        Inl e \<Rightarrow> (Inl e, st)
      | Inr (h, rows) \<Rightarrow> (Inr h, st\<lparr>mk_hosts := rows\<rparr>))"

section \<open>Identities\<close>

record identity_import =
  ii_path :: jsstr
  ii_label :: "jsstr option"
  ii_syncSecret :: "bool option"

definition identityImport :: "identity_import \<Rightarrow> mock \<Rightarrow> identity \<times> mock" where
  "identityImport a st =
     (let (i, st) = uid (js ''id'') st;
          created = \<lparr>id_id = i, id_label = default_to (last (split_on 47 (ii_path a))) (ii_label a), id_kind = js ''sshKey'',
                     id_fingerprint = Some (js ''SHA256:mockNewKey''), id_usageCount = 0,
                     id_createdAt = Some (js ''2026-08-23T00:00:00Z''), id_syncSecret = default_to False (ii_syncSecret a)\<rparr>
      in (created, st\<lparr>mk_identities := mk_identities st @ [created]\<rparr>))"

definition identityRename :: "jsstr \<Rightarrow> jsstr \<Rightarrow> mock \<Rightarrow> (jsstr + identity) \<times> mock" where
  "identityRename i name st =
     (case replace_row id_id i (\<lambda>r. r\<lparr>id_label := name\<rparr>) (js ''Identity not found'') (mk_identities st) of
        Inl e \<Rightarrow> (Inl e, st)
      | Inr (r, rows) \<Rightarrow> (Inr r, st\<lparr>mk_identities := rows\<rparr>))"

definition identitySetSyncSecret :: "jsstr \<Rightarrow> bool \<Rightarrow> mock \<Rightarrow> (jsstr + identity) \<times> mock" where
  "identitySetSyncSecret i b st =
     (case replace_row id_id i (\<lambda>r. r\<lparr>id_syncSecret := b\<rparr>) (js ''Identity not found'') (mk_identities st) of
        Inl e \<Rightarrow> (Inl e, st)
      | Inr (r, rows) \<Rightarrow> (Inr r, st\<lparr>mk_identities := rows\<rparr>))"

record identity_delete_result =
  dr_deleted :: bool
  dr_dependentHosts :: "(jsstr \<times> jsstr) list"

definition detach_identity :: "jsstr \<Rightarrow> mock_host \<Rightarrow> mock_host" where
  "detach_identity i h =
     (if mh_identityId h = Some i then
        h\<lparr>mh_identityId := None, hs_authKind := (if mh_hasPassword h then js ''password'' else js ''none'')\<rparr>
      else h)"

definition identityDelete :: "jsstr \<Rightarrow> bool \<Rightarrow> mock \<Rightarrow> identity_delete_result \<times> mock" where
  "identityDelete i force st =
     (let dependents = map (\<lambda>h. (h_id h, h_label h)) (filter (\<lambda>h. mh_identityId h = Some i) (mk_hosts st)) in
      if dependents \<noteq> [] \<and> \<not> force then (\<lparr>dr_deleted = False, dr_dependentHosts = dependents\<rparr>, st)
      else
        (\<lparr>dr_deleted = True, dr_dependentHosts = []\<rparr>,
         st\<lparr>mk_identities := drop_rows id_id i (mk_identities st),
            mk_hosts := (if force then map (detach_identity i) (mk_hosts st) else mk_hosts st)\<rparr>))"

section \<open>Projects and running sessions\<close>

record project_mutation =
  pm_name :: jsstr
  pm_location :: project_location
  pm_defaultAgent :: "jsstr option"
  pm_assistKeyId :: "jsstr option"

definition createProject :: "project_mutation \<Rightarrow> mock \<Rightarrow> project \<times> mock" where
  "createProject m st =
     (let (i, st) = uid (js ''proj'') st;
          created = \<lparr>p_id = i, p_name = pm_name m, p_location = pm_location m, p_defaultAgent = pm_defaultAgent m,
                     p_assistKeyId = pm_assistKeyId m, p_lastOpened = None\<rparr>
      in (created, st\<lparr>mk_projects := mk_projects st @ [created]\<rparr>))"

definition updateProject :: "jsstr \<Rightarrow> project_mutation \<Rightarrow> mock \<Rightarrow> (jsstr + project) \<times> mock" where
  "updateProject i m st =
     (case replace_row p_id i (\<lambda>p. p\<lparr>p_name := pm_name m, p_location := pm_location m, p_defaultAgent := pm_defaultAgent m,
                                     p_assistKeyId := pm_assistKeyId m\<rparr>) (js ''Project not found'') (mk_projects st) of
        Inl e \<Rightarrow> (Inl e, st)
      | Inr (p, rows) \<Rightarrow> (Inr p, st\<lparr>mk_projects := rows\<rparr>))"

definition deleteProject :: "jsstr \<Rightarrow> mock \<Rightarrow> mock" where
  "deleteProject i st = st\<lparr>mk_projects := drop_rows p_id i (mk_projects st)\<rparr>"

record byok_env =
  be_envPath :: jsstr
  be_varNames :: "jsstr list"
  be_keyLabel :: jsstr

definition prepareProjectByok :: "jsstr \<Rightarrow> mock \<Rightarrow> byok_env option" where
  "prepareProjectByok i st =
     (case find_row p_id i (mk_projects st) of None \<Rightarrow> None
      | Some p \<Rightarrow>
          (case nonempty (p_assistKeyId p) of None \<Rightarrow> None
           | Some k \<Rightarrow>
               Some \<lparr>be_envPath = js ''/tmp/tethra-mock-byok.env'', be_varNames = [js ''ANTHROPIC_API_KEY''],
                     be_keyLabel = (case find_row ak_id k (mk_apiKeys st) of Some a \<Rightarrow> ak_label a | None \<Rightarrow> js ''key'')\<rparr>))"

definition touchProjectOpened :: "jsstr \<Rightarrow> mock \<Rightarrow> (jsstr + project) \<times> mock" where
  "touchProjectOpened i st =
     (case replace_row p_id i (\<lambda>p. p\<lparr>p_lastOpened := Some (js ''2026-08-23T12:00:00Z'')\<rparr>) (js ''Project not found'') (mk_projects st) of
        Inl e \<Rightarrow> (Inl e, st)
      | Inr (p, rows) \<Rightarrow> (Inr p, st\<lparr>mk_projects := rows\<rparr>))"

definition markProjectRunning :: "jsstr \<Rightarrow> jsstr \<Rightarrow> jsstr option \<Rightarrow> mock \<Rightarrow> mock_session \<times> mock" where
  "markProjectRunning projectId hostId agentId st =
     (let (i, st') = uid (js ''run'') st;
          created =
            \<lparr>r_id = i, r_projectId = projectId,
             r_projectName = (case find_row p_id projectId (mk_projects st) of Some p \<Rightarrow> p_name p | None \<Rightarrow> js ''project''),
             r_hostId = hostId, r_muxSession = js ''tethra-'' @ projectId,
             ms_hostLabel = (case find_row h_id hostId (mk_hosts st) of Some h \<Rightarrow> h_label h | None \<Rightarrow> hostId),
             ms_agentId = agentId, ms_startedAt = js ''2026-08-23T12:00:00Z'', ms_lastAttachedAt = js ''2026-08-23T12:00:00Z'',
             ms_startedOnDevice = js ''mock-device''\<rparr>
      in (created, st'\<lparr>mk_sessions := mk_sessions st' @ [created]\<rparr>))"

definition endRunningSession :: "jsstr \<Rightarrow> mock \<Rightarrow> mock" where
  "endRunningSession i st = st\<lparr>mk_sessions := drop_rows r_id i (mk_sessions st)\<rparr>"

section \<open>API keys\<close>

record api_key_mutation =
  km_label :: jsstr
  km_provider :: jsstr
  km_baseUrl :: "jsstr option"
  km_model :: "jsstr option"
  km_apiKey :: "jsstr option"
  km_syncSecret :: "bool option"

definition createApiKey :: "api_key_mutation \<Rightarrow> mock \<Rightarrow> api_key \<times> mock" where
  "createApiKey m st =
     (let (i, st) = uid (js ''key'') st;
          created = \<lparr>ak_id = i, ak_label = km_label m, ak_provider = km_provider m, ak_baseUrl = km_baseUrl m, ak_model = km_model m,
                     ak_syncSecret = default_to False (km_syncSecret m), ak_hasKey = (nonempty (km_apiKey m) \<noteq> None)\<rparr>
      in (created, st\<lparr>mk_apiKeys := mk_apiKeys st @ [created]\<rparr>))"

definition updateApiKey :: "jsstr \<Rightarrow> api_key_mutation \<Rightarrow> mock \<Rightarrow> (jsstr + api_key) \<times> mock" where
  "updateApiKey i m st =
     (case replace_row ak_id i (\<lambda>k. k\<lparr>ak_label := km_label m, ak_provider := km_provider m, ak_baseUrl := km_baseUrl m,
                                     ak_model := km_model m, ak_syncSecret := default_to (ak_syncSecret k) (km_syncSecret m),
                                     ak_hasKey := (case km_apiKey m of Some a \<Rightarrow> a \<noteq> [] | None \<Rightarrow> ak_hasKey k)\<rparr>)
             (js ''Key not found'') (mk_apiKeys st) of
        Inl e \<Rightarrow> (Inl e, st)
      | Inr (k, rows) \<Rightarrow> (Inr k, st\<lparr>mk_apiKeys := rows\<rparr>))"

definition deleteApiKey :: "jsstr \<Rightarrow> mock \<Rightarrow> mock" where
  "deleteApiKey i st = st\<lparr>mk_apiKeys := drop_rows ak_id i (mk_apiKeys st)\<rparr>"

section \<open>Synchronisation\<close>

definition syncConfigureFile :: "jsstr \<Rightarrow> mock \<Rightarrow> sync_status \<times> mock" where
  "syncConfigureFile path st =
     (let s = (mk_sync st)\<lparr>sy_configured := True, sy_backendKind := js ''file'', sy_detail := Some path, sy_deviceAuth := None,
                          sy_lastError := None\<rparr>
      in (s, st\<lparr>mk_sync := s\<rparr>))"

definition syncConfigureHttp :: "jsstr \<Rightarrow> mock \<Rightarrow> sync_status \<times> mock" where
  "syncConfigureHttp url st =
     (let s = (mk_sync st)\<lparr>sy_configured := True, sy_backendKind := js ''http'', sy_detail := Some url,
                          sy_deviceAuth := Some (js ''authenticated''), sy_lastError := None\<rparr>
      in (s, st\<lparr>mk_sync := s\<rparr>))"

definition syncDisable :: "mock \<Rightarrow> sync_status \<times> mock" where
  "syncDisable st =
     (let s = \<lparr>sy_configured = False, sy_backendKind = js ''none'', sy_detail = None, sy_deviceAuth = None, sy_lastCursor = None,
               sy_lastSyncedAt = None, sy_lastError = None, sy_lastPulled = 0, sy_lastPushed = 0, sy_lastApplied = 0\<rparr>
      in (s, st\<lparr>mk_sync := s\<rparr>))"

definition syncNow :: "mock \<Rightarrow> sync_report \<times> mock" where
  "syncNow st =
     (let report = \<lparr>sr_pulled = 1, sr_applied = 1, sr_pushed = 1, sr_cursor = js ''cur-43''\<rparr>;
          s = (mk_sync st)\<lparr>sy_lastPulled := sr_pulled report, sy_lastApplied := sr_applied report, sy_lastPushed := sr_pushed report,
                          sy_lastCursor := Some (sr_cursor report), sy_lastSyncedAt := Some (js ''2026-08-23T12:00:00Z''),
                          sy_lastError := None\<rparr>
      in (report, tell [SyncCompleted report] (st\<lparr>mk_sync := s\<rparr>)))"

definition syncJoinHttp :: "jsstr \<Rightarrow> mock \<Rightarrow> (bool \<times> bool \<times> sync_status) \<times> mock" where
  "syncJoinHttp url st =
     (let s = (mk_sync st)\<lparr>sy_configured := True, sy_backendKind := js ''http'', sy_detail := Some url,
                          sy_deviceAuth := Some (js ''enrolled'')\<rparr>
      in ((True, True, s), st\<lparr>mk_sync := s\<rparr>))"

section \<open>Fixtures\<close>

definition TUNNEL_DB :: tunnel_def where
  "TUNNEL_DB = \<lparr>td_id = js ''tun-local-3000'', td_label = js ''App :3000'', td_direction = js ''local'', td_bindPort = 3000,
                td_targetHost = js ''127.0.0.1'', td_targetPort = 3000, td_autoStart = True, td_allowLan = False\<rparr>"

definition TUNNEL_REMOTE :: tunnel_def where
  "TUNNEL_REMOTE = \<lparr>td_id = js ''tun-remote-ssh'', td_label = js ''Remote SSH'', td_direction = js ''remote'', td_bindPort = 2222,
                    td_targetHost = js ''127.0.0.1'', td_targetPort = 22, td_autoStart = False, td_allowLan = False\<rparr>"

definition fixture_hosts :: "mock_host list" where
  "fixture_hosts = [
      \<lparr>h_id = js ''host-vm'', h_label = js ''tethra-vm'', h_hostname = js ''52.150.38.5'', h_port = 22, h_username = js ''anthony'',
       h_color = Some (js ''#3fb950''), h_lastConnectedAt = Some (js ''2026-08-20T18:00:00Z''),
       hs_tags = [js ''azure'', js ''prod''], hs_authKind = js ''sshKey'', mh_hasPassword = False, mh_identityId = Some (js ''id-key''),
       mh_syncSecret = True, mh_shellIntegration = True, mh_tunnels = [TUNNEL_DB], mh_forwardAgent = True, mh_useDefaultKeys = False\<rparr>,
      \<lparr>h_id = js ''host-mini'', h_label = js ''Mac mini'', h_hostname = js ''100.80.50.90'', h_port = 22, h_username = js ''anthony'',
       h_color = Some (js ''#8bb8ff''), h_lastConnectedAt = Some (js ''2026-08-22T12:00:00Z''),
       hs_tags = [js ''azure'', js ''staging''], hs_authKind = js ''sshKey'', mh_hasPassword = False, mh_identityId = Some (js ''id-key''),
       mh_syncSecret = False, mh_shellIntegration = True, mh_tunnels = [TUNNEL_REMOTE], mh_forwardAgent = False, mh_useDefaultKeys = False\<rparr>,
      \<lparr>h_id = js ''host-vps'', h_label = js ''VPS NLD'', h_hostname = js ''216.250.118.11'', h_port = 22, h_username = js ''root'',
       h_color = Some (js ''#ff8a80''), h_lastConnectedAt = None,
       hs_tags = [js ''trading''], hs_authKind = js ''password'', mh_hasPassword = True, mh_identityId = Some (js ''id-password''),
       mh_syncSecret = False, mh_shellIntegration = False, mh_tunnels = [], mh_forwardAgent = False, mh_useDefaultKeys = False\<rparr>,
      \<lparr>h_id = js ''host-win'', h_label = js ''tethra-win'', h_hostname = js ''20.114.7.32'', h_port = 22, h_username = js ''anthony'',
       h_color = Some (js ''#c9a6f5''), h_lastConnectedAt = Some (js ''2026-08-10T09:00:00Z''),
       hs_tags = [js ''azure'', js ''rdp''], hs_authKind = js ''sshKey'', mh_hasPassword = False, mh_identityId = Some (js ''id-key''),
       mh_syncSecret = False, mh_shellIntegration = True, mh_tunnels = [], mh_forwardAgent = False, mh_useDefaultKeys = False\<rparr>,
      \<lparr>h_id = js ''host-pi'', h_label = js ''Pi cluster'', h_hostname = js ''10.0.0.12'', h_port = 22, h_username = js ''pi'',
       h_color = Some (js ''#4dd0e1''), h_lastConnectedAt = Some (js ''2026-08-23T08:00:00Z''),
       hs_tags = [js ''staging''], hs_authKind = js ''sshKey'', mh_hasPassword = False, mh_identityId = Some (js ''id-key''),
       mh_syncSecret = False, mh_shellIntegration = True, mh_tunnels = [], mh_forwardAgent = False, mh_useDefaultKeys = False\<rparr>,
      \<lparr>h_id = js ''host-lab'', h_label = js ''Home lab'', h_hostname = js ''10.0.1.50'', h_port = 22, h_username = js ''anthony'',
       h_color = Some (js ''#3fb950''), h_lastConnectedAt = Some (js ''2026-08-01T12:00:00Z''),
       hs_tags = [js ''staging''], hs_authKind = js ''sshKey'', mh_hasPassword = False, mh_identityId = Some (js ''id-key''),
       mh_syncSecret = False, mh_shellIntegration = True, mh_tunnels = [], mh_forwardAgent = False, mh_useDefaultKeys = False\<rparr>]"

definition fixture_identities :: "identity list" where
  "fixture_identities = [
      \<lparr>id_id = js ''id-password'', id_label = js ''Deploy password'', id_kind = js ''password'', id_fingerprint = None,
       id_usageCount = 1, id_createdAt = Some (js ''2026-01-10T12:00:00Z''), id_syncSecret = False\<rparr>,
      \<lparr>id_id = js ''id-key'', id_label = js ''ops@bastion'', id_kind = js ''sshKey'', id_fingerprint = Some (js ''SHA256:mockFingerprintAbc123''),
       id_usageCount = 1, id_createdAt = Some (js ''2026-01-11T12:00:00Z''), id_syncSecret = True\<rparr>]"

definition fixture_projects :: "project list" where
  "fixture_projects = [
      \<lparr>p_id = js ''proj-1'', p_name = js ''api-refactor'', p_location = RemotePath (js ''host-vm'') (js ''/srv/tethra''), p_defaultAgent = Some (js ''claude''),
       p_assistKeyId = Some (js ''key-1''), p_lastOpened = Some (js ''2026-08-23T08:05:00Z'')\<rparr>,
      \<lparr>p_id = js ''proj-2'', p_name = js ''deploy-watch'', p_location = RemotePath (js ''host-mini'') (js ''/opt/app''), p_defaultAgent = Some (js ''claude''),
       p_assistKeyId = Some (js ''key-1''), p_lastOpened = Some (js ''2026-08-22T14:00:00Z'')\<rparr>,
      \<lparr>p_id = js ''proj-3'', p_name = js ''logs'', p_location = RemotePath (js ''host-pi'') (js ''/var/log''), p_defaultAgent = Some (js ''shell''),
       p_assistKeyId = None, p_lastOpened = Some (js ''2026-08-21T10:00:00Z'')\<rparr>]"

definition fixture_sessions :: "mock_session list" where
  "fixture_sessions = [
      \<lparr>r_id = js ''run-1'', r_projectId = js ''proj-1'', r_projectName = js ''api-refactor'', r_hostId = js ''host-vm'',
       r_muxSession = js ''tethra-proj-1'', ms_hostLabel = js ''tethra-vm'', ms_agentId = Some (js ''claude''), ms_startedAt = js ''2026-08-23T08:00:00Z'',
       ms_lastAttachedAt = js ''2026-08-23T08:05:00Z'', ms_startedOnDevice = js ''mock-device''\<rparr>,
      \<lparr>r_id = js ''run-2'', r_projectId = js ''proj-2'', r_projectName = js ''deploy-watch'', r_hostId = js ''host-mini'',
       r_muxSession = js ''tethra-proj-2'', ms_hostLabel = js ''Mac mini'', ms_agentId = Some (js ''claude''), ms_startedAt = js ''2026-08-23T06:00:00Z'',
       ms_lastAttachedAt = js ''2026-08-23T07:00:00Z'', ms_startedOnDevice = js ''mock-device''\<rparr>,
      \<lparr>r_id = js ''run-3'', r_projectId = js ''proj-3'', r_projectName = js ''mini '' @ [183] @ js '' logs'', r_hostId = js ''host-pi'',
       r_muxSession = js ''tethra-proj-3'', ms_hostLabel = js ''Pi cluster'', ms_agentId = Some (js ''shell''), ms_startedAt = js ''2026-08-23T04:00:00Z'',
       ms_lastAttachedAt = js ''2026-08-23T04:30:00Z'', ms_startedOnDevice = js ''mock-device''\<rparr>]"

definition fixture_apiKeys :: "api_key list" where
  "fixture_apiKeys = [
      \<lparr>ak_id = js ''key-1'', ak_label = js ''OpenRouter'', ak_provider = js ''openaiCompat'',
       ak_baseUrl = Some (js ''https://openrouter.ai/api/v1''), ak_model = Some (js ''anthropic/claude-sonnet-4''),
       ak_syncSecret = False, ak_hasKey = True\<rparr>]"

definition mock_init :: mock where
  "mock_init =
     \<lparr>mk_vault = \<lparr>vs_exists = True, vs_unlocked = True, vs_recoveryAvailable = True\<rparr>, mk_idleLockSecs = 900,
      mk_hosts = fixture_hosts, mk_identities = fixture_identities, mk_projects = fixture_projects,
      mk_sessions = fixture_sessions, mk_apiKeys = fixture_apiKeys,
      mk_sync = \<lparr>sy_configured = True, sy_backendKind = js ''http'', sy_detail = Some (js ''https://sync.example.com''),
                 sy_deviceAuth = Some (js ''authenticated''), sy_lastCursor = Some (js ''cur-42''),
                 sy_lastSyncedAt = Some (js ''2026-08-23T07:55:00Z''), sy_lastError = None,
                 sy_lastPulled = 3, sy_lastPushed = 1, sy_lastApplied = 3\<rparr>,
      mk_nextId = 100, mk_events = []\<rparr>"

section \<open>Interface: a collection of rows with issued identifiers\<close>

text \<open>
  Five collections are kept in the same way: a new row gets the next identifier of the module-wide
  counter and is appended, a row is removed by its identifier, and every other operation keeps the
  identifiers and never turns the counter back.
\<close>

locale keyed_store =
  fixes rows :: "'s \<Rightarrow> 'r list"
    and key :: "'r \<Rightarrow> jsstr"
    and prefix :: jsstr
    and counter :: "'s \<Rightarrow> nat"
    and create :: "'m \<Rightarrow> 's \<Rightarrow> 'r \<times> 's"
    and delete :: "jsstr \<Rightarrow> 's \<Rightarrow> 's"
  assumes create_law: "create m s = (r, s') \<Longrightarrow>
      key r = uid_text prefix (counter s + 1) \<and> rows s' = rows s @ [r] \<and> counter s' = counter s + 1"
    and delete_law: "rows (delete i s) = drop_rows key i (rows s) \<and> counter (delete i s) = counter s"
begin

definition issued :: "'s \<Rightarrow> bool" where
  "issued s \<longleftrightarrow> distinct (map key (rows s)) \<and> (\<forall>n. uid_text prefix n \<in> set (map key (rows s)) \<longrightarrow> n \<le> counter s)"

lemma issued_mono: "issued s \<Longrightarrow> map key (rows s') = map key (rows s) \<Longrightarrow> counter s \<le> counter s' \<Longrightarrow> issued s'"
  unfolding issued_def by (metis le_trans)

lemma created_new:
  assumes "issued s" "create m s = (r, s')"
  shows "key r \<notin> set (map key (rows s))"
proof
  assume "key r \<in> set (map key (rows s))"
  then have "counter s + 1 \<le> counter s" using create_law [OF assms(2)] assms(1) by (simp add: issued_def)
  then show False by simp
qed

lemma create_issued: "issued s \<Longrightarrow> create m s = (r, s') \<Longrightarrow> issued s'"
  using created_new [of s m r s'] create_law [of m s r s'] by (auto simp: issued_def uid_text_def intro: le_SucI)

lemma find_created:
  assumes "issued s" "create m s = (r, s')"
  shows "find_row key (key r) (rows s') = Some r \<and> (\<forall>i. i \<noteq> key r \<longrightarrow> find_row key i (rows s') = find_row key i (rows s))"
proof -
  have "find_row key (key r) (rows s) = None" using created_new [OF assms] by (simp add: find_row_None)
  moreover have "find p (xs @ [r]) = (case find p xs of Some x \<Rightarrow> Some x | None \<Rightarrow> if p r then Some r else None)" for p and xs
    by (induction xs) auto
  ultimately show ?thesis using create_law [OF assms(2)] by (auto simp: find_row_def split: option.splits)
qed

lemma delete_issued: "issued s \<Longrightarrow> issued (delete i s)"
  using delete_law [of i s] by (auto simp: issued_def drop_rows_def distinct_map_filter)

lemma find_deleted: "find_row key j (rows (delete i s)) = (if j = i then None else find_row key j (rows s))"
  using delete_law [of i s] by simp

text \<open>Deleting what was just created gives the rows back.\<close>

lemma create_delete:
  assumes "issued s" "create m s = (r, s')"
  shows "rows (delete (key r) s') = rows s"
proof -
  have "\<forall>x \<in> set (rows s). key x \<noteq> key r" using created_new [OF assms] by (metis imageI set_map)
  then have "filter (\<lambda>x. key x \<noteq> key r) (rows s) = rows s" by (rule filter_True)
  then show ?thesis using create_law [OF assms(2)] delete_law by (simp add: drop_rows_def)
qed

end

interpretation hosts: keyed_store mk_hosts h_id "js ''host''" mk_nextId createHost deleteHost
  by unfold_locales (auto simp: createHost_def deleteHost_def uid_def Let_def)

text \<open>Identities are removed with their dependents detached; by force the removal always happens.\<close>

interpretation identities: keyed_store mk_identities id_id "js ''id''" mk_nextId identityImport "\<lambda>i st. snd (identityDelete i True st)"
  by unfold_locales (auto simp: identityImport_def identityDelete_def uid_def Let_def)

interpretation projects: keyed_store mk_projects p_id "js ''proj''" mk_nextId createProject deleteProject
  by unfold_locales (auto simp: createProject_def deleteProject_def uid_def Let_def)

interpretation sessions: keyed_store mk_sessions r_id "js ''run''" mk_nextId "\<lambda>(p, h, a). markProjectRunning p h a" endRunningSession
  by unfold_locales (auto simp: markProjectRunning_def endRunningSession_def uid_def Let_def split: prod.splits)

interpretation apiKeys: keyed_store mk_apiKeys ak_id "js ''key''" mk_nextId createApiKey deleteApiKey
  by unfold_locales (auto simp: createApiKey_def deleteApiKey_def uid_def Let_def)

lemma tagged_row_found:
  assumes "\<And>x. key (f x) = key x"
  shows "find_row key j (update_first (\<lambda>r. key r = i) f rs) = (if j = i then map_option f (find_row key i rs) else find_row key j rs)"
  using assms by (induction rs) (auto simp: find_row_def)

interpretation host_tags: host_store setHostTags "\<lambda>st i. map_option hs_tags (find_row h_id i (mk_hosts st))"
proof
  fix i ts st h st'
  assume call: "setHostTags i ts st = (Inr h, st')" and tidy: "tidy ts"
  have "filter (\<lambda>t. t \<noteq> []) (map trim ts) = ts" using tidy
    by (induction ts) (auto simp: tidy_def)
  then have "cleaned_tags ts = ts" using tidy by (simp add: cleaned_tags_def set_of_distinct tidy_def)
  then show "(\<lambda>i. map_option hs_tags (find_row h_id i (mk_hosts st'))) = (\<lambda>i. map_option hs_tags (find_row h_id i (mk_hosts st)))(i \<mapsto> ts)"
    using call by (auto simp: setHostTags_def replace_row_def fun_eq_iff tagged_row_found split: option.splits)
qed (auto simp: setHostTags_def replace_row_def split: option.splits)

section \<open>The operations and the states they reach\<close>

inductive mock_step :: "mock \<Rightarrow> mock \<Rightarrow> bool" where
  "mock_step st (snd (vaultCreate b st))"
| "mock_step st (snd (vaultUnlock st))"
| "mock_step st (snd (vaultRecover st))"
| "mock_step st (snd (vaultLock st))"
| "mock_step st (snd (vaultSetIdleLockSecs n st))"
| "mock_step st (snd (importSshConfig aliases st))"
| "mock_step st (snd (createHost hm st))"
| "mock_step st (snd (updateHost i hm st))"
| "mock_step st (deleteHost i st)"
| "mock_step st (snd (setHostTags i ts st))"
| "mock_step st (snd (identityImport im st))"
| "mock_step st (snd (identityRename i name st))"
| "mock_step st (snd (identitySetSyncSecret i b st))"
| "mock_step st (snd (identityDelete i b st))"
| "mock_step st (snd (createProject pm st))"
| "mock_step st (snd (updateProject i pm st))"
| "mock_step st (deleteProject i st)"
| "mock_step st (snd (touchProjectOpened i st))"
| "mock_step st (snd (markProjectRunning p h a st))"
| "mock_step st (endRunningSession i st)"
| "mock_step st (snd (createApiKey km st))"
| "mock_step st (snd (updateApiKey i km st))"
| "mock_step st (deleteApiKey i st)"
| "mock_step st (snd (syncConfigureFile t st))"
| "mock_step st (snd (syncConfigureHttp t st))"
| "mock_step st (snd (syncDisable st))"
| "mock_step st (snd (syncNow st))"
| "mock_step st (snd (syncJoinHttp t st))"

text \<open>Identifiers are issued once per collection, and the tags of every host are tidy.\<close>

definition mock_ok :: "mock \<Rightarrow> bool" where
  "mock_ok st \<longleftrightarrow> hosts.issued st \<and> identities.issued st \<and> projects.issued st \<and> sessions.issued st \<and> apiKeys.issued st
     \<and> (\<forall>h \<in> set (mk_hosts st). tidy (hs_tags h))"

definition ids_of :: "mock \<Rightarrow> jsstr list list" where
  "ids_of st = [map h_id (mk_hosts st), map id_id (mk_identities st), map p_id (mk_projects st), map r_id (mk_sessions st),
                map ak_id (mk_apiKeys st)]"

lemma mock_ok_same:
  assumes "mock_ok st" "ids_of st' = ids_of st" "mk_nextId st' = mk_nextId st" "\<forall>h \<in> set (mk_hosts st'). tidy (hs_tags h)"
  shows "mock_ok st'"
  using assms hosts.issued_mono [of st st'] identities.issued_mono [of st st'] projects.issued_mono [of st st']
    sessions.issued_mono [of st st'] apiKeys.issued_mono [of st st']
  by (simp add: mock_ok_def ids_of_def)

lemma replace_row_ids:
  assumes "replace_row key i f e rs = Inr (r, rs')" "\<And>x. key (f x) = key x"
  shows "map key rs' = map key rs \<and> set rs' \<subseteq> set rs \<union> f ` set rs"
  using assms set_update_first_subset [of "\<lambda>r. key r = i" f rs]
  by (auto simp: replace_row_def split: option.splits)

lemma tidy_cleaned: "tidy (cleaned_tags ts)"
  by (auto simp: tidy_def cleaned_tags_def list_all_iff)

lemma tidy_Nil: "tidy []"
  by (simp add: tidy_def)

text \<open>A collection that an operation does not touch keeps its identifiers while the counter grows.\<close>

lemma others_issued:
  assumes "mock_ok st" "mk_nextId st \<le> mk_nextId st'"
  shows "mk_hosts st' = mk_hosts st \<Longrightarrow> hosts.issued st'"
    and "mk_identities st' = mk_identities st \<Longrightarrow> identities.issued st'"
    and "mk_projects st' = mk_projects st \<Longrightarrow> projects.issued st'"
    and "mk_sessions st' = mk_sessions st \<Longrightarrow> sessions.issued st'"
    and "mk_apiKeys st' = mk_apiKeys st \<Longrightarrow> apiKeys.issued st'"
  using assms hosts.issued_mono [of st st'] identities.issued_mono [of st st'] projects.issued_mono [of st st']
    sessions.issued_mono [of st st'] apiKeys.issued_mono [of st st']
  by (simp_all add: mock_ok_def)

lemmas create_defs = createHost_def identityImport_def createProject_def markProjectRunning_def createApiKey_def uid_def Let_def

lemma mock_ok_create:
  assumes "mock_ok st"
  shows "mock_ok (snd (createHost hm st))" "mock_ok (snd (identityImport im st))" "mock_ok (snd (createProject pm st))"
    "mock_ok (snd (markProjectRunning p h a st))" "mock_ok (snd (createApiKey km st))"
proof -
  have i: "hosts.issued st" "identities.issued st" "projects.issued st" "sessions.issued st" "apiKeys.issued st"
    and t: "\<forall>h \<in> set (mk_hosts st). tidy (hs_tags h)" using assms by (simp_all add: mock_ok_def)
  note keep = others_issued [OF assms]
  show "mock_ok (snd (createHost hm st))"
    using hosts.create_issued [OF i(1) prod.collapse [symmetric], of hm] keep [of "snd (createHost hm st)"] t
    by (simp add: mock_ok_def) (simp add: create_defs tidy_Nil)
  show "mock_ok (snd (identityImport im st))"
    using identities.create_issued [OF i(2) prod.collapse [symmetric], of im] keep [of "snd (identityImport im st)"] t
    by (simp add: mock_ok_def) (simp add: create_defs)
  show "mock_ok (snd (createProject pm st))"
    using projects.create_issued [OF i(3) prod.collapse [symmetric], of pm] keep [of "snd (createProject pm st)"] t
    by (simp add: mock_ok_def) (simp add: create_defs)
  show "mock_ok (snd (markProjectRunning p h a st))"
    using sessions.create_issued [OF i(4), of "(p, h, a)"] keep [of "snd (markProjectRunning p h a st)"] t
    by (simp add: mock_ok_def) (simp add: create_defs)
  show "mock_ok (snd (createApiKey km st))"
    using apiKeys.create_issued [OF i(5) prod.collapse [symmetric], of km] keep [of "snd (createApiKey km st)"] t
    by (simp add: mock_ok_def) (simp add: create_defs)
qed

lemma mock_ok_delete:
  assumes "mock_ok st"
  shows "mock_ok (deleteHost i st)" "mock_ok (deleteProject i st)" "mock_ok (endRunningSession i st)" "mock_ok (deleteApiKey i st)"
proof -
  have ii: "hosts.issued st" "projects.issued st" "sessions.issued st" "apiKeys.issued st"
    and t: "\<forall>h \<in> set (mk_hosts st). tidy (hs_tags h)" using assms by (simp_all add: mock_ok_def)
  note keep = others_issued [OF assms]
  show "mock_ok (deleteHost i st)"
    using hosts.delete_issued [OF ii(1), of i] keep [of "deleteHost i st"] t
    by (simp add: mock_ok_def) (simp add: deleteHost_def)
  show "mock_ok (deleteProject i st)"
    using projects.delete_issued [OF ii(2), of i] keep [of "deleteProject i st"] t
    by (simp add: mock_ok_def) (simp add: deleteProject_def)
  show "mock_ok (endRunningSession i st)"
    using sessions.delete_issued [OF ii(3), of i] keep [of "endRunningSession i st"] t
    by (simp add: mock_ok_def) (simp add: endRunningSession_def)
  show "mock_ok (deleteApiKey i st)"
    using apiKeys.delete_issued [OF ii(4), of i] keep [of "deleteApiKey i st"] t
    by (simp add: mock_ok_def) (simp add: deleteApiKey_def)
qed

lemma mock_ok_identityDelete: "mock_ok st \<Longrightarrow> mock_ok (snd (identityDelete i force st))"
proof -
  assume ok: "mock_ok st"
  have "identities.issued (snd (identityDelete i True st))"
    using identities.delete_issued ok by (simp add: mock_ok_def)
  then have ids: "identities.issued (snd (identityDelete i force st))"
    by (cases "snd (identityDelete i force st) = st")
      (use ok in \<open>auto simp: mock_ok_def identities.issued_def identityDelete_def Let_def\<close>)
  have "map h_id (mk_hosts (snd (identityDelete i force st))) = map h_id (mk_hosts st)"
    by (simp add: identityDelete_def detach_identity_def Let_def)
  then have "hosts.issued (snd (identityDelete i force st))"
    using hosts.issued_mono [of st] ok by (simp add: mock_ok_def identityDelete_def Let_def)
  moreover have "\<forall>h \<in> set (mk_hosts (snd (identityDelete i force st))). tidy (hs_tags h)"
    using ok by (auto simp: mock_ok_def identityDelete_def detach_identity_def Let_def)
  ultimately show ?thesis
    using ids others_issued(3-5) [OF ok, of "snd (identityDelete i force st)"]
    by (simp add: mock_ok_def) (simp add: identityDelete_def Let_def)
qed

lemma mock_ok_settings:
  assumes "mock_ok st"
  shows "mock_ok (snd (vaultCreate b st))" "mock_ok (snd (vaultUnlock st))" "mock_ok (snd (vaultRecover st))" "mock_ok (snd (vaultLock st))"
    "mock_ok (snd (vaultSetIdleLockSecs n st))" "mock_ok (snd (syncConfigureFile t st))" "mock_ok (snd (syncConfigureHttp t st))"
    "mock_ok (snd (syncDisable st))" "mock_ok (snd (syncNow st))" "mock_ok (snd (syncJoinHttp t st))"
proof -
  have t: "\<forall>h \<in> set (mk_hosts st). tidy (hs_tags h)" using assms by (simp add: mock_ok_def)
  note same = mock_ok_same [OF assms]
  show "mock_ok (snd (vaultCreate b st))" "mock_ok (snd (vaultUnlock st))" "mock_ok (snd (vaultRecover st))" "mock_ok (snd (vaultLock st))"
    "mock_ok (snd (vaultSetIdleLockSecs n st))" "mock_ok (snd (syncConfigureFile t st))" "mock_ok (snd (syncConfigureHttp t st))"
    "mock_ok (snd (syncDisable st))" "mock_ok (snd (syncNow st))" "mock_ok (snd (syncJoinHttp t st))" for t
    using t by (auto intro!: same simp: ids_of_def vaultCreate_def vaultUnlock_def vaultRecover_def vaultLock_def vaultSetIdleLockSecs_def
        syncConfigureFile_def syncConfigureHttp_def syncDisable_def syncNow_def syncJoinHttp_def emitVault_def tell_def Let_def)
qed

lemma mock_ok_hosts:
  assumes "mock_ok st" "replace_row h_id i f e (mk_hosts st) = Inr (r, rs')" "\<And>x. h_id (f x) = h_id x"
    "\<And>x. tidy (hs_tags x) \<Longrightarrow> tidy (hs_tags (f x))"
  shows "mock_ok (st\<lparr>mk_hosts := rs'\<rparr>)"
  using replace_row_ids [OF assms(2,3)] assms(1,4)
  by (intro mock_ok_same [OF assms(1)]) (auto simp: ids_of_def mock_ok_def)

lemma mock_ok_replace:
  assumes "mock_ok st"
  shows "mock_ok (snd (updateHost i hm st))" "mock_ok (snd (setHostTags i ts st))" "mock_ok (snd (identityRename i name st))"
    "mock_ok (snd (identitySetSyncSecret i b st))" "mock_ok (snd (updateProject i pm st))" "mock_ok (snd (touchProjectOpened i st))"
    "mock_ok (snd (updateApiKey i km st))"
proof -
  have t: "\<forall>h \<in> set (mk_hosts st). tidy (hs_tags h)" using assms by (simp add: mock_ok_def)
  note same = mock_ok_same [OF assms]
  show "mock_ok (snd (updateHost i hm st))"
    using assms mock_ok_hosts [OF assms, of i "changed_host hm"]
    by (auto simp: updateHost_def changed_host_def split: sum.splits)
  show "mock_ok (snd (setHostTags i ts st))"
    using assms mock_ok_hosts [OF assms, of i "\<lambda>h. h\<lparr>hs_tags := cleaned_tags ts\<rparr>"] tidy_cleaned
    by (auto simp: setHostTags_def split: sum.splits)
  show "mock_ok (snd (identityRename i name st))" "mock_ok (snd (identitySetSyncSecret i b st))"
    using assms t replace_row_ids [where key = id_id and i = i and rs = "mk_identities st"]
    by (auto simp: identityRename_def identitySetSyncSecret_def ids_of_def split: sum.splits intro!: same)
  show "mock_ok (snd (updateProject i pm st))" "mock_ok (snd (touchProjectOpened i st))"
    using assms t replace_row_ids [where key = p_id and i = i and rs = "mk_projects st"]
    by (auto simp: updateProject_def touchProjectOpened_def ids_of_def split: sum.splits intro!: same)
  show "mock_ok (snd (updateApiKey i km st))"
    using assms t replace_row_ids [where key = ak_id and i = i and rs = "mk_apiKeys st"]
    by (auto simp: updateApiKey_def ids_of_def split: sum.splits intro!: same)
qed

lemma import_rows_spec:
  "import_rows aliases st = (created, st') \<Longrightarrow>
     st' = st\<lparr>mk_nextId := mk_nextId st + length aliases\<rparr>
     \<and> map h_id created = map (\<lambda>k. uid_text (js ''host'') (mk_nextId st + Suc k)) [0..<length aliases]
     \<and> (\<forall>h \<in> set created. hs_tags h = [])"
proof (induction aliases arbitrary: st created st')
  case (Cons a aliases)
  obtain i st1 where u: "uid (js ''host'') st = (i, st1)" by (cases "uid (js ''host'') st")
  obtain hs st2 where r: "import_rows aliases st1 = (hs, st2)" by (cases "import_rows aliases st1")
  have c: "created = imported_host i a # hs" "st' = st2" using Cons.prems u r by auto
  have st1: "i = uid_text (js ''host'') (Suc (mk_nextId st))" "st1 = st\<lparr>mk_nextId := Suc (mk_nextId st)\<rparr>"
    using u by (auto simp: uid_def)
  have "[0..<Suc (length aliases)] = 0 # map Suc [0..<length aliases]" by (simp add: upt_conv_Cons map_Suc_upt del: upt_Suc)
  then show ?case using Cons.IH [OF r] c st1 by (simp add: imported_host_def comp_def del: upt_Suc)
qed simp

lemma uid_text_inject [simp]: "uid_text p m = uid_text p n \<longleftrightarrow> m = n"
  by (simp add: uid_text_def)

lemma mock_ok_import: "mock_ok st \<Longrightarrow> mock_ok (snd (importSshConfig aliases st))"
proof -
  assume ok: "mock_ok st"
  obtain created st1 where r: "import_rows aliases st = (created, st1)" by (cases "import_rows aliases st")
  note spec = import_rows_spec [OF r]
  let ?st = "st1\<lparr>mk_hosts := mk_hosts st1 @ created\<rparr>"
  let ?new = "map (\<lambda>k. uid_text (js ''host'') (mk_nextId st + Suc k)) [0..<length aliases]"
  have ids: "map h_id (mk_hosts ?st) = map h_id (mk_hosts st) @ ?new" using spec by simp
  have bound: "\<And>n. uid_text (js ''host'') n \<in> set (map h_id (mk_hosts st)) \<Longrightarrow> n \<le> mk_nextId st" "distinct (map h_id (mk_hosts st))"
    using ok by (simp_all only: mock_ok_def hosts.issued_def)
  have "distinct ?new" by (simp add: distinct_map inj_on_def)
  moreover have "set (map h_id (mk_hosts st)) \<inter> set ?new = {}"
  proof (rule ccontr)
    assume "set (map h_id (mk_hosts st)) \<inter> set ?new \<noteq> {}"
    then obtain x where x: "x \<in> set (map h_id (mk_hosts st))" "x \<in> set ?new" by blast
    from x(2) obtain k where "x = uid_text (js ''host'') (mk_nextId st + Suc k)" by auto
    with x(1) have "uid_text (js ''host'') (mk_nextId st + Suc k) \<in> set (map h_id (mk_hosts st))" by simp
    then show False using bound(1) [of "mk_nextId st + Suc k"] by simp
  qed
  ultimately have "distinct (map h_id (mk_hosts ?st))" unfolding ids using bound(2) by simp
  moreover have "n \<le> mk_nextId ?st" if "uid_text (js ''host'') n \<in> set (map h_id (mk_hosts ?st))" for n
    using that bound(1) [of n] spec unfolding ids by auto
  ultimately have "hosts.issued ?st" by (simp only: hosts.issued_def) blast
  moreover have "\<forall>h \<in> set (mk_hosts ?st). tidy (hs_tags h)" using spec ok by (auto simp: mock_ok_def tidy_Nil)
  ultimately have "mock_ok ?st" using others_issued(2-5) [OF ok, of ?st] spec by (simp add: mock_ok_def)
  then show ?thesis by (simp add: importSshConfig_def r)
qed

lemma mock_step_ok: "mock_step st st' \<Longrightarrow> mock_ok st \<Longrightarrow> mock_ok st'"
  by (induction rule: mock_step.induct)
    (simp_all add: mock_ok_create mock_ok_delete mock_ok_identityDelete mock_ok_settings mock_ok_replace mock_ok_import)

lemma show_nat_eq: "show_nat n = t \<Longrightarrow> list_all (\<lambda>c. 48 \<le> c \<and> c \<le> 57) t \<and> n = read_nat t"
  using read_show_nat [of n] show_nat_digits [of _ n] by (auto simp: list_all_iff)

lemma mock_init_ok: "mock_ok mock_init"
proof -
  have "hosts.issued mock_init"
    unfolding hosts.issued_def
    by (auto simp: mock_init_def fixture_hosts_def uid_text_def js_def dest!: show_nat_eq)
  moreover have "identities.issued mock_init"
    unfolding identities.issued_def
    by (auto simp: mock_init_def fixture_identities_def uid_text_def js_def dest!: show_nat_eq)
  moreover have "projects.issued mock_init"
    unfolding projects.issued_def
    by (auto simp: mock_init_def fixture_projects_def uid_text_def js_def read_nat_def dest!: show_nat_eq)
  moreover have "sessions.issued mock_init"
    unfolding sessions.issued_def
    by (auto simp: mock_init_def fixture_sessions_def uid_text_def js_def read_nat_def dest!: show_nat_eq)
  moreover have "apiKeys.issued mock_init"
    unfolding apiKeys.issued_def
    by (auto simp: mock_init_def fixture_apiKeys_def uid_text_def js_def read_nat_def dest!: show_nat_eq)
  moreover have "\<forall>h \<in> set (mk_hosts mock_init). tidy (hs_tags h)"
    by (simp add: mock_init_def fixture_hosts_def tidy_def js_def trim_def trimStart_def trimEnd_def is_ws_def)
  ultimately show ?thesis by (simp add: mock_ok_def)
qed

lemma mock_reachable_ok: "mock_step\<^sup>*\<^sup>* mock_init st \<Longrightarrow> mock_ok st"
  by (induction rule: rtranclp_induct) (auto intro: mock_init_ok mock_step_ok)

section \<open>Creating a group on this backend\<close>

text \<open>Tagging never fails for hosts the backend listed: a call keeps every host.\<close>

lemma setHostTags_known: "find_row h_id i (mk_hosts st) \<noteq> None \<Longrightarrow> \<exists>h st'. setHostTags i ts st = (Inr h, st')"
  by (auto simp: setHostTags_def replace_row_def)

lemma setHostTags_ids: "map h_id (mk_hosts (snd (setHostTags i ts st))) = map h_id (mk_hosts st)"
  using replace_row_ids [where key = h_id and i = i and rs = "mk_hosts st" and f = "\<lambda>h. h\<lparr>hs_tags := cleaned_tags ts\<rparr>"]
  by (auto simp: setHostTags_def split: sum.splits)

lemma tag_hosts_total:
  "map h_id (mk_hosts st) = map h_id hs \<Longrightarrow> \<exists>st'. tag_hosts setHostTags hs name ids st = (None, st')"
proof (induction ids arbitrary: st)
  case (Cons i ids)
  show ?case
  proof (cases "find_row h_id i hs")
    case None
    then show ?thesis using Cons by simp
  next
    case (Some h)
    then have "i \<in> set (map h_id hs)" by (auto dest: find_row_Some_key)
    then have "find_row h_id i (mk_hosts st) \<noteq> None" using Cons.prems by (metis find_row_None set_map)
    then obtain r st1 where call: "setHostTags i (hs_tags h @ [name]) st = (Inr r, st1)" using setHostTags_known by blast
    have "map h_id (mk_hosts st1) = map h_id hs" using setHostTags_ids [of i "hs_tags h @ [name]" st] call Cons.prems by simp
    then show ?thesis using Cons.IH [of st] Cons.IH [of st1] Cons.prems call Some by simp
  qed
qed simp

lemma group_tags:
  assumes ok: "mock_ok st" and name: "name \<noteq> []" "trim name = name" "distinct ids"
  shows "\<exists>st'. createGroup setHostTags (\<lambda>b. Inr (listHosts b)) (listHosts st) name ids st = ((listHosts st', None), st')
    \<and> (\<forall>i. map_option hs_tags (find_row h_id i (listHosts st'))
           = (if i \<in> set ids then map_option (\<lambda>h. if name \<in> set (hs_tags h) then hs_tags h else hs_tags h @ [name]) (find_row h_id i (listHosts st))
              else map_option hs_tags (find_row h_id i (listHosts st))))"
proof -
  obtain st' where t: "tag_hosts setHostTags (mk_hosts st) name ids st = (None, st')" using tag_hosts_total by blast
  have "tidy (hs_tags h)" if "find_row h_id i (mk_hosts st) = Some h" for i h
    using ok that by (auto simp: mock_ok_def dest: find_row_Some_key)
  then have "host_tags.in_step (mk_hosts st) ids st" by (simp add: host_tags.in_step_def)
  from host_tags.tag_hosts_ok [OF name(1,2,3) this t]
  have "map_option hs_tags (find_row h_id i (mk_hosts st')) = host_tags.with_tag (mk_hosts st) name ids st i" for i
    by (rule fun_cong)
  then show ?thesis using t
    by (auto simp: createGroup_def listHosts_def host_tags.with_tag_def split: option.splits)
qed

section \<open>Deleting an identity\<close>

lemma identityDelete_done:
  assumes "force \<or> (\<forall>h \<in> set (mk_hosts st). mh_identityId h \<noteq> Some i)"
  shows "identityDelete i force st = (\<lparr>dr_deleted = True, dr_dependentHosts = []\<rparr>,
    st\<lparr>mk_identities := drop_rows id_id i (mk_identities st), mk_hosts := map (detach_identity i) (mk_hosts st)\<rparr>)"
proof (cases force)
  case False
  then have none: "\<forall>h \<in> set (mk_hosts st). mh_identityId h \<noteq> Some i" using assms by blast
  then have "filter (\<lambda>h. mh_identityId h = Some i) (mk_hosts st) = []" by (simp add: filter_empty_conv)
  moreover have "map (detach_identity i) (mk_hosts st) = mk_hosts st" using none by (simp add: map_idI detach_identity_def)
  ultimately show ?thesis using False by (simp add: identityDelete_def)
qed (simp add: identityDelete_def Let_def)

lemma detach_others:
  "filter (\<lambda>h. mh_identityId h \<noteq> None) (map (detach_identity i) hs) = filter (\<lambda>h. mh_identityId h \<notin> {None, Some i}) hs"
  by (induction hs) (auto simp: detach_identity_def)

lemma detach_keeps [simp]: "h_id (detach_identity i h) = h_id h" "mh_identityId (detach_identity i h) \<noteq> Some i"
  by (simp_all add: detach_identity_def)

section \<open>Properties\<close>

text \<open>
  C34. Identifiers are never issued twice: whatever operations the user interface calls, in any order,
  the hosts, identities, projects, running sessions and API keys of the in-memory backend have
  different identifiers, and every tag list stays trimmed, without empty tags and without repetition.
\<close>

theorem backend_ids_distinct:
  assumes "mock_step\<^sup>*\<^sup>* mock_init st"
  shows "distinct (map h_id (mk_hosts st)) \<and> distinct (map id_id (mk_identities st)) \<and> distinct (map p_id (mk_projects st))
    \<and> distinct (map r_id (mk_sessions st)) \<and> distinct (map ak_id (mk_apiKeys st)) \<and> list_all (\<lambda>h. tidy (hs_tags h)) (mk_hosts st)"
  using mock_reachable_ok [OF assms]
  unfolding mock_ok_def hosts.issued_def identities.issued_def projects.issued_def sessions.issued_def apiKeys.issued_def list_all_iff
  by blast

theorem backend_ids_distinct_witness:
  "distinct (map h_id (mk_hosts (snd (importSshConfig [js ''a'', js ''a''] (deleteHost (js ''host-vm'') mock_init)))))"
proof -
  have "mock_step\<^sup>*\<^sup>* mock_init (snd (importSshConfig [js ''a'', js ''a''] (deleteHost (js ''host-vm'') mock_init)))"
    by (rule converse_rtranclp_into_rtranclp [where r = mock_step, OF mock_step.intros(9)], rule r_into_rtranclp, rule mock_step.intros(6))
  from backend_ids_distinct [OF this] show ?thesis by blast
qed

text \<open>
  An identity in use is not deleted unless the deletion is forced: then it is reported with
  exactly the hosts that use it and nothing changes. After a deletion no host refers to the identity
  and it is gone; a detached host falls back to its password or to no authentication, and the other
  hosts, identities and collections are as before.
\<close>

theorem identity_delete_safe:
  assumes "identityDelete i force st = (res, st')"
  shows "(if \<not> force \<and> (\<exists>h \<in> set (mk_hosts st). mh_identityId h = Some i)
          then \<not> dr_deleted res \<and> st' = st
            \<and> dr_dependentHosts res = map (\<lambda>h. (h_id h, h_label h)) (filter (\<lambda>h. mh_identityId h = Some i) (mk_hosts st))
          else dr_deleted res
            \<and> (\<forall>h \<in> set (mk_hosts st'). mh_identityId h \<noteq> Some i)
            \<and> find_row id_id i (mk_identities st') = None
            \<and> (\<forall>j. j \<noteq> i \<longrightarrow> find_row id_id j (mk_identities st') = find_row id_id j (mk_identities st))
            \<and> map h_id (mk_hosts st') = map h_id (mk_hosts st)
            \<and> filter (\<lambda>h. mh_identityId h \<noteq> None) (mk_hosts st') = filter (\<lambda>h. mh_identityId h \<notin> {None, Some i}) (mk_hosts st)
            \<and> mk_projects st' = mk_projects st \<and> mk_sessions st' = mk_sessions st \<and> mk_apiKeys st' = mk_apiKeys st)"
proof (cases "\<not> force \<and> (\<exists>h \<in> set (mk_hosts st). mh_identityId h = Some i)")
  case True
  then have "filter (\<lambda>h. mh_identityId h = Some i) (mk_hosts st) \<noteq> []" by (auto simp: filter_empty_conv)
  then have "identityDelete i force st = (\<lparr>dr_deleted = False,
      dr_dependentHosts = map (\<lambda>h. (h_id h, h_label h)) (filter (\<lambda>h. mh_identityId h = Some i) (mk_hosts st))\<rparr>, st)"
    using True by (simp add: identityDelete_def)
  then show ?thesis using assms True by (simp only: if_True prod.inject) auto
next
  case False
  then have "identityDelete i force st = (\<lparr>dr_deleted = True, dr_dependentHosts = []\<rparr>,
      st\<lparr>mk_identities := drop_rows id_id i (mk_identities st), mk_hosts := map (detach_identity i) (mk_hosts st)\<rparr>)"
    by (intro identityDelete_done) blast
  then have "res = \<lparr>dr_deleted = True, dr_dependentHosts = []\<rparr>"
    "st' = st\<lparr>mk_identities := drop_rows id_id i (mk_identities st), mk_hosts := map (detach_identity i) (mk_hosts st)\<rparr>"
    using assms by simp_all
  then show ?thesis
    unfolding if_not_P [OF False] using detach_others [of i "mk_hosts st"] by simp
qed

theorem identity_delete_safe_witness:
  "dr_dependentHosts (fst (identityDelete (js ''id-password'') False mock_init)) = [(js ''host-vps'', js ''VPS NLD'')]"
  using identity_delete_safe [where i = "js ''id-password''" and force = False and st = mock_init, OF prod.collapse [symmetric]]
  by (simp add: mock_init_def fixture_hosts_def js_def)

text \<open>
  C33. Creating a group on the in-memory backend tags exactly the chosen hosts: the loop of calls
  never fails for hosts the backend listed, afterwards every chosen host has the tag once, behind
  its earlier tags, no other tag list has changed, and the user interface shows the new list.
\<close>

theorem group_reaches_its_hosts:
  assumes "mock_step\<^sup>*\<^sup>* mock_init st" "name \<noteq> []" "trim name = name" "distinct ids"
  shows "\<exists>st'. createGroup setHostTags (\<lambda>b. Inr (listHosts b)) (listHosts st) name ids st = ((listHosts st', None), st')
    \<and> (\<forall>i. map_option hs_tags (find_row h_id i (listHosts st'))
           = (if i \<in> set ids then map_option (\<lambda>h. if name \<in> set (hs_tags h) then hs_tags h else hs_tags h @ [name]) (find_row h_id i (listHosts st))
              else map_option hs_tags (find_row h_id i (listHosts st))))"
  by (rule group_tags [OF mock_reachable_ok [OF assms(1)] assms(2-4)])

theorem group_reaches_its_hosts_witness:
  "\<exists>st'. createGroup setHostTags (\<lambda>b. Inr (listHosts b)) (listHosts mock_init) (js ''lab'') [js ''host-pi'', js ''host-lab''] mock_init
           = ((listHosts st', None), st')"
proof -
  have "trim (js ''lab'') = js ''lab''" "js ''lab'' \<noteq> []" "distinct [js ''host-pi'', js ''host-lab'']"
    by (simp_all add: js_def trim_def trimStart_def trimEnd_def is_ws_def)
  from group_reaches_its_hosts [OF rtranclp.rtrancl_refl this(2,1,3)] show ?thesis by blast
qed

end
