(* ===== verification/MockTerminal.thy ===== *)
theory MockTerminal
  imports MockVault Commands PromptPanel
begin

text \<open>
  Terminals of the in-memory backend (src/apps/ui/src/lib/ipc.mock.ts): sessions and their tunnels, the
  replay hook that splits captured output at the block marks as the Rust output pump does, the echo of
  input, the scripted session of the fixture, and the small file system behind the local pane.
\<close>

section \<open>State\<close>

record tunnel_status =
  ts_sessionId :: session_id
  ts_tunnelId :: jsstr
  ts_label :: jsstr
  ts_direction :: jsstr
  ts_bindPort :: int
  ts_targetHost :: jsstr
  ts_targetPort :: int
  ts_autoStart :: bool
  ts_allowLan :: bool
  ts_state :: jsstr
  ts_boundPort :: "int option"
  ts_error :: "jsstr option"
  ts_localUrl :: "jsstr option"

text \<open>The runtime tunnels are a \<^verbatim>\<open>Map\<close>: pairs in the order of insertion.\<close>

record mock_io =
  io_state :: mock
  io_tunnels :: "(jsstr \<times> tunnel_status) list"
  io_lastTerminal :: session_id
  io_feedBuf :: jsstr
  io_feedIdx :: nat
  io_events :: "(session_id \<times> terminal_event) list"
  io_tunnelEvents :: "tunnel_status list"

definition emitTerminal :: "session_id \<Rightarrow> terminal_event list \<Rightarrow> mock_io \<Rightarrow> mock_io" where
  "emitTerminal sid evs s = s\<lparr>io_events := io_events s @ map (Pair sid) evs\<rparr>"

section \<open>The replay hook\<close>

text \<open>\<^verbatim>\<open>/\x1b\]133;([A-Za-z])((?:;[^\x07\x1b]*)?)(?:\x07|\x1b\\)/g\<close>\<close>

definition FEED_MARK :: re where
  [js_eval]: "FEED_MARK =
     seqs [chr 27, lit '']133;'', Grp 1 (CC is_alpha),
           Grp 2 (ropt (Seq (chr 59) (Star (CC (\<lambda>c. c \<noteq> 7 \<and> c \<noteq> 27))))),
           Alt (chr 7) (Seq (chr 27) (chr 92))]"

text \<open>\<^verbatim>\<open>/^\x1b(?:\](?:1(?:3(?:3(?:;.*)?)?)?)?)?$/\<close>\<close>

definition SPLIT_MARK :: re where
  [js_eval]: "SPLIT_MARK =
     seqs [Bol, chr 27,
           ropt (Seq (chr 93) (ropt (Seq (chr 49) (ropt (Seq (chr 51) (ropt (Seq (chr 51)
             (ropt (Seq (chr 59) (Star (CC is_dot))))))))))), Eol]"

definition feed_phase :: "jsstr \<Rightarrow> jsstr option" where
  "feed_phase letter =
     (if letter = js ''A'' \<or> letter = js ''a'' then Some (js ''promptStart'')
      else if letter = js ''B'' \<or> letter = js ''b'' then Some (js ''commandStart'')
      else if letter = js ''C'' \<or> letter = js ''c'' then Some (js ''outputStart'')
      else if letter = js ''D'' \<or> letter = js ''d'' then Some (js ''commandEnd'')
      else None)"

definition capture :: "nat \<Rightarrow> mst \<Rightarrow> jsstr" where
  "capture n m = (case map_of (caps_of m) n of Some t \<Rightarrow> t | None \<Rightarrow> [])"

definition mark_events :: "mst \<Rightarrow> terminal_event list" where
  "mark_events m =
     (case feed_phase (capture 1 m) of None \<Rightarrow> []
      | Some phase \<Rightarrow>
          [BlockEvent phase (if phase = js ''commandEnd'' \<and> capture 2 m \<noteq> [] then parseInt10 (drop 1 (capture 2 m)) else None)])"

definition data_event :: "jsstr \<Rightarrow> terminal_event list" where
  "data_event segment = (if segment \<noteq> [] then [DataEvent (b64_encode segment) False] else [])"

lemma exec_split:
  assumes "exec_from re i r = Some (j, m)"
  shows "\<exists>pre u. r = pre @ u @ rest_of m \<and> pos_of m = i + length pre + length u"
proof -
  obtain k where k: "j = i + k" "k \<le> length r" "m \<in> set (rm re (j, drop k r, []))" using exec_from_Some [OF assms] by blast
  obtain u where u: "drop k r = u @ rest_of m" "pos_of m = j + length u" using rm_rest_suffix [OF k(3)] by blast
  have "r = take k r @ u @ rest_of m" by (metis append_take_drop_id u(1))
  then show ?thesis using k u by (intro exI [of _ "take k r"] exI [of _ u]) simp
qed

lemma mark_consumes:
  assumes "exec_from FEED_MARK 0 r = Some (j, m)"
  shows "r = take (pos_of m) r @ rest_of m \<and> 0 < pos_of m"
proof -
  have "needs (\<lambda>c. c = 27) FEED_MARK" by (simp add: FEED_MARK_def seqs_def chr_def)
  obtain k where k: "j = 0 + k" "k \<le> length r" "m \<in> set (rm FEED_MARK (j, drop k r, []))" using exec_from_Some [OF assms] by blast
  from rm_needs [OF \<open>needs (\<lambda>c. c = 27) FEED_MARK\<close> k(3)] obtain u where u: "consumed (j, drop k r, []) m u" "27 \<in> set u" by auto
  then have "pos_of m = k + length u" "drop k r = u @ rest_of m" "u \<noteq> []" using k(1) by (auto simp: consumed_def)
  moreover from this have "r = take k r @ u @ rest_of m" by (metis append_take_drop_id)
  ultimately show ?thesis using k(2) by (auto simp: take_add dest: arg_cong [where f = "take (k + length u)"])
qed

text \<open>The loop over the marks: the events up to the last mark, and what follows it.\<close>

function feed_marks :: "jsstr \<Rightarrow> terminal_event list \<times> jsstr" where
  "feed_marks pend =
     (case exec_from FEED_MARK 0 pend of
        None \<Rightarrow> ([], pend)
      | Some (j, m) \<Rightarrow>
          let (evs, tail) = feed_marks (rest_of m)
          in (data_event (take (pos_of m) pend) @ mark_events m @ evs, tail))"
  by pat_completeness auto
termination
proof (relation "measure length")
  fix pend :: jsstr and x j m
  assume "exec_from FEED_MARK 0 pend = Some x" "(j, m) = x"
  then have "pend = take (pos_of m) pend @ rest_of m" "0 < pos_of m" using mark_consumes by blast+
  then have "length (rest_of m) < length pend \<or> pend = []"
    by (metis append_eq_append_conv2 length_append length_greater_0_conv less_add_same_cancel2 take_eq_Nil less_numeral_extra(3))
  moreover have "pend \<noteq> []" using \<open>exec_from FEED_MARK 0 pend = Some x\<close> by (auto simp: FEED_MARK_def seqs_def chr_def)
  ultimately show "(rest_of m, pend) \<in> measure length" by simp
qed simp

declare feed_marks.simps [simp del]

text \<open>What is held back at the end: an escape that may begin a mark, at most 24 bytes.\<close>

definition held_from :: "jsstr \<Rightarrow> nat" where
  "held_from tail =
     (case Projects.lastIndexOf 27 tail of
        None \<Rightarrow> length tail
      | Some escIdx \<Rightarrow>
          if length tail - escIdx \<le> 24 \<and> re_test SPLIT_MARK (drop escIdx tail) then escIdx else length tail)"

text \<open>\<^verbatim>\<open>__tethraFeedB64\<close>; the result is \<open>None\<close> when \<^verbatim>\<open>atob\<close> throws.\<close>

definition feedB64 :: "jsstr \<Rightarrow> mock_io \<Rightarrow> bool option \<times> mock_io" where
  "feedB64 b64 s =
     (if io_lastTerminal s = [] then (Some False, s)
      else case atob b64 of
        None \<Rightarrow> (None, s)
      | Some bytes \<Rightarrow>
          let buf = io_feedBuf s @ bytes;
              pend = drop (io_feedIdx s) buf;
              (evs, tail) = feed_marks pend;
              flushable = take (held_from tail) tail
          in (Some True, emitTerminal (io_lastTerminal s) (evs @ data_event flushable)
                (s\<lparr>io_feedBuf := buf, io_feedIdx := io_feedIdx s + (length pend - length tail) + length flushable\<rparr>)))"

section \<open>Tunnels\<close>

definition tunnel_key :: "session_id \<Rightarrow> jsstr \<Rightarrow> jsstr" where
  "tunnel_key sid tid = sid @ js '':'' @ tid"

definition tunnelStatusFromDef :: "session_id \<Rightarrow> tunnel_def \<Rightarrow> tunnel_status" where
  "tunnelStatusFromDef sid d =
     \<lparr>ts_sessionId = sid, ts_tunnelId = td_id d, ts_label = td_label d, ts_direction = td_direction d, ts_bindPort = td_bindPort d,
      ts_targetHost = td_targetHost d, ts_targetPort = td_targetPort d, ts_autoStart = td_autoStart d, ts_allowLan = td_allowLan d,
      ts_state = js ''stopped'', ts_boundPort = None, ts_error = None, ts_localUrl = None\<rparr>"

definition local_url :: "jsstr \<Rightarrow> int \<Rightarrow> jsstr option" where
  "local_url direction port =
     (if direction = js ''local'' then Some (js ''http://localhost:'' @ show_int port) else None)"

definition initial_status :: "session_id \<Rightarrow> tunnel_def \<Rightarrow> tunnel_status" where
  "initial_status sid d =
     (if td_autoStart d then
        (tunnelStatusFromDef sid d)\<lparr>ts_state := js ''active'', ts_boundPort := Some (td_bindPort d),
                                   ts_localUrl := local_url (td_direction d) (td_bindPort d)\<rparr>
      else
        (tunnelStatusFromDef sid d)\<lparr>ts_state := (if td_id d = js ''tun-remote-ssh'' then js ''error'' else js ''stopped''),
                                   ts_error := (if td_id d = js ''tun-remote-ssh'' then Some (js ''Remote bind refused (fixture)'') else None)\<rparr>)"

text \<open>\<^verbatim>\<open>Map.prototype.set\<close>: a known key keeps its place.\<close>

definition map_set :: "jsstr \<Rightarrow> 'v \<Rightarrow> (jsstr \<times> 'v) list \<Rightarrow> (jsstr \<times> 'v) list" where
  "map_set k v m = (if k \<in> fst ` set m then map (\<lambda>(k', v'). (k', if k' = k then v else v')) m else m @ [(k, v)])"

definition ensureSessionTunnels :: "session_id \<Rightarrow> jsstr \<Rightarrow> mock_io \<Rightarrow> mock_io" where
  "ensureSessionTunnels sid hostId s =
     (case find_row h_id hostId (mk_hosts (io_state s)) of None \<Rightarrow> s
      | Some h \<Rightarrow>
          s\<lparr>io_tunnels := foldl (\<lambda>m d. if tunnel_key sid (td_id d) \<in> fst ` set m then m
                                       else map_set (tunnel_key sid (td_id d)) (initial_status sid d) m)
                         (io_tunnels s) (mh_tunnels h)\<rparr>)"

definition tunnelList :: "session_id \<Rightarrow> mock_io \<Rightarrow> tunnel_status list" where
  "tunnelList sid s = filter (\<lambda>t. ts_sessionId t = sid) (map snd (io_tunnels s))"

definition tunnel_change :: "(tunnel_status \<Rightarrow> tunnel_status) \<Rightarrow> session_id \<Rightarrow> jsstr \<Rightarrow> mock_io \<Rightarrow> (jsstr + tunnel_status) \<times> mock_io" where
  "tunnel_change f sid tid s =
     (case map_of (io_tunnels s) (tunnel_key sid tid) of
        None \<Rightarrow> (Inl (js ''Tunnel not found''), s)
      | Some prev \<Rightarrow>
          (Inr (f prev), s\<lparr>io_tunnels := map_set (tunnel_key sid tid) (f prev) (io_tunnels s),
                           io_tunnelEvents := io_tunnelEvents s @ [f prev]\<rparr>))"

definition tunnelStart :: "session_id \<Rightarrow> jsstr \<Rightarrow> mock_io \<Rightarrow> (jsstr + tunnel_status) \<times> mock_io" where
  "tunnelStart = tunnel_change (\<lambda>t. t\<lparr>ts_state := js ''active'', ts_boundPort := Some (ts_bindPort t), ts_error := None,
                                     ts_localUrl := local_url (ts_direction t) (ts_bindPort t)\<rparr>)"

definition tunnelStop :: "session_id \<Rightarrow> jsstr \<Rightarrow> mock_io \<Rightarrow> (jsstr + tunnel_status) \<times> mock_io" where
  "tunnelStop = tunnel_change (\<lambda>t. t\<lparr>ts_state := js ''stopped'', ts_boundPort := None, ts_localUrl := None, ts_error := None\<rparr>)"

section \<open>Terminals\<close>

definition b64Terminal :: "jsstr \<Rightarrow> jsstr" where
  "b64Terminal t = b64_encode (utf8_encode t)"

record opened_mock =
  om_sessionId :: session_id
  om_agentForward :: jsstr
  om_agentForwardHint :: "jsstr option"

text \<open>\<open>now\<close> is the current time as an ISO string; the scripted session starts later, by a microtask.\<close>

definition openTerminal :: "jsstr \<Rightarrow> jsstr \<Rightarrow> mock_io \<Rightarrow> opened_mock \<times> mock_io" where
  "openTerminal now hostId s =
     (let (sid, st) = uid (js ''term'') (io_state s);
          s = ensureSessionTunnels sid hostId (s\<lparr>io_state := st, io_lastTerminal := sid, io_feedBuf := [], io_feedIdx := 0\<rparr>);
          forward = (case find_row h_id hostId (mk_hosts st) of Some h \<Rightarrow> mh_forwardAgent h | None \<Rightarrow> False)
      in (\<lparr>om_sessionId = sid, om_agentForward = (if forward then js ''active'' else js ''off''),
           om_agentForwardHint = (if forward then Some (js ''Agent forwarding active (mock)'') else None)\<rparr>,
          s\<lparr>io_state := st\<lparr>mk_hosts := update_first (\<lambda>h. h_id h = hostId) (\<lambda>h. h\<lparr>h_lastConnectedAt := Some now\<rparr>) (mk_hosts st)\<rparr>\<rparr>))"

text \<open>The prompt of a local shell is sent as plain text, not in base64.\<close>

definition local_prompt :: jsstr where
  "local_prompt = [13, 10, 27] @ js ''[36mmock-local'' @ [27] @ js ''[0m$ ''"

definition openLocalTerminal :: "mock_io \<Rightarrow> session_id \<times> mock_io" where
  "openLocalTerminal s = (let (sid, st) = uid (js ''local'') (io_state s) in (sid, s\<lparr>io_state := st\<rparr>))"

definition local_started :: "session_id \<Rightarrow> mock_io \<Rightarrow> mock_io" where
  "local_started sid s = emitTerminal sid [DataEvent local_prompt False] s"

text \<open>\<open>txt\<close> is the decoded input.\<close>

definition sendTerminalInput :: "session_id \<Rightarrow> jsstr \<Rightarrow> mock_io \<Rightarrow> mock_io" where
  "sendTerminalInput sid txt s =
     emitTerminal sid
       (DataEvent (b64Terminal txt) False #
        (if 13 \<in> set txt \<or> 10 \<in> set txt then [DataEvent (b64Terminal ([13, 10] @ js ''ok'' @ [13, 10] @ js ''$ '')) False] else [])) s"

definition closeTerminal :: "session_id \<Rightarrow> mock_io \<Rightarrow> mock_io" where
  "closeTerminal sid s =
     (let s = emitTerminal sid [ClosedEvent] s
      in s\<lparr>io_tunnels := filter (\<lambda>(k, t). \<not> startsWith k (tunnel_key sid [])) (io_tunnels s)\<rparr>)"

definition terminalSessionAlive :: "session_id \<Rightarrow> bool" where
  "terminalSessionAlive sid \<longleftrightarrow> startsWith sid (js ''term-'') \<or> startsWith sid (js ''local-'')"

text \<open>The scripted session: pauses in milliseconds and events, in order.\<close>

datatype script_step = Sleep nat | Emit terminal_event

definition say :: "jsstr \<Rightarrow> script_step list" where
  "say t = [Emit (DataEvent (b64Terminal t) False)]"

definition mark :: "string \<Rightarrow> int option \<Rightarrow> script_step list" where
  "mark phase e = [Emit (BlockEvent (js phase) e)]"

definition MOCK_PROMPT :: jsstr where
  "MOCK_PROMPT = [27] @ js ''[32manthony@tethra-vm'' @ [27] @ js ''[0m:'' @ [27] @ js ''[34m~/srv/tethra'' @ [27] @ js ''[0m$ ''"

definition CRLF :: jsstr where
  "CRLF = [13, 10]"

definition prompt_script :: "jsstr \<Rightarrow> script_step list" where
  "prompt_script cmd =
     say (CRLF @ MOCK_PROMPT) @ [Sleep 120] @ mark ''promptStart'' None @ mark ''commandStart'' None @ [Sleep 50]
     @ say (cmd @ CRLF) @ [Sleep 80] @ mark ''outputStart'' None"

definition session_fixture :: "script_step list" where
  "session_fixture =
     [Sleep 80]
     @ say ([27] @ js '']7;file://tethra-vm/home/anthony/srv/tethra'' @ [7] @ [27] @ js '']133;G;main'' @ [7])
     @ [Sleep 40]
     @ prompt_script (js ''git status'') @ say (js ''On branch main'' @ CRLF @ js ''nothing to commit, working tree clean'' @ CRLF)
     @ [Sleep 80] @ mark ''commandEnd'' (Some 0)
     @ [Sleep 60]
     @ prompt_script (js ''npm test'') @ say (js ''FAIL src/app.test.ts'' @ CRLF @ js ''Tests: 0 passed, 1 failed'' @ CRLF)
     @ [Sleep 80] @ mark ''commandEnd'' (Some 1)
     @ [Sleep 60]
     @ prompt_script (js ''npm install'')
     @ say (concat (map (\<lambda>i. js ''added package-'' @ show_nat (i + 1) @ js ''@1.0.0'' @ CRLF) [0..<85]))
     @ [Sleep 150] @ mark ''commandEnd'' (Some 0)
     @ [Sleep 60]
     @ prompt_script (js ''claude'')
     @ say (js ''Agent running '' @ [8212] @ js '' waiting for approval'' @ [8230] @ CRLF)
     @ [Sleep 100]
     @ [Emit (AttentionEvent Waiting (Some (js ''Approve file edit in src/lib.rs'')) (js ''osc''))]"

section \<open>Local files\<close>

record file_entry =
  fe_name :: jsstr
  fe_path :: jsstr
  fe_type :: jsstr
  fe_size :: "nat option"
  fe_modified :: "nat option"

type_synonym local_fs = "(jsstr \<times> file_entry list) list"

text \<open>\<^verbatim>\<open>/\/[^/]+$/\<close>\<close>

definition LAST_PART :: re where
  [js_eval]: "LAST_PART = seqs [chr 47, rplus (CC (\<lambda>c. c \<noteq> 47)), Eol]"

definition localFs :: local_fs where
  "localFs =
     [(js ''/Users/mock'',
       [\<lparr>fe_name = js ''Documents'', fe_path = js ''/Users/mock/Documents'', fe_type = js ''dir'', fe_size = None, fe_modified = Some 1700000000\<rparr>,
        \<lparr>fe_name = js ''notes.txt'', fe_path = js ''/Users/mock/notes.txt'', fe_type = js ''file'', fe_size = Some 128, fe_modified = Some 1700000100\<rparr>]),
      (js ''/Users/mock/Documents'',
       [\<lparr>fe_name = js ''readme.md'', fe_path = js ''/Users/mock/Documents/readme.md'', fe_type = js ''file'', fe_size = Some 64, fe_modified = Some 1700000200\<rparr>])]"

definition entries_of :: "jsstr \<Rightarrow> local_fs \<Rightarrow> file_entry list" where
  "entries_of path fs = (case map_of fs path of Some es \<Rightarrow> es | None \<Rightarrow> [])"

definition localList :: "jsstr \<Rightarrow> local_fs \<Rightarrow> file_entry list" where
  "localList path fs = entries_of path fs"

definition localMkdir :: "jsstr \<Rightarrow> local_fs \<Rightarrow> local_fs" where
  "localMkdir path fs =
     (let cut = replace_first LAST_PART [] path;
          parent = (if cut \<noteq> [] then cut else js ''/'');
          entry = \<lparr>fe_name = last (split_on 47 path), fe_path = path, fe_type = js ''dir'', fe_size = None, fe_modified = Some 1700000300\<rparr>
      in map_set path [] (map_set parent (entries_of parent fs @ [entry]) fs))"

text \<open>The entry is renamed in the first directory that lists it.\<close>

fun localRename :: "jsstr \<Rightarrow> jsstr \<Rightarrow> local_fs \<Rightarrow> local_fs" where
  "localRename old new [] = []"
| "localRename old new ((dir, es) # fs) =
     (if \<exists>e \<in> set es. fe_path e = old
      then (dir, update_first (\<lambda>e. fe_path e = old) (\<lambda>e. e\<lparr>fe_name := last (split_on 47 new), fe_path := new\<rparr>) es) # fs
      else (dir, es) # localRename old new fs)"

definition localRemove :: "jsstr \<Rightarrow> local_fs \<Rightarrow> local_fs" where
  "localRemove path fs =
     filter (\<lambda>(dir, es). dir \<noteq> path) (map (\<lambda>(dir, es). (dir, filter (\<lambda>e. fe_path e \<noteq> path) es)) fs)"

definition openSftp :: "jsstr \<Rightarrow> mock_io \<Rightarrow> (session_id \<times> jsstr) \<times> mock_io" where
  "openSftp hostId s =
     (let (sid, st) = uid (js ''sftp-'' @ hostId) (io_state s) in ((sid, js ''/home/deploy''), s\<lparr>io_state := st\<rparr>))"

text \<open>\<^verbatim>\<open>/\/$/\<close>\<close>

definition remote_child :: "jsstr \<Rightarrow> jsstr \<Rightarrow> jsstr" where
  "remote_child path name = replace_first (seqs [chr 47, Eol]) [] path @ js ''/'' @ name"

definition sftpRemoteList :: "jsstr \<Rightarrow> file_entry list" where
  "sftpRemoteList path =
     [\<lparr>fe_name = js ''app'', fe_path = remote_child path (js ''app''), fe_type = js ''dir'', fe_size = None, fe_modified = Some 1700000400\<rparr>,
      \<lparr>fe_name = js ''.bashrc'', fe_path = remote_child path (js ''.bashrc''), fe_type = js ''file'', fe_size = Some 256, fe_modified = Some 1700000500\<rparr>]"

definition sftpRemoteCreateDirEntry :: "jsstr \<Rightarrow> jsstr \<Rightarrow> file_entry" where
  "sftpRemoteCreateDirEntry parent name =
     \<lparr>fe_name = name, fe_path = remote_child parent name, fe_type = js ''dir'', fe_size = None, fe_modified = Some 1700000600\<rparr>"

section \<open>What the replay hook emits\<close>

lemma payloads_append: "payloads (xs @ ys) = payloads xs @ payloads ys"
  by (simp add: payloads_def map_filter_def)

lemma payloads_data_event: "payloads (data_event x) = (if x = [] then [] else [b64_encode x])"
  by (simp add: payloads_def data_event_def map_filter_def)

lemma payloads_mark: "payloads (mark_events m) = []"
  by (simp add: payloads_def mark_events_def map_filter_def split: option.splits)

lemma feed_marks_segments:
  "feed_marks r = (evs, tail) \<Longrightarrow> \<exists>segs. payloads evs = map b64_encode segs \<and> r = concat segs @ tail"
proof (induction r arbitrary: evs tail rule: feed_marks.induct)
  case (1 r)
  show ?case
  proof (cases "exec_from FEED_MARK 0 r")
    case None
    then show ?thesis using "1.prems" by (subst (asm) feed_marks.simps) (auto simp: payloads_def map_filter_def intro: exI [of _ "[]"])
  next
    case (Some x)
    obtain j m where x: "x = (j, m)" by (cases x)
    obtain evs' where rest: "feed_marks (rest_of m) = (evs', tail)" "evs = data_event (take (pos_of m) r) @ mark_events m @ evs'"
      using "1.prems" Some x by (subst (asm) feed_marks.simps) (auto split: prod.splits)
    from "1.IH" [OF Some x [symmetric] rest(1)] obtain segs where segs: "payloads evs' = map b64_encode segs" "rest_of m = concat segs @ tail" by blast
    have m: "r = take (pos_of m) r @ rest_of m" "take (pos_of m) r \<noteq> []"
      using mark_consumes Some x by (auto simp: FEED_MARK_def seqs_def chr_def)
    have "payloads evs = map b64_encode (take (pos_of m) r # segs)"
      using rest(2) segs(1) m(2) by (simp add: payloads_append payloads_data_event payloads_mark)
    moreover have "r = concat (take (pos_of m) r # segs) @ tail" using m(1) segs(2) by simp
    ultimately show ?thesis by blast
  qed
qed

lemma held_from_le: "held_from tail \<le> length tail"
  by (auto simp: held_from_def Projects.lastIndexOf_def split: option.splits)

lemma held_short: "drop (held_from tail) tail = [] \<or> hd (drop (held_from tail) tail) = 27 \<and> length (drop (held_from tail) tail) \<le> 24"
proof (cases "Projects.lastIndexOf 27 tail")
  case (Some e)
  have "drop e tail \<noteq> [] \<Longrightarrow> re_test SPLIT_MARK (drop e tail) \<Longrightarrow> hd (drop e tail) = 27"
    by (cases "drop e tail") (auto simp: SPLIT_MARK_def seqs_def re_test_Bol chr_def split: if_splits)
  then show ?thesis using Some by (auto simp: held_from_def)
qed (simp add: held_from_def)

text \<open>The state of a replay: what was emitted is a prefix of what was fed, cut into the events' data.\<close>

definition replayed :: "session_id \<Rightarrow> jsstr \<Rightarrow> mock_io \<Rightarrow> bool" where
  "replayed sid fed s \<longleftrightarrow> io_lastTerminal s = sid \<and> io_feedBuf s = fed \<and> io_feedIdx s \<le> length fed
     \<and> (\<exists>segs. payloads (map snd (io_events s)) = map b64_encode segs \<and> concat segs = take (io_feedIdx s) fed)
     \<and> (drop (io_feedIdx s) fed = [] \<or> hd (drop (io_feedIdx s) fed) = 27 \<and> length (drop (io_feedIdx s) fed) \<le> 24)"

lemma split_at: "xs = ys @ zs \<Longrightarrow> length ys = n \<Longrightarrow> take n xs = ys \<and> drop n xs = zs"
  by auto

lemma feed_replays:
  assumes s: "replayed sid fed s" and sid: "sid \<noteq> []" and b: "atob b64 = Some bytes"
  shows "fst (feedB64 b64 s) = Some True \<and> replayed sid (fed @ bytes) (snd (feedB64 b64 s))"
proof -
  let ?idx = "io_feedIdx s" and ?pend = "drop (io_feedIdx s) (fed @ bytes)"
  obtain evs tail where m: "feed_marks ?pend = (evs, tail)" by (cases "feed_marks ?pend")
  obtain segs where segs: "payloads evs = map b64_encode segs" "?pend = concat segs @ tail" using feed_marks_segments [OF m] by blast
  obtain old where old: "payloads (map snd (io_events s)) = map b64_encode old" "concat old = take ?idx fed"
    using s by (auto simp: replayed_def)
  let ?fl = "take (held_from tail) tail"
  let ?idx' = "?idx + (length ?pend - length tail) + length ?fl"
  have s': "snd (feedB64 b64 s) = emitTerminal sid (evs @ data_event ?fl) (s\<lparr>io_feedBuf := fed @ bytes, io_feedIdx := ?idx'\<rparr>)"
      "fst (feedB64 b64 s) = Some True"
    using s sid b m by (simp_all add: feedB64_def replayed_def Let_def)
  have le: "?idx \<le> length fed" using s by (simp add: replayed_def)
  have idx': "?idx' = ?idx + length (concat segs) + length ?fl" using segs(2) by simp
  have "fed @ bytes = take ?idx fed @ (drop ?idx fed @ bytes)" by (simp only: append_assoc [symmetric] append_take_drop_id)
  also have "drop ?idx fed @ bytes = ?pend" using le by simp
  also have "\<dots> = concat segs @ ?fl @ drop (held_from tail) tail" unfolding segs(2) by simp
  finally have whole: "fed @ bytes = take ?idx fed @ concat segs @ ?fl @ drop (held_from tail) tail" .
  have len: "length (take ?idx fed) = ?idx" using le by simp
  have cut: "length (take ?idx fed @ concat segs @ ?fl) = ?idx'" unfolding idx' using len by simp
  have "fed @ bytes = (take ?idx fed @ concat segs @ ?fl) @ drop (held_from tail) tail" using whole by simp
  note split_at [OF this cut]
  then have taken: "take ?idx' (fed @ bytes) = take ?idx fed @ concat segs @ ?fl"
    and left: "drop ?idx' (fed @ bytes) = drop (held_from tail) tail" by blast+
  define s1 where "s1 = snd (feedB64 b64 s)"
  have fields: "io_lastTerminal s1 = sid" "io_feedBuf s1 = fed @ bytes" "io_feedIdx s1 = ?idx'"
    "map snd (io_events s1) = map snd (io_events s) @ evs @ data_event ?fl"
    using s unfolding s1_def s' by (simp_all add: emitTerminal_def replayed_def comp_def)
  define all where "all = old @ segs @ (if ?fl = [] then [] else [?fl])"
  have "payloads (map snd (io_events s1)) = map b64_encode all"
    unfolding fields all_def using old(1) segs(1) by (simp add: payloads_append payloads_data_event)
  moreover have "concat all = take (io_feedIdx s1) (fed @ bytes)"
    unfolding fields taken all_def using old(2) by simp
  moreover have "io_feedIdx s1 \<le> length (fed @ bytes)"
    unfolding fields by (metis cut length_take min.cobounded1 taken)
  moreover have "drop (io_feedIdx s1) (fed @ bytes) = drop (held_from tail) tail" unfolding fields left ..
  ultimately have "replayed sid (fed @ bytes) s1"
    unfolding replayed_def using held_short [of tail] fields(1,2) by metis
  then show ?thesis using s'(2) unfolding s1_def by blast
qed

section \<open>Recognising marks\<close>

lemma rm_Star_CC_hd:
  "list_all p ds \<Longrightarrow> \<not> p c \<Longrightarrow> \<exists>ms. rm (Star (CC p)) (i, ds @ c # r, cs) = (i + length ds, c # r, cs) # ms"
proof (induction ds arbitrary: i)
  case Nil
  then show ?case by (subst rm.simps(5)) simp
next
  case (Cons d ds)
  have "\<exists>ms. rm (Star (CC p)) (Suc i, ds @ c # r, cs) = (Suc i + length ds, c # r, cs) # ms"
    using Cons.prems by (intro Cons.IH) simp_all
  then obtain ms where "rm (Star (CC p)) (Suc i, ds @ c # r, cs) = (Suc i + length ds, c # r, cs) # ms" by blast
  then show ?case using Cons.prems by (subst rm.simps(5)) simp
qed

text \<open>A mark with a letter and, possibly, a parameter, ended by the bell.\<close>

definition mark_text :: "nat \<Rightarrow> jsstr \<Rightarrow> jsstr" where
  "mark_text letter param = 27 # js '']133;'' @ letter # (if param = [] then [] else 59 # param) @ [7]"

lemma rm_mark:
  assumes "is_alpha letter" "list_all (\<lambda>c. c \<noteq> 7 \<and> c \<noteq> 27) param"
  shows "\<exists>ms. rm FEED_MARK (i, mark_text letter param @ r, []) =
    (i + length (mark_text letter param), r, [(2, if param = [] then [] else 59 # param), (1, [letter])]) # ms"
proof (cases "param = []")
  case True
  then show ?thesis using assms(1)
    by (simp add: FEED_MARK_def mark_text_def seqs_def chr_def lit_def ropt_def js_def rm.simps(4))
next
  case False
  obtain ms where ms: "rm (Star (CC (\<lambda>c. c \<noteq> 7 \<and> c \<noteq> 27))) (i + 8, param @ 7 # r, [(1, [letter])]) =
      (i + 8 + length param, 7 # r, [(1, [letter])]) # ms"
    using rm_Star_CC_hd [OF assms(2), of 7 "i + 8" r] by auto
  then show ?thesis using assms(1) False
    by (simp add: FEED_MARK_def mark_text_def seqs_def chr_def lit_def ropt_def js_def rm.simps(4) numeral_eq_Suc add.commute)
qed

lemma needs_mark: "needs (\<lambda>c. c = 27) FEED_MARK"
  by (simp add: FEED_MARK_def seqs_def chr_def)

lemma rm_mark_other: "c \<noteq> 27 \<Longrightarrow> rm FEED_MARK (i, c # r, []) = []"
  by (simp add: FEED_MARK_def seqs_def chr_def)

lemma exec_skip: "27 \<notin> set t \<Longrightarrow> exec_from FEED_MARK i (t @ r) = exec_from FEED_MARK (i + length t) r"
  by (induction t arbitrary: i) (simp_all add: rm_mark_other)

lemma feed_marks_plain:
  assumes "27 \<notin> set t"
  shows "feed_marks t = ([], t)"
proof -
  have "exec_from FEED_MARK 0 t = None" by (rule exec_from_needs [OF needs_mark]) (use assms in auto)
  then show ?thesis by (subst feed_marks.simps) simp
qed

lemma feed_marks_mark:
  assumes "27 \<notin> set t" "is_alpha letter" "list_all (\<lambda>c. c \<noteq> 7 \<and> c \<noteq> 27) param" "feed_marks r = (evs, tail)"
  shows "feed_marks (t @ mark_text letter param @ r) =
    (DataEvent (b64_encode (t @ mark_text letter param)) False #
       (case feed_phase [letter] of None \<Rightarrow> []
        | Some phase \<Rightarrow> [BlockEvent phase (if phase = js ''commandEnd'' \<and> param \<noteq> [] then parseInt10 param else None)]) @ evs, tail)"
proof -
  let ?m = "(length t + length (mark_text letter param), r, [(2, if param = [] then [] else 59 # param), (1, [letter])])"
  obtain ms where ms: "rm FEED_MARK (length t, mark_text letter param @ r, []) = ?m # ms" using rm_mark [OF assms(2,3)] by blast
  have "mark_text letter param @ r = 27 # tl (mark_text letter param) @ r" by (simp add: mark_text_def)
  then have "exec_from FEED_MARK (length t) (mark_text letter param @ r) = Some (length t, ?m)"
    using ms by (metis (no_types, lifting) exec_from.simps(2) list.simps(5))
  then have ex: "exec_from FEED_MARK 0 (t @ mark_text letter param @ r) = Some (length t, ?m)" using exec_skip [OF assms(1)] by simp
  have ne: "t @ mark_text letter param \<noteq> []" by (simp add: mark_text_def)
  have cap: "capture 1 ?m = [letter]" "capture 2 ?m = (if param = [] then [] else 59 # param)" by (simp_all add: capture_def)
  have "mark_events ?m = (case feed_phase [letter] of None \<Rightarrow> []
        | Some phase \<Rightarrow> [BlockEvent phase (if phase = js ''commandEnd'' \<and> param \<noteq> [] then parseInt10 param else None)])"
    unfolding mark_events_def cap by (simp split: option.split)
  then show ?thesis
    using assms(4) ne by (subst feed_marks.simps) (simp add: ex data_event_def)
qed

lemma parseInt10_show: "parseInt10 (show_nat n) = Some (int n)"
proof -
  have d: "\<forall>c \<in> set (show_nat n). is_digit c" using show_nat_digits by (auto simp: is_digit_def)
  obtain c s where s: "show_nat n = c # s" by (cases "show_nat n") simp_all
  have c: "48 \<le> c" "c \<le> 57" using show_nat_digits [of c n] s by auto
  then have "\<not> is_ws c" "c \<noteq> 45" "c \<noteq> 43" by (auto simp: is_ws_def)
  then have t: "trimStart (show_nat n) = show_nat n" "hd (show_nat n) \<noteq> 45" "hd (show_nat n) \<noteq> 43" by (simp_all add: trimStart_def s)
  have tw: "takeWhile is_digit (show_nat n) = show_nat n" using d by (simp add: takeWhile_eq_all_conv)
  show ?thesis unfolding parseInt10_def Let_def t(1) using t(2,3) by (simp add: tw read_show_nat del: takeWhile_eq_all_conv)
qed

text \<open>Output with the four marks of a command in it, the last with the exit code.\<close>

datatype shell_mark = PromptStart | CommandStart | OutputStart | CommandEnd nat

fun render_mark :: "shell_mark \<Rightarrow> jsstr" where
  "render_mark PromptStart = mark_text 65 []"
| "render_mark CommandStart = mark_text 66 []"
| "render_mark OutputStart = mark_text 67 []"
| "render_mark (CommandEnd n) = mark_text 68 (show_nat n)"

fun mark_event :: "shell_mark \<Rightarrow> terminal_event" where
  "mark_event PromptStart = BlockEvent (js ''promptStart'') None"
| "mark_event CommandStart = BlockEvent (js ''commandStart'') None"
| "mark_event OutputStart = BlockEvent (js ''outputStart'') None"
| "mark_event (CommandEnd n) = BlockEvent (js ''commandEnd'') (Some (int n))"

lemma feed_marks_shell:
  assumes "27 \<notin> set t" "feed_marks r = (evs, tail)"
  shows "feed_marks (t @ render_mark k @ r) = (DataEvent (b64_encode (t @ render_mark k)) False # mark_event k # evs, tail)"
proof -
  have nd: "list_all (\<lambda>c. c \<noteq> 7 \<and> c \<noteq> 27) (show_nat n)" for n using show_nat_digits [of _ n] by (fastforce simp: list_all_iff)
  show ?thesis
  proof (cases k)
    case (CommandEnd n)
    then show ?thesis using feed_marks_mark [OF assms(1) _ nd assms(2), of 68 n]
      by (simp add: is_alpha_def feed_phase_def js_def parseInt10_show)
  qed (use feed_marks_mark [OF assms(1) _ _ assms(2), of _ "[]"] in \<open>simp_all add: is_alpha_def feed_phase_def js_def\<close>)
qed

lemma feed_marks_output:
  "\<forall>(t, k) \<in> set pieces. 27 \<notin> set t \<Longrightarrow> 27 \<notin> set end_text \<Longrightarrow>
   feed_marks (concat (map (\<lambda>(t, k). t @ render_mark k) pieces) @ end_text)
   = (concat (map (\<lambda>(t, k). [DataEvent (b64_encode (t @ render_mark k)) False, mark_event k]) pieces), end_text)"
proof (induction pieces)
  case Nil
  then show ?case by (simp add: feed_marks_plain)
next
  case (Cons p pieces)
  obtain t k where p: "p = (t, k)" by (cases p)
  show ?case using feed_marks_shell [of t _ _ _ k] Cons p by simp
qed

section \<open>Tunnels belong to their session\<close>

definition io_init :: mock_io where
  "io_init = \<lparr>io_state = mock_init, io_tunnels = [], io_lastTerminal = [], io_feedBuf = [], io_feedIdx = 0, io_events = [], io_tunnelEvents = []\<rparr>"

text \<open>The operations on terminals, and any operation on the vault between them.\<close>

inductive io_step :: "mock_io \<Rightarrow> mock_io \<Rightarrow> bool" where
  "mock_step (io_state s) st \<Longrightarrow> io_step s (s\<lparr>io_state := st\<rparr>)"
| "io_step s (snd (openTerminal now h s))"
| "io_step s (snd (openLocalTerminal s))"
| "io_step s (local_started sid s)"
| "io_step s (sendTerminalInput sid txt s)"
| "io_step s (snd (feedB64 b64 s))"
| "io_step s (snd (tunnelStart sid tid s))"
| "io_step s (snd (tunnelStop sid tid s))"
| "io_step s (closeTerminal sid s)"
| "io_step s (snd (openSftp h s))"
| "io_step s (emitTerminal sid [ev] s)"

definition tunnels_ok :: "mock_io \<Rightarrow> bool" where
  "tunnels_ok s \<longleftrightarrow>
     (\<forall>(k, t) \<in> set (io_tunnels s). k = tunnel_key (ts_sessionId t) (ts_tunnelId t) \<and> 58 \<notin> set (ts_sessionId t))"

lemma set_map_set: "set (map_set k v m) \<subseteq> insert (k, v) (set m)"
  by (auto simp: map_set_def split: if_splits)

lemma term_id_plain: "58 \<notin> set (uid_text (js ''term'') n)"
  using show_nat_digits [of 58 n] by (auto simp: uid_text_def js_def)

lemma tunnels_ok_ensure: "tunnels_ok s \<Longrightarrow> 58 \<notin> set sid \<Longrightarrow> tunnels_ok (ensureSessionTunnels sid h s)"
proof -
  assume s: "tunnels_ok s" and sid: "58 \<notin> set sid"
  have init: "ts_sessionId (initial_status sid d) = sid \<and> ts_tunnelId (initial_status sid d) = td_id d" for d
    by (simp add: initial_status_def tunnelStatusFromDef_def)
  have "\<forall>(k, t) \<in> set (foldl (\<lambda>m d. if tunnel_key sid (td_id d) \<in> fst ` set m then m
              else map_set (tunnel_key sid (td_id d)) (initial_status sid d) m) m ds).
          k = tunnel_key (ts_sessionId t) (ts_tunnelId t) \<and> 58 \<notin> set (ts_sessionId t)"
    if "\<forall>(k, t) \<in> set m. k = tunnel_key (ts_sessionId t) (ts_tunnelId t) \<and> 58 \<notin> set (ts_sessionId t)" for m ds
    using that
  proof (induction ds arbitrary: m)
    case (Cons d ds)
    have "\<forall>(k, t) \<in> set (map_set (tunnel_key sid (td_id d)) (initial_status sid d) m).
        k = tunnel_key (ts_sessionId t) (ts_tunnelId t) \<and> 58 \<notin> set (ts_sessionId t)"
      using set_map_set [of "tunnel_key sid (td_id d)" "initial_status sid d" m] Cons.prems init [of d] sid by fastforce
    then show ?case using Cons by simp
  qed simp
  with s show ?thesis by (auto simp: tunnels_ok_def ensureSessionTunnels_def split: option.splits)
qed

lemma tunnels_ok_change:
  assumes "tunnels_ok s" "\<And>t. ts_sessionId (f t) = ts_sessionId t \<and> ts_tunnelId (f t) = ts_tunnelId t"
  shows "tunnels_ok (snd (tunnel_change f sid tid s))"
proof (cases "map_of (io_tunnels s) (tunnel_key sid tid)")
  case (Some prev)
  define row_ok where "row_ok = (\<lambda>(k, t :: tunnel_status). k = tunnel_key (ts_sessionId t) (ts_tunnelId t) \<and> 58 \<notin> set (ts_sessionId t))"
  have old: "row_ok r" if "r \<in> set (io_tunnels s)" for r using assms(1) that unfolding tunnels_ok_def row_ok_def by (rule bspec)
  have "row_ok (tunnel_key sid tid, prev)" by (rule old [OF map_of_SomeD [OF Some]])
  then have "tunnel_key sid tid = tunnel_key (ts_sessionId prev) (ts_tunnelId prev)" "58 \<notin> set (ts_sessionId prev)"
    unfolding row_ok_def prod.case by (rule conjunct1, rule conjunct2)
  then have new: "row_ok (tunnel_key sid tid, f prev)"
    unfolding row_ok_def prod.case conjunct1 [OF assms(2)] conjunct2 [OF assms(2)] by (rule conjI)
  have "row_ok r" if "r \<in> set (map_set (tunnel_key sid tid) (f prev) (io_tunnels s))" for r
    using set_mp [OF set_map_set that] old new by (elim insertE) (simp_all only:)
  then show ?thesis using Some unfolding tunnels_ok_def row_ok_def tunnel_change_def by simp
qed (use assms in \<open>simp add: tunnel_change_def\<close>)

lemma tunnels_ok_same: "tunnels_ok s \<Longrightarrow> io_tunnels s' = io_tunnels s \<Longrightarrow> tunnels_ok s'"
  by (simp add: tunnels_ok_def)

lemma feed_tunnels: "io_tunnels (snd (feedB64 b64 s)) = io_tunnels s"
  by (simp add: feedB64_def emitTerminal_def Let_def split: option.split prod.split)

lemma tunnels_ok_open: "tunnels_ok s \<Longrightarrow> tunnels_ok (snd (openTerminal now h s))"
proof -
  assume "tunnels_ok s"
  then have "tunnels_ok (ensureSessionTunnels (uid_text (js ''term'') (mk_nextId (io_state s) + 1)) h (s\<lparr>io_state := st, io_lastTerminal := l, io_feedBuf := [], io_feedIdx := 0\<rparr>))" for st l
    by (intro tunnels_ok_ensure term_id_plain) (simp add: tunnels_ok_def)
  then show ?thesis by (simp add: openTerminal_def uid_def Let_def tunnels_ok_def)
qed

lemma io_step_ok: "io_step s s' \<Longrightarrow> tunnels_ok s \<Longrightarrow> tunnels_ok s'"
proof (induction rule: io_step.induct)
  case (2 s now h)
  then show ?case by (rule tunnels_ok_open)
next
  case (6 s b64)
  then show ?case using feed_tunnels by (rule tunnels_ok_same)
next
  case (7 s sid tid)
  then show ?case unfolding tunnelStart_def by (rule tunnels_ok_change) simp
next
  case (8 s sid tid)
  then show ?case unfolding tunnelStop_def by (rule tunnels_ok_change) simp
next
  case (9 s sid)
  then show ?case by (auto simp: tunnels_ok_def closeTerminal_def emitTerminal_def Let_def)
qed (simp_all add: tunnels_ok_def openLocalTerminal_def local_started_def sendTerminalInput_def emitTerminal_def openSftp_def uid_def Let_def)

lemma io_init_ok: "tunnels_ok io_init"
  by (simp add: tunnels_ok_def io_init_def)

lemma io_reachable_ok: "io_step\<^sup>*\<^sup>* io_init s \<Longrightarrow> tunnels_ok s"
  by (induction rule: rtranclp_induct) (blast intro: io_init_ok io_step_ok)+

lemma takeWhile_colon: "58 \<notin> set s \<Longrightarrow> takeWhile (\<lambda>c. c \<noteq> 58) (s @ 58 # t) = (s :: jsstr)"
  by (induction s) auto

lemma key_of_session:
  assumes "58 \<notin> set sid" "58 \<notin> set sid'"
  shows "startsWith (tunnel_key sid tid) (tunnel_key sid' []) \<longleftrightarrow> sid = sid'"
proof
  assume "startsWith (tunnel_key sid tid) (tunnel_key sid' [])"
  then obtain t where "sid @ 58 # tid = sid' @ 58 # t" by (auto simp: startsWith_iff tunnel_key_def js_def)
  then have "takeWhile (\<lambda>c. c \<noteq> 58) (sid @ 58 # tid) = takeWhile (\<lambda>c. c \<noteq> 58) (sid' @ 58 # t)" by simp
  then show "sid = sid'" by (simp only: takeWhile_colon [OF assms(1)] takeWhile_colon [OF assms(2)])
qed (simp add: startsWith_iff tunnel_key_def)

lemma closed_tunnels:
  assumes "tunnels_ok s" "58 \<notin> set sid"
  shows "tunnelList sid' (closeTerminal sid s) = (if sid' = sid then [] else tunnelList sid' s)"
proof -
  have "filter (\<lambda>t. ts_sessionId t = sid') (map snd (filter (\<lambda>(k, t). \<not> startsWith k (tunnel_key sid [])) m))
      = (if sid' = sid then [] else filter (\<lambda>t. ts_sessionId t = sid') (map snd m))"
    if "\<forall>(k, t) \<in> set m. k = tunnel_key (ts_sessionId t) (ts_tunnelId t) \<and> 58 \<notin> set (ts_sessionId t)" for m
    using that by (induction m) (auto simp: key_of_session assms(2))
  from this [of "io_tunnels s"] show ?thesis
    using assms(1) unfolding tunnels_ok_def tunnelList_def by (simp add: closeTerminal_def emitTerminal_def Let_def)
qed

lemma replayed_run:
  assumes "replayed sid fed s" "sid \<noteq> []" "\<forall>c \<in> set chunks. \<forall>b \<in> set c. b < 256"
  shows "replayed sid (fed @ concat chunks) (fold (\<lambda>c s. snd (feedB64 (b64_encode c) s)) chunks s)"
  using assms
proof (induction chunks arbitrary: fed s)
  case (Cons c chunks)
  have "atob (b64_encode c) = Some c" using decode_encode [of c] Cons.prems(3) by (simp add: decodeBase64_def)
  then have "replayed sid (fed @ c) (snd (feedB64 (b64_encode c) s))" using feed_replays [OF Cons.prems(1,2)] by blast
  then show ?case using Cons.IH [of "fed @ c"] Cons.prems(2,3) by simp
qed simp

section \<open>What the replay hook misses\<close>

definition replaying :: "session_id \<Rightarrow> mock_io" where
  "replaying sid = io_init\<lparr>io_lastTerminal := sid\<rparr>"

lemma held_plain: "27 \<notin> set t \<Longrightarrow> held_from t = length t"
  by (simp add: held_from_def Projects.lastIndexOf_def)

text \<open>
  A mark that ends with the string terminator ESC \ is lost when a chunk ends between the two
  characters: only the last escape is held back, and what precedes it is already emitted as output.
\<close>

lemma split_terminator_loses_mark:
  "feed_marks (27 # js '']133;A'' @ [27]) = ([], 27 # js '']133;A'' @ [27])"
  "held_from (27 # js '']133;A'' @ [27]) = 7"
  "snd (feed_marks [27, 92]) = [27, 92] \<and> fst (feed_marks [27, 92]) = []"
  "fst (feed_marks (27 # js '']133;A'' @ [27, 92])) = [DataEvent (b64_encode (27 # js '']133;A'' @ [27, 92])) False, BlockEvent (js ''promptStart'') None]"
proof -
  show "feed_marks (27 # js '']133;A'' @ [27]) = ([], 27 # js '']133;A'' @ [27])" "snd (feed_marks [27, 92]) = [27, 92] \<and> fst (feed_marks [27, 92]) = []"
    by (subst feed_marks.simps, simp add: js_eval FEED_MARK_def)+
  show "held_from (27 # js '']133;A'' @ [27]) = 7"
    by (simp add: held_from_def Projects.lastIndexOf_def js_eval SPLIT_MARK_def)
  have "feed_marks [] = ([], [])" by (rule feed_marks_plain) simp
  then show "fst (feed_marks (27 # js '']133;A'' @ [27, 92])) = [DataEvent (b64_encode (27 # js '']133;A'' @ [27, 92])) False, BlockEvent (js ''promptStart'') None]"
    by (subst feed_marks.simps) (simp add: js_eval FEED_MARK_def feed_phase_def data_event_def mark_events_def capture_def)
qed

text \<open>The first output of a local shell is not base64: the handler of the user interface drops it.\<close>

lemma local_prompt_dropped: "handle_event E att sid (DataEvent local_prompt False) w = w"
proof -
  have "atob local_prompt = None"
    by (simp add: atob_def drop_padding_def local_prompt_def js_def b64_value_def)
  then show ?thesis by (simp add: handle_event_def onDataEvent_def decodeBase64_def)
qed

text \<open>A directory renamed loses its listing: the entries stay under the old path.\<close>

lemma renamed_directory_is_empty:
  "localList (js ''/Users/mock/Documents'') localFs \<noteq> []"
  "localList (js ''/Users/mock/Docs'') (localRename (js ''/Users/mock/Documents'') (js ''/Users/mock/Docs'') localFs) = []"
  by (simp_all add: localList_def entries_of_def localFs_def js_def)

section \<open>Properties\<close>

text \<open>
  C35. Replaying captured output through the in-memory backend loses nothing, repeats nothing and
  keeps the order: however the bytes are cut into chunks, the data events, decoded and put together,
  are a prefix of the bytes fed, and what is missing is held back, an escape and at most 23 bytes
  after it.
\<close>

theorem replay_conserves_output:
  assumes "sid \<noteq> []" "\<forall>c \<in> set chunks. \<forall>b \<in> set c. b < 256"
  shows "let s = fold (\<lambda>c s. snd (feedB64 (b64_encode c) s)) chunks (replaying sid) in
    \<exists>segs held. payloads (map snd (io_events s)) = map b64_encode segs
      \<and> concat chunks = concat segs @ held \<and> (held = [] \<or> hd held = 27 \<and> length held \<le> 24)"
proof -
  have "replayed sid [] (replaying sid)"
    by (simp add: replayed_def replaying_def io_init_def payloads_def map_filter_def)
  from replayed_run [OF this assms] have r: "replayed sid (concat chunks) (fold (\<lambda>c s. snd (feedB64 (b64_encode c) s)) chunks (replaying sid))"
    by simp
  then show ?thesis unfolding replayed_def Let_def by (metis append_take_drop_id)
qed

theorem replay_conserves_output_witness:
  "\<exists>segs held. payloads (map snd (io_events (snd (feedB64 (b64_encode [104, 105]) (replaying (js ''term-1'')))))) = map b64_encode segs
    \<and> [104, 105] = concat segs @ held"
  using replay_conserves_output [of "js ''term-1''" "[[104, 105]]"] by (auto simp: js_def)

text \<open>
  Captured output that carries the marks of commands is cut at the marks: each stretch of output
  without escapes is emitted together with the mark that ends it, then the event of that mark, the
  last one with the exit code of the command, in the order of the output.
\<close>

theorem replay_recognises_marks:
  assumes "\<forall>(t, k) \<in> set pieces. 27 \<notin> set t" "27 \<notin> set end_text"
    "\<forall>b \<in> set (concat (map (\<lambda>(t, k). t @ render_mark k) pieces) @ end_text). b < 256" "sid \<noteq> []"
  shows "io_events (snd (feedB64 (b64_encode (concat (map (\<lambda>(t, k). t @ render_mark k) pieces) @ end_text)) (replaying sid)))
    = map (Pair sid) (concat (map (\<lambda>(t, k). [DataEvent (b64_encode (t @ render_mark k)) False, mark_event k]) pieces)
        @ (if end_text = [] then [] else [DataEvent (b64_encode end_text) False]))"
proof -
  have "atob (b64_encode (concat (map (\<lambda>(t, k). t @ render_mark k) pieces) @ end_text)) = Some (concat (map (\<lambda>(t, k). t @ render_mark k) pieces) @ end_text)"
    using decode_encode [OF assms(3)] by (simp only: decodeBase64_def)
  then show ?thesis
    using feed_marks_output [OF assms(1,2)] held_plain [OF assms(2)] assms(4)
    by (simp add: feedB64_def replaying_def io_init_def emitTerminal_def data_event_def Let_def)
qed

theorem replay_recognises_marks_witness:
  "io_events (snd (feedB64 (b64_encode (render_mark PromptStart @ js ''$ '')) (replaying (js ''term-1''))))
    = [(js ''term-1'', DataEvent (b64_encode (render_mark PromptStart)) False), (js ''term-1'', BlockEvent (js ''promptStart'') None),
       (js ''term-1'', DataEvent (b64_encode (js ''$ '')) False)]"
  using replay_recognises_marks [of "[([], PromptStart)]" "js ''$ ''" "js ''term-1''"]
  by (simp add: js_def mark_text_def)

text \<open>
  Closing a session removes its tunnels and no other: after any operations of the in-memory
  backend, closing a session whose identifier has no colon leaves it without tunnels and the lists
  of all other sessions unchanged, although the rows are found by a prefix of their key.
\<close>

theorem close_removes_own_tunnels:
  assumes "io_step\<^sup>*\<^sup>* io_init s" "58 \<notin> set sid"
  shows "tunnelList sid' (closeTerminal sid s) = (if sid' = sid then [] else tunnelList sid' s)"
  by (rule closed_tunnels [OF io_reachable_ok [OF assms(1)] assms(2)])

theorem close_removes_own_tunnels_witness:
  "tunnelList (js ''term-101'') (closeTerminal (js ''term-101'') (snd (openTerminal [] (js ''host-vm'') io_init))) = []"
proof -
  have "io_step\<^sup>*\<^sup>* io_init (snd (openTerminal [] (js ''host-vm'') io_init))" by (rule r_into_rtranclp, rule io_step.intros(2))
  moreover have "58 \<notin> set (js ''term-101'')" by (simp add: js_def)
  ultimately show ?thesis using close_removes_own_tunnels [of "snd (openTerminal [] (js ''host-vm'') io_init)" "js ''term-101''" "js ''term-101''"]
    by simp
qed

end
