(* ===== verification/FileBrowser.thy ===== *)
theory FileBrowser
  imports MockTerminal TransferQueue SftpPath
begin

text \<open>
  The file browser (\<^verbatim>\<open>sftp/SftpBrowser.tsx\<close> with \<^verbatim>\<open>sftp/FilePane.tsx\<close> and
  \<^verbatim>\<open>sftp/TransferQueuePanel.tsx\<close>): a local and a remote pane, the dialogs that create, rename and
  delete entries, drag and drop between the panes and from the system, and the buttons of the
  transfer queue. The calls to the backend are recorded in \<open>fb_calls\<close>, newest last; what follows an
  \<^verbatim>\<open>await\<close> is a step of its own with the outcome as its argument. A handler reads the render it was
  created in, its argument \<open>v\<close>; the answers of the system's dialogs are arguments as well.
\<close>

section \<open>State\<close>

datatype side = LocalSide | RemoteSide

record pane =
  p_path :: jsstr
  p_entries :: "file_entry list"
  p_loading :: bool
  p_error :: "jsstr option"
  p_selected :: "file_entry option"

datatype file_call =
    ListLocal jsstr
  | ListRemote session_id jsstr
  | MkdirLocal jsstr
  | MkdirRemote session_id jsstr jsstr
  | RenameLocal jsstr jsstr
  | RenameRemote session_id jsstr jsstr
  | RemoveLocal jsstr bool
  | RemoveRemote session_id jsstr jsstr
  | Canonicalize session_id jsstr
  | Alert jsstr

record file_browser =
  fb_sessionId :: session_id
  fb_active :: bool
  fb_pane :: bool
  fb_local :: pane
  fb_remote :: pane
  fb_osDragActive :: bool
  fb_queue :: transfer_queue
  fb_calls :: "file_call list"

definition new_pane :: "jsstr \<Rightarrow> pane" where
  "new_pane path = \<lparr>p_path = path, p_entries = [], p_loading = True, p_error = None, p_selected = None\<rparr>"

definition new_browser :: "session_id \<Rightarrow> jsstr \<Rightarrow> jsstr \<Rightarrow> bool \<Rightarrow> bool \<Rightarrow> file_browser" where
  "new_browser sid remote local act inPane =
     \<lparr>fb_sessionId = sid, fb_active = act, fb_pane = inPane, fb_local = new_pane local, fb_remote = new_pane remote,
      fb_osDragActive = False, fb_queue = new_queue, fb_calls = []\<rparr>"

fun pane_of :: "side \<Rightarrow> file_browser \<Rightarrow> pane" where
  "pane_of LocalSide b = fb_local b"
| "pane_of RemoteSide b = fb_remote b"

fun upd_pane :: "side \<Rightarrow> (pane \<Rightarrow> pane) \<Rightarrow> file_browser \<Rightarrow> file_browser" where
  "upd_pane LocalSide f b = b\<lparr>fb_local := f (fb_local b)\<rparr>"
| "upd_pane RemoteSide f b = b\<lparr>fb_remote := f (fb_remote b)\<rparr>"

definition ask :: "file_call \<Rightarrow> file_browser \<Rightarrow> file_browser" where
  "ask c b = b\<lparr>fb_calls := fb_calls b @ [c]\<rparr>"

section \<open>Listing and navigating\<close>

text \<open>\<^verbatim>\<open>refreshLocal\<close> and \<^verbatim>\<open>refreshRemote\<close>, up to the answer and after it.\<close>

fun list_call :: "side \<Rightarrow> file_browser \<Rightarrow> file_call" where
  "list_call LocalSide v = ListLocal (p_path (fb_local v))"
| "list_call RemoteSide v = ListRemote (fb_sessionId v) (p_path (fb_remote v))"

definition refresh :: "side \<Rightarrow> file_browser \<Rightarrow> file_browser \<Rightarrow> file_browser" where
  "refresh s v b = ask (list_call s v) (upd_pane s (\<lambda>p. p\<lparr>p_loading := True, p_error := None\<rparr>) b)"

definition listed :: "side \<Rightarrow> jsstr + file_entry list \<Rightarrow> file_browser \<Rightarrow> file_browser" where
  "listed s outcome b =
     upd_pane s (\<lambda>p. (case outcome of
         Inl reason \<Rightarrow> p\<lparr>p_error := Some reason, p_loading := False\<rparr>
       | Inr es \<Rightarrow> p\<lparr>p_entries := es, p_loading := False\<rparr>)) b"

text \<open>The effects run when the browser becomes active and when the callback changes, that is with the path.\<close>

definition set_path :: "side \<Rightarrow> jsstr \<Rightarrow> file_browser \<Rightarrow> file_browser" where
  "set_path s path b =
     (if path = p_path (pane_of s b) then b
      else let b1 = upd_pane s (\<lambda>p. p\<lparr>p_path := path\<rparr>) b in if fb_active b1 then refresh s b1 b1 else b1)"

definition set_active :: "bool \<Rightarrow> file_browser \<Rightarrow> file_browser" where
  "set_active a b =
     (let b1 = b\<lparr>fb_active := a\<rparr> in
      if a \<and> \<not> fb_active b then refresh RemoteSide b1 (refresh LocalSide b1 b1) else b1)"

definition mounted :: "file_browser \<Rightarrow> file_browser" where
  "mounted b = (if fb_active b then refresh RemoteSide b (refresh LocalSide b b) else b)"

text \<open>\<^verbatim>\<open>onNavigate\<close> of the panes; the remote one asks for the canonical path first.\<close>

fun navigate :: "side \<Rightarrow> jsstr \<Rightarrow> file_browser \<Rightarrow> file_browser \<Rightarrow> file_browser" where
  "navigate LocalSide path v b = set_path LocalSide path b"
| "navigate RemoteSide path v b = ask (Canonicalize (fb_sessionId v) path) b"

definition resolved :: "jsstr + jsstr \<Rightarrow> file_browser \<Rightarrow> file_browser" where
  "resolved outcome b =
     (case outcome of
        Inl reason \<Rightarrow> upd_pane RemoteSide (\<lambda>p. p\<lparr>p_error := Some reason\<rparr>) b
      | Inr path \<Rightarrow> set_path RemoteSide path b)"

section \<open>Changing entries\<close>

definition valid_name :: "jsstr \<Rightarrow> bool" where
  "valid_name name \<longleftrightarrow> name \<noteq> [] \<and> name \<noteq> js ''.'' \<and> name \<noteq> js ''..'' \<and> \<not> includes_str name (js ''/'')"

definition createFolder :: "side \<Rightarrow> jsstr option \<Rightarrow> file_browser \<Rightarrow> file_browser \<Rightarrow> file_browser" where
  "createFolder s answer v b =
     (case answer of
        None \<Rightarrow> b
      | Some name \<Rightarrow>
          if \<not> valid_name name then b
          else ask (case s of LocalSide \<Rightarrow> MkdirLocal (joinPath (p_path (fb_local v)) name)
                     | RemoteSide \<Rightarrow> MkdirRemote (fb_sessionId v) (p_path (fb_remote v)) name) b)"

definition renameEntry :: "side \<Rightarrow> file_entry \<Rightarrow> jsstr option \<Rightarrow> file_browser \<Rightarrow> file_browser \<Rightarrow> file_browser" where
  "renameEntry s entry answer v b =
     (case answer of
        None \<Rightarrow> b
      | Some nextName \<Rightarrow>
          if nextName = [] \<or> nextName = fe_name entry then b
          else if nextName = js ''.'' \<or> nextName = js ''..'' \<or> includes_str nextName (js ''/'')
          then ask (Alert (js ''Invalid name'')) b
          else let target = joinPath (parentPath (fe_path entry)) nextName in
            ask (case s of LocalSide \<Rightarrow> RenameLocal (fe_path entry) target
                   | RemoteSide \<Rightarrow> RenameRemote (fb_sessionId v) (fe_path entry) target) b)"

definition deleteEntry :: "side \<Rightarrow> file_entry \<Rightarrow> bool \<Rightarrow> file_browser \<Rightarrow> file_browser \<Rightarrow> file_browser" where
  "deleteEntry s entry confirmed v b =
     (if fe_name entry = js ''.'' \<or> fe_name entry = js ''..'' then b
      else if \<not> confirmed then b
      else ask (case s of LocalSide \<Rightarrow> RemoveLocal (fe_path entry) (fe_type entry = js ''dir'')
                  | RemoteSide \<Rightarrow> RemoveRemote (fb_sessionId v) (fe_path entry) (fe_type entry)) b)"

definition confirm_text :: "file_entry \<Rightarrow> jsstr" where
  "confirm_text entry =
     (if fe_type entry = js ''dir'' then js ''Delete folder '' @ [34] @ fe_name entry @ [34] @ js '' and everything inside it?''
      else js ''Delete '' @ [34] @ fe_name entry @ [34] @ js ''?'')"

text \<open>What all three do when the call returns: list the pane of their render again, or say what went wrong.\<close>

definition change_settled :: "side \<Rightarrow> jsstr option \<Rightarrow> file_browser \<Rightarrow> file_browser \<Rightarrow> file_browser" where
  "change_settled s failure v b = (case failure of None \<Rightarrow> refresh s v b | Some reason \<Rightarrow> ask (Alert reason) b)"

section \<open>Transfers\<close>

record drag_payload =
  dp_side :: side
  dp_path :: jsstr
  dp_type :: jsstr
  dp_name :: jsstr

definition payload_of :: "side \<Rightarrow> file_entry \<Rightarrow> drag_payload" where
  "payload_of s e = \<lparr>dp_side = s, dp_path = fe_path e, dp_type = fe_type e, dp_name = fe_name e\<rparr>"

definition transferable :: "file_entry \<Rightarrow> bool" where
  "transferable e \<longleftrightarrow> fe_type e = js ''file'' \<or> fe_type e = js ''dir''"

text \<open>The identifier is \<^verbatim>\<open>crypto.randomUUID()\<close>.\<close>

definition enqueueTransfer ::
    "transfer_direction \<Rightarrow> drag_payload \<Rightarrow> jsstr \<Rightarrow> file_browser \<Rightarrow> file_browser \<Rightarrow> file_browser" where
  "enqueueTransfer d payload uuid v b =
     b\<lparr>fb_queue := enqueue
        \<lparr>req_id = uuid, req_direction = d,
         req_localPath = (if d = Upload then dp_path payload else joinPath (p_path (fb_local v)) (dp_name payload)),
         req_remotePath = (if d = Upload then joinPath (p_path (fb_remote v)) (dp_name payload) else dp_path payload),
         req_label = (if dp_type payload = js ''dir'' then dp_name payload @ js ''/'' else dp_name payload),
         req_offset = None\<rparr> (fb_queue b)\<rparr>"

text \<open>\<^verbatim>\<open>onDrop\<close> of a pane: no data and malformed data (\<open>None\<close>) are ignored, and so is a drop from the same side.\<close>

definition drop_on :: "side \<Rightarrow> drag_payload option \<Rightarrow> jsstr \<Rightarrow> file_browser \<Rightarrow> file_browser \<Rightarrow> file_browser" where
  "drop_on s raw uuid v b =
     (case raw of
        None \<Rightarrow> b
      | Some payload \<Rightarrow>
          if s = LocalSide \<and> dp_side payload = RemoteSide then enqueueTransfer Download payload uuid v b
          else if s = RemoteSide \<and> dp_side payload = LocalSide then enqueueTransfer Upload payload uuid v b
          else b)"

definition uploadSelected :: "jsstr \<Rightarrow> file_browser \<Rightarrow> file_browser \<Rightarrow> file_browser" where
  "uploadSelected uuid v b =
     (case p_selected (fb_local v) of
        None \<Rightarrow> b
      | Some e \<Rightarrow> if \<not> transferable e then b else enqueueTransfer Upload (payload_of LocalSide e) uuid v b)"

definition downloadSelected :: "jsstr \<Rightarrow> file_browser \<Rightarrow> file_browser \<Rightarrow> file_browser" where
  "downloadSelected uuid v b =
     (case p_selected (fb_remote v) of
        None \<Rightarrow> b
      | Some e \<Rightarrow> if \<not> transferable e then b else enqueueTransfer Download (payload_of RemoteSide e) uuid v b)"

definition select :: "side \<Rightarrow> file_entry \<Rightarrow> file_browser \<Rightarrow> file_browser" where
  "select s e b = upd_pane s (\<lambda>p. p\<lparr>p_selected := Some e\<rparr>) b"

text \<open>\<^verbatim>\<open>path.split(/[\\/]/).filter(Boolean).pop() ?? path\<close>\<close>

fun split_where :: "(nat \<Rightarrow> bool) \<Rightarrow> jsstr \<Rightarrow> jsstr list" where
  "split_where P [] = [[]]"
| "split_where P (c # s) =
     (if P c then [] # split_where P s
      else case split_where P s of [] \<Rightarrow> [[c]] | p # ps \<Rightarrow> (c # p) # ps)"

definition dropped_name :: "jsstr \<Rightarrow> jsstr" where
  "dropped_name path =
     (let parts = filter (\<lambda>p. p \<noteq> []) (split_where (\<lambda>c. c = 92 \<or> c = 47) path)
      in if parts = [] then path else last parts)"

datatype os_drag = DragOver | DragLeave | DragDrop "jsstr list"

text \<open>
  Drags from the system. The listener reads the refs, that is the latest render; it is the same for
  every browser of the window. The paths come with the identifiers drawn for them.
\<close>

definition drop_upload :: "jsstr \<times> jsstr \<Rightarrow> file_browser \<Rightarrow> file_browser" where
  "drop_upload pu b =
     (case pu of (path, uuid) \<Rightarrow>
        b\<lparr>fb_queue := enqueue
          \<lparr>req_id = uuid, req_direction = Upload, req_localPath = path,
           req_remotePath = joinPath (p_path (fb_remote b)) (dropped_name path), req_label = dropped_name path,
           req_offset = None\<rparr> (fb_queue b)\<rparr>)"

definition os_drag_event :: "os_drag \<Rightarrow> jsstr list \<Rightarrow> file_browser \<Rightarrow> file_browser" where
  "os_drag_event e uuids b =
     (if \<not> (fb_active b \<or> fb_pane b) then b
      else case e of
        DragOver \<Rightarrow> b\<lparr>fb_osDragActive := True\<rparr>
      | DragLeave \<Rightarrow> b\<lparr>fb_osDragActive := False\<rparr>
      | DragDrop paths \<Rightarrow> fold drop_upload (zip paths uuids) (b\<lparr>fb_osDragActive := False\<rparr>))"

section \<open>What a pane shows\<close>

definition type_rank :: "jsstr \<Rightarrow> int" where
  "type_rank t = (if t = js ''dir'' then 0 else if t = js ''symlink'' then 1 else 2)"

text \<open>\<^verbatim>\<open>localeCompare\<close> with \<^verbatim>\<open>sensitivity: "base"\<close> is the argument \<open>locale_cmp\<close>.\<close>

definition compare_entries :: "(jsstr \<Rightarrow> jsstr \<Rightarrow> int) \<Rightarrow> file_entry \<Rightarrow> file_entry \<Rightarrow> int" where
  "compare_entries locale_cmp a b =
     or_cmp (type_rank (fe_type a) - type_rank (fe_type b)) (locale_cmp (fe_name a) (fe_name b))"

definition shown_entries :: "(jsstr \<Rightarrow> jsstr \<Rightarrow> int) \<Rightarrow> pane \<Rightarrow> file_entry list" where
  "shown_entries locale_cmp p = js_sort (compare_entries locale_cmp) (p_entries p)"

definition has_parent_button :: "side \<Rightarrow> file_browser \<Rightarrow> bool" where
  "has_parent_button s b \<longleftrightarrow> parentPath (p_path (pane_of s b)) \<noteq> p_path (pane_of s b)"

definition press_parent :: "side \<Rightarrow> file_browser \<Rightarrow> file_browser \<Rightarrow> file_browser" where
  "press_parent s v b = (if has_parent_button s v then navigate s (parentPath (p_path (pane_of s v))) v b else b)"

definition double_click :: "side \<Rightarrow> file_entry \<Rightarrow> file_browser \<Rightarrow> file_browser \<Rightarrow> file_browser" where
  "double_click s e v b = (if fe_type e = js ''dir'' then navigate s (fe_path e) v b else b)"

section \<open>The panel of the queue\<close>

datatype panel_button = PauseButton | ResumeButton | RetryButton | CancelButton

definition panel_buttons :: "transfer_item \<Rightarrow> panel_button list" where
  "panel_buttons i =
     (if status i = Running then [PauseButton] else []) @ (if status i = Paused then [ResumeButton] else [])
     @ (if status i = Failed then [RetryButton] else [])
     @ (if status i = Queued \<or> status i = Running \<or> status i = Paused then [CancelButton] else [])"

fun press_panel :: "panel_button \<Rightarrow> transfer_item \<Rightarrow> transfer_queue \<Rightarrow> transfer_queue" where
  "press_panel PauseButton i q = pauseActive q"
| "press_panel ResumeButton i q = resume (item_id i) q"
| "press_panel RetryButton i q = retry (item_id i) q"
| "press_panel CancelButton i q = cancel (item_id i) q"

text \<open>\<^verbatim>\<open>Math.min(100, Math.round(bytes / total * 100))\<close>, with halves rounded up.\<close>

definition transfer_percent :: "transfer_item \<Rightarrow> int" where
  "transfer_percent i =
     (let total = (case totalBytes i of Some t \<Rightarrow> t | None \<Rightarrow> bytesTransferred i) in
      if 0 < total then min 100 ((200 * bytesTransferred i + total) div (2 * total))
      else if status i = Completed then 100 else 0)"

text \<open>Counters of the backend are unsigned.\<close>

definition transfer_counts :: "transfer_item \<Rightarrow> jsstr" where
  "transfer_counts i =
     (case filesTotal i of
        Some t \<Rightarrow> if t = 0 then []
          else show_nat (nat (case filesDone i of Some d \<Rightarrow> d | None \<Rightarrow> 0)) @ js ''/'' @ show_nat (nat t) @ [32, 183, 32]
      | None \<Rightarrow> [])
     @ formatBytes (Some (nat (bytesTransferred i)))
     @ (case totalBytes i of Some t \<Rightarrow> if t = 0 then [] else js '' / '' @ formatBytes (Some (nat t)) | None \<Rightarrow> [])"

section \<open>A browser in use\<close>

text \<open>
  What may happen to a browser: actions of the user on any earlier render \<open>v\<close>, and answers of the
  backend to what the handlers of such a render asked.
\<close>

datatype file_action =
    Mount
  | Activate bool
  | PressRefresh side
  | GotList side "jsstr + file_entry list"
  | PressParent side
  | DoubleClick side file_entry
  | GotPath "jsstr + jsstr"
  | Create side "jsstr option"
  | Rename side file_entry "jsstr option"
  | Delete side file_entry bool
  | ChangeSettled side "jsstr option"
  | Click side file_entry
  | DropEntry side side file_entry jsstr
  | UploadSelected jsstr
  | DownloadSelected jsstr
  | OsDrag os_drag "jsstr list"
  | PressPanel panel_button transfer_item
  | ClearFinished
  | Progress jsstr transfer_event
  | TransferOk jsstr
  | TransferFailed jsstr jsstr

definition on_queue :: "(transfer_queue \<Rightarrow> transfer_queue) \<Rightarrow> file_browser \<Rightarrow> file_browser" where
  "on_queue f b = b\<lparr>fb_queue := f (fb_queue b)\<rparr>"

fun act :: "file_action \<Rightarrow> file_browser \<Rightarrow> file_browser \<Rightarrow> file_browser" where
  "act Mount v b = mounted b"
| "act (Activate a) v b = set_active a b"
| "act (PressRefresh s) v b = refresh s v b"
| "act (GotList s outcome) v b = listed s outcome b"
| "act (PressParent s) v b = press_parent s v b"
| "act (DoubleClick s e) v b = double_click s e v b"
| "act (GotPath outcome) v b = resolved outcome b"
| "act (Create s answer) v b = createFolder s answer v b"
| "act (Rename s e answer) v b = renameEntry s e answer v b"
| "act (Delete s e confirmed) v b = deleteEntry s e confirmed v b"
| "act (ChangeSettled s failure) v b = change_settled s failure v b"
| "act (Click s e) v b = select s e b"
| "act (DropEntry s s' e uuid) v b = drop_on s (Some (payload_of s' e)) uuid v b"
| "act (UploadSelected uuid) v b = uploadSelected uuid v b"
| "act (DownloadSelected uuid) v b = downloadSelected uuid v b"
| "act (OsDrag d uuids) v b = os_drag_event d uuids b"
| "act (PressPanel button i) v b = on_queue (press_panel button i) b"
| "act ClearFinished v b = on_queue clearCompleted b"
| "act (Progress i e) v b = on_queue (applyEvent i e) b"
| "act (TransferOk i) v b = on_queue (settle_ok i) b"
| "act (TransferFailed i m) v b = on_queue (settle_err i m) b"

text \<open>
  A path in normal form, as the backend gives them: not empty, no empty component, no slash at the
  end unless it is the root. What a listing of a directory promises of its entries: a name without
  slash, and a path that has the directory as its parent. Local paths on Windows are \<open>exempt\<close> from the
  second part: the backend returns native paths, which \<^verbatim>\<open>parentPath\<close> cannot take apart.
\<close>

definition exempt :: "bool \<Rightarrow> side \<Rightarrow> bool" where
  "exempt win s \<longleftrightarrow> win \<and> s = LocalSide"

fun no_empty_part :: "jsstr \<Rightarrow> bool" where
  "no_empty_part (c # d # s) = (\<not> (c = 47 \<and> d = 47) \<and> no_empty_part (d # s))"
| "no_empty_part s = True"

definition normal_dir :: "jsstr \<Rightarrow> bool" where
  "normal_dir p \<longleftrightarrow> p = js ''/'' \<or> (p \<noteq> [] \<and> last p \<noteq> 47 \<and> no_empty_part p)"

definition entry_in :: "bool \<Rightarrow> side \<Rightarrow> jsstr \<Rightarrow> file_entry \<Rightarrow> bool" where
  "entry_in win s d e \<longleftrightarrow> valid_name (fe_name e) \<and> (\<not> exempt win s \<longrightarrow> parentPath (fe_path e) = d \<and> normal_dir (fe_path e))"

definition fresh_ids :: "jsstr list \<Rightarrow> file_browser \<Rightarrow> bool" where
  "fresh_ids uuids b \<longleftrightarrow> distinct uuids \<and> set uuids \<inter> item_id ` set (items (fb_queue b)) = {}"

fun possible :: "bool \<Rightarrow> file_action \<Rightarrow> file_browser \<Rightarrow> file_browser \<Rightarrow> bool" where
  "possible win (GotList s (Inr es)) v b = (\<forall>e \<in> set es. entry_in win s (p_path (pane_of s v)) e)"
| "possible win (GotPath (Inr path)) v b = normal_dir path"
| "possible win (DoubleClick s e) v b = (e \<in> set (p_entries (pane_of s v)))"
| "possible win (Rename s e answer) v b = (e \<in> set (p_entries (pane_of s v)))"
| "possible win (Delete s e confirmed) v b = (e \<in> set (p_entries (pane_of s v)))"
| "possible win (Click s e) v b = (e \<in> set (p_entries (pane_of s v)))"
| "possible win (DropEntry s s' e uuid) v b = (e \<in> set (p_entries (pane_of s' v)) \<and> fresh_ids [uuid] b)"
| "possible win (UploadSelected uuid) v b = fresh_ids [uuid] b"
| "possible win (DownloadSelected uuid) v b = fresh_ids [uuid] b"
| "possible win (OsDrag (DragDrop paths) uuids) v b = (fresh_ids uuids b \<and> (\<forall>p \<in> set paths. valid_name (dropped_name p)))"
| "possible win (Progress i e) v b = (running (fb_queue b) \<and> activeId (fb_queue b) = Some i)"
| "possible win (TransferOk i) v b = (running (fb_queue b) \<and> activeId (fb_queue b) = Some i)"
| "possible win (TransferFailed i m) v b = (running (fb_queue b) \<and> activeId (fb_queue b) = Some i)"
| "possible win _ v b = True"

text \<open>The renders so far, newest first.\<close>

inductive browse :: "bool \<Rightarrow> file_browser list \<Rightarrow> bool" for win where
  browse_open: "normal_dir r \<Longrightarrow> \<not> win \<longrightarrow> normal_dir l \<Longrightarrow> browse win [new_browser sid r l a p]"
| browse_act: "browse win (b # vs) \<Longrightarrow> v \<in> set (b # vs) \<Longrightarrow> possible win x v b \<Longrightarrow> browse win (act x v b # b # vs)"

definition shown :: "file_browser list \<Rightarrow> side \<Rightarrow> jsstr set" where
  "shown vs s = (\<lambda>v. p_path (pane_of s v)) ` set vs"

fun touched :: "file_call \<Rightarrow> (side \<times> jsstr) list" where
  "touched (MkdirLocal p) = [(LocalSide, p)]"
| "touched (MkdirRemote sid d n) = [(RemoteSide, joinPath d n)]"
| "touched (RenameLocal p p') = [(LocalSide, p), (LocalSide, p')]"
| "touched (RenameRemote sid p p') = [(RemoteSide, p), (RemoteSide, p')]"
| "touched (RemoveLocal p r) = [(LocalSide, p)]"
| "touched (RemoveRemote sid p t) = [(RemoteSide, p)]"
| "touched _ = []"

definition destination :: "transfer_item \<Rightarrow> side \<times> jsstr" where
  "destination i = (if direction i = Upload then (RemoteSide, remotePath i) else (LocalSide, localPath i))"

subsection \<open>Paths\<close>

lemma valid_name_facts: "valid_name n \<Longrightarrow> n \<noteq> [] \<and> 47 \<notin> set n"
  by (simp add: valid_name_def includes_single js_def)

lemma normal_end: "normal_dir p \<Longrightarrow> p = js ''/'' \<or> p = [] \<or> last p \<noteq> 47" and normal_not_Nil: "normal_dir p \<Longrightarrow> p \<noteq> []"
  by (auto simp: normal_dir_def js_def)

lemma parent_joined: "normal_dir d \<Longrightarrow> valid_name n \<Longrightarrow> parentPath (joinPath d n) = d"
  using parent_of_join [of n d] valid_name_facts [of n] normal_end [of d] normal_not_Nil [of d] by simp

lemma no_empty_part_append:
  "no_empty_part (s @ t) \<longleftrightarrow> no_empty_part s \<and> no_empty_part t \<and> (s \<noteq> [] \<and> t \<noteq> [] \<longrightarrow> \<not> (last s = 47 \<and> hd t = 47))"
  by (induction s rule: no_empty_part.induct) (auto simp: neq_Nil_conv split: list.splits elim: no_empty_part.elims)

lemma no_slash_parts: "47 \<notin> set s \<Longrightarrow> no_empty_part s"
  by (induction s rule: no_empty_part.induct) auto

lemma lastIndexOf_split: "SftpPath.lastIndexOf d s = Some i \<Longrightarrow> \<exists>t. s = take i s @ d # t \<and> d \<notin> set t \<and> i < length s"
  by (induction s arbitrary: i) (auto simp: SftpPath.lastIndexOf_None split: option.splits if_splits)

lemma parent_normal:
  assumes n: "normal_dir p"
  shows "normal_dir (parentPath p)"
proof (cases "p = js ''.'' \<or> p = js ''/''")
  case True
  then show ?thesis by (auto simp: parentPath_def normal_dir_def js_def)
next
  case False
  with n have p: "p \<noteq> []" "last p \<noteq> 47" "no_empty_part p" by (auto simp: normal_dir_def)
  have fixed: "normal_dir (js ''.'')" "normal_dir (js ''/'')" by (simp_all add: normal_dir_def js_def)
  show ?thesis
  proof (cases "SftpPath.lastIndexOf 47 p")
    case None
    then show ?thesis using False p fixed by (auto simp: parentPath_def normal_path)
  next
    case (Some i)
    then obtain t where t: "p = take i p @ 47 # t" "i < length p" using lastIndexOf_split by blast
    have "normal_dir (take i p)" if "i \<noteq> 0"
    proof -
      have "take i p \<noteq> []" using that t(2) by auto
      moreover have "no_empty_part (take i p @ 47 # t)" using p(3) t(1) by simp
      ultimately show ?thesis by (auto simp: no_empty_part_append normal_dir_def)
    qed
    then show ?thesis using False p Some fixed by (auto simp: parentPath_def normal_path)
  qed
qed

text \<open>Where the operations of the queue leave its items: only \<^verbatim>\<open>enqueue\<close> adds one.\<close>

lemma destination_same:
  "direction j = direction i \<Longrightarrow> remotePath j = remotePath i \<Longrightarrow> localPath j = localPath i \<Longrightarrow> destination j = destination i"
  by (simp add: destination_def)

lemma destinations_upd [simp]:
  "(\<And>x. destination (f x) = destination x) \<Longrightarrow> map destination (items (upd_item i f q)) = map destination (items q)"
  by (simp add: upd_item_def)

lemma destinations_pump [simp]: "map destination (items (pump q)) = map destination (items q)"
  by (auto simp: pump_def destination_def split: option.splits intro!: keys_update_first)

definition goes :: "transfer_queue \<Rightarrow> (side \<times> jsstr) set" where
  "goes q = set (map destination (items q))"

lemma goes_item: "x \<in> goes q \<Longrightarrow> \<exists>i \<in> set (items q). destination i = x"
  by (auto simp: goes_def)

lemma goes_pump [simp]: "goes (pump q) = goes q" and goes_emit [simp]: "goes (emit c q) = goes q"
  and goes_settled [simp]: "goes (q\<lparr>running := r, activeId := a\<rparr>) = goes q"
  unfolding goes_def destinations_pump by simp_all

lemma goes_upd: "(\<And>x. destination (f x) = destination x) \<Longrightarrow> goes (upd_item i f q) = goes q"
  unfolding goes_def by (simp only: destinations_upd)

lemma goes_operations:
  "goes (pauseActive q) = goes q" "goes (resume i q) = goes q" "goes (cancel i q) = goes q" "goes (retry i q) = goes q"
  "goes (settle_ok i q) = goes q" "goes (settle_err i m q) = goes q" "goes (applyEvent i e q) = goes q"
  "goes (clearCompleted q) \<subseteq> goes q"
  by (auto simp: pauseActive_def resume_def cancel_def retry_def settle_ok_def settle_err_def settle_finally_def applyEvent_def
      goes_upd destination_def requeue_def apply_kind_def apply_counters_def Let_def split: option.splits)
     (auto simp: goes_def clearCompleted_def destination_def)

lemma goes_panel: "goes (press_panel button i q) = goes q"
  by (cases button) (simp_all add: goes_operations)

lemma goes_enqueue:
  "goes (enqueue r q) = insert (if req_direction r = Upload then (RemoteSide, req_remotePath r) else (LocalSide, req_localPath r)) (goes q)"
  by (simp add: enqueue_def Let_def) (auto simp: goes_def destination_def)

subsection \<open>The invariant\<close>

text \<open>
  \<open>D\<close> holds the directories each pane has shown. Entries on display lie in one of them, and so does
  everything the browser has asked to change.
\<close>

definition known :: "bool \<Rightarrow> side \<Rightarrow> jsstr set \<Rightarrow> file_entry \<Rightarrow> bool" where
  "known win s D e \<longleftrightarrow> valid_name (fe_name e) \<and> (\<not> exempt win s \<longrightarrow> parentPath (fe_path e) \<in> D \<and> normal_dir (fe_path e))"

definition pane_good :: "bool \<Rightarrow> side \<Rightarrow> jsstr set \<Rightarrow> pane \<Rightarrow> bool" where
  "pane_good win s D p \<longleftrightarrow> p_path p \<in> D \<and> (\<forall>e \<in> set (p_entries p). known win s D e) \<and> (\<forall>e \<in> set_option (p_selected p). known win s D e)"

definition confined :: "bool \<Rightarrow> (side \<Rightarrow> jsstr set) \<Rightarrow> (side \<times> jsstr) set \<Rightarrow> bool" where
  "confined win D P \<longleftrightarrow> (\<forall>(s, p) \<in> P. exempt win s \<or> parentPath p \<in> D s)"

definition good :: "bool \<Rightarrow> (side \<Rightarrow> jsstr set) \<Rightarrow> file_browser \<Rightarrow> bool" where
  "good win D b \<longleftrightarrow> (\<forall>s. pane_good win s (D s) (pane_of s b)) \<and> (\<forall>c \<in> set (fb_calls b). confined win D (set (touched c)))
     \<and> confined win D (goes (fb_queue b)) \<and> queue_reachable (fb_queue b)"

definition normal_dirs :: "bool \<Rightarrow> (side \<Rightarrow> jsstr set) \<Rightarrow> bool" where
  "normal_dirs win D \<longleftrightarrow> (\<forall>s. \<not> exempt win s \<longrightarrow> (\<forall>p \<in> D s. normal_dir p))"

lemma goodD:
  assumes "good win D b"
  shows "p_path (pane_of s b) \<in> D s" "e \<in> set (p_entries (pane_of s b)) \<Longrightarrow> known win s (D s) e"
    "p_selected (pane_of s b) = Some e \<Longrightarrow> known win s (D s) e" "queue_reachable (fb_queue b)"
  using assms by (auto simp: good_def pane_good_def)

lemma normal_pane: "normal_dirs win D \<Longrightarrow> good win D b \<Longrightarrow> \<not> exempt win s \<Longrightarrow> normal_dir (p_path (pane_of s b))"
  using goodD(1) unfolding normal_dirs_def by blast

lemma good_mono: "good win D b \<Longrightarrow> (\<And>s. D s \<subseteq> D' s) \<Longrightarrow> good win D' b"
  unfolding good_def pane_good_def known_def confined_def by (fast dest: subsetD)

lemma pane_of_upd: "pane_of s (upd_pane s' f b) = (if s = s' then f (pane_of s b) else pane_of s b)"
  by (cases s; cases s') simp_all

lemma upd_pane_simps [simp]:
  "fb_calls (upd_pane s f b) = fb_calls b" "fb_queue (upd_pane s f b) = fb_queue b" "fb_active (upd_pane s f b) = fb_active b"
  "fb_sessionId (upd_pane s f b) = fb_sessionId b" "fb_pane (upd_pane s f b) = fb_pane b"
  by (cases s; simp)+

lemma ask_simps [simp]:
  "pane_of s (ask c b) = pane_of s b" "fb_queue (ask c b) = fb_queue b" "fb_calls (ask c b) = fb_calls b @ [c]"
  "fb_active (ask c b) = fb_active b" "fb_sessionId (ask c b) = fb_sessionId b" "fb_pane (ask c b) = fb_pane b"
  by (cases s) (simp_all add: ask_def)

lemma good_ask: "good win D b \<Longrightarrow> confined win D (set (touched c)) \<Longrightarrow> good win D (ask c b)"
  by (auto simp: good_def)

lemma good_upd: "good win D b \<Longrightarrow> (pane_good win s (D s) (pane_of s b) \<Longrightarrow> pane_good win s (D s) (f (pane_of s b))) \<Longrightarrow> good win D (upd_pane s f b)"
  by (auto simp: good_def pane_of_upd)

lemma good_flags [simp]: "good win D (b\<lparr>fb_active := x\<rparr>) = good win D b" "good win D (b\<lparr>fb_osDragActive := y\<rparr>) = good win D b"
proof -
  have "pane_of s (b\<lparr>fb_active := x\<rparr>) = pane_of s b" "pane_of s (b\<lparr>fb_osDragActive := y\<rparr>) = pane_of s b" for s
    by (cases s; simp)+
  then show "good win D (b\<lparr>fb_active := x\<rparr>) = good win D b" "good win D (b\<lparr>fb_osDragActive := y\<rparr>) = good win D b"
    by (simp_all add: good_def)
qed

lemma pane_of_queue [simp]: "pane_of s (b\<lparr>fb_queue := q\<rparr>) = pane_of s b"
  by (cases s) simp_all

lemma good_refresh: "good win D b \<Longrightarrow> good win D (refresh s v b)"
  unfolding refresh_def by (intro good_ask good_upd; cases s) (simp_all add: pane_good_def confined_def)

lemma good_enqueue:
  assumes b: "good win D b" and id: "req_id r \<notin> item_id ` set (items (fb_queue b))"
    and dest: "confined win D {if req_direction r = Upload then (RemoteSide, req_remotePath r) else (LocalSide, req_localPath r)}"
  shows "good win D (b\<lparr>fb_queue := enqueue r (fb_queue b)\<rparr>)"
  using b dest reach_step [OF goodD(4) [OF b] do_enqueue [OF id]]
  by (auto simp: good_def goes_enqueue confined_def split: if_splits)

lemma confined_join: "normal_dirs win D \<Longrightarrow> d \<in> D s \<Longrightarrow> valid_name n \<Longrightarrow> confined win D {(s, joinPath d n)}"
  by (auto simp: confined_def parent_joined normal_dirs_def)

lemma good_transfer:
  assumes D: "normal_dirs win D" and v: "good win D v" and b: "good win D b" and id: "fresh_ids [uuid] b"
    and name: "valid_name (dp_name payload)"
  shows "good win D (enqueueTransfer d payload uuid v b)"
  unfolding enqueueTransfer_def
  by (rule good_enqueue [OF b])
     (use confined_join [OF D goodD(1) [OF v] name] id in \<open>auto simp: fresh_ids_def pane_of.simps [symmetric] simp del: pane_of.simps\<close>)

lemma enqueue_ids: "item_id ` set (items (enqueue r q)) = insert (req_id r) (item_id ` set (items q))"
proof -
  have "map item_id (items (pump q')) = map item_id (items q')" for q'
    by (auto simp: pump_def split: option.splits intro!: keys_update_first)
  then have "item_id ` set (items (pump q')) = item_id ` set (items q')" for q' by (metis list.set_map)
  then show ?thesis by (simp add: enqueue_def Let_def)
qed

lemma good_drops:
  assumes "normal_dirs win D" "good win D b" "distinct (map snd pus)" "snd ` set pus \<inter> item_id ` set (items (fb_queue b)) = {}"
    "\<forall>p \<in> fst ` set pus. valid_name (dropped_name p)"
  shows "good win D (fold drop_upload pus b)"
  using assms
proof (induction pus arbitrary: b)
  case (Cons pu pus)
  have "good win D (drop_upload pu b)"
    unfolding drop_upload_def
    by (cases pu, simp, rule good_enqueue [OF Cons.prems(2)])
       (use Cons.prems confined_join [OF Cons.prems(1) goodD(1) [OF Cons.prems(2), of RemoteSide]] in auto)
  moreover have "item_id ` set (items (fb_queue (drop_upload pu b))) = insert (snd pu) (item_id ` set (items (fb_queue b)))"
    by (cases pu) (simp add: drop_upload_def enqueue_ids)
  ultimately have "good win D (fold drop_upload pus (drop_upload pu b))"
    using Cons.prems by - (rule Cons.IH, simp_all add: Int_insert_right)
  then show ?case by simp
qed simp

text \<open>Every action keeps it, with the directories the panes show afterwards.\<close>

definition extend :: "(side \<Rightarrow> jsstr set) \<Rightarrow> file_browser \<Rightarrow> side \<Rightarrow> jsstr set" where
  "extend D b s = insert (p_path (pane_of s b)) (D s)"

definition stays :: "bool \<Rightarrow> (side \<Rightarrow> jsstr set) \<Rightarrow> file_browser \<Rightarrow> bool" where
  "stays win D b \<longleftrightarrow> good win (extend D b) b \<and> (\<forall>s. \<not> exempt win s \<longrightarrow> normal_dir (p_path (pane_of s b)))"

lemma stays_good: "normal_dirs win D \<Longrightarrow> good win D b \<Longrightarrow> stays win D b"
  unfolding stays_def by (auto simp: extend_def normal_dirs_def intro: good_mono dest: goodD(1))

lemma refresh_paths [simp]: "p_path (pane_of s (refresh s' v b)) = p_path (pane_of s b)"
  by (simp add: refresh_def pane_of_upd)

lemma stays_path:
  assumes D: "normal_dirs win D" and b: "good win D b" and p: "\<not> exempt win s \<longrightarrow> normal_dir p"
  shows "stays win D (set_path s p b)"
proof -
  let ?D = "D(s := insert p (D s))"
  have D': "normal_dirs win ?D" using D p by (simp add: normal_dirs_def)
  have "good win ?D b" using b by (rule good_mono) auto
  then have "good win ?D (upd_pane s (\<lambda>x. x\<lparr>p_path := p\<rparr>) b)" by (rule good_upd) (simp add: pane_good_def)
  then have "good win ?D (set_path s p b)" if "p \<noteq> p_path (pane_of s b)"
    using that by (simp add: set_path_def Let_def good_refresh)
  moreover have "p_path (pane_of s' (set_path s p b)) = (if s' = s then p else p_path (pane_of s' b))" for s'
    by (auto simp: set_path_def Let_def pane_of_upd)
  moreover have "\<not> exempt win s' \<Longrightarrow> normal_dir (p_path (pane_of s' b))" for s' by (rule normal_pane [OF D b])
  moreover have "good win (extend D (set_path s p b)) (set_path s p b)" if "good win ?D (set_path s p b)"
    using that by (rule good_mono) (auto simp: extend_def calculation(2))
  ultimately show ?thesis
    using stays_good [OF D b] p by (cases "p = p_path (pane_of s b)") (auto simp: stays_def set_path_def)
qed

lemma stays_navigate: "normal_dirs win D \<Longrightarrow> good win D b \<Longrightarrow> \<not> exempt win s \<longrightarrow> normal_dir p \<Longrightarrow> stays win D (navigate s p v b)"
  by (cases s) (simp_all add: stays_path stays_good good_ask confined_def)

lemma knownD: "entry_in win s d e \<Longrightarrow> d \<in> D \<Longrightarrow> known win s D e"
  by (simp add: known_def entry_in_def)

lemma good_changes:
  assumes D: "normal_dirs win D" and v: "good win D v" and b: "good win D b"
  shows "good win D (createFolder s answer v b)"
    "e \<in> set (p_entries (pane_of s v)) \<Longrightarrow> good win D (renameEntry s e answer v b)"
    "e \<in> set (p_entries (pane_of s v)) \<Longrightarrow> good win D (deleteEntry s e confirmed v b)"
proof -
  have new: "confined win D {(s, joinPath (p_path (pane_of s v)) n)}" if "valid_name n" for n
    using confined_join [OF D goodD(1) [OF v] that] .
  then show "good win D (createFolder s answer v b)"
    using b by (cases s) (auto simp: createFolder_def intro!: good_ask split: option.split)
  assume "e \<in> set (p_entries (pane_of s v))"
  then have e: "exempt win s \<or> parentPath (fe_path e) \<in> D s" using goodD(2) [OF v, of e s] by (auto simp: known_def)
  have "confined win D {(s, fe_path e), (s, joinPath (parentPath (fe_path e)) n)}" if "valid_name n" for n
    using confined_join [OF D _ that, of "parentPath (fe_path e)" s] e by (auto simp: confined_def)
  then show "good win D (renameEntry s e answer v b)"
    using b by (cases s) (auto simp: renameEntry_def Let_def valid_name_def confined_def intro!: good_ask split: option.split)
  show "good win D (deleteEntry s e confirmed v b)"
    using b e by (cases s) (auto simp: deleteEntry_def confined_def intro!: good_ask)
qed

lemma good_selected:
  assumes "normal_dirs win D" "good win D v" "good win D b" "fresh_ids [uuid] b"
  shows "good win D (uploadSelected uuid v b)" "good win D (downloadSelected uuid v b)"
  using assms goodD(3) [OF assms(2), of LocalSide] goodD(3) [OF assms(2), of RemoteSide]
  by (auto simp: uploadSelected_def downloadSelected_def payload_of_def known_def intro!: good_transfer split: option.split)

lemma good_drop:
  assumes "normal_dirs win D" "good win D v" "good win D b" "fresh_ids [uuid] b" "e \<in> set (p_entries (pane_of s' v))"
  shows "good win D (drop_on s (Some (payload_of s' e)) uuid v b)"
  using assms goodD(2) [OF assms(2,5)] by (auto simp: drop_on_def payload_of_def known_def intro!: good_transfer)

lemma good_queue:
  assumes "good win D b" "queue_step (fb_queue b) (f (fb_queue b))" "goes (f (fb_queue b)) \<subseteq> goes (fb_queue b)"
  shows "good win D (on_queue f b)"
  using assms reach_step [OF goodD(4) [OF assms(1)] assms(2)] by (auto simp: good_def on_queue_def confined_def)

lemma panel_step: "queue_step q (press_panel button i q)"
  by (cases button) (simp_all add: queue_step.intros)

lemma act_stays:
  assumes D: "normal_dirs win D" and v: "good win D v" and b: "good win D b" and x: "possible win x v b"
  shows "stays win D (act x v b)"
proof -
  note st = stays_good [OF D] and nav = stays_navigate [OF D b]
  have nv: "\<not> exempt win s \<Longrightarrow> normal_dir (p_path (pane_of s v))" for s by (rule normal_pane [OF D v])
  show ?thesis
  proof (cases x)
    case Mount
    then show ?thesis using b by (auto simp: mounted_def intro!: st good_refresh)
  next
    case (Activate a)
    then show ?thesis using b by (auto simp: set_active_def Let_def intro!: st good_refresh)
  next
    case (PressRefresh s)
    then show ?thesis using b by (auto intro!: st good_refresh)
  next
    case (GotList s outcome)
    have "good win D (listed s outcome b)"
      unfolding listed_def using b
      by (rule good_upd) (use x GotList knownD [OF _ goodD(1) [OF v, of s]] in \<open>auto simp: pane_good_def split: sum.splits\<close>)
    then show ?thesis using GotList st by simp
  next
    case (PressParent s)
    then show ?thesis using b nav parent_normal [OF nv] st by (simp add: press_parent_def)
  next
    case (DoubleClick s e)
    then show ?thesis using b nav st goodD(2) [OF v, of e s] x by (simp add: double_click_def known_def)
  next
    case (GotPath outcome)
    have "good win D (upd_pane RemoteSide (\<lambda>p. p\<lparr>p_error := Some r\<rparr>) b)" for r
      using b by (rule good_upd) (simp add: pane_good_def)
    then show ?thesis
      using GotPath x stays_path [OF D b] st by (cases outcome) (simp_all add: resolved_def del: upd_pane.simps)
  next
    case (ChangeSettled s failure)
    then show ?thesis
      using b by (auto simp: change_settled_def confined_def intro!: st good_refresh good_ask split: option.split)
  next
    case (Click s e)
    have "good win D (select s e b)"
      unfolding select_def using b by (rule good_upd) (use x Click goodD(2) [OF v, of e s] in \<open>auto simp: pane_good_def\<close>)
    then show ?thesis using Click st by simp
  next
    case (OsDrag d uuids)
    then show ?thesis
      using b x D
      by (cases d) (auto simp: os_drag_event_def fresh_ids_def map_snd_zip_take simp del: map_snd_zip
           intro!: st good_drops dest: set_zip_leftD set_zip_rightD)
  next
    case (PressPanel button i)
    then show ?thesis using b panel_step goes_panel by (auto intro!: st good_queue)
  next
    case ClearFinished
    have "good win D (on_queue clearCompleted b)"
      by (rule good_queue [where f = clearCompleted, OF b queue_step.do_clear goes_operations(8)])
    then show ?thesis using ClearFinished st by simp
  qed (use x b good_changes [OF D v b] good_selected [OF D v b] good_drop [OF D v b] in
       \<open>auto intro!: st good_queue queue_step.intros simp: goes_operations\<close>)
qed

lemma shown_Cons: "shown (b # vs) s = insert (p_path (pane_of s b)) (shown vs s)"
  by (simp add: shown_def)

lemma extend_shown: "extend (shown vs) b = shown (b # vs)"
  by (simp add: fun_eq_iff extend_def shown_Cons)

lemma browse_good:
  assumes "browse win vs"
  shows "normal_dirs win (shown vs) \<and> (\<forall>v \<in> set vs. good win (shown vs) v)"
  using assms
proof induction
  case (browse_open r l sid a p)
  have "pane_of s (new_browser sid r l a p) = (if s = LocalSide then new_pane l else new_pane r)" for s
    by (cases s) (simp_all add: new_browser_def)
  then show ?case
    using browse_open reach_new
    by (auto simp: normal_dirs_def exempt_def shown_def good_def pane_good_def new_pane_def confined_def goes_def new_queue_def new_browser_def)
next
  case (browse_act b vs v x)
  have "stays win (shown (b # vs)) (act x v b)" using browse_act by (intro act_stays) auto
  then have "good win (shown (act x v b # b # vs)) (act x v b)" "\<And>s. \<not> exempt win s \<Longrightarrow> normal_dir (p_path (pane_of s (act x v b)))"
    by (simp_all add: stays_def extend_shown)
  moreover have "good win (shown (act x v b # b # vs)) w" if "w \<in> set (b # vs)" for w
  proof (rule good_mono)
    show "good win (shown (b # vs)) w" using browse_act.IH that by blast
    show "shown (b # vs) s \<subseteq> shown (act x v b # b # vs) s" for s by (simp only: shown_Cons [of "act x v b"] subset_insertI)
  qed
  moreover have "normal_dirs win (shown (act x v b # b # vs))"
    using browse_act.IH calculation(2) by (simp add: normal_dirs_def shown_Cons [of "act x v b"])
  ultimately show ?case by simp
qed

section \<open>The buttons of the queue\<close>

lemma find_distinct: "distinct (map k xs) \<Longrightarrow> x \<in> set xs \<Longrightarrow> find (\<lambda>y. k y = k x) xs = Some x"
  by (induction xs) (auto simp: rev_image_eqI)

lemma lookup_self: "queue_ok q \<Longrightarrow> i \<in> set (items q) \<Longrightarrow> lookup_item (item_id i) q = Some i"
  by (simp add: lookup_item_def find_row_def find_distinct queue_ok_def ids_ok_def)

lemma find_update_queued:
  "find (\<lambda>x. item_id x = k) xs = Some j \<Longrightarrow>
     find (\<lambda>x. item_id x = k) (update_first (\<lambda>x. status x = Queued) (\<lambda>x. x\<lparr>status := Running\<rparr>) xs) \<in> {Some j, Some (j\<lparr>status := Running\<rparr>)}"
  by (induction xs) auto

lemma lookup_pump:
  assumes "lookup_item k q = Some j"
  shows "lookup_item k (pump q) = Some j \<or> lookup_item k (pump q) = Some (j\<lparr>status := Running\<rparr>)"
  using assms find_update_queued [of k "items q" j]
  by (auto simp: pump_def lookup_item_def find_row_def split: option.splits)

lemma requeued:
  assumes "queue_ok q" "i \<in> set (items q)"
  shows "\<exists>j. lookup_item (item_id i) (pump (emit OnChange (upd_item (item_id i) requeue q))) = Some j
     \<and> (status j = Queued \<or> status j = Running) \<and> error j = None"
proof -
  have "lookup_item (item_id i) (emit OnChange (upd_item (item_id i) requeue q)) = Some (requeue i)"
    using lookup_self [OF assms] by (simp add: lookup_upd_item requeue_def)
  from lookup_pump [OF this] show ?thesis by (auto simp: requeue_def)
qed

lemma transfer_percent_range: "0 \<le> bytesTransferred i \<Longrightarrow> 0 \<le> transfer_percent i \<and> transfer_percent i \<le> 100"
  by (auto simp: transfer_percent_def Let_def split: option.split intro!: pos_imp_zdiv_nonneg_iff [THEN iffD2])

lemma transfer_percent_full: "totalBytes i = Some t \<Longrightarrow> 0 < t \<Longrightarrow> bytesTransferred i = t \<Longrightarrow> transfer_percent i = 100"
  by (simp add: transfer_percent_def div_pos_pos_trivial)

section \<open>Properties\<close>


text \<open>
  On Windows a local entry cannot be renamed: the backend lists it with a native path, in which
  \<^verbatim>\<open>parentPath\<close> finds no slash, so that the target of the call is relative to no directory that was
  shown; the backend rejects relative paths.\<close>

lemma windows_rename_is_relative:
  assumes "47 \<notin> set (fe_path e)" "valid_name n" "n \<noteq> fe_name e"
  shows "fb_calls (renameEntry LocalSide e (Some n) v b) = fb_calls b @ [RenameLocal (fe_path e) n]"
proof -
  have "parentPath (fe_path e) = js ''.''"
  proof (cases "fe_path e = []")
    case False
    then have "last (fe_path e) \<noteq> 47" using assms(1) last_in_set by metis
    then have n: "replace_first TRAILING_SLASHES [] (fe_path e) = fe_path e" by (rule normal_path)
    have "SftpPath.lastIndexOf 47 (fe_path e) = None" using assms(1) by (simp add: SftpPath.lastIndexOf_None)
    moreover have "\<not> startsWith (fe_path e) (js ''/'')" using assms(1) by (cases "fe_path e") (auto simp: startsWith_def js_def)
    ultimately show ?thesis using False assms(1) by (auto simp: parentPath_def n js_def)
  qed (simp add: parentPath_def)
  then show ?thesis using assms(2,3) by (simp add: renameEntry_def valid_name_def ask_def joinPath_def)
qed

definition sample_entry :: file_entry where
  "sample_entry = \<lparr>fe_name = js ''a'', fe_path = js ''/u/a'', fe_type = js ''file'', fe_size = None, fe_modified = None\<rparr>"

definition sample_browser :: file_browser where
  "sample_browser = new_browser (js ''s'') (js ''/srv'') (js ''/u'') True False"

lemma sample_path: "normal_dir d \<Longrightarrow> valid_name n \<Longrightarrow> p = joinPath d n \<Longrightarrow> parentPath p = d"
  by (simp add: parent_joined)

lemma sample_paths: "parentPath [47, 117, 47, 97] = [47, 117]" "parentPath [47, 117, 47, 98] = [47, 117]"
  "parentPath [47, 115, 114, 118, 47, 97] = [47, 115, 114, 118]"
  by (rule sample_path [of _ "[97]"] sample_path [of _ "[98]"];
      simp add: joinPath_def endsWith_def startsWith_def js_def normal_dir_def valid_name_def)+

lemma sample_browse:
  fixes b0 defines "b0 \<equiv> sample_browser"
  fixes b1 defines "b1 \<equiv> act (GotList LocalSide (Inr [sample_entry])) b0 b0"
  fixes b2 defines "b2 \<equiv> act (Rename LocalSide sample_entry (Some (js ''b''))) b1 b1"
  shows "browse False [act (DropEntry RemoteSide LocalSide sample_entry [1]) b1 b2, b2, b1, b0]"
proof -
  have 0: "browse False [b0]" unfolding b0_def sample_browser_def by (rule browse_open) (simp_all add: normal_dir_def js_def)
  have 1: "browse False [b1, b0]" unfolding b1_def
    by (rule browse_act [OF 0])
       (simp_all add: entry_in_def exempt_def sample_entry_def sample_paths b0_def sample_browser_def new_browser_def new_pane_def
         normal_dir_def valid_name_def startsWith_def js_def)
  have 2: "browse False [b2, b1, b0]" unfolding b2_def
    by (rule browse_act [OF 1]) (simp_all add: b1_def listed_def)
  show ?thesis
    by (rule browse_act [OF 2]) (simp_all add: b1_def b2_def b0_def sample_browser_def new_browser_def listed_def fresh_ids_def
         renameEntry_def sample_entry_def startsWith_def ask_def new_queue_def js_def Let_def)
qed


text \<open>
  Every button that the panel offers for a transfer acts on that very transfer: pause and cancel
  of the running one ask the backend to stop it and change nothing else, resume and retry put it back
  into the queue or start it, without its error, and cancel of a waiting one marks it cancelled.\<close>

theorem panel_buttons_act:
  assumes "queue_reachable q" "i \<in> set (items q)" "item_id i \<noteq> []" "button \<in> set (panel_buttons i)"
  shows "case button of
      PauseButton \<Rightarrow> press_panel button i q = emit (CancelSftpTransfer (item_id i)) q
    | CancelButton \<Rightarrow>
        (if status i = Running then press_panel button i q = emit (CancelSftpTransfer (item_id i)) q
         else lookup_item (item_id i) (press_panel button i q) = Some (i\<lparr>status := Cancelled\<rparr>))
    | _ \<Rightarrow> \<exists>j. lookup_item (item_id i) (press_panel button i q) = Some j \<and> (status j = Queued \<or> status j = Running) \<and> error j = None"
proof -
  have ok: "queue_ok q" using assms(1) by (rule reachable_ok)
  note self = lookup_self [OF ok assms(2)]
  have "activeId q = Some (item_id i)" if "status i = Running" using ok assms(2) that by (auto simp: queue_ok_def busy_ok_def)
  then show ?thesis
    using assms(3,4) self requeued [OF ok assms(2)]
    by (cases button) (auto simp: panel_buttons_def pauseActive_def resume_def retry_def cancel_def lookup_upd_item split: if_splits)
qed

theorem panel_buttons_act_witness:
  "let q = enqueue (sample_request 2) (enqueue (sample_request 1) new_queue); i = hd (items q)
   in panel_buttons i = [PauseButton, CancelButton] \<and> press_panel PauseButton i q = emit (CancelSftpTransfer [1]) q"
proof -
  let ?q = "enqueue (sample_request 2) (enqueue (sample_request 1) new_queue)"
  have q: "item_id (hd (items ?q)) = [1]" "status (hd (items ?q)) = Running" "hd (items ?q) \<in> set (items ?q)"
    by (simp_all add: new_queue_def sample_request_def enqueue_def Let_def pump_def emit_def)
  then show ?thesis
    using panel_buttons_act [OF sample_reachable q(3), of PauseButton] by (simp add: Let_def panel_buttons_def del: press_panel.simps)
qed

section \<open>What goes wrong\<close>

text \<open>
  A listing is shown whatever the pane shows by then: when the user has entered another directory
  before the first answer arrives, the entries of the first are shown under the path of the second.
\<close>

lemma late_listing_shown_under_wrong_path:
  fixes b defines "b \<equiv> mounted sample_browser"
  defines "b1 \<equiv> listed LocalSide (Inr []) (navigate LocalSide (js ''/v'') b b)"
  defines "b2 \<equiv> listed LocalSide (Inr [sample_entry]) b1"
  shows "p_path (fb_local b2) = js ''/v''" "p_entries (fb_local b2) = [sample_entry]" "\<not> p_loading (fb_local b2)" "p_error (fb_local b2) = None"
  by (simp_all add: b2_def b1_def b_def mounted_def sample_browser_def new_browser_def new_pane_def listed_def set_path_def
      refresh_def ask_def js_def Let_def)

text \<open>
  The same happens without any reordering when a folder is created and the user navigates before the
  backend has answered: the handler lists the directory of its own render again.
\<close>

lemma create_then_navigate_lists_old_directory:
  fixes b defines "b \<equiv> sample_browser"
  defines "b1 \<equiv> navigate LocalSide (js ''/v'') b (createFolder LocalSide (Some (js ''n'')) b b)"
  shows "fb_calls (change_settled LocalSide None b b1) = [MkdirLocal (js ''/u/n''), ListLocal (js ''/v''), ListLocal (js ''/u'')]"
    "p_path (fb_local (change_settled LocalSide None b b1)) = js ''/v''"
  by (simp_all add: b1_def b_def change_settled_def sample_browser_def new_browser_def new_pane_def set_path_def createFolder_def
      valid_name_def joinPath_def endsWith_def startsWith_def refresh_def ask_def js_def Let_def)

text \<open>
  The payload of a drag does not say which connection it comes from: an entry of one browser dropped
  on the local pane of another is fetched over the connection of the other.
\<close>

lemma foreign_drop_is_accepted:
  "fb_queue (drop_on LocalSide (Some (payload_of RemoteSide e)) uuid v b)
     = enqueue \<lparr>req_id = uuid, req_direction = Download, req_localPath = joinPath (p_path (fb_local v)) (fe_name e),
                req_remotePath = fe_path e, req_label = (if fe_type e = js ''dir'' then fe_name e @ js ''/'' else fe_name e),
                req_offset = None\<rparr> (fb_queue b)"
  by (simp add: drop_on_def enqueueTransfer_def payload_of_def)

text \<open>
  Every browser that fills a pane accepts every drop on the window, so with two of them side by side
  one dropped file is uploaded to both servers.
\<close>

lemma drop_reaches_every_pane:
  "fb_pane b \<Longrightarrow> (RemoteSide, joinPath (p_path (fb_remote b)) (dropped_name path)) \<in> goes (fb_queue (os_drag_event (DragDrop [path]) [uuid] b))"
  by (simp add: os_drag_event_def drop_upload_def goes_enqueue)

end
