(* ===== verification/PathPicker.thy ===== *)
theory PathPicker
  imports FileBrowser
begin

text \<open>
  The folder picker of the project form (\<^verbatim>\<open>projects/PathBrowser.tsx\<close>). It lists folders of this
  computer, or of a host over a connection that it opens for itself and has to close again. Opening
  runs in an effect that is cut at its awaits; a change of the host cancels it and runs it anew.
\<close>

section \<open>State\<close>

datatype browse_mode = LocalMode | RemoteMode jsstr

datatype picker_call =
    LocalHome
  | OpenSftp jsstr
  | CloseSftp session_id
  | PickCanonicalize session_id jsstr
  | PickListLocal jsstr
  | PickListRemote session_id jsstr
  | PickMkdirLocal jsstr
  | PickMkdirRemote session_id jsstr jsstr
  | OnSelect jsstr
  | OnCancel

text \<open>One run of the effect: where it waits, whether its cleanup has run, the connection it opened.\<close>

datatype boot_stage = AwaitHome | AwaitOpen | AwaitCanonical jsstr | AwaitEntries | BootDone

record boot =
  bt_stage :: boot_stage
  bt_cancelled :: bool
  bt_opened :: "session_id option"

record picker =
  pk_mode :: browse_mode
  pk_initial :: jsstr
  pk_cwd :: jsstr
  pk_entries :: "file_entry list"
  pk_session :: "session_id option"
  pk_loading :: bool
  pk_error :: "jsstr option"
  pk_creating :: bool
  pk_newName :: jsstr
  pk_creatingBusy :: bool
  pk_query :: jsstr
  pk_mounted :: bool
  pk_boots :: "boot list"
  pk_calls :: "picker_call list"

section \<open>Paths and entries\<close>

definition parent_or_null :: "jsstr \<Rightarrow> jsstr option" where
  "parent_or_null path =
     (if path = [] \<or> path = js ''/'' \<or> path = js ''.'' then None
      else let normalized = replace_first TRAILING_SLASHES [] path in
        case SftpPath.lastIndexOf 47 normalized of
          None \<Rightarrow> (if startsWith normalized (js ''/'') then Some (js ''/'') else None)
        | Some idx \<Rightarrow>
            if idx = 0 then (if startsWith normalized (js ''/'') then Some (js ''/'') else None)
            else if take idx normalized \<noteq> [] then Some (take idx normalized) else Some (js ''/''))"

definition isDirectory :: "file_entry \<Rightarrow> bool" where
  "isDirectory e \<longleftrightarrow> fe_type e = js ''dir'' \<or> fe_type e = js ''symlink''"

text \<open>\<^verbatim>\<open>toLowerCase\<close> is the argument \<open>lower\<close>.\<close>

definition filtered :: "(jsstr \<Rightarrow> jsstr) \<Rightarrow> picker \<Rightarrow> file_entry list" where
  "filtered lower b =
     (let needle = lower (trim (pk_query b)) in
      if needle = [] then pk_entries b else filter (\<lambda>e. includes_str (lower (fe_name e)) needle) (pk_entries b))"

section \<open>The connection\<close>

definition tell_backend :: "picker_call \<Rightarrow> picker \<Rightarrow> picker" where
  "tell_backend c b = b\<lparr>pk_calls := pk_calls b @ [c]\<rparr>"

definition close_opt :: "session_id option \<Rightarrow> picker \<Rightarrow> picker" where
  "close_opt s b = (case s of None \<Rightarrow> b | Some sid \<Rightarrow> if sid = [] then b else tell_backend (CloseSftp sid) b)"

text \<open>\<^verbatim>\<open>setSessionId\<close> with the effect that closes the old session when it changes.\<close>

definition set_session :: "session_id option \<Rightarrow> picker \<Rightarrow> picker" where
  "set_session s b = (if s = pk_session b then b else (close_opt (pk_session b) b)\<lparr>pk_session := s\<rparr>)"

text \<open>The effect: its start, its cleanup.\<close>

definition boot_start :: "picker \<Rightarrow> picker" where
  "boot_start b =
     (case pk_mode b of
        LocalMode \<Rightarrow> tell_backend LocalHome (b\<lparr>pk_loading := True, pk_error := None,
           pk_boots := pk_boots b @ [\<lparr>bt_stage = AwaitHome, bt_cancelled = False, bt_opened = None\<rparr>]\<rparr>)
      | RemoteMode host \<Rightarrow> tell_backend (OpenSftp host) (b\<lparr>pk_loading := True, pk_error := None,
           pk_boots := pk_boots b @ [\<lparr>bt_stage = AwaitOpen, bt_cancelled = False, bt_opened = None\<rparr>]\<rparr>))"

definition boot_cleanup :: "picker \<Rightarrow> picker" where
  "boot_cleanup b =
     (if pk_boots b = [] then b
      else close_opt (bt_opened (last (pk_boots b)))
             (b\<lparr>pk_boots := butlast (pk_boots b) @ [(last (pk_boots b))\<lparr>bt_cancelled := True\<rparr>]\<rparr>))"

definition new_picker :: "browse_mode \<Rightarrow> jsstr \<Rightarrow> picker" where
  "new_picker mode initial =
     boot_start \<lparr>pk_mode = mode, pk_initial = initial, pk_cwd = trim initial, pk_entries = [], pk_session = None,
       pk_loading = True, pk_error = None, pk_creating = False, pk_newName = [], pk_creatingBusy = False, pk_query = [],
       pk_mounted = True, pk_boots = [], pk_calls = []\<rparr>"

definition change_mode :: "browse_mode \<Rightarrow> picker \<Rightarrow> picker" where
  "change_mode mode b = (if mode = pk_mode b then b else boot_start (boot_cleanup (b\<lparr>pk_mode := mode\<rparr>)))"

definition unmount :: "picker \<Rightarrow> picker" where
  "unmount b = (close_opt (pk_session b) (boot_cleanup b))\<lparr>pk_mounted := False\<rparr>"

text \<open>What the effect does with the answers it waits for, for the run at position \<open>k\<close>.\<close>

definition upd_boot :: "nat \<Rightarrow> (boot \<Rightarrow> boot) \<Rightarrow> picker \<Rightarrow> picker" where
  "upd_boot k f b = b\<lparr>pk_boots := (pk_boots b)[k := f (pk_boots b ! k)]\<rparr>"

definition boot_stops :: "nat \<Rightarrow> jsstr option \<Rightarrow> picker \<Rightarrow> picker" where
  "boot_stops k failure b =
     (let b1 = upd_boot k (\<lambda>t. t\<lparr>bt_stage := BootDone\<rparr>) b in
      if bt_cancelled (pk_boots b ! k) then b1
      else b1\<lparr>pk_error := (case failure of None \<Rightarrow> pk_error b1 | Some r \<Rightarrow> Some r), pk_loading := False\<rparr>)"

definition or_text :: "jsstr \<Rightarrow> jsstr \<Rightarrow> jsstr" where
  "or_text a b = (if a \<noteq> [] then a else b)"

definition home_answer :: "nat \<Rightarrow> jsstr + jsstr \<Rightarrow> picker \<Rightarrow> picker" where
  "home_answer k outcome b =
     (case outcome of
        Inl reason \<Rightarrow> boot_stops k (Some reason) b
      | Inr home \<Rightarrow>
          let start = or_text (trim (pk_initial b)) home in
          if bt_cancelled (pk_boots b ! k) then boot_stops k None b
          else tell_backend (PickListLocal start) (upd_boot k (\<lambda>t. t\<lparr>bt_stage := AwaitEntries\<rparr>) (b\<lparr>pk_cwd := start\<rparr>)))"

definition open_answer :: "nat \<Rightarrow> jsstr + (session_id \<times> jsstr) \<Rightarrow> picker \<Rightarrow> picker" where
  "open_answer k outcome b =
     (case outcome of
        Inl reason \<Rightarrow> boot_stops k (Some reason) b
      | Inr (sid, rpath) \<Rightarrow>
          let b1 = upd_boot k (\<lambda>t. t\<lparr>bt_opened := Some sid\<rparr>) b in
          if bt_cancelled (pk_boots b ! k) then boot_stops k None (tell_backend (CloseSftp sid) b1)
          else tell_backend (PickCanonicalize sid (or_text (trim (pk_initial b)) (or_text rpath (js ''.''))))
                 (upd_boot k (\<lambda>t. t\<lparr>bt_stage := AwaitCanonical rpath\<rparr>) (set_session (Some sid) b1)))"

definition canonical_answer :: "nat \<Rightarrow> jsstr + jsstr \<Rightarrow> picker \<Rightarrow> picker" where
  "canonical_answer k outcome b =
     (case bt_stage (pk_boots b ! k) of
        AwaitCanonical rpath \<Rightarrow>
          (let start = (case outcome of Inr p \<Rightarrow> p | Inl _ \<Rightarrow> or_text rpath (js ''.'')) in
           if bt_cancelled (pk_boots b ! k) then boot_stops k None b
           else tell_backend (PickListRemote (the (bt_opened (pk_boots b ! k))) start)
                  (upd_boot k (\<lambda>t. t\<lparr>bt_stage := AwaitEntries\<rparr>) (b\<lparr>pk_cwd := start\<rparr>)))
      | _ \<Rightarrow> b)"

definition entries_answer :: "nat \<Rightarrow> jsstr + file_entry list \<Rightarrow> picker \<Rightarrow> picker" where
  "entries_answer k outcome b =
     (case outcome of
        Inl reason \<Rightarrow> boot_stops k (Some reason) b
      | Inr es \<Rightarrow>
          boot_stops k None (if bt_cancelled (pk_boots b ! k) then b else b\<lparr>pk_entries := filter isDirectory es\<rparr>))"

section \<open>Handlers\<close>

definition NOT_OPEN :: jsstr where
  "NOT_OPEN = js ''Error: SFTP session is not open.''"

text \<open>\<^verbatim>\<open>refresh(at)\<close> of the render \<open>v\<close>: the call, or the exception.\<close>

definition list_folders :: "picker \<Rightarrow> jsstr \<Rightarrow> jsstr + picker_call" where
  "list_folders v at_path =
     (case pk_mode v of
        LocalMode \<Rightarrow> Inr (PickListLocal at_path)
      | RemoteMode _ \<Rightarrow> (case pk_session v of
           None \<Rightarrow> Inl NOT_OPEN
         | Some sid \<Rightarrow> if sid = [] then Inl NOT_OPEN else Inr (PickListRemote sid at_path)))"

definition try_call :: "(jsstr \<Rightarrow> picker \<Rightarrow> picker) \<Rightarrow> jsstr + picker_call \<Rightarrow> picker \<Rightarrow> picker" where
  "try_call onFail c b = (case c of Inl reason \<Rightarrow> onFail reason b | Inr call \<Rightarrow> tell_backend call b)"

definition nav_failed :: "jsstr \<Rightarrow> picker \<Rightarrow> picker" where
  "nav_failed reason b = b\<lparr>pk_error := Some reason, pk_loading := False\<rparr>"

definition pick_navigate :: "jsstr \<Rightarrow> picker \<Rightarrow> picker \<Rightarrow> picker" where
  "pick_navigate dest v b =
     (let b1 = b\<lparr>pk_loading := True, pk_error := None, pk_creating := False, pk_newName := [], pk_query := []\<rparr> in
      case pk_mode v of
        LocalMode \<Rightarrow> tell_backend (PickListLocal dest) (b1\<lparr>pk_cwd := dest\<rparr>)
      | RemoteMode _ \<Rightarrow> (case pk_session v of
           None \<Rightarrow> nav_failed NOT_OPEN b1
         | Some sid \<Rightarrow> if sid = [] then nav_failed NOT_OPEN b1 else tell_backend (PickCanonicalize sid dest) b1))"

text \<open>After the canonical path is known (or not: then the path itself), and after the listing.\<close>

definition nav_resolved :: "jsstr \<Rightarrow> jsstr + jsstr \<Rightarrow> picker \<Rightarrow> picker \<Rightarrow> picker" where
  "nav_resolved dest outcome v b =
     (let r = (case outcome of Inr p \<Rightarrow> p | Inl _ \<Rightarrow> dest) in try_call nav_failed (list_folders v r) (b\<lparr>pk_cwd := r\<rparr>))"

definition nav_listed :: "jsstr + file_entry list \<Rightarrow> picker \<Rightarrow> picker" where
  "nav_listed outcome b =
     (case outcome of
        Inl reason \<Rightarrow> nav_failed reason b
      | Inr es \<Rightarrow> b\<lparr>pk_entries := filter isDirectory es, pk_loading := False\<rparr>)"

definition goUp :: "picker \<Rightarrow> picker \<Rightarrow> picker" where
  "goUp v b = (case parent_or_null (pk_cwd v) of None \<Rightarrow> b | Some p \<Rightarrow> if p = [] then b else pick_navigate p v b)"

definition create_failed :: "jsstr \<Rightarrow> picker \<Rightarrow> picker" where
  "create_failed reason b = b\<lparr>pk_error := Some reason, pk_creatingBusy := False\<rparr>"

definition pick_create :: "picker \<Rightarrow> picker \<Rightarrow> picker" where
  "pick_create v b =
     (let name = trim (pk_newName v) in
      if \<not> valid_name name then b\<lparr>pk_error := Some (js ''Enter a folder name without slashes.'')\<rparr>
      else let b1 = b\<lparr>pk_creatingBusy := True, pk_error := None\<rparr> in
        case pk_mode v of
          LocalMode \<Rightarrow> tell_backend (PickMkdirLocal (joinPath (pk_cwd v) name)) b1
        | RemoteMode _ \<Rightarrow> (case pk_session v of
             None \<Rightarrow> create_failed NOT_OPEN b1
           | Some sid \<Rightarrow> if sid = [] then create_failed NOT_OPEN b1 else tell_backend (PickMkdirRemote sid (pk_cwd v) name) b1))"

definition create_settled :: "jsstr option \<Rightarrow> picker \<Rightarrow> picker \<Rightarrow> picker" where
  "create_settled failure v b =
     (case failure of
        Some reason \<Rightarrow> create_failed reason b
      | None \<Rightarrow> try_call create_failed (list_folders v (pk_cwd v)) (b\<lparr>pk_creating := False, pk_newName := []\<rparr>))"

definition create_listed :: "jsstr + file_entry list \<Rightarrow> picker \<Rightarrow> picker" where
  "create_listed outcome b =
     (case outcome of
        Inl reason \<Rightarrow> create_failed reason b
      | Inr es \<Rightarrow> b\<lparr>pk_entries := filter isDirectory es, pk_creatingBusy := False\<rparr>)"

definition leave_picker :: "picker_call \<Rightarrow> picker \<Rightarrow> picker \<Rightarrow> picker" where
  "leave_picker c v b =
     tell_backend c (case pk_session v of
        None \<Rightarrow> b
      | Some sid \<Rightarrow> if sid = [] then b else set_session None (tell_backend (CloseSftp sid) b))"

definition choose_folder :: "picker \<Rightarrow> picker \<Rightarrow> picker" where
  "choose_folder v b = leave_picker (OnSelect (pk_cwd v)) v b"

definition cancel_pick :: "picker \<Rightarrow> picker \<Rightarrow> picker" where
  "cancel_pick v b = leave_picker OnCancel v b"

text \<open>The controls: what is disabled, and the keys of the two fields.\<close>

definition press_up :: "picker \<Rightarrow> picker \<Rightarrow> picker" where
  "press_up v b = (if pk_loading v \<or> parent_or_null (pk_cwd v) \<in> {None, Some []} then b else goUp v b)"

definition press_new :: "picker \<Rightarrow> picker \<Rightarrow> picker" where
  "press_new v b =
     (if pk_loading v \<or> pk_cwd v = [] \<or> pk_creating v then b
      else b\<lparr>pk_error := None, pk_creating := True, pk_newName := []\<rparr>)"

definition stop_creating :: "picker \<Rightarrow> picker \<Rightarrow> picker" where
  "stop_creating v b = (if pk_creatingBusy v then b else b\<lparr>pk_creating := False, pk_newName := []\<rparr>)"

definition press_use :: "picker \<Rightarrow> picker \<Rightarrow> picker" where
  "press_use v b = (if pk_loading v \<or> pk_cwd v = [] then b else choose_folder v b)"

definition press_create_folder :: "picker \<Rightarrow> picker \<Rightarrow> picker" where
  "press_create_folder v b = (if \<not> pk_creating v \<or> pk_creatingBusy v \<or> trim (pk_newName v) = [] then b else pick_create v b)"

definition name_key :: "jsstr \<Rightarrow> picker \<Rightarrow> picker \<Rightarrow> picker" where
  "name_key key v b =
     (if pk_creatingBusy v \<or> \<not> pk_creating v then b
      else if key = js ''Enter'' then pick_create v b else if key = js ''Escape'' then stop_creating v b else b)"

definition query_key :: "(jsstr \<Rightarrow> jsstr) \<Rightarrow> jsstr \<Rightarrow> picker \<Rightarrow> picker \<Rightarrow> picker" where
  "query_key lower key v b =
     (if pk_loading v then b
      else if key = js ''Enter'' \<and> length (filtered lower v) = 1 then pick_navigate (fe_path (hd (filtered lower v))) v b
      else if key = js ''Escape'' \<and> pk_query v \<noteq> [] then b\<lparr>pk_query := []\<rparr>
      else b)"

definition click_folder :: "file_entry \<Rightarrow> picker \<Rightarrow> picker \<Rightarrow> picker" where
  "click_folder e v b = (if pk_loading v then b else pick_navigate (fe_path e) v b)"

section \<open>A picker in use\<close>

datatype pick_action =
    BootHome nat "jsstr + jsstr"
  | BootOpen nat "jsstr + (session_id \<times> jsstr)"
  | BootCanonical nat "jsstr + jsstr"
  | BootEntries nat "jsstr + file_entry list"
  | ChangeMode browse_mode
  | Unmount
  | PressUp
  | PressNew
  | StopCreating
  | PressUse
  | PressCancel
  | PressCreate
  | NameKey jsstr
  | QueryKey jsstr
  | ClickFolder file_entry
  | TypeName jsstr
  | TypeQuery jsstr
  | NavResolved jsstr "jsstr + jsstr"
  | NavListed "jsstr + file_entry list"
  | CreateSettled "jsstr option"
  | CreateListed "jsstr + file_entry list"

fun pick_act :: "(jsstr \<Rightarrow> jsstr) \<Rightarrow> pick_action \<Rightarrow> picker \<Rightarrow> picker \<Rightarrow> picker" where
  "pick_act lower (BootHome k r) v b = home_answer k r b"
| "pick_act lower (BootOpen k r) v b = open_answer k r b"
| "pick_act lower (BootCanonical k r) v b = canonical_answer k r b"
| "pick_act lower (BootEntries k r) v b = entries_answer k r b"
| "pick_act lower (ChangeMode m) v b = change_mode m b"
| "pick_act lower Unmount v b = unmount b"
| "pick_act lower PressUp v b = press_up v b"
| "pick_act lower PressNew v b = press_new v b"
| "pick_act lower StopCreating v b = stop_creating v b"
| "pick_act lower PressUse v b = press_use v b"
| "pick_act lower PressCancel v b = cancel_pick v b"
| "pick_act lower PressCreate v b = press_create_folder v b"
| "pick_act lower (NameKey key) v b = name_key key v b"
| "pick_act lower (QueryKey key) v b = query_key lower key v b"
| "pick_act lower (ClickFolder e) v b = click_folder e v b"
| "pick_act lower (TypeName s) v b = b\<lparr>pk_newName := s\<rparr>"
| "pick_act lower (TypeQuery s) v b = b\<lparr>pk_query := s\<rparr>"
| "pick_act lower (NavResolved dest r) v b = nav_resolved dest r v b"
| "pick_act lower (NavListed r) v b = nav_listed r b"
| "pick_act lower (CreateSettled r) v b = create_settled r v b"
| "pick_act lower (CreateListed r) v b = create_listed r b"

definition opened :: "picker \<Rightarrow> session_id set" where
  "opened b = {s. \<exists>t \<in> set (pk_boots b). bt_opened t = Some s}"

text \<open>
  Answers come to a run of the effect that waits for them, and a new connection has a new
  identifier. The user can only act while the picker is mounted.
\<close>

definition waits :: "boot_stage \<Rightarrow> nat \<Rightarrow> picker \<Rightarrow> bool" where
  "waits st k b \<longleftrightarrow> k < length (pk_boots b) \<and> bt_stage (pk_boots b ! k) = st"

fun can_happen :: "pick_action \<Rightarrow> picker \<Rightarrow> bool" where
  "can_happen (BootHome k r) b = waits AwaitHome k b"
| "can_happen (BootOpen k (Inl r)) b = waits AwaitOpen k b"
| "can_happen (BootOpen k (Inr (sid, p))) b = (waits AwaitOpen k b \<and> sid \<noteq> [] \<and> sid \<notin> opened b)"
| "can_happen (BootCanonical k r) b = (k < length (pk_boots b) \<and> (\<exists>p. bt_stage (pk_boots b ! k) = AwaitCanonical p))"
| "can_happen (BootEntries k r) b = waits AwaitEntries k b"
| "can_happen (NavResolved dest r) b = True"
| "can_happen (NavListed r) b = True"
| "can_happen (CreateSettled r) b = True"
| "can_happen (CreateListed r) b = True"
| "can_happen _ b = pk_mounted b"

inductive picking :: "picker list \<Rightarrow> bool" where
  pick_start: "picking [new_picker m i]"
| pick_step: "picking (b # vs) \<Longrightarrow> v \<in> set (b # vs) \<Longrightarrow> can_happen x b \<Longrightarrow> picking (pick_act lower x v b # b # vs)"

section \<open>The invariant\<close>

definition closes :: "picker \<Rightarrow> session_id set" where
  "closes b = {s. CloseSftp s \<in> set (pk_calls b)}"

definition opened_in :: "boot list \<Rightarrow> session_id set" where
  "opened_in ts = {s. \<exists>t \<in> set ts. bt_opened t = Some s}"

text \<open>
  Every run of the effect but the last is cancelled, and the last one too when the picker is gone
  (\<open>over\<close>); what a cancelled run has opened is closed; the connection in use is one that was opened,
  and it is not closed while it is that of the current run.
\<close>

definition boot_ok :: "bool \<Rightarrow> session_id set \<Rightarrow> boot \<Rightarrow> bool" where
  "boot_ok over C t \<longleftrightarrow> (over \<longrightarrow> bt_cancelled t) \<and> (bt_stage t = AwaitOpen \<longrightarrow> bt_opened t = None)
     \<and> (\<forall>s \<in> set_option (bt_opened t). s \<noteq> [] \<and> (bt_cancelled t \<longrightarrow> s \<in> C))"

definition conn_ok :: "boot list \<Rightarrow> session_id option \<Rightarrow> bool \<Rightarrow> session_id set \<Rightarrow> bool" where
  "conn_ok ts s m C \<longleftrightarrow> ts \<noteq> [] \<and> (\<forall>i < length ts. boot_ok (Suc i < length ts \<or> \<not> m) C (ts ! i))
     \<and> set_option s \<subseteq> opened_in ts \<and> C \<subseteq> opened_in ts
     \<and> (m \<longrightarrow> (\<forall>x. s = Some x \<and> bt_opened (ts ! (length ts - 1)) = Some x \<longrightarrow> x \<notin> C))"

definition picker_ok :: "picker \<Rightarrow> bool" where
  "picker_ok b \<longleftrightarrow> conn_ok (pk_boots b) (pk_session b) (pk_mounted b) (closes b)"

text \<open>What most actions leave alone.\<close>

definition same_connections :: "picker \<Rightarrow> picker \<Rightarrow> bool" where
  "same_connections b b' \<longleftrightarrow> pk_boots b' = pk_boots b \<and> pk_session b' = pk_session b \<and> pk_mounted b' = pk_mounted b \<and> closes b' = closes b"

lemma picker_ok_same: "same_connections b b' \<Longrightarrow> picker_ok b \<Longrightarrow> picker_ok b'"
  unfolding picker_ok_def same_connections_def by simp

lemma closes_tell [simp]: "closes (tell_backend c b) = closes b \<union> (case c of CloseSftp s \<Rightarrow> {s} | _ \<Rightarrow> {})"
  by (auto simp: closes_def tell_backend_def split: picker_call.splits)

lemma tell_simps [simp]:
  "pk_boots (tell_backend c b) = pk_boots b" "pk_session (tell_backend c b) = pk_session b"
  "pk_mounted (tell_backend c b) = pk_mounted b" "pk_mode (tell_backend c b) = pk_mode b"
  by (simp_all add: tell_backend_def)

lemma list_folders_quiet: "list_folders v p = Inr c \<Longrightarrow> \<forall>s. c \<noteq> CloseSftp s"
  by (auto simp: list_folders_def split: browse_mode.splits option.splits if_splits)

lemma closes_upd [simp]:
  "closes (b\<lparr>pk_loading := x1\<rparr>) = closes b" "closes (b\<lparr>pk_error := x2\<rparr>) = closes b" "closes (b\<lparr>pk_creating := x3\<rparr>) = closes b"
  "closes (b\<lparr>pk_newName := x4\<rparr>) = closes b" "closes (b\<lparr>pk_query := x5\<rparr>) = closes b" "closes (b\<lparr>pk_cwd := x6\<rparr>) = closes b"
  "closes (b\<lparr>pk_entries := x7\<rparr>) = closes b" "closes (b\<lparr>pk_creatingBusy := x8\<rparr>) = closes b" "closes (b\<lparr>pk_session := x9\<rparr>) = closes b"
  "closes (b\<lparr>pk_mounted := x10\<rparr>) = closes b" "closes (b\<lparr>pk_boots := x11\<rparr>) = closes b" "closes (b\<lparr>pk_mode := x12\<rparr>) = closes b"
  by (simp_all add: closes_def)

lemma same_try:
  "(\<And>r b. same_connections b (f r b)) \<Longrightarrow> same_connections b (try_call f (list_folders v p) b)"
  using list_folders_quiet [of v p]
  by (auto simp: try_call_def same_connections_def split: sum.splits picker_call.splits)

lemma same_refl: "same_connections b b" and same_trans: "same_connections a b \<Longrightarrow> same_connections b c \<Longrightarrow> same_connections a c"
  by (simp_all add: same_connections_def)

lemma same_failed: "same_connections b (nav_failed r b)" "same_connections b (create_failed r b)"
  by (simp_all add: same_connections_def nav_failed_def create_failed_def)

lemma same_navigate: "same_connections b (pick_navigate dest v b)"
  by (auto simp: pick_navigate_def nav_failed_def same_connections_def Let_def split: browse_mode.splits option.splits)

lemma same_create: "same_connections b (pick_create v b)"
  by (auto simp: pick_create_def create_failed_def same_connections_def Let_def split: browse_mode.splits option.splits)

lemma same_nav_resolved: "same_connections b (nav_resolved dest r v b)"
  unfolding nav_resolved_def Let_def
  by (rule same_trans [OF _ same_try [OF same_failed(1)]]) (simp add: same_connections_def)

lemma same_create_settled: "same_connections b (create_settled r v b)"
proof (cases r)
  case None
  moreover have "same_connections b (try_call create_failed (list_folders v (pk_cwd v)) (b\<lparr>pk_creating := False, pk_newName := []\<rparr>))"
    by (rule same_trans [OF _ same_try [OF same_failed(2)]]) (simp add: same_connections_def)
  ultimately show ?thesis by (simp add: create_settled_def)
qed (simp add: create_settled_def same_failed)

lemmas same_handlers = same_refl same_failed same_navigate same_create same_nav_resolved same_create_settled

lemma same_controls:
  "same_connections b (press_up v b)" "same_connections b (press_new v b)" "same_connections b (stop_creating v b)"
  "same_connections b (press_create_folder v b)" "same_connections b (name_key key v b)" "same_connections b (query_key lower key v b)"
  "same_connections b (click_folder e v b)" "same_connections b (nav_listed r' b)" "same_connections b (create_listed r' b)"
  unfolding press_up_def press_new_def stop_creating_def press_create_folder_def name_key_def query_key_def click_folder_def
    nav_listed_def create_listed_def goUp_def
  by (auto simp: same_handlers split: option.split sum.split) (simp_all add: same_connections_def)

lemma close_opt_simps [simp]:
  "pk_boots (close_opt s b) = pk_boots b" "pk_session (close_opt s b) = pk_session b" "pk_mounted (close_opt s b) = pk_mounted b"
  "pk_mode (close_opt s b) = pk_mode b" "closes (close_opt s b) = closes b \<union> {x. s = Some x \<and> x \<noteq> []}"
  by (auto simp: close_opt_def split: option.splits)

lemma set_session_simps [simp]:
  "pk_boots (set_session s b) = pk_boots b" "pk_session (set_session s b) = s" "pk_mounted (set_session s b) = pk_mounted b"
  "closes (set_session s b) = closes b \<union> (if s = pk_session b then {} else {x. pk_session b = Some x \<and> x \<noteq> []})"
  by (auto simp: set_session_def)

lemma opened_in_simps [simp]: "opened_in [] = {}" "opened_in (t # ts) = set_option (bt_opened t) \<union> opened_in ts"
  "opened_in (us @ ts) = opened_in us \<union> opened_in ts"
  by (auto simp: opened_in_def)

lemma opened_in_update: "k < length ts \<Longrightarrow> bt_opened (ts ! k) = None \<or> bt_opened t = bt_opened (ts ! k) \<Longrightarrow>
    opened_in (ts[k := t]) = opened_in ts \<union> set_option (bt_opened t)"
proof (induction ts arbitrary: k)
  case (Cons u ts)
  then show ?case by (cases k) auto
qed simp

lemma boot_ok_mono: "boot_ok over C t \<Longrightarrow> C \<subseteq> C' \<Longrightarrow> boot_ok over C' t"
  by (auto simp: boot_ok_def)

lemma opened_nth: "i < length ts \<Longrightarrow> bt_opened (ts ! i) = Some x \<Longrightarrow> x \<in> opened_in ts"
  by (auto simp: opened_in_def)

lemma conn_update:
  assumes c: "conn_ok ts s m C" and k: "k < length ts"
    and t: "bt_cancelled t = bt_cancelled (ts ! k)" "bt_opened t = bt_opened (ts ! k)" "bt_stage t \<noteq> AwaitOpen"
  shows "conn_ok (ts[k := t]) s m C"
proof -
  have "opened_in (ts[k := t]) = opened_in ts"
    using opened_in_update [OF k, of t] t(2) opened_nth [OF k] by (auto simp: t(2))
  then show ?thesis
    using c k t by (auto simp: conn_ok_def boot_ok_def nth_list_update)
qed

lemma conn_opened:
  assumes c: "conn_ok ts s m C" and k: "k < length ts" and none: "bt_opened (ts ! k) = None"
    and t: "bt_cancelled t = bt_cancelled (ts ! k)" "bt_opened t = Some x" "bt_stage t \<noteq> AwaitOpen" "x \<noteq> []" "x \<notin> opened_in ts"
    and s': "if bt_cancelled t then s' = s \<and> C' = insert x C else s' = Some x \<and> C' = C \<union> set_option s"
  shows "conn_ok (ts[k := t]) s' m C'"
proof -
  have o: "opened_in (ts[k := t]) = insert x (opened_in ts)" using opened_in_update [OF k, of t] none t(2) by simp
  have C: "C \<subseteq> C'" using s' by (auto split: if_splits)
  have ts: "boot_ok (Suc i < length ts \<or> \<not> m) C' (ts[k := t] ! i)" if "i < length ts" for i
  proof (cases "i = k")
    case True
    have "boot_ok (Suc k < length ts \<or> \<not> m) C (ts ! k)" using c k by (simp add: conn_ok_def)
    then show ?thesis using True k t s' by (auto simp: boot_ok_def split: if_splits)
  next
    case False
    have "boot_ok (Suc i < length ts \<or> \<not> m) C (ts ! i)" using c that by (simp add: conn_ok_def)
    then show ?thesis using False boot_ok_mono [OF _ C] by simp
  qed
  have "Suc k < length ts \<or> \<not> m \<Longrightarrow> bt_cancelled t" using c k t(1) by (auto simp: conn_ok_def boot_ok_def)
  then have l: "\<not> bt_cancelled t \<Longrightarrow> k = length ts - 1" using k by (cases "Suc k < length ts") auto
  have "x \<notin> C" "s \<noteq> Some x" using c t(5) by (auto simp: conn_ok_def)
  then have "\<forall>y. s' = Some y \<and> bt_opened (ts[k := t] ! (length ts - 1)) = Some y \<longrightarrow> y \<notin> C'" if m
    using c k s' t(2) l that by (cases "k = length ts - 1") (auto simp: conn_ok_def split: if_splits)
  then show ?thesis
    using c ts o s' k by (auto simp: conn_ok_def split: if_splits)
qed

lemma opened_nonempty:
  assumes "conn_ok ts s m C" "x \<in> opened_in ts"
  shows "x \<noteq> []"
proof -
  obtain i where i: "i < length ts" "bt_opened (ts ! i) = Some x"
    using assms(2) by (auto simp: opened_in_def in_set_conv_nth)
  then have "boot_ok (Suc i < length ts \<or> \<not> m) C (ts ! i)" using assms(1) by (simp add: conn_ok_def)
  then show ?thesis using i(2) by (simp add: boot_ok_def)
qed

lemma set_option_nonempty: "(\<forall>x \<in> set_option o1. x \<noteq> []) \<Longrightarrow> {x. o1 = Some x \<and> x \<noteq> []} = set_option o1"
  by auto

lemma cleanup_ok:
  assumes "picker_ok b"
  shows "conn_ok (pk_boots (boot_cleanup b)) (pk_session b) False (closes (boot_cleanup b))"
    "pk_session (boot_cleanup b) = pk_session b" "pk_mode (boot_cleanup b) = pk_mode b"
proof -
  let ?ts = "pk_boots b" and ?C = "closes b"
  let ?t = "last ?ts"
  have c: "conn_ok ?ts (pk_session b) (pk_mounted b) ?C" using assms by (simp add: picker_ok_def)
  then have ne: "?ts \<noteq> []" by (simp add: conn_ok_def)
  have ts: "butlast ?ts @ [t] = ?ts[length ?ts - 1 := t]" for t by (metis append_butlast_last_id list_update_length length_butlast ne)
  have "boot_ok (\<not> pk_mounted b) ?C ?t" using c ne by (auto simp: conn_ok_def last_conv_nth dest!: spec [of _ "length ?ts - 1"])
  then have o: "{x. bt_opened ?t = Some x \<and> x \<noteq> []} = set_option (bt_opened ?t)"
    by (intro set_option_nonempty) (auto simp: boot_ok_def)
  let ?ts' = "?ts[length ?ts - 1 := ?t\<lparr>bt_cancelled := True\<rparr>]" and ?C' = "?C \<union> set_option (bt_opened ?t)"
  have "opened_in ?ts' = opened_in ?ts \<union> set_option (bt_opened ?t)"
    using opened_in_update [of "length ?ts - 1" ?ts "?t\<lparr>bt_cancelled := True\<rparr>"] ne by (simp add: last_conv_nth)
  moreover have "boot_ok (Suc i < length ?ts' \<or> \<not> False) ?C' (?ts' ! i)" if "i < length ?ts" for i
  proof -
    have b: "boot_ok (Suc i < length ?ts \<or> \<not> pk_mounted b) ?C (?ts ! i)" using c that by (simp add: conn_ok_def)
    show ?thesis
    proof (cases "i = length ?ts - 1")
      case True
      then show ?thesis using b that by (auto simp: boot_ok_def last_conv_nth ne)
    next
      case False
      then show ?thesis using b that by (auto simp: boot_ok_def)
    qed
  qed
  ultimately have "conn_ok ?ts' (pk_session b) False ?C'" using c ne by (auto simp: conn_ok_def)
  then show "conn_ok (pk_boots (boot_cleanup b)) (pk_session b) False (closes (boot_cleanup b))"
    using ne o by (simp add: boot_cleanup_def ts)
  show "pk_session (boot_cleanup b) = pk_session b" "pk_mode (boot_cleanup b) = pk_mode b"
    by (simp_all add: boot_cleanup_def)
qed

lemma boot_start_conn:
  "\<exists>t. pk_boots (boot_start b) = pk_boots b @ [t] \<and> bt_opened t = None" "pk_session (boot_start b) = pk_session b"
  "pk_mounted (boot_start b) = pk_mounted b" "closes (boot_start b) = closes b"
  by (simp_all add: boot_start_def split: browse_mode.split)

lemma start_ok:
  assumes "conn_ok (pk_boots b) (pk_session b) False (closes b)" "pk_mounted b"
  shows "picker_ok (boot_start b)"
proof -
  obtain t where "pk_boots (boot_start b) = pk_boots b @ [t]" "bt_opened t = None" using boot_start_conn(1) by blast
  then show ?thesis
    using assms by (auto simp: picker_ok_def conn_ok_def boot_start_conn(2-4) nth_append boot_ok_def less_Suc_eq)
qed

lemma change_mode_ok:
  assumes b: "picker_ok b" and m: "pk_mounted b"
  shows "picker_ok (change_mode m' b)"
proof -
  have "picker_ok (b\<lparr>pk_mode := m'\<rparr>)" using b by (simp add: picker_ok_def)
  moreover have "pk_mounted (boot_cleanup (b\<lparr>pk_mode := m'\<rparr>))" using m by (simp add: boot_cleanup_def)
  ultimately show ?thesis using b cleanup_ok [of "b\<lparr>pk_mode := m'\<rparr>"] by (auto simp: change_mode_def intro: start_ok)
qed

lemma conn_more_closed: "conn_ok ts s False C \<Longrightarrow> conn_ok ts s False (C \<union> {x. s = Some x \<and> x \<noteq> []})"
  by (auto simp: conn_ok_def boot_ok_def)

lemma unmount_ok: "picker_ok b \<Longrightarrow> picker_ok (unmount b)"
  using conn_more_closed [OF cleanup_ok(1) [of b]] cleanup_ok(2) [of b] by (simp add: picker_ok_def unmount_def)

lemma leave_ok:
  assumes b: "picker_ok b" and v: "set_option (pk_session v) \<subseteq> opened_in (pk_boots b)" and c: "\<forall>s. c \<noteq> CloseSftp s"
  shows "picker_ok (leave_picker c v b)"
proof (cases "pk_session v = None \<or> pk_session v = Some []")
  case True
  then show ?thesis using b c by (auto simp: picker_ok_def leave_picker_def split: picker_call.splits)
next
  case False
  then obtain sid where sid: "pk_session v = Some sid" "sid \<noteq> []" by auto
  have "closes (leave_picker c v b) = closes b \<union> {sid} \<union> {x. pk_session b = Some x \<and> x \<noteq> []}"
    using sid c by (auto simp: leave_picker_def split: picker_call.splits)
  moreover have "pk_session (leave_picker c v b) = None" "pk_boots (leave_picker c v b) = pk_boots b"
    "pk_mounted (leave_picker c v b) = pk_mounted b" using sid by (simp_all add: leave_picker_def)
  ultimately show ?thesis using b v sid by (auto simp: picker_ok_def conn_ok_def boot_ok_def)
qed

lemma upd_boot_simps [simp]:
  "pk_boots (upd_boot k f b) = (pk_boots b)[k := f (pk_boots b ! k)]" "pk_session (upd_boot k f b) = pk_session b"
  "pk_mounted (upd_boot k f b) = pk_mounted b" "closes (upd_boot k f b) = closes b"
  by (simp_all add: upd_boot_def)

lemma stops_ok: "picker_ok b \<Longrightarrow> k < length (pk_boots b) \<Longrightarrow> picker_ok (boot_stops k r b)"
  by (auto simp: picker_ok_def boot_stops_def Let_def intro!: conn_update split: option.split)

lemma goes_on_ok: "picker_ok b \<Longrightarrow> k < length (pk_boots b) \<Longrightarrow> st \<noteq> AwaitOpen \<Longrightarrow> \<forall>s. c \<noteq> CloseSftp s \<Longrightarrow>
    picker_ok (tell_backend c (upd_boot k (\<lambda>t. t\<lparr>bt_stage := st\<rparr>) (b\<lparr>pk_cwd := p\<rparr>)))"
  by (auto simp: picker_ok_def intro!: conn_update split: picker_call.splits)

lemma opened_eq: "opened b = opened_in (pk_boots b)"
  by (simp add: opened_def opened_in_def)

lemma open_ok:
  assumes b: "picker_ok b" and w: "waits AwaitOpen k b" and sid: "sid \<noteq> []" "sid \<notin> opened b"
  shows "picker_ok (open_answer k (Inr (sid, p)) b)"
proof -
  have k: "k < length (pk_boots b)" using w by (simp add: waits_def)
  have none: "bt_opened (pk_boots b ! k) = None" using b w by (auto simp: picker_ok_def conn_ok_def boot_ok_def waits_def)
  have ses: "{x. pk_session b = Some x \<and> x \<noteq> []} = set_option (pk_session b)"
  proof (rule set_option_nonempty)
    show "\<forall>x \<in> set_option (pk_session b). x \<noteq> []"
      using opened_nonempty [OF b [unfolded picker_ok_def]] b by (auto simp: picker_ok_def conn_ok_def)
  qed
  have fresh: "pk_session b \<noteq> Some sid" using b sid(2) by (auto simp: picker_ok_def conn_ok_def opened_eq)
  note h = conn_opened [OF b [unfolded picker_ok_def] k none, where x = sid]
  show ?thesis
  proof (cases "bt_cancelled (pk_boots b ! k)")
    case True
    have "conn_ok ((pk_boots b)[k := (pk_boots b ! k)\<lparr>bt_opened := Some sid, bt_stage := BootDone\<rparr>]) (pk_session b) (pk_mounted b) (insert sid (closes b))"
      by (rule h) (use True sid in \<open>simp_all add: opened_eq\<close>)
    then show ?thesis using True k by (simp add: open_answer_def picker_ok_def boot_stops_def Let_def)
  next
    case False
    have "conn_ok ((pk_boots b)[k := (pk_boots b ! k)\<lparr>bt_opened := Some sid, bt_stage := AwaitCanonical p\<rparr>]) (Some sid) (pk_mounted b)
       (closes b \<union> set_option (pk_session b))"
      by (rule h) (use False sid in \<open>simp_all add: opened_eq\<close>)
    then show ?thesis using False k ses fresh by (simp add: open_answer_def picker_ok_def Let_def)
  qed
qed

lemma start_picker_ok: "picker_ok (new_picker m i)"
  by (cases m) (simp_all add: new_picker_def boot_start_def picker_ok_def conn_ok_def boot_ok_def closes_def tell_backend_def)

text \<open>The runs of the effect are never forgotten, so a connection of an earlier render is still on record.\<close>

lemma boot_start_opened: "opened (boot_start b) = opened b"
  using boot_start_conn(1) [of b] by (auto simp: opened_eq)

lemma opened_upd_boot: "k < length (pk_boots b) \<Longrightarrow> (\<And>t. bt_opened (f t) = bt_opened t) \<Longrightarrow> opened (upd_boot k f b) = opened b"
  using opened_in_update [of k "pk_boots b" "f (pk_boots b ! k)"] opened_nth [of k "pk_boots b"] by (auto simp: opened_eq)

lemma opened_frame [simp]:
  "opened (tell_backend c b) = opened b" "opened (b\<lparr>pk_cwd := x\<rparr>) = opened b" "opened (b\<lparr>pk_entries := y\<rparr>) = opened b"
  "opened (set_session s b) = opened b" "opened (close_opt s b) = opened b" "opened (b\<lparr>pk_mode := m\<rparr>) = opened b"
  "opened (b\<lparr>pk_mounted := u\<rparr>) = opened b" "opened (b\<lparr>pk_error := e, pk_loading := l\<rparr>) = opened b"
  by (simp_all add: opened_eq)

lemma opened_stops: "k < length (pk_boots b) \<Longrightarrow> opened (boot_stops k r b) = opened b"
  by (auto simp: boot_stops_def Let_def opened_upd_boot split: option.split)

lemma opened_cleanup: "pk_boots b \<noteq> [] \<Longrightarrow> opened (boot_cleanup b) = opened b"
  using opened_in_simps(3) [of "butlast (pk_boots b)" "[last (pk_boots b)]"] by (simp add: opened_eq boot_cleanup_def)

lemma same_opened: "same_connections b b' \<Longrightarrow> opened b' = opened b"
  by (simp add: same_connections_def opened_eq)

lemma pick_act_ok:
  assumes b: "picker_ok b" and v: "set_option (pk_session v) \<subseteq> opened b" and x: "can_happen x b"
  shows "picker_ok (pick_act lower x v b) \<and> opened b \<subseteq> opened (pick_act lower x v b)"
proof -
  have same: "picker_ok b' \<and> opened b \<subseteq> opened b'" if "same_connections b b'" for b'
    using picker_ok_same [OF that b] same_opened [OF that] by simp
  have ne: "pk_boots b \<noteq> []" using b by (simp add: picker_ok_def conn_ok_def)
  have stop: "picker_ok (boot_stops k r b) \<and> opened b \<subseteq> opened (boot_stops k r b)" if "k < length (pk_boots b)" for k r
    using stops_ok [OF b that] opened_stops [OF that] by simp
  note v' = v [unfolded opened_eq]
  show ?thesis
  proof (cases x)
    case (BootHome k r)
    then have k: "k < length (pk_boots b)" using x by (simp add: waits_def)
    then show ?thesis
      using BootHome stop [OF k] b
      by (auto simp: home_answer_def Let_def opened_upd_boot split: sum.split intro!: goes_on_ok)
  next
    case (BootOpen k r)
    then have k: "k < length (pk_boots b)" using x by (cases r) (auto simp: waits_def)
    show ?thesis
    proof (cases r)
      case (Inl m)
      then show ?thesis using BootOpen stop [OF k] by (simp add: open_answer_def)
    next
      case (Inr a)
      obtain sid p where a: "a = (sid, p)" by (cases a)
      then have w: "waits AwaitOpen k b" "sid \<noteq> []" "sid \<notin> opened b" using x BootOpen Inr by auto
      have none: "bt_opened (pk_boots b ! k) = None" using b w(1) by (auto simp: picker_ok_def conn_ok_def boot_ok_def waits_def)
      have up: "opened b \<subseteq> opened (upd_boot k (\<lambda>t. t\<lparr>bt_opened := Some sid\<rparr>) b)"
        using opened_in_update [OF k, of "(pk_boots b ! k)\<lparr>bt_opened := Some sid\<rparr>"] none by (auto simp: opened_eq)
      have "opened b \<subseteq> opened (open_answer k (Inr (sid, p)) b)"
        using up k by (auto simp: open_answer_def Let_def opened_stops opened_upd_boot)
      then show ?thesis using BootOpen Inr a open_ok [OF b w] by simp
    qed
  next
    case (BootCanonical k r)
    then have k: "k < length (pk_boots b)" using x by simp
    then show ?thesis
      using BootCanonical stop [OF k] b
      by (auto simp: canonical_answer_def Let_def opened_upd_boot split: boot_stage.split intro!: goes_on_ok)
  next
    case (BootEntries k r)
    then have k: "k < length (pk_boots b)" using x by (simp add: waits_def)
    have "picker_ok (b\<lparr>pk_entries := es\<rparr>)" for es using b by (simp add: picker_ok_def)
    then show ?thesis
      using BootEntries stop [OF k] k stops_ok
      by (auto simp: entries_answer_def opened_stops split: sum.split)
  next
    case (ChangeMode m)
    then show ?thesis
      using change_mode_ok [OF b] x ne by (simp add: change_mode_def boot_start_opened opened_cleanup)
  next
    case Unmount
    then show ?thesis using unmount_ok [OF b] ne by (simp add: unmount_def opened_cleanup)
  next
    case PressUse
    have "picker_ok (choose_folder v b)" unfolding choose_folder_def by (rule leave_ok [OF b v']) simp
    moreover have "opened (choose_folder v b) = opened b"
      by (simp add: choose_folder_def leave_picker_def split: option.split)
    ultimately show ?thesis using PressUse b by (simp add: press_use_def)
  next
    case PressCancel
    have "picker_ok (cancel_pick v b)" unfolding cancel_pick_def by (rule leave_ok [OF b v']) simp
    moreover have "opened (cancel_pick v b) = opened b"
      by (simp add: cancel_pick_def leave_picker_def split: option.split)
    ultimately show ?thesis using PressCancel by simp
  next
    case (TypeName t)
    then show ?thesis using same [of "b\<lparr>pk_newName := t\<rparr>"] by (simp add: same_connections_def)
  next
    case (TypeQuery t)
    then show ?thesis using same [of "b\<lparr>pk_query := t\<rparr>"] by (simp add: same_connections_def)
  qed (simp_all only: pick_act.simps same same_handlers same_controls)
qed

lemma picking_ok: "picking vs \<Longrightarrow> picker_ok (hd vs) \<and> (\<forall>v \<in> set vs. set_option (pk_session v) \<subseteq> opened (hd vs))"
proof (induction rule: picking.induct)
  case (pick_start m i)
  then show ?case using start_picker_ok [of m i] by (simp add: picker_ok_def conn_ok_def opened_eq)
next
  case (pick_step b vs v x lower)
  then have h: "picker_ok (pick_act lower x v b)" "opened b \<subseteq> opened (pick_act lower x v b)"
    using pick_act_ok [of b v x lower] by auto
  moreover have "set_option (pk_session (pick_act lower x v b)) \<subseteq> opened (pick_act lower x v b)"
    using h(1) by (simp add: picker_ok_def conn_ok_def opened_eq)
  moreover have "set_option (pk_session w) \<subseteq> opened (pick_act lower x v b)" if "w \<in> set (b # vs)" for w
    using bspec [OF conjunct2 [OF pick_step.IH] that] h(2) by simp
  ultimately show ?case by simp
qed

section \<open>Properties\<close>

text \<open>
  C38. The folder picker does not leak connections: whatever the user does, in whatever order the
  backend answers, every connection the picker has opened is closed again once the picker is gone or
  the host was changed, also one that is only opened afterwards; and as long as the picker is mounted,
  the connection of the current host is not closed while it is in use. (A new connection has a new
  identifier.)\<close>

theorem picker_closes_its_connections:
  assumes "picking (b # vs)"
  shows "(\<forall>t \<in> set (pk_boots b). \<forall>s. bt_opened t = Some s \<and> (\<not> pk_mounted b \<or> t \<in> set (butlast (pk_boots b))) \<longrightarrow> CloseSftp s \<in> set (pk_calls b))
    \<and> (\<forall>s. pk_mounted b \<and> pk_session b = Some s \<and> bt_opened (last (pk_boots b)) = Some s \<longrightarrow> CloseSftp s \<notin> set (pk_calls b))"
proof -
  have c: "conn_ok (pk_boots b) (pk_session b) (pk_mounted b) (closes b)" using picking_ok [OF assms] by (simp add: picker_ok_def)
  have "CloseSftp s \<in> set (pk_calls b)" if t: "t \<in> set (pk_boots b)" "bt_opened t = Some s" "\<not> pk_mounted b \<or> t \<in> set (butlast (pk_boots b))" for t s
  proof -
    have "\<exists>i < length (pk_boots b). t = pk_boots b ! i \<and> (Suc i < length (pk_boots b) \<or> \<not> pk_mounted b)"
    proof (cases "t \<in> set (butlast (pk_boots b))")
      case True
      then obtain i where "i < length (pk_boots b) - 1" "butlast (pk_boots b) ! i = t" by (auto simp: in_set_conv_nth)
      then show ?thesis by (intro exI [of _ i]) (auto simp: nth_butlast)
    next
      case False
      then show ?thesis using t(1,3) by (auto simp: in_set_conv_nth)
    qed
    then have "boot_ok True (closes b) t" using c by (auto simp: conn_ok_def)
    then show ?thesis using t(2) by (simp add: boot_ok_def closes_def)
  qed
  moreover have "CloseSftp s \<notin> set (pk_calls b)" if "pk_mounted b" "pk_session b = Some s" "bt_opened (last (pk_boots b)) = Some s" for s
    using c that by (auto simp: conn_ok_def closes_def last_conv_nth)
  ultimately show ?thesis by blast
qed

lemma late_open_is_closed:
  fixes b0 defines "b0 \<equiv> new_picker (RemoteMode [7]) []"
  fixes b1 defines "b1 \<equiv> pick_act id Unmount b0 b0"
  shows "picking [pick_act id (BootOpen 0 (Inr ([9], js ''.''))) b1 b1, b1, b0]"
proof -
  have 0: "picking [b0]" unfolding b0_def by (rule pick_start)
  have 1: "picking [b1, b0]" unfolding b1_def by (rule pick_step [OF 0]) (simp_all add: b0_def new_picker_def boot_start_def tell_backend_def)
  show ?thesis
    by (rule pick_step [OF 1]) (simp_all add: b1_def b0_def new_picker_def boot_start_def tell_backend_def unmount_def
        boot_cleanup_def close_opt_def waits_def opened_def)
qed

theorem picker_closes_its_connections_witness:
  "\<exists>b vs. picking (b # vs) \<and> \<not> pk_mounted b \<and> map bt_opened (pk_boots b) = [Some [9]] \<and> CloseSftp [9] \<in> set (pk_calls b)"
proof -
  let ?b0 = "new_picker (RemoteMode [7]) []"
  let ?b1 = "pick_act id Unmount ?b0 ?b0"
  let ?b2 = "pick_act id (BootOpen 0 (Inr ([9], js ''.''))) ?b1 ?b1"
  have e: "\<not> pk_mounted ?b2" "map bt_opened (pk_boots ?b2) = [Some [9]]"
    by (simp_all add: new_picker_def boot_start_def tell_backend_def unmount_def boot_cleanup_def close_opt_def open_answer_def
        upd_boot_def boot_stops_def Let_def)
  then obtain t where "t \<in> set (pk_boots ?b2)" "bt_opened t = Some [9]" by (cases "pk_boots ?b2") auto
  then have c: "CloseSftp [9] \<in> set (pk_calls ?b2)"
    using picker_closes_its_connections [OF late_open_is_closed] e(1) by blast
  show ?thesis by (intro exI [of _ ?b2] exI [of _ "[?b1, ?b0]"] conjI late_open_is_closed e c)
qed

section \<open>What goes wrong\<close>

text \<open>
  As in the file browser, a folder that is created while the user enters another one lists the old
  folder into the new one.
\<close>

lemma created_folder_lists_old_directory:
  fixes b assumes b: "pk_mode b = LocalMode" "pk_newName b = js ''n''" "pk_cwd b = js ''/u''"
  defines "b2 \<equiv> create_settled None b (nav_listed (Inr []) (pick_navigate (js ''/u/v'') b (pick_create b b)))"
  shows "last (pk_calls b2) = PickListLocal (js ''/u'')" "pk_cwd b2 = js ''/u/v''" "\<not> pk_loading b2"
  using b by (simp_all add: b2_def create_settled_def nav_listed_def pick_navigate_def pick_create_def Let_def try_call_def
      list_folders_def tell_backend_def)

end
