(* ===== verification/LocalFiles.thy ===== *)
theory LocalFiles
  imports FileBrowser
begin

text \<open>
  The file browser on top of the local files of the in-memory backend (\<^verbatim>\<open>lib/ipc.mock.ts\<close>). The
  interface \<open>file_store\<close> says what the browser needs of a backend: what a listing contains after a
  folder was created, an entry renamed or removed. The in-memory backend provides it, so that the
  pane shows every change that was made through it.
\<close>

section \<open>Interface: a store of files\<close>

text \<open>An absolute path in normal form.\<close>

definition abs_dir :: "jsstr \<Rightarrow> bool" where
  "abs_dir d \<longleftrightarrow> normal_dir d \<and> startsWith d (js ''/'')"

definition paths :: "file_entry list \<Rightarrow> jsstr set" where
  "paths es = fe_path ` set es"

definition serve :: "(jsstr \<Rightarrow> 's \<Rightarrow> 's) \<Rightarrow> (jsstr \<Rightarrow> jsstr \<Rightarrow> 's \<Rightarrow> 's) \<Rightarrow> (jsstr \<Rightarrow> 's \<Rightarrow> 's) \<Rightarrow> file_call \<Rightarrow> 's \<Rightarrow> 's" where
  "serve mkdir rename remove c st =
     (case c of MkdirLocal p \<Rightarrow> mkdir p st | RenameLocal p p' \<Rightarrow> rename p p' st | RemoveLocal p r \<Rightarrow> remove p st | _ \<Rightarrow> st)"

text \<open>The rest of a handler of the local pane once its call is out: it succeeds, and the pane is listed again.\<close>

definition finish_change ::
    "(file_call \<Rightarrow> 's \<Rightarrow> 's) \<Rightarrow> (jsstr \<Rightarrow> 's \<Rightarrow> file_entry list) \<Rightarrow> file_browser \<Rightarrow> file_browser \<times> 's \<Rightarrow> file_browser \<times> 's" where
  "finish_change serves entries v bs =
     (case bs of (b, st) \<Rightarrow>
        let st' = serves (last (fb_calls b)) st
        in (listed LocalSide (Inr (entries (p_path (fb_local v)) st')) (change_settled LocalSide None v b), st'))"

locale file_store =
  fixes ok :: "'s \<Rightarrow> bool"
    and entries :: "jsstr \<Rightarrow> 's \<Rightarrow> file_entry list"
    and mkdir :: "jsstr \<Rightarrow> 's \<Rightarrow> 's"
    and rename :: "jsstr \<Rightarrow> jsstr \<Rightarrow> 's \<Rightarrow> 's"
    and remove :: "jsstr \<Rightarrow> 's \<Rightarrow> 's"
  assumes listed_path: "ok st \<Longrightarrow> e \<in> set (entries d st) \<Longrightarrow> valid_name (fe_name e) \<and> fe_path e = joinPath d (fe_name e)"
    and after_mkdir: "ok st \<Longrightarrow> abs_dir d \<Longrightarrow> valid_name n \<Longrightarrow> joinPath d n \<notin> paths (entries d st) \<Longrightarrow>
      ok (mkdir (joinPath d n) st) \<and> paths (entries d (mkdir (joinPath d n) st)) = insert (joinPath d n) (paths (entries d st))"
    and after_rename: "ok st \<Longrightarrow> abs_dir d \<Longrightarrow> e \<in> set (entries d st) \<Longrightarrow> valid_name n \<Longrightarrow> joinPath d n \<notin> paths (entries d st) \<Longrightarrow>
      ok (rename (fe_path e) (joinPath d n) st)
      \<and> paths (entries d (rename (fe_path e) (joinPath d n) st)) = insert (joinPath d n) (paths (entries d st) - {fe_path e})"
    and after_remove: "ok st \<Longrightarrow> abs_dir d \<Longrightarrow> e \<in> set (entries d st) \<Longrightarrow>
      ok (remove (fe_path e) st) \<and> paths (entries d (remove (fe_path e) st)) = paths (entries d st) - {fe_path e}"
begin

abbreviation finish :: "file_browser \<Rightarrow> file_browser \<times> 's \<Rightarrow> file_browser \<times> 's" where
  "finish \<equiv> finish_change (serve mkdir rename remove) entries"

definition in_step :: "file_browser \<times> 's \<Rightarrow> bool" where
  "in_step bs \<longleftrightarrow> ok (snd bs) \<and> p_entries (fb_local (fst bs)) = entries (p_path (fb_local (fst bs))) (snd bs)"

lemma finish_entries:
  "p_entries (fb_local (fst (finish v (b, st)))) = entries (p_path (fb_local v)) (serve mkdir rename remove (last (fb_calls b)) st)"
  "p_path (fb_local (fst (finish v (b, st)))) = p_path (fb_local b)"
  "snd (finish v (b, st)) = serve mkdir rename remove (last (fb_calls b)) st"
  "p_loading (fb_local (fst (finish v (b, st)))) = False"
  by (simp_all add: finish_change_def Let_def listed_def change_settled_def refresh_def ask_def)

lemma created:
  assumes b: "in_step (b, st)" "abs_dir (p_path (fb_local b))" and n: "valid_name n" "joinPath (p_path (fb_local b)) n \<notin> paths (p_entries (fb_local b))"
  defines "bs \<equiv> finish b (createFolder LocalSide (Some n) b b, st)"
  shows "in_step bs" "p_path (fb_local (fst bs)) = p_path (fb_local b)"
    "paths (p_entries (fb_local (fst bs))) = insert (joinPath (p_path (fb_local b)) n) (paths (p_entries (fb_local b)))"
  using after_mkdir [of st "p_path (fb_local b)" n] assms
  by (simp_all add: in_step_def finish_entries serve_def createFolder_def) (simp_all add: ask_def)

lemma renamed:
  assumes b: "in_step (b, st)" "abs_dir (p_path (fb_local b))" and e: "e \<in> set (p_entries (fb_local b))"
    and n: "valid_name n" "joinPath (p_path (fb_local b)) n \<notin> paths (p_entries (fb_local b))"
  defines "bs \<equiv> finish b (renameEntry LocalSide e (Some n) b b, st)"
  shows "in_step bs" "p_path (fb_local (fst bs)) = p_path (fb_local b)"
    "paths (p_entries (fb_local (fst bs))) = insert (joinPath (p_path (fb_local b)) n) (paths (p_entries (fb_local b)) - {fe_path e})"
proof -
  let ?d = "p_path (fb_local b)"
  have l: "e \<in> set (entries ?d st)" "ok st" using b e by (simp_all add: in_step_def)
  note p = listed_path [OF l(2,1)]
  have "parentPath (fe_path e) = ?d" using p b(2) by (simp add: parent_joined abs_dir_def)
  moreover have "n \<noteq> fe_name e"
  proof
    assume "n = fe_name e"
    then have "joinPath ?d n = fe_path e" using p by simp
    then show False using n(2) e by (simp add: paths_def)
  qed
  ultimately have r: "renameEntry LocalSide e (Some n) b b = ask (RenameLocal (fe_path e) (joinPath ?d n)) b"
    using n(1) by (simp add: renameEntry_def valid_name_def Let_def)
  show "in_step bs" "p_path (fb_local (fst bs)) = ?d"
    "paths (p_entries (fb_local (fst bs))) = insert (joinPath ?d n) (paths (p_entries (fb_local b)) - {fe_path e})"
    using after_rename [OF l(2) b(2) l(1) n(1)] b n(2) unfolding bs_def r
    by (simp_all add: in_step_def finish_entries serve_def) (simp_all add: ask_def)
qed

lemma deleted:
  assumes b: "in_step (b, st)" "abs_dir (p_path (fb_local b))" and e: "e \<in> set (p_entries (fb_local b))"
  defines "bs \<equiv> finish b (deleteEntry LocalSide e True b b, st)"
  shows "in_step bs" "p_path (fb_local (fst bs)) = p_path (fb_local b)"
    "paths (p_entries (fb_local (fst bs))) = paths (p_entries (fb_local b)) - {fe_path e}"
proof -
  have l: "e \<in> set (entries (p_path (fb_local b)) st)" "ok st" using b e by (simp_all add: in_step_def)
  have "deleteEntry LocalSide e True b b = ask (RemoveLocal (fe_path e) (fe_type e = js ''dir'')) b"
    using listed_path [OF l(2,1)] by (simp add: deleteEntry_def valid_name_def)
  then show "in_step bs" "p_path (fb_local (fst bs)) = p_path (fb_local b)"
    "paths (p_entries (fb_local (fst bs))) = paths (p_entries (fb_local b)) - {fe_path e}"
    using after_remove [OF l(2) b(2) l(1)] b unfolding bs_def
    by (simp_all add: in_step_def finish_entries serve_def) (simp_all add: ask_def)
qed

end

section \<open>The local files of the in-memory backend\<close>

lemma rm_star_end:
  "concat (map (rm (Seq Eol Eps)) (rm (Star (CC p)) (i, r, cs))) = (if \<forall>c \<in> set r. p c then [(i + length r, [], cs)] else [])"
proof -
  let ?f = "\<lambda>k. rm (Seq Eol Eps) (i + k, drop k r, cs)"
  have "?f k = []" if k: "k < length (takeWhile p r)" for k
    using k length_takeWhile_le [of p r] by simp
  then have "concat (map ?f (rev [0..<Suc (length (takeWhile p r))])) = ?f (length (takeWhile p r))"
    by (rule concat_map_last)
  also have "\<dots> = (if \<forall>c \<in> set r. p c then [(i + length r, [], cs)] else [])"
    unfolding dropWhile_eq_drop [symmetric]
    by (cases "\<forall>c \<in> set r. p c") (simp_all add: dropWhile_eq_Nil_conv takeWhile_eq_all_conv [THEN iffD2])
  finally show ?thesis by (simp only: rm_Star_CC map_map o_def)
qed

lemma rm_last_part:
  "rm LAST_PART (i, c # r, cs) = (if c = 47 \<and> r \<noteq> [] \<and> 47 \<notin> set r then [(Suc i + length r, [], cs)] else [])"
proof (cases r)
  case (Cons d r')
  have "concat (map (rm (Seq Eol Eps)) (rm (Star (CC (\<lambda>c. c \<noteq> 47))) (Suc (Suc i), r', cs)))
      = (if 47 \<in> set r' then [] else [(Suc (Suc i) + length r', [], cs)])"
    by (subst rm_star_end) auto
  then show ?thesis
    using Cons by (cases "47 \<in> set r'") (simp_all add: LAST_PART_def seqs_def chr_def rplus_def)
qed (simp add: LAST_PART_def seqs_def chr_def rplus_def)

lemma exec_last_part:
  "n \<noteq> [] \<Longrightarrow> 47 \<notin> set n \<Longrightarrow> exec_from LAST_PART i (d @ 47 # n) = Some (i + length d, (i + length d + 1 + length n, [], []))"
proof (induction d arbitrary: i)
  case Nil
  then show ?case by (simp add: rm_last_part)
next
  case (Cons c d)
  then show ?case by (simp add: rm_last_part)
qed

lemma cut_last: "n \<noteq> [] \<Longrightarrow> 47 \<notin> set n \<Longrightarrow> replace_first LAST_PART [] (d @ 47 # n) = d"
  by (simp add: replace_first_def exec_last_part)

lemma split_on_append: "split_on d (s @ d # t) = split_on d s @ split_on d t"
proof (induction s)
  case (Cons c s)
  then show ?case by (cases "split_on d s") auto
qed simp

lemma last_part: "47 \<notin> set n \<Longrightarrow> last (split_on 47 (d @ 47 # n)) = n"
proof -
  assume "47 \<notin> set n"
  then have "split_on 47 n = [n]" by (induction n) auto
  then show ?thesis by (simp add: split_on_append)
qed

text \<open>
  What the files of the backend satisfy: the directories differ, and the entries of a directory lie
  in it, each once.
\<close>

definition rows_ok :: "jsstr \<times> file_entry list \<Rightarrow> bool" where
  "rows_ok r \<longleftrightarrow> abs_dir (fst r) \<and> distinct (map fe_path (snd r)) \<and> (\<forall>e \<in> set (snd r). valid_name (fe_name e) \<and> fe_path e = joinPath (fst r) (fe_name e))"

definition fs_ok :: "local_fs \<Rightarrow> bool" where
  "fs_ok fs \<longleftrightarrow> distinct (map fst fs) \<and> (\<forall>r \<in> set fs. rows_ok r)"

lemma abs_join: "abs_dir d \<Longrightarrow> valid_name n \<Longrightarrow> joinPath d n = (if d = js ''/'' then 47 # n else d @ 47 # n)"
  using normal_end [of d] normal_not_Nil [of d]
  by (auto simp: joinPath_def abs_dir_def endsWith_def startsWith_def js_def take_Suc hd_rev split: if_splits)

lemma fs_ok_entries: "fs_ok fs \<Longrightarrow> e \<in> set (entries_of d fs) \<Longrightarrow> valid_name (fe_name e) \<and> fe_path e = joinPath d (fe_name e) \<and> abs_dir d"
  by (auto simp: fs_ok_def rows_ok_def entries_of_def split: option.splits dest!: map_of_SomeD bspec)

lemma map_of_map_set: "map_of (map_set k v m) k' = (if k' = k then Some v else map_of m k')"
proof -
  have m: "map_of (map (\<lambda>(a, b). (a, if a = k then v else b)) m) x = (if x = k \<and> k \<in> fst ` set m then Some v else map_of m x)" for x
  proof (induction m)
    case (Cons r m)
    then show ?case by (cases r; cases "x = fst r"; cases "x = k") simp_all
  qed simp
  show ?thesis
  proof (cases "k \<in> fst ` set m")
    case True
    then show ?thesis using m by (simp add: map_set_def)
  next
    case False
    then have "map_of m k = None" by (simp add: map_of_eq_None_iff)
    then show ?thesis using False by (simp add: map_set_def map_add_def split: option.split)
  qed
qed

lemma entries_map_set: "entries_of d (map_set k v m) = (if d = k then v else entries_of d m)"
  by (simp add: entries_of_def map_of_map_set)

lemma fs_ok_set: "fs_ok fs \<Longrightarrow> rows_ok (d, es) \<Longrightarrow> fs_ok (map_set d es fs)"
proof -
  assume fs: "fs_ok fs" and r: "rows_ok (d, es)"
  have "map fst (map_set d es fs) = (if d \<in> fst ` set fs then map fst fs else map fst fs @ [d])"
    by (simp add: map_set_def o_def case_prod_beta)
  then have "distinct (map fst (map_set d es fs))" using fs by (simp add: fs_ok_def)
  moreover have "rows_ok r'" if "r' \<in> set (map_set d es fs)" for r'
    using that set_map_set [of d es fs] fs r unfolding fs_ok_def by blast
  ultimately show "fs_ok (map_set d es fs)" by (simp add: fs_ok_def)
qed

lemma mkdir_shape:
  assumes d: "abs_dir d" and n: "valid_name n"
  shows "\<exists>e. fe_name e = n \<and> fe_path e = joinPath d n \<and>
    localMkdir (joinPath d n) fs = map_set (joinPath d n) [] (map_set d (entries_of d fs @ [e]) fs)"
proof -
  have n': "n \<noteq> []" "47 \<notin> set n" using valid_name_facts [OF n] by auto
  obtain d' where p: "joinPath d n = d' @ 47 # n" "d = (if d' = [] then js ''/'' else d')"
  proof (cases "d = js ''/''")
    case True
    then show ?thesis using that [of "[]"] abs_join [OF d n] by simp
  next
    case False
    then show ?thesis using that [of d] abs_join [OF d n] normal_not_Nil [of d] d by (auto simp: abs_dir_def)
  qed
  show ?thesis
    unfolding localMkdir_def p(1) cut_last [OF n'] last_part [OF n'(2)] Let_def using p(2)
    by (intro exI [of _ "\<lparr>fe_name = n, fe_path = d' @ 47 # n, fe_type = js ''dir'', fe_size = None, fe_modified = Some 1700000300\<rparr>"]) auto
qed

lemma abs_dir_join:
  assumes "abs_dir d" "valid_name n"
  shows "abs_dir (joinPath d n)" "joinPath d n \<noteq> d"
proof -
  have n: "n \<noteq> []" "47 \<notin> set n" "last n \<noteq> 47" using valid_name_facts [OF assms(2)] by (auto dest: last_in_set)
  show "joinPath d n \<noteq> d" using abs_join [OF assms] n by (auto simp: js_def)
  have "hd n \<noteq> 47" using n by (metis hd_in_set)
  then show "abs_dir (joinPath d n)"
    using abs_join [OF assms] assms(1) n no_slash_parts [OF n(2)] no_empty_part_append [of "[47]" n] no_empty_part_append [of d "47 # n"]
    by (auto simp: abs_dir_def normal_dir_def startsWith_def js_def neq_Nil_conv)
qed

lemma rows_ok_entries: "fs_ok fs \<Longrightarrow> abs_dir d \<Longrightarrow> rows_ok (d, entries_of d fs)"
  by (auto simp: entries_of_def fs_ok_def rows_ok_def split: option.split dest!: map_of_SomeD)

lemma localMkdir_law:
  assumes fs: "fs_ok fs" and d: "abs_dir d" and n: "valid_name n" and new: "joinPath d n \<notin> paths (localList d fs)"
  shows "fs_ok (localMkdir (joinPath d n) fs) \<and> paths (localList d (localMkdir (joinPath d n) fs)) = insert (joinPath d n) (paths (localList d fs))"
proof -
  obtain e where e: "fe_name e = n" "fe_path e = joinPath d n"
    "localMkdir (joinPath d n) fs = map_set (joinPath d n) [] (map_set d (entries_of d fs @ [e]) fs)"
    using mkdir_shape [OF d n] by blast
  have "rows_ok (d, entries_of d fs @ [e])"
    using rows_ok_entries [OF fs d] new e(1,2) n by (simp add: rows_ok_def paths_def localList_def)
  moreover have "rows_ok (joinPath d n, [])" using abs_dir_join(1) [OF d n] by (simp add: rows_ok_def)
  ultimately have "fs_ok (localMkdir (joinPath d n) fs)" unfolding e(3) using fs by (intro fs_ok_set)
  moreover have "localList d (localMkdir (joinPath d n) fs) = entries_of d fs @ [e]"
    using abs_dir_join(2) [OF d n] by (simp add: localList_def e(3) entries_map_set)
  ultimately show ?thesis using e(2) by (simp add: paths_def localList_def)
qed

lemma same_directory:
  "rows_ok (d, es) \<Longrightarrow> rows_ok (d', es') \<Longrightarrow> e \<in> set es \<Longrightarrow> x \<in> set es' \<Longrightarrow> fe_path x = fe_path e \<Longrightarrow> d' = d"
  unfolding rows_ok_def abs_dir_def fst_conv snd_conv by (metis parent_joined)

definition renamed_entry :: "jsstr \<Rightarrow> file_entry \<Rightarrow> file_entry" where
  "renamed_entry p e = e\<lparr>fe_name := last (split_on 47 p), fe_path := p\<rparr>"

lemma renamed_entry_simps [simp]: "fe_path (renamed_entry p e) = p" "fe_name (renamed_entry p e) = last (split_on 47 p)"
  by (simp_all add: renamed_entry_def)

lemma set_other: "d \<notin> fst ` set fs \<Longrightarrow> map (\<lambda>(k, x). (k, if k = d then v else x)) fs = fs"
  by (induction fs) auto

lemma localRename_set:
  assumes "fs_ok fs" "abs_dir d" "e \<in> set (entries_of d fs)"
  shows "localRename (fe_path e) p fs = map_set d (update_first (\<lambda>x. fe_path x = fe_path e) (renamed_entry p) (entries_of d fs)) fs"
  using assms
proof (induction fs)
  case (Cons r fs)
  obtain d' es' where r: "r = (d', es')" by (cases r)
  have ok: "rows_ok (d', es')" "fs_ok fs" "d' \<notin> fst ` set fs" using Cons.prems(1) r by (auto simp: fs_ok_def)
  note de = rows_ok_entries [OF Cons.prems(1,2)]
  show ?case
  proof (cases "\<exists>x \<in> set es'. fe_path x = fe_path e")
    case True
    then have "d' = d" using same_directory [OF de ok(1) Cons.prems(3)] by blast
    then have "map_set d v (r # fs) = (d, v) # fs" "entries_of d (r # fs) = es'" for v
      using r ok(3) by (simp_all add: map_set_def entries_of_def set_other)
    then show ?thesis using True r \<open>d' = d\<close> by (simp add: renamed_entry_def [abs_def])
  next
    case False
    then have "d' \<noteq> d" using Cons.prems(3) r by (auto simp: entries_of_def)
    then have "map_set d v (r # fs) = r # map_set d v fs" "entries_of d (r # fs) = entries_of d fs" for v
      using r by (auto simp: map_set_def entries_of_def)
    then show ?thesis using False Cons.IH [OF ok(2) Cons.prems(2)] Cons.prems(3) r by simp
  qed
qed (simp add: entries_of_def)

lemma paths_renamed:
  "distinct (map fe_path es) \<Longrightarrow> old \<in> paths es \<Longrightarrow>
     paths (update_first (\<lambda>x. fe_path x = old) (renamed_entry p) es) = insert p (paths es - {old})"
proof (induction es)
  case (Cons x es)
  show ?case
  proof (cases "fe_path x = old")
    case True
    then have "old \<notin> paths es" using Cons.prems(1) by (simp add: paths_def)
    then show ?thesis using True by (auto simp: paths_def)
  next
    case False
    then have "paths (update_first (\<lambda>x. fe_path x = old) (renamed_entry p) es) = insert p (paths es - {old})"
      using Cons by (simp add: paths_def)
    then show ?thesis using False by (auto simp: paths_def)
  qed
qed (simp add: paths_def)

lemma distinct_renamed:
  "distinct (map fe_path es) \<Longrightarrow> p \<notin> paths es \<Longrightarrow> distinct (map fe_path (update_first (\<lambda>x. fe_path x = old) (renamed_entry p) es))"
proof (induction es)
  case (Cons x es)
  have sub: "set (map fe_path (update_first (\<lambda>x. fe_path x = old) (renamed_entry p) es)) \<subseteq> insert p (paths es)"
    using set_update_first_subset [of "\<lambda>x. fe_path x = old" "renamed_entry p" es] by (auto simp: paths_def)
  show ?case
    using Cons sub by (cases "fe_path x = old") (auto simp: paths_def)
qed simp

lemma localRename_law:
  assumes fs: "fs_ok fs" and d: "abs_dir d" and e: "e \<in> set (localList d fs)" and n: "valid_name n"
    and new: "joinPath d n \<notin> paths (localList d fs)"
  shows "fs_ok (localRename (fe_path e) (joinPath d n) fs)
    \<and> paths (localList d (localRename (fe_path e) (joinPath d n) fs)) = insert (joinPath d n) (paths (localList d fs) - {fe_path e})"
proof -
  let ?es = "entries_of d fs" and ?u = "\<lambda>es. update_first (\<lambda>x. fe_path x = fe_path e) (renamed_entry (joinPath d n)) es"
  have e': "e \<in> set ?es" and new': "joinPath d n \<notin> paths ?es" using e new by (simp_all add: localList_def)
  note rows = rows_ok_entries [OF fs d]
  have name: "last (split_on 47 (joinPath d n)) = n"
    using last_part [of n d] last_part [of n "[]"] valid_name_facts [OF n] abs_join [OF d n] by simp
  have "valid_name (fe_name x) \<and> fe_path x = joinPath d (fe_name x)" if x: "x \<in> set (?u ?es)" for x
  proof (cases "x \<in> set ?es")
    case True
    then show ?thesis using rows by (simp add: rows_ok_def)
  next
    case False
    then obtain y where "x = renamed_entry (joinPath d n) y"
      using x set_update_first_subset [of "\<lambda>x. fe_path x = fe_path e" "renamed_entry (joinPath d n)" ?es] by blast
    then show ?thesis using n name by simp
  qed
  moreover have "distinct (map fe_path (?u ?es))" using rows by (intro distinct_renamed new') (simp add: rows_ok_def)
  ultimately have "rows_ok (d, ?u ?es)" using d unfolding rows_ok_def fst_conv snd_conv by blast
  moreover have "paths (?u ?es) = insert (joinPath d n) (paths ?es - {fe_path e})"
    using rows e' by (intro paths_renamed) (simp_all add: rows_ok_def paths_def)
  ultimately show ?thesis
    using localRename_set [OF fs d e', of "joinPath d n"] fs_ok_set [OF fs] by (simp add: localList_def entries_map_set)
qed

lemma entries_remove: "d \<noteq> p \<Longrightarrow> entries_of d (localRemove p fs) = filter (\<lambda>e. fe_path e \<noteq> p) (entries_of d fs)"
proof (induction fs)
  case (Cons r fs)
  then show ?case by (cases r; cases "fst r = d"; cases "fst r = p") (simp_all add: entries_of_def localRemove_def)
qed (simp add: entries_of_def localRemove_def)

lemma localRemove_law:
  assumes fs: "fs_ok fs" and d: "abs_dir d" and e: "e \<in> set (localList d fs)"
  shows "fs_ok (localRemove (fe_path e) fs) \<and> paths (localList d (localRemove (fe_path e) fs)) = paths (localList d fs) - {fe_path e}"
proof -
  have r: "valid_name (fe_name e)" "fe_path e = joinPath d (fe_name e)" using fs_ok_entries [OF fs] e by (auto simp: localList_def)
  have "d \<noteq> fe_path e" using abs_dir_join(2) [OF d r(1)] r(2) by simp
  then have "paths (localList d (localRemove (fe_path e) fs)) = paths (localList d fs) - {fe_path e}"
    by (auto simp: localList_def entries_remove paths_def)
  moreover have "map fst (localRemove p fs) = filter (\<lambda>d. d \<noteq> p) (map fst fs)" for p
    by (induction fs) (auto simp: localRemove_def)
  then have "distinct (map fst (localRemove (fe_path e) fs))" using fs by (simp add: fs_ok_def)
  moreover have "rows_ok r'" if h: "r' \<in> set (localRemove p fs)" for r' p
  proof -
    obtain a b where "(a, b) \<in> set fs" "r' = (a, filter (\<lambda>e. fe_path e \<noteq> p) b)" using h by (auto simp: localRemove_def)
    moreover have "rows_ok (a, b)" using calculation(1) fs by (simp add: fs_ok_def)
    ultimately show ?thesis by (simp add: rows_ok_def distinct_map_filter)
  qed
  ultimately show ?thesis by (simp add: fs_ok_def)
qed

interpretation local_files: file_store fs_ok localList localMkdir localRename localRemove
  by unfold_locales
    (use fs_ok_entries in \<open>simp add: localList_def\<close>, (rule localMkdir_law localRename_law localRemove_law; assumption)+)

section \<open>Property\<close>

text \<open>
  C39. What the user changes in the local pane is what the pane shows afterwards: with a pane that is
  up to date, creating a folder adds exactly that folder to the listing, renaming an entry replaces
  exactly that entry by one of the new name in the same directory, deleting takes exactly that entry
  away; nothing else appears or disappears. (On the in-memory backend, for an absolute path, with a
  legal name that is not taken.)\<close>

theorem local_changes_are_shown:
  assumes "fs_ok fs" "abs_dir (p_path (fb_local b))" "p_entries (fb_local b) = localList (p_path (fb_local b)) fs"
    "valid_name n" "joinPath (p_path (fb_local b)) n \<notin> paths (p_entries (fb_local b))" "e \<in> set (p_entries (fb_local b))"
  shows "let after = (\<lambda>handler. paths (p_entries (fb_local (fst
                        (finish_change (serve localMkdir localRename localRemove) localList b (handler b b, fs))))));
             before = paths (p_entries (fb_local b)); p = joinPath (p_path (fb_local b)) n
    in after (createFolder LocalSide (Some n)) = insert p before
     \<and> after (renameEntry LocalSide e (Some n)) = insert p (before - {fe_path e})
     \<and> after (deleteEntry LocalSide e True) = before - {fe_path e}"
proof -
  have "local_files.in_step (b, fs)" using assms(1,3) by (simp add: local_files.in_step_def)
  from local_files.created(3) [OF this assms(2,4,5)] local_files.renamed(3) [OF this assms(2,6,4,5)]
    local_files.deleted(3) [OF this assms(2,6)]
  show ?thesis by (simp add: Let_def)
qed

definition mock_pane :: file_browser where
  "mock_pane = (new_browser (js ''s'') (js ''/'') (js ''/Users/mock'') True False)
     \<lparr>fb_local := (new_pane (js ''/Users/mock''))\<lparr>p_entries := localList (js ''/Users/mock'') localFs\<rparr>\<rparr>"

lemma localFs_ok: "fs_ok localFs"
  by (simp add: fs_ok_def rows_ok_def localFs_def abs_dir_def normal_dir_def valid_name_def joinPath_def endsWith_def
      startsWith_def js_def)

theorem local_changes_are_shown_witness:
  "let e = hd (p_entries (fb_local mock_pane)); after = (\<lambda>handler. paths (p_entries (fb_local (fst
        (finish_change (serve localMkdir localRename localRemove) localList mock_pane (handler mock_pane mock_pane, localFs))))))
   in fe_name e = js ''Documents'' \<and> js ''/Users/mock/Docs'' \<in> after (renameEntry LocalSide e (Some (js ''Docs'')))
      \<and> js ''/Users/mock/Documents'' \<notin> after (renameEntry LocalSide e (Some (js ''Docs'')))"
proof -
  let ?e = "hd (p_entries (fb_local mock_pane))" and ?n = "js ''Docs''"
  have p: "p_path (fb_local mock_pane) = js ''/Users/mock''" "p_entries (fb_local mock_pane) = localList (js ''/Users/mock'') localFs"
    by (simp_all add: mock_pane_def new_pane_def)
  have e: "?e \<in> set (p_entries (fb_local mock_pane))" "fe_name ?e = js ''Documents''" "fe_path ?e = js ''/Users/mock/Documents''"
    unfolding p by (simp_all add: localList_def entries_of_def localFs_def js_def)
  have j: "joinPath (js ''/Users/mock'') ?n = js ''/Users/mock/Docs''" "js ''/Users/mock/Docs'' \<noteq> js ''/Users/mock/Documents''"
    by (simp_all add: joinPath_def endsWith_def startsWith_def js_def)
  have h: "fs_ok localFs" "abs_dir (p_path (fb_local mock_pane))"
    "p_entries (fb_local mock_pane) = localList (p_path (fb_local mock_pane)) localFs" "valid_name ?n"
    "joinPath (p_path (fb_local mock_pane)) ?n \<notin> paths (p_entries (fb_local mock_pane))"
    unfolding p j by (rule localFs_ok) (simp_all add: abs_dir_def normal_dir_def startsWith_def valid_name_def paths_def localList_def
        entries_of_def localFs_def js_def)
  show ?thesis using local_changes_are_shown [OF h e(1)] e(2,3) j unfolding p(1) Let_def by auto
qed

end
