(* ===== verification/HostForm.thy ===== *)
theory HostForm
  imports MockTerminal
begin

text \<open>
  The form that adds and edits a host (\<^verbatim>\<open>hosts/HostFormModal.tsx\<close>) and the import of the SSH
  configuration (\<^verbatim>\<open>hosts/SshConfigImportModal.tsx\<close>). Secrets are kept in the input fields and taken
  out of them when the form is submitted; the form state holds them as the text of the field. What is
  sent to the backend is a request, its outcome comes in a step of its own.
\<close>

section \<open>State\<close>

datatype auth_mode = PasswordAuth | SshKeyAuth | NoAuth

record form_draft =
  hd_label :: jsstr
  hd_hostname :: jsstr
  hd_port :: int
  hd_username :: jsstr

record host_form =
  hf_initial :: "mock_host option"
  hf_busy :: bool
  hf_error :: "jsstr option"
  hf_label :: jsstr
  hf_hostname :: jsstr
  hf_port :: jsstr
  hf_username :: jsstr
  hf_color :: jsstr
  hf_syncSecret :: bool
  hf_shellIntegration :: bool
  hf_forwardAgent :: bool
  hf_tunnels :: "tunnel_def list"
  hf_authMode :: auth_mode
  hf_identities :: "identity list"
  hf_identityId :: jsstr
  hf_importPath :: "jsstr option"
  hf_importEncrypted :: bool
  hf_importFingerprint :: "jsstr option"
  hf_rememberPassphrase :: bool
  hf_importSyncSecret :: bool
  hf_password :: jsstr
  hf_passphrase :: jsstr

text \<open>The argument of \<^verbatim>\<open>identityImport\<close> as the forms build it.\<close>

record key_import =
  ki_path :: jsstr
  ki_passphrase :: "jsstr option"
  ki_remember :: bool
  ki_sync :: bool

datatype host_request =
    PickKeyFile
  | ProbeKey jsstr
  | ImportKey key_import
  | ListIdentities
  | CreateHost host_mutation
  | UpdateHost jsstr host_mutation
  | ImportConfig "jsstr list"
  | Saved mock_host
  | Imported "mock_host list"
  | CloseForm

definition SWATCHES :: "jsstr list" where
  "SWATCHES = [js ''#4C8DF6'', js ''#5AC8A8'', js ''#E5C07B'', js ''#E5544B'', js ''#C678DD'', js ''#56B6C2'', js ''#98C379'', js ''#8B8B8B'']"

definition from_initial :: "(mock_host \<Rightarrow> 'a) \<Rightarrow> 'a \<Rightarrow> mock_host option \<Rightarrow> 'a" where
  "from_initial f d initial = (case initial of Some h \<Rightarrow> f h | None \<Rightarrow> d)"

definition initial_auth :: "mock_host option \<Rightarrow> auth_mode" where
  "initial_auth initial =
     (case initial of None \<Rightarrow> PasswordAuth
      | Some h \<Rightarrow>
          if hs_authKind h = js ''sshKey'' then SshKeyAuth
          else if mh_useDefaultKeys h \<and> nonempty (mh_identityId h) = None then NoAuth
          else PasswordAuth)"

definition open_form :: "mock_host option \<Rightarrow> form_draft option \<Rightarrow> host_form" where
  "open_form initial draft =
     \<lparr>hf_initial = initial, hf_busy = False, hf_error = None,
      hf_label = from_initial h_label (case draft of Some d \<Rightarrow> hd_label d | None \<Rightarrow> []) initial,
      hf_hostname = from_initial h_hostname (case draft of Some d \<Rightarrow> hd_hostname d | None \<Rightarrow> js ''127.0.0.1'') initial,
      hf_port = show_int (from_initial h_port (case draft of Some d \<Rightarrow> hd_port d | None \<Rightarrow> 22) initial),
      hf_username = from_initial h_username (case draft of Some d \<Rightarrow> hd_username d | None \<Rightarrow> []) initial,
      hf_color = default_to (hd SWATCHES) (from_initial h_color None initial),
      hf_syncSecret = from_initial mh_syncSecret False initial,
      hf_shellIntegration = from_initial mh_shellIntegration True initial,
      hf_forwardAgent = from_initial mh_forwardAgent False initial,
      hf_tunnels = from_initial mh_tunnels [] initial,
      hf_authMode = initial_auth initial,
      hf_identities = [], hf_identityId = default_to [] (from_initial mh_identityId None initial),
      hf_importPath = None, hf_importEncrypted = False, hf_importFingerprint = None,
      hf_rememberPassphrase = False, hf_importSyncSecret = False, hf_password = [], hf_passphrase = []\<rparr>"

text \<open>The identities are read once the form is open.\<close>

definition identities_loaded :: "jsstr + identity list \<Rightarrow> host_form \<Rightarrow> host_form" where
  "identities_loaded outcome f =
     (case outcome of Inl reason \<Rightarrow> f\<lparr>hf_error := Some reason\<rparr> | Inr ids \<Rightarrow> f\<lparr>hf_identities := ids\<rparr>)"

text \<open>The password field is only there in password mode; its text goes with it.\<close>

definition set_auth :: "auth_mode \<Rightarrow> host_form \<Rightarrow> host_form" where
  "set_auth m f =
     (if m = hf_authMode f then f
      else f\<lparr>hf_authMode := m, hf_password := [], hf_passphrase := []\<rparr>)"

definition take_password :: "host_form \<Rightarrow> jsstr \<times> host_form" where
  "take_password f = (if hf_authMode f = PasswordAuth then (hf_password f, f\<lparr>hf_password := []\<rparr>) else ([], f))"

definition sshKeys :: "host_form \<Rightarrow> identity list" where
  "sshKeys f = filter (\<lambda>i. id_kind i = js ''sshKey'') (hf_identities f)"

definition needsPassword :: "host_form \<Rightarrow> bool" where
  "needsPassword f \<longleftrightarrow> hf_authMode f = PasswordAuth \<and> \<not> from_initial mh_hasPassword False (hf_initial f)"

section \<open>Submitting\<close>

text \<open>\<^verbatim>\<open>String(new Error(message))\<close>\<close>

definition error_text :: "string \<Rightarrow> jsstr" where
  "error_text message = js ''Error: '' @ js message"

definition NO_PASSWORD :: jsstr where
  "NO_PASSWORD = error_text ''This device has no password for the host. Enter one to connect (and enable Sync password if you want other devices to receive it).''"

definition base_mutation :: "int \<Rightarrow> host_form \<Rightarrow> host_mutation" where
  "base_mutation port f =
     \<lparr>mu_label = trim (hf_label f), mu_hostname = trim (hf_hostname f), mu_port = port, mu_username = trim (hf_username f),
      mu_password = None, mu_identityId = None,
      mu_syncSecret = Some (if hf_authMode f = PasswordAuth then hf_syncSecret f else False),
      mu_color = Some (hf_color f), mu_shellIntegration = Some (hf_shellIntegration f), mu_tunnels = Some (hf_tunnels f),
      mu_forwardAgent = Some (hf_forwardAgent f), mu_useDefaultKeys = Some (hf_authMode f = NoAuth)\<rparr>"

definition with_auth :: "jsstr \<Rightarrow> host_form \<Rightarrow> host_mutation \<Rightarrow> jsstr + host_mutation" where
  "with_auth password f m =
     (if hf_authMode f = SshKeyAuth then
        (if hf_identityId f = [] then Inl (error_text ''Select or import an SSH key.'')
         else Inr (m\<lparr>mu_identityId := Some (hf_identityId f)\<rparr>))
      else if hf_authMode f = NoAuth then Inr m
      else if password \<noteq> [] then Inr (m\<lparr>mu_password := Some password\<rparr>)
      else case hf_initial f of
        None \<Rightarrow> Inl (error_text ''Password is required for a new host.'')
      | Some h \<Rightarrow>
          if hs_authKind h = js ''sshKey'' then Inl (error_text ''Enter a password to switch this host to password auth.'')
          else if \<not> mh_hasPassword h then Inl NO_PASSWORD
          else Inr m)"

definition host_mutation_of :: "jsstr \<Rightarrow> host_form \<Rightarrow> jsstr + host_mutation" where
  "host_mutation_of password f =
     (if trim (hf_label f) = [] \<or> trim (hf_hostname f) = [] \<or> trim (hf_username f) = []
      then Inl (error_text ''Label, hostname, and username are required.'')
      else case parseInt10 (hf_port f) of
        None \<Rightarrow> Inl (error_text ''Port must be between 1 and 65535.'')
      | Some port \<Rightarrow>
          if port < 1 \<or> 65535 < port then Inl (error_text ''Port must be between 1 and 65535.'')
          else with_auth password f (base_mutation port f))"

definition submit_host :: "host_form \<Rightarrow> host_form \<times> host_request list" where
  "submit_host f =
     (let (password, f1) = take_password (f\<lparr>hf_error := None, hf_busy := True\<rparr>) in
      case host_mutation_of password f1 of
        Inl reason \<Rightarrow> (f1\<lparr>hf_error := Some reason, hf_busy := False\<rparr>, [])
      | Inr m \<Rightarrow> (f1, [case hf_initial f1 of Some h \<Rightarrow> UpdateHost (h_id h) m | None \<Rightarrow> CreateHost m]))"

definition host_saved :: "jsstr + mock_host \<Rightarrow> host_form \<Rightarrow> host_form \<times> host_request list" where
  "host_saved outcome f =
     (case outcome of
        Inl reason \<Rightarrow> (f\<lparr>hf_error := Some reason, hf_busy := False\<rparr>, [])
      | Inr h \<Rightarrow> (f\<lparr>hf_busy := False\<rparr>, [Saved h, CloseForm]))"

section \<open>Importing a key\<close>

definition importKey :: "host_form \<Rightarrow> host_form \<times> host_request list" where
  "importKey f = (f\<lparr>hf_error := None, hf_busy := True\<rparr>, [PickKeyFile])"

definition key_picked :: "jsstr + jsstr option \<Rightarrow> host_form \<Rightarrow> host_form \<times> host_request list" where
  "key_picked outcome f =
     (case outcome of
        Inl reason \<Rightarrow> (f\<lparr>hf_error := Some reason, hf_busy := False\<rparr>, [])
      | Inr path \<Rightarrow> (case nonempty path of None \<Rightarrow> (f\<lparr>hf_busy := False\<rparr>, []) | Some p \<Rightarrow> (f, [ProbeKey p])))"

definition key_probed :: "jsstr \<Rightarrow> jsstr + bool \<times> jsstr option \<Rightarrow> host_form \<Rightarrow> host_form" where
  "key_probed path outcome f =
     (case outcome of
        Inl reason \<Rightarrow> f\<lparr>hf_error := Some reason, hf_busy := False\<rparr>
      | Inr (encrypted, fingerprint) \<Rightarrow>
          f\<lparr>hf_importPath := Some path, hf_importEncrypted := encrypted, hf_importFingerprint := fingerprint,
            hf_passphrase := [], hf_rememberPassphrase := False, hf_importSyncSecret := False, hf_busy := False\<rparr>)"

definition confirmImport :: "host_form \<Rightarrow> host_form \<times> host_request list" where
  "confirmImport f =
     (case nonempty (hf_importPath f) of
        None \<Rightarrow> (f, [])
      | Some path \<Rightarrow>
          let passphrase = (if hf_importEncrypted f then Some (hf_passphrase f) else None);
              f1 = f\<lparr>hf_error := None, hf_busy := True, hf_passphrase := (if hf_importEncrypted f then [] else hf_passphrase f)\<rparr>
          in (f1, [ImportKey \<lparr>ki_path = path, ki_passphrase = nonempty passphrase,
                     ki_remember = (if hf_importEncrypted f then hf_rememberPassphrase f else False),
                     ki_sync = hf_importSyncSecret f\<rparr>]))"

text \<open>After the import the list of identities is read again; both outcomes are the arguments.\<close>

definition clear_import :: "host_form \<Rightarrow> host_form" where
  "clear_import f =
     f\<lparr>hf_importPath := None, hf_importEncrypted := False, hf_importFingerprint := None, hf_importSyncSecret := False,
       hf_passphrase := []\<rparr>"

definition key_imported :: "identity \<Rightarrow> jsstr + identity list \<Rightarrow> host_form \<Rightarrow> host_form" where
  "key_imported imported outcome f =
     (case outcome of
        Inl reason \<Rightarrow> f\<lparr>hf_error := Some reason, hf_busy := False\<rparr>
      | Inr ids \<Rightarrow>
          (clear_import f)\<lparr>hf_identities := ids, hf_identityId := id_id imported, hf_rememberPassphrase := False, hf_busy := False\<rparr>)"

section \<open>Tunnels\<close>

definition new_tunnel :: "jsstr \<Rightarrow> tunnel_def" where
  "new_tunnel i =
     \<lparr>td_id = i, td_label = [], td_direction = js ''local'', td_bindPort = 8000, td_targetHost = js ''localhost'',
      td_targetPort = 8000, td_autoStart = False, td_allowLan = False\<rparr>"

definition add_tunnel :: "jsstr \<Rightarrow> host_form \<Rightarrow> host_form" where
  "add_tunnel i f = f\<lparr>hf_tunnels := hf_tunnels f @ [new_tunnel i]\<rparr>"

definition upd_tunnel :: "nat \<Rightarrow> (tunnel_def \<Rightarrow> tunnel_def) \<Rightarrow> host_form \<Rightarrow> host_form" where
  "upd_tunnel k g f = f\<lparr>hf_tunnels := map (\<lambda>(i, t). if i = k then g t else t) (enumerate 0 (hf_tunnels f))\<rparr>"

definition remove_tunnel :: "nat \<Rightarrow> host_form \<Rightarrow> host_form" where
  "remove_tunnel k f = f\<lparr>hf_tunnels := map snd (filter (\<lambda>(i, t). i \<noteq> k) (enumerate 0 (hf_tunnels f)))\<rparr>"

text \<open>\<^verbatim>\<open>Number.parseInt(text, 10) || 0\<close>\<close>

definition port_of_text :: "jsstr \<Rightarrow> int" where
  "port_of_text s = default_to 0 (parseInt10 s)"

definition set_bindPort :: "jsstr \<Rightarrow> tunnel_def \<Rightarrow> tunnel_def" where
  "set_bindPort s t =
     (let p = port_of_text s; t1 = t\<lparr>td_bindPort := p\<rparr> in
      if trim (td_label t) = [] \<and> td_targetPort t = td_bindPort t
      then t1\<lparr>td_targetPort := (if p \<noteq> 0 then p else td_targetPort t)\<rparr> else t1)"

definition set_targetPort :: "jsstr \<Rightarrow> tunnel_def \<Rightarrow> tunnel_def" where
  "set_targetPort s t = t\<lparr>td_targetPort := port_of_text s\<rparr>"

section \<open>Importing the SSH configuration\<close>

record config_host =
  ch_alias :: jsstr
  ch_identityFileHint :: "jsstr option"

record config_import =
  ci_hosts :: "config_host list"
  ci_selected :: "jsstr list"
  ci_busy :: bool
  ci_error :: "jsstr option"
  ci_imported :: "(jsstr \<times> mock_host) list"
  ci_key :: "(config_host \<times> jsstr) option"
  ci_remember :: bool
  ci_sync :: bool
  ci_passphrase :: jsstr

definition preview_loaded :: "jsstr + config_host list \<Rightarrow> config_import \<Rightarrow> config_import" where
  "preview_loaded outcome c =
     (case outcome of
        Inl reason \<Rightarrow> c\<lparr>ci_error := Some reason\<rparr>
      | Inr hosts \<Rightarrow> c\<lparr>ci_hosts := hosts, ci_selected := set_of (map ch_alias hosts)\<rparr>)"

definition toggle_alias :: "jsstr \<Rightarrow> config_import \<Rightarrow> config_import" where
  "toggle_alias a c = c\<lparr>ci_selected := set_toggle a (ci_selected c)\<rparr>"

definition select_all :: "config_import \<Rightarrow> config_import" where
  "select_all c =
     c\<lparr>ci_selected := (if length (ci_selected c) = length (ci_hosts c) then [] else set_of (map ch_alias (ci_hosts c)))\<rparr>"

definition importSelected :: "config_import \<Rightarrow> config_import \<times> host_request list" where
  "importSelected c = (c\<lparr>ci_busy := True, ci_error := None\<rparr>, [ImportConfig (ci_selected c)])"

text \<open>\<^verbatim>\<open>new Map(imported.map(host => [host.label, host]))\<close>\<close>

definition by_alias :: "mock_host list \<Rightarrow> (jsstr \<times> mock_host) list \<Rightarrow> (jsstr \<times> mock_host) list" where
  "by_alias hs m = fold (\<lambda>h. map_set (h_label h) h) hs m"

definition config_imported :: "jsstr + mock_host list \<Rightarrow> config_import \<Rightarrow> config_import \<times> host_request list" where
  "config_imported outcome c =
     (case outcome of
        Inl reason \<Rightarrow> (c\<lparr>ci_error := Some reason, ci_busy := False\<rparr>, [])
      | Inr hs \<Rightarrow> (c\<lparr>ci_imported := by_alias hs [], ci_busy := False\<rparr>, [Imported hs]))"

text \<open>\<^verbatim>\<open>startKeyImport\<close>: the host first, when it is not imported yet, then the key.\<close>

definition startKeyImport :: "config_host \<Rightarrow> config_import \<Rightarrow> config_import \<times> host_request list" where
  "startKeyImport h c =
     (case nonempty (ch_identityFileHint h) of
        None \<Rightarrow> (c, [])
      | Some path \<Rightarrow>
          (c\<lparr>ci_busy := True, ci_error := None\<rparr>,
           [if ch_alias h \<in> fst ` set (ci_imported c) then ProbeKey path else ImportConfig [ch_alias h]]))"

definition alias_imported :: "config_host \<Rightarrow> jsstr + mock_host list \<Rightarrow> config_import \<Rightarrow> config_import \<times> host_request list" where
  "alias_imported h outcome c =
     (case outcome of
        Inl reason \<Rightarrow> (c\<lparr>ci_error := Some reason, ci_busy := False\<rparr>, [])
      | Inr hs \<Rightarrow>
          if find_row h_label (ch_alias h) hs = None
          then (c\<lparr>ci_error := Some (js ''Error: Could not import host '' @ ch_alias h @ js ''.''), ci_busy := False\<rparr>, [])
          else (c\<lparr>ci_imported := by_alias hs (ci_imported c)\<rparr>,
                [Imported hs, ProbeKey (default_to [] (ch_identityFileHint h))]))"

definition attach_key :: "jsstr \<Rightarrow> jsstr option \<Rightarrow> bool \<Rightarrow> config_import \<Rightarrow> host_request" where
  "attach_key path passphrase sync c =
     ImportKey \<lparr>ki_path = path, ki_passphrase = passphrase,
       ki_remember = (if nonempty passphrase \<noteq> None then ci_remember c else False), ki_sync = sync\<rparr>"

definition config_key_probed :: "config_host \<Rightarrow> jsstr + bool \<Rightarrow> config_import \<Rightarrow> config_import \<times> host_request list" where
  "config_key_probed h outcome c =
     (let path = default_to [] (ch_identityFileHint h) in
      case outcome of
        Inl reason \<Rightarrow> (c\<lparr>ci_error := Some reason, ci_busy := False\<rparr>, [])
      | Inr True \<Rightarrow> (c\<lparr>ci_key := Some (h, path), ci_remember := False, ci_sync := False, ci_passphrase := [], ci_busy := False\<rparr>, [])
      | Inr False \<Rightarrow> (c, [attach_key path None False c]))"

text \<open>The key is attached to the host by an update that repeats the host and adds the identity.\<close>

definition attach_update :: "mock_host \<Rightarrow> identity \<Rightarrow> host_request" where
  "attach_update h i =
     UpdateHost (h_id h)
       \<lparr>mu_label = h_label h, mu_hostname = h_hostname h, mu_port = h_port h, mu_username = h_username h, mu_password = None,
        mu_identityId = Some (id_id i), mu_syncSecret = Some (mh_syncSecret h), mu_color = h_color h,
        mu_shellIntegration = Some (mh_shellIntegration h), mu_tunnels = None, mu_forwardAgent = None, mu_useDefaultKeys = None\<rparr>"

text \<open>After the update; only the confirmation of an encrypted key (\<open>confirmed\<close>) also resets the sync choice.\<close>

definition key_attached :: "bool \<Rightarrow> jsstr + mock_host \<Rightarrow> config_import \<Rightarrow> config_import \<times> host_request list" where
  "key_attached confirmed outcome c =
     (case outcome of
        Inl reason \<Rightarrow> (c\<lparr>ci_error := Some reason, ci_busy := False\<rparr>, [])
      | Inr h \<Rightarrow> (c\<lparr>ci_imported := map_set (h_label h) h (ci_imported c), ci_key := None, ci_remember := False,
                     ci_sync := (if confirmed then False else ci_sync c), ci_busy := False\<rparr>,
                  [Imported [h]]))"

text \<open>The passphrase is taken out of its field before the key is imported.\<close>

definition confirm_config_key :: "config_import \<Rightarrow> config_import \<times> host_request list" where
  "confirm_config_key c =
     (case ci_key c of
        None \<Rightarrow> (c, [])
      | Some (h, path) \<Rightarrow>
          if ch_alias h \<notin> fst ` set (ci_imported c)
          then (c\<lparr>ci_error := Some (error_text ''Import the host first.''), ci_busy := False\<rparr>, [])
          else (c\<lparr>ci_busy := True, ci_error := None, ci_passphrase := []\<rparr>,
                [attach_key path (nonempty (Some (ci_passphrase c))) (ci_sync c) c]))"

definition cancel_config_key :: "config_import \<Rightarrow> config_import" where
  "cancel_config_key c = c\<lparr>ci_key := None, ci_sync := False, ci_passphrase := []\<rparr>"

section \<open>What is submitted\<close>

definition mutation_legal :: "host_mutation \<Rightarrow> bool" where
  "mutation_legal m \<longleftrightarrow>
     trim (mu_label m) = mu_label m \<and> mu_label m \<noteq> [] \<and> trim (mu_hostname m) = mu_hostname m \<and> mu_hostname m \<noteq> []
     \<and> trim (mu_username m) = mu_username m \<and> mu_username m \<noteq> [] \<and> 1 \<le> mu_port m \<and> mu_port m \<le> 65535
     \<and> mu_password m \<noteq> Some [] \<and> mu_identityId m \<noteq> Some [] \<and> (mu_password m = None \<or> mu_identityId m = None)
     \<and> (mu_useDefaultKeys m = Some True \<longrightarrow> mu_password m = None \<and> mu_identityId m = None)
     \<and> (mu_syncSecret m = Some True \<longrightarrow> mu_identityId m = None \<and> mu_useDefaultKeys m = Some False)"

lemma base_legal:
  "trim (hf_label f) \<noteq> [] \<Longrightarrow> trim (hf_hostname f) \<noteq> [] \<Longrightarrow> trim (hf_username f) \<noteq> [] \<Longrightarrow> 1 \<le> p \<Longrightarrow> p \<le> 65535 \<Longrightarrow>
     mutation_legal (base_mutation p f)"
  by (simp add: mutation_legal_def base_mutation_def)

lemma with_auth_legal:
  assumes "mutation_legal (base_mutation p f)" "with_auth password f (base_mutation p f) = Inr m"
  shows "mutation_legal m \<and> (hf_authMode f = PasswordAuth \<and> hf_initial f = None \<longrightarrow> mu_password m \<noteq> None)
    \<and> (hf_authMode f = SshKeyAuth \<longrightarrow> mu_identityId m = Some (hf_identityId f))
    \<and> (hf_authMode f = NoAuth \<longleftrightarrow> mu_useDefaultKeys m = Some True)"
  using assms
  by (auto simp: with_auth_def mutation_legal_def base_mutation_def split: if_splits option.splits)

lemma mutation_of_legal:
  assumes "host_mutation_of password f = Inr m"
  shows "mutation_legal m \<and> (hf_authMode f = PasswordAuth \<and> hf_initial f = None \<longrightarrow> mu_password m \<noteq> None)
    \<and> (hf_authMode f = SshKeyAuth \<longrightarrow> mu_identityId m = Some (hf_identityId f))
    \<and> (hf_authMode f = NoAuth \<longleftrightarrow> mu_useDefaultKeys m = Some True)"
proof -
  obtain p where p: "trim (hf_label f) \<noteq> []" "trim (hf_hostname f) \<noteq> []" "trim (hf_username f) \<noteq> []" "1 \<le> p" "p \<le> 65535"
    "with_auth password f (base_mutation p f) = Inr m"
    using assms unfolding host_mutation_of_def by (auto simp: not_less split: if_splits option.splits)
  show ?thesis by (rule with_auth_legal [OF base_legal [OF p(1-5)] p(6)])
qed

text \<open>
  Submitting takes the password out of the form. Either nothing is sent and the form says why, or
  one request is sent, to change the host the form was opened on or to create one: its texts are
  trimmed and not empty, its port is in range, and it carries the secret of the chosen kind only.
\<close>

lemma submitted_host_is_legal:
  assumes "submit_host f = (f', reqs)"
  shows "(hf_authMode f = PasswordAuth \<longrightarrow> hf_password f' = [])
    \<and> (reqs = [] \<and> hf_error f' \<noteq> None \<and> \<not> hf_busy f'
       \<or> (\<exists>m. mutation_legal m \<and> hf_error f' = None \<and> hf_busy f'
            \<and> reqs = [case hf_initial f of Some h \<Rightarrow> UpdateHost (h_id h) m | None \<Rightarrow> CreateHost m]))"
proof -
  obtain pw f1 where t: "take_password (f\<lparr>hf_error := None, hf_busy := True\<rparr>) = (pw, f1)" by (cases "take_password (f\<lparr>hf_error := None, hf_busy := True\<rparr>)")
  then have f1: "hf_initial f1 = hf_initial f" "hf_authMode f = PasswordAuth \<longrightarrow> hf_password f1 = []" "hf_error f1 = None" "hf_busy f1"
    by (auto simp: take_password_def split: if_splits)
  show ?thesis
  proof (cases "host_mutation_of pw f1")
    case (Inl r)
    then show ?thesis using assms t f1 by (auto simp: submit_host_def)
  next
    case (Inr m)
    then show ?thesis using assms t f1 mutation_of_legal [OF Inr] by (auto simp: submit_host_def)
  qed
qed

text \<open>A password that was typed is lost when another field is rejected, and the next submission keeps the old one.\<close>

lemma rejected_submit_forgets_password:
  fixes h :: mock_host
  assumes h: "mh_hasPassword h" "hs_authKind h = js ''password''" "h_port h = 22"
    "trim (h_label h) \<noteq> []" "trim (h_hostname h) \<noteq> []" "trim (h_username h) \<noteq> []" "\<not> mh_useDefaultKeys h"
  defines "f \<equiv> (open_form (Some h) None)\<lparr>hf_password := js ''new'', hf_port := js ''0''\<rparr>"
  shows "\<exists>m. snd (submit_host f) = [] \<and> snd (submit_host ((fst (submit_host f))\<lparr>hf_port := js ''22''\<rparr>)) = [UpdateHost (h_id h) m]
    \<and> mu_password m = None"
proof -
  have p: "parseInt10 (js ''0'') = Some 0" "parseInt10 (js ''22'') = Some 22"
    by (simp_all add: parseInt10_def trimStart_def is_ws_def is_digit_def read_nat_def js_def)
  have k: "js ''password'' \<noteq> js ''sshKey''" by (simp add: js_def)
  show ?thesis
    using h k unfolding f_def
    by (simp add: submit_host_def take_password_def host_mutation_of_def open_form_def initial_auth_def from_initial_def p
        with_auth_def base_mutation_def Let_def)
qed

section \<open>Editing without a change\<close>

text \<open>A host whose settings the form can show: its kind of authentication decides the rest.\<close>

definition settled_host :: "mock_host \<Rightarrow> bool" where
  "settled_host h \<longleftrightarrow>
     (\<forall>t \<in> {h_label h, h_hostname h, h_username h}. t \<noteq> [] \<and> trim t = t) \<and> 1 \<le> h_port h \<and> h_port h \<le> 65535
     \<and> (case initial_auth (Some h) of
          PasswordAuth \<Rightarrow> mh_hasPassword h \<and> \<not> mh_useDefaultKeys h
        | SshKeyAuth \<Rightarrow> nonempty (mh_identityId h) \<noteq> None \<and> \<not> mh_useDefaultKeys h \<and> \<not> mh_syncSecret h
        | NoAuth \<Rightarrow> \<not> mh_syncSecret h)"

lemma parseInt10_show_int: "0 \<le> n \<Longrightarrow> parseInt10 (show_int n) = Some n"
  by (simp add: show_int_def parseInt10_show)

lemma update_first_found: "find p xs = Some h \<Longrightarrow> update_first p f xs = update_first p (\<lambda>_. f h) xs"
  by (induction xs) (auto split: if_splits)

lemma unchanged_submission:
  assumes "settled_host h"
  shows "\<exists>f' m. submit_host (open_form (Some h) None) = (f', [UpdateHost (h_id h) m])
    \<and> changed_host m h = h\<lparr>h_color := Some (default_to (hd SWATCHES) (h_color h))\<rparr>"
proof -
  let ?f = "open_form (Some h) None"
  have t: "trim (h_label h) = h_label h" "trim (h_hostname h) = h_hostname h" "trim (h_username h) = h_username h"
    "h_label h \<noteq> []" "h_hostname h \<noteq> []" "h_username h \<noteq> []" "1 \<le> h_port h" "h_port h \<le> 65535"
    using assms by (simp_all add: settled_host_def)
  have p: "parseInt10 (show_int (h_port h)) = Some (h_port h)" using t(7) by (simp add: parseInt10_show_int)
  note defs = submit_host_def take_password_def host_mutation_of_def open_form_def from_initial_def with_auth_def base_mutation_def
    changed_host_def default_to_def or_else_def nonempty_def
  show ?thesis
  proof (cases "initial_auth (Some h)")
    case PasswordAuth
    then show ?thesis using assms t p by (auto simp: settled_host_def defs initial_auth_def not_less split: if_splits option.splits)
  next
    case SshKeyAuth
    then show ?thesis using assms t p by (auto simp: settled_host_def defs initial_auth_def not_less split: if_splits option.splits)
  next
    case NoAuth
    then show ?thesis using assms t p by (auto simp: settled_host_def defs initial_auth_def not_less split: if_splits option.splits)
  qed
qed

text \<open>
  Opening the form on a stored host and saving it unchanged sends one update; the backend answers
  with the host as it was, its colour filled in when it had none, and keeps the other hosts.
\<close>

theorem unchanged_edit_keeps_host:
  assumes "settled_host h" "find_row h_id (h_id h) (mk_hosts st) = Some h"
  shows "\<exists>f' m h'. submit_host (open_form (Some h) None) = (f', [UpdateHost (h_id h) m])
    \<and> h' = h\<lparr>h_color := Some (default_to (hd SWATCHES) (h_color h))\<rparr>
    \<and> updateHost (h_id h) m st = (Inr h', st\<lparr>mk_hosts := update_first (\<lambda>r. h_id r = h_id h) (\<lambda>_. h') (mk_hosts st)\<rparr>)
    \<and> host_saved (Inr h') f' = (f'\<lparr>hf_busy := False\<rparr>, [Saved h', CloseForm])"
proof -
  from unchanged_submission [OF assms(1)] obtain f' m where
    m: "submit_host (open_form (Some h) None) = (f', [UpdateHost (h_id h) m])"
       "changed_host m h = h\<lparr>h_color := Some (default_to (hd SWATCHES) (h_color h))\<rparr>" by blast
  have "update_first (\<lambda>r. h_id r = h_id h) (changed_host m) (mk_hosts st)
      = update_first (\<lambda>r. h_id r = h_id h) (\<lambda>_. changed_host m h) (mk_hosts st)"
    using assms(2) unfolding find_row_def by (rule update_first_found)
  then have "updateHost (h_id h) m st
      = (Inr (changed_host m h), st\<lparr>mk_hosts := update_first (\<lambda>r. h_id r = h_id h) (\<lambda>_. changed_host m h) (mk_hosts st)\<rparr>)"
    using assms(2) by (simp add: updateHost_def replace_row_def)
  with m show ?thesis by (auto simp: host_saved_def)
qed

definition stored_host :: mock_host where
  "stored_host =
     \<lparr>h_id = js ''host-1'', h_label = js ''web'', h_hostname = js ''example.org'', h_port = 22, h_username = js ''root'',
      h_color = None, h_lastConnectedAt = None, hs_tags = [js ''prod''], hs_authKind = js ''password'', mh_hasPassword = True, mh_identityId = None,
      mh_syncSecret = True, mh_shellIntegration = False, mh_tunnels = [new_tunnel (js ''t'')], mh_forwardAgent = False,
      mh_useDefaultKeys = False\<rparr>"

lemma unchanged_edit_keeps_host_witness:
  "\<exists>f' m h'. submit_host (open_form (Some stored_host) None) = (f', [UpdateHost (js ''host-1'') m])
    \<and> h' = stored_host\<lparr>h_color := Some (js ''#4C8DF6'')\<rparr>
    \<and> updateHost (js ''host-1'') m (mock_init\<lparr>mk_hosts := [stored_host]\<rparr>) = (Inr h', mock_init\<lparr>mk_hosts := [h']\<rparr>)"
proof -
  have "trim (js ''web'') = js ''web''" "trim (js ''example.org'') = js ''example.org''" "trim (js ''root'') = js ''root''"
    by (simp_all add: js_eval)
  then have "settled_host stored_host"
    by (simp add: settled_host_def stored_host_def initial_auth_def js_def)
  from unchanged_edit_keeps_host [OF this, of "mock_init\<lparr>mk_hosts := [stored_host]\<rparr>"]
  show ?thesis by (auto simp: stored_host_def find_row_def SWATCHES_def default_to_def)
qed

end
