(* ===== verification/Spec2Isabelle.thy ===== *)
theory Spec2Isabelle
  imports SyncFilter Layout Inject TransferQueue Launch SftpPath Registry Overlay Commands PromptPanel MockTerminal
    PathPicker LocalFiles HostForm
begin

text \<open>
  \<^bold>\<open>Verification of the Tethra user interface.\<close>

  Tethra is an SSH client with encrypted storage of hosts, projects that run coding agents inside
  tmux or zellij, an SFTP browser and a block-oriented terminal. Its backend is written in Rust;
  this development verifies the logic of the user interface, the TypeScript below
  \<^verbatim>\<open>src/apps/ui/src\<close> (file names below are relative to that directory).

  \<^bold>\<open>Parts and how they interact.\<close> The workspace (\<^verbatim>\<open>App.tsx\<close>) owns tabs, pane layout, sessions and
  projects. It receives the events of a session from the backend and hands bytes to the terminal
  registry, which filters them, feeds the emulator in order and tells the block tracker about shell
  marks; the overlay paints block headers over prompt rows. Keys go from the prompt panel or the
  emulator through the input gates to the backend. Text that the program types into a shell goes
  through the injection module, a project through the launch script. File transfers run in a queue.

  \<^bold>\<open>Theories.\<close>

    \<^item> \<open>Prelude\<close>: strings as lists of UTF-16 code units, the recurring idioms on rows with a key, and
      two interfaces: \<open>bounded_log\<close> (append, then drop the oldest) and \<open>deadline_gate\<close> (a gate armed
      until a time). \<open>JsRegex\<close>: the regular expressions the source uses, with the backtracking
      semantics of ECMAScript. \<open>JsNumber\<close>: numbers with NaN and infinities, on the rationals.
      \<open>JsSort\<close>: the stable sort of arrays, with the interface \<open>comparison\<close> (what a comparison function
      must satisfy for the result to be the sorted one), and the sets of the language.
    \<^item> \<open>SyncFilter\<close> (\<^verbatim>\<open>terminal/syncFilter.ts\<close>): the byte filter for synchronized updates. Chunk
      boundaries do not matter, no screen clear survives inside a synchronized update, everything
      else passes literally.
    \<^item> \<open>Layout\<close> (\<^verbatim>\<open>terminal/layout.ts\<close>): the tree of panes; interface \<open>session_tree\<close>.
    \<^item> \<open>Inject\<close> (\<^verbatim>\<open>terminal/inject.ts\<close>): device-report filter, sanitizer, bracketed paste, gated
      injection. Inserted text cannot run itself and cannot close its own paste.
    \<^item> \<open>TransferQueue\<close> (\<^verbatim>\<open>sftp/transferQueue.ts\<close>): every operation and every interleaving with the
      events of the backend; at most one transfer runs and the queue drains in order.
    \<^item> \<open>Launch\<close> (\<^verbatim>\<open>projects/launch.ts\<close>, \<^verbatim>\<open>tmuxConf.ts\<close>, \<^verbatim>\<open>agents.ts\<close>): the launch script, read back by a
      model of the POSIX tokenizer.
    \<^item> \<open>SftpPath\<close> (\<^verbatim>\<open>sftp/path.ts\<close>): remote paths and sizes.
    \<^item> \<open>PromptLine\<close> and \<open>Blocks\<close> (\<^verbatim>\<open>terminal/blocks.ts\<close>): prompt heuristics and the tracker that turns
      shell marks into command blocks; bounded state, labels, hand-over of the screen.
    \<^item> \<open>Registry\<close> (\<^verbatim>\<open>terminal/registry.ts\<close>, \<^verbatim>\<open>terminal/scrollback.ts\<close>): live terminals, the serialized
      operations, input gates, disposal, scrollback snapshots.
    \<^item> \<open>Overlay\<close> (\<^verbatim>\<open>terminal/blockOverlay.ts\<close>): which row a block header covers, which rows are blanked.
    \<^item> \<open>PromptPanel\<close> (\<^verbatim>\<open>components/PromptPanel.tsx\<close>): key encoding, local echo, slash commands.
    \<^item> \<open>Prefs\<close> (\<^verbatim>\<open>lib/prefs.ts\<close>): the preferences over a store that may fail; interface \<open>preference\<close>
      with an interpretation for each of the nineteen settings.
    \<^item> \<open>Attention\<close> (\<^verbatim>\<open>lib/sessionAttention.ts\<close>, \<^verbatim>\<open>lib/agentNotify.ts\<close>): signals of agents.
    \<^item> \<open>Workspace\<close>, \<open>TabStrip\<close>, \<open>SessionEvents\<close>, \<open>Projects\<close>, \<open>Commands\<close> (\<^verbatim>\<open>App.tsx\<close> with
      \<^verbatim>\<open>terminal/windows.ts\<close>, \<^verbatim>\<open>terminal/SplitPanes.tsx\<close> and \<^verbatim>\<open>components/Launcher.tsx\<close>): state and
      navigation; the abstract tab strip (interface \<open>tab_strip\<close>), the invariant over all
      interleavings and the refinement; session events, base64 and reconnection; projects, running
      sessions, the rail, restart, quick connect; menu, shortcuts, locking.
    \<^item> \<open>Appearance\<close> (\<^verbatim>\<open>lib/chrome.ts\<close>, \<^verbatim>\<open>tagColors.ts\<close>, \<^verbatim>\<open>accent.ts\<close>, \<^verbatim>\<open>materials.ts\<close>,
      \<^verbatim>\<open>terminal/theme.ts\<close>, \<^verbatim>\<open>terminal/blockChrome.ts\<close>): colours, transparency, the labels of keys and
      durations; hues in range, the terminal stays opaque.
    \<^item> \<open>Home\<close> (\<^verbatim>\<open>components/Launcher.tsx\<close>): the home screen, its filters and arrangement, the tiles, the
      group dialog; interface \<open>host_store\<close> (what the backend's \<^verbatim>\<open>setHostTags\<close> promises).
    \<^item> \<open>MockVault\<close> and \<open>MockTerminal\<close> (\<^verbatim>\<open>lib/ipc.mock.ts\<close>): the in-memory backend that the interface is
      developed and tested against: vault, hosts, identities, projects, sessions, keys,
      synchronization, tunnels, terminals, local files; interface \<open>keyed_store\<close>, interpreted for each
      of its five tables, and the interpretation of \<open>host_store\<close>.
    \<^item> \<open>FileBrowser\<close> (\<^verbatim>\<open>sftp/SftpBrowser.tsx\<close>, \<^verbatim>\<open>FilePane.tsx\<close>, \<^verbatim>\<open>TransferQueuePanel.tsx\<close>): the two panes,
      the changes and transfers they ask for, under every interleaving of actions and answers.
      \<open>LocalFiles\<close>: the browser on the local files of the in-memory backend; interface \<open>file_store\<close>.
      \<open>PathPicker\<close> (\<^verbatim>\<open>projects/PathBrowser.tsx\<close>): the folder picker and the connections it opens.
      What the browser shows of the local side of a Windows desktop has native paths; the property
      about renaming is about the other cases, and \<open>windows_rename_is_relative\<close> shows what happens there.
    \<^item> \<open>HostForm\<close> (\<^verbatim>\<open>hosts/HostFormModal.tsx\<close>, \<^verbatim>\<open>hosts/SshConfigImportModal.tsx\<close>): the host
      form with its tunnels and key import, and the import of hosts from an SSH configuration; what is
      submitted is legal, an unchanged edit keeps the host.
    \<^item> This theory: the property from the keyboard to the command block, across \<open>PromptPanel\<close> and
      \<open>Blocks\<close>.

  \<^bold>\<open>How code is modelled.\<close> A module or class is a record of its state, an operation a function
  that returns the new state. Calls that leave the model (backend, emulator, clipboard, timers,
  focus) are recorded in order as effects or requests. An asynchronous function is cut at its
  awaits into steps; the outcome and the time of an await are arguments of the next step, and the
  interleavings are the sequences of steps (\<open>inductive\<close> relations in \<open>TransferQueue\<close>, \<open>Blocks\<close>,
  \<open>Registry\<close>, \<open>TabStrip\<close>, \<open>MockVault\<close>, \<open>MockTerminal\<close>, \<open>FileBrowser\<close> and \<open>PathPicker\<close>). A React callback reads the values of the render it was created in:
  it takes that render as an argument (\<open>view\<close>), so that stale closures are part of the model;
  state setters given a function, and refs, read the current state. An exception of a handler is
  part of the model where code depends on it: a malformed data event ends the replay of held events
  and rejects the attachment (\<open>replay\<close>). Closures that the source compares by identity carry a
  serial number (\<open>a_serial\<close>).

  \<^bold>\<open>Parameters.\<close> The emulator xterm.js is a record of functions (\<open>xterm_api\<close>, \<open>xterm_term\<close>), URL
  parsing and decoding \<open>url_api\<close>, text decoding and \<^verbatim>\<open>crypto.randomUUID\<close> are arguments; so are
  the operations that depend on the locale or the platform (\<^verbatim>\<open>localeCompare\<close>, case conversion,
  \<^verbatim>\<open>Date.parse\<close>: \<open>home_env\<close>) and the computed style sheet. The theorems
  that rely on them say so in their hypotheses (a marker can be registered, an identifier is
  fresh); their witnesses instantiate them with concrete functions.

  \<^bold>\<open>Termination and bounds.\<close> No definition uses fuel. Loops are structural recursions or have a
  measure (the remaining input, for the regular expressions, the tokenizer and the parser
  handlers); loops of the source over arrays are folds. The bounds of the source (80 finished
  blocks, 32 submitted commands, 40 log entries, 16384 characters of transcript, 64 parameter
  characters) are in the definitions as they are written there.

  \<^bold>\<open>Not modelled.\<close> Rendering (markup, pixel geometry, focus of DOM elements), since it has
  no state of its own beyond what is modelled; the bridge to the backend, which only
  passes calls on; the settings surfaces and the project form, which collect input for backend calls; the Rust
  crates, except the session name that both sides compute. Floating-point rounding is left out:
  numbers are exact rationals with NaN and infinities.
\<close>

section \<open>From the keyboard to the command block\<close>

text \<open>
  C6. From the keyboard to the block: what is typed at a prompt, empty or not, with any interleaving
  of the echo that does not miss it three times (and that is no slash command), is after Enter the
  command of the next block, whatever the screen shows. Provided nothing submitted before is still
  waiting for its block, the output mark arrives within 30 seconds of Enter and the emulator can
  register a marker then and at the command end, and the command is not that of a project's launch
  script, exactly one block is added, newest, and its text is the trimmed line of the box.\<close>

theorem typed_command_labels_its_block:
  assumes "at_prompt line p" "keeps_cover line evs p" "line \<noteq> [] \<or> hd (typed_text evs) \<noteq> 47" "echoes_ok 0 0 evs"
    "trim (line @ typed_text evs) \<noteq> []"
    "w_submitted (pp_world p) = []" "\<not> (t_agentLaunched (w_tui (pp_world p)) \<and> t_launchWiped (w_tui (pp_world p)))"
    "marked - pressed \<le> 30000" "x_registerMarker T 0 x \<noteq> None" "x_registerMarker T 0 x' \<noteq> None"
  shows "let q = area_keydown pressed (plain_key (js ''Enter'')) (typing now line [] evs p);
             (w1, tr1) = applyPhase T marked phase.OutputStart None ((pp_world q)\<lparr>w_x := x\<rparr>, tr);
             (w2, tr2) = applyPhase T ended phase.CommandEnd ec (w1\<lparr>w_x := x'\<rparr>, tr1)
         in \<exists>b. finished tr2 = slice_last 80 (finished tr @ [b]) \<and> b_commandText b = trim (line @ typed_text evs)
                \<and> b_fromInput b \<and> b_exitCode b = ec"
proof -
  let ?p = "typing now line [] evs p" and ?t = "trim (line @ typed_text evs)"
  let ?q = "area_keydown pressed (plain_key (js ''Enter'')) ?p"
  have e: "echoing line [] 0 p" by (rule at_prompt_echoing [OF assms(1)])
  have s: "line @ [] \<noteq> [] \<or> (typed_text evs \<noteq> [] \<longrightarrow> hd (typed_text evs) \<noteq> 47)" using assms(3) by auto
  have "echoes_ok 0 (length ([] :: jsstr)) evs" using assms(4) by simp
  from typing_echoing [OF e this s, of now] assms(2) obtain k
    where k: "echoing line (typed_text evs) k ?p" and w: "pp_world ?p = pp_world p" by auto
  have q: "pp_world ?q = (pp_world p)\<lparr>w_submitted := [(?t, pressed)]\<rparr>"
    using assms(5,6) unfolding echoing_enter(1) [OF k] w
    by (simp add: noteSubmittedCommand_def Let_def push_shift_def shift_to_slice_last)
  have h: "w_submitted ((pp_world ?q)\<lparr>w_x := x\<rparr>) = [(?t, pressed)]" "marked - pressed \<le> 30000" "?t \<noteq> []" "trim ?t = ?t"
    "x_registerMarker T 0 (w_x ((pp_world ?q)\<lparr>w_x := x\<rparr>)) \<noteq> None" "x_registerMarker T 0 x' \<noteq> None"
    "\<not> (t_agentLaunched (w_tui ((pp_world ?q)\<lparr>w_x := x\<rparr>)) \<and> t_launchWiped (w_tui ((pp_world ?q)\<lparr>w_x := x\<rparr>)))"
    using assms(5,7-10) unfolding q by simp_all
  show ?thesis using block_from_submission [OF h, of tr ended ec] unfolding Let_def case_prod_beta by blast
qed

theorem typed_command_labels_its_block_witness:
  "let q = area_keydown 5 (plain_key (js ''Enter'')) (typing 5 [] [] [Type 108, Echo 1, Type 115] sample_panel);
       (w1, tr1) = applyPhase sample_xterm 7 phase.OutputStart None ((pp_world q)\<lparr>w_x := 3\<rparr>, new_tracker);
       (w2, tr2) = applyPhase sample_xterm 900 phase.CommandEnd (Some 0) (w1\<lparr>w_x := 9\<rparr>, tr1)
   in \<exists>b. finished tr2 = [b] \<and> b_commandText b = js ''ls'' \<and> b_exitCode b = Some 0"
proof -
  let ?p = "sample_panel" and ?evs = "[Type 108, Echo 1, Type 115]"
  have h: "at_prompt [] ?p" "keeps_cover [] ?evs ?p" "([] :: jsstr) \<noteq> [] \<or> hd (typed_text ?evs) \<noteq> 47" "echoes_ok 0 0 ?evs"
    "trim ([] @ typed_text ?evs) \<noteq> []"
    "w_submitted (pp_world ?p) = []" "\<not> (t_agentLaunched (w_tui (pp_world ?p)) \<and> t_launchWiped (w_tui (pp_world ?p)))"
    "7 - 5 \<le> (30000 :: int)" "x_registerMarker sample_xterm 0 3 \<noteq> None" "x_registerMarker sample_xterm 0 9 \<noteq> None"
    by (simp_all add: at_prompt_def sample_panel_def busyWithApp_def sample_world_def sample_xterm_def freshTuiState_def js_eval)
  have t: "trim ([] @ typed_text ?evs) = js ''ls''" "finished new_tracker = []" by (simp_all add: js_eval new_tracker_def)
  show ?thesis
    using typed_command_labels_its_block [OF h, of 5 new_tracker 900 "Some 0"] unfolding t Let_def case_prod_beta by auto
qed

end
